(* ===== verification/Prelude.thy ===== *)
theory Prelude
  imports Main "HOL-Library.AList"
begin

text \<open>
  Shared vocabulary of the development.

  \<^item> \<^verbatim>\<open>py_exn\<close>: the Python exceptions the modelled code raises, and
    \<^verbatim>\<open>'a result\<close>, the outcome of code that may raise one (\<^verbatim>\<open>Inl\<close> is the
    exception).  \<^verbatim>\<open>ebind\<close> sequences such code.  The text of an exception's
    message is not modelled.
  \<^item> \<^verbatim>\<open>dict\<close>: a Python dictionary.  Python dictionaries iterate in insertion
    order and an assignment to an existing key keeps its position, which is exactly
    what \<^verbatim>\<open>AList.update\<close> does on association lists.
  \<^item> decimal printing of counters, used by formatted identifiers.
  \<^item> generic lemmas on these that the component theories share.
\<close>

named_theorems exn_simps \<open>evaluation of code that may raise\<close>
named_theorems dict_simps \<open>reading a dictionary after an update\<close>

section \<open>Exceptions\<close>

datatype py_exn =
    KeyError | IndexError | ValueError | TypeError | RuntimeError
  | EOFError | OSError | AssertionError | StructError | DecodeError | AttributeError
  | ProvenanceError | LastReplicaError | ImportError | SystemExit

type_synonym 'a result = "py_exn + 'a"

definition ebind :: "'e + 'a \<Rightarrow> ('a \<Rightarrow> 'e + 'b) \<Rightarrow> 'e + 'b" where
  "ebind m f = (case m of Inl e \<Rightarrow> Inl e | Inr x \<Rightarrow> f x)"

definition returns :: "'e + 'a \<Rightarrow> bool" where
  "returns m = (case m of Inl _ \<Rightarrow> False | Inr _ \<Rightarrow> True)"

text \<open>A list comprehension whose element expression may raise.\<close>

fun emap :: "('a \<Rightarrow> 'e + 'b) \<Rightarrow> 'a list \<Rightarrow> 'e + 'b list" where
  "emap f [] = Inr []"
| "emap f (x # xs) = ebind (f x) (\<lambda>y. ebind (emap f xs) (\<lambda>ys. Inr (y # ys)))"

section \<open>Dictionaries\<close>

type_synonym ('k, 'v) dict = "('k \<times> 'v) list"

abbreviation dget :: "('k, 'v) dict \<Rightarrow> 'k \<Rightarrow> 'v option" where
  "dget \<equiv> map_of"

abbreviation dput :: "'k \<Rightarrow> 'v \<Rightarrow> ('k, 'v) dict \<Rightarrow> ('k, 'v) dict" where
  "dput \<equiv> AList.update"

abbreviation dpop :: "'k \<Rightarrow> ('k, 'v) dict \<Rightarrow> ('k, 'v) dict" where
  "dpop \<equiv> AList.delete"

abbreviation dkeys :: "('k, 'v) dict \<Rightarrow> 'k list" where
  "dkeys d \<equiv> map fst d"

abbreviation dvalues :: "('k, 'v) dict \<Rightarrow> 'v list" where
  "dvalues d \<equiv> map snd d"

text \<open>\<^verbatim>\<open>d[k]\<close> on a dictionary: raises \<^verbatim>\<open>KeyError\<close> when the key is absent.\<close>

definition dindex :: "('k, 'v) dict \<Rightarrow> 'k \<Rightarrow> 'v result" where
  "dindex d k = (case dget d k of None \<Rightarrow> Inl KeyError | Some v \<Rightarrow> Inr v)"

text \<open>\<^verbatim>\<open>d.get(k, default)\<close>.\<close>

definition dget_default :: "('k, 'v) dict \<Rightarrow> 'k \<Rightarrow> 'v \<Rightarrow> 'v" where
  "dget_default d k v = (case dget d k of None \<Rightarrow> v | Some w \<Rightarrow> w)"

text \<open>\<^verbatim>\<open>d.setdefault(k, []).append(x)\<close>.\<close>

definition dappend :: "'k \<Rightarrow> 'v \<Rightarrow> ('k, 'v list) dict \<Rightarrow> ('k, 'v list) dict" where
  "dappend k x d = dput k (dget_default d k [] @ [x]) d"

text \<open>\<^verbatim>\<open>xs[i]\<close> on a list: negative positions count from the end, positions out of range
  raise \<^verbatim>\<open>IndexError\<close>; \<^verbatim>\<open>py_pos\<close> is the position meant.\<close>

definition py_pos :: "'a list \<Rightarrow> int \<Rightarrow> nat result" where
  "py_pos xs i = (if 0 \<le> i \<and> i < int (length xs) then Inr (nat i)
                  else if - int (length xs) \<le> i \<and> i < 0 then Inr (nat (int (length xs) + i))
                  else Inl IndexError)"

definition py_index :: "'a list \<Rightarrow> int \<Rightarrow> 'a result" where
  "py_index xs i = ebind (py_pos xs i) (\<lambda>n. Inr (xs ! n))"

text \<open>\<^verbatim>\<open>xs.index(x)\<close> for an element that is present.\<close>

fun position :: "'a \<Rightarrow> 'a list \<Rightarrow> nat" where
  "position x [] = 0"
| "position x (y # ys) = (if x = y then 0 else Suc (position x ys))"

section \<open>Decimal printing\<close>

fun show_nat :: "nat \<Rightarrow> string" where
  "show_nat n =
     (if n < 10 then [char_of (48 + n)]
      else show_nat (n div 10) @ [char_of (48 + n mod 10)])"

declare show_nat.simps [simp del]

definition show_int :: "int \<Rightarrow> string" where
  "show_int i = (if i < 0 then ''-'' @ show_nat (nat (- i)) else show_nat (nat i))"

section \<open>Lemmas on exceptions\<close>

lemma ebind_Inl [simp, exn_simps]: "ebind (Inl e) f = Inl e"
  by (simp add: ebind_def)

lemma ebind_Inr [simp, exn_simps]: "ebind (Inr x) f = f x"
  by (simp add: ebind_def)

lemma ebind_eq_Inr [exn_simps]:
  "ebind m f = Inr y \<longleftrightarrow> (\<exists>x. m = Inr x \<and> f x = Inr y)"
  by (cases m) simp_all

lemma ebind_eq_Inl [exn_simps]:
  "ebind m f = Inl e \<longleftrightarrow> m = Inl e \<or> (\<exists>x. m = Inr x \<and> f x = Inl e)"
  by (cases m) simp_all

lemma ebind_cong [fundef_cong]:
  "m = m' \<Longrightarrow> (\<And>x. m' = Inr x \<Longrightarrow> f x = f' x) \<Longrightarrow> ebind m f = ebind m' f'"
  by (cases m') (simp_all add: ebind_def)

lemma ebind_assoc: "ebind (ebind m f) g = ebind m (\<lambda>x. ebind (f x) g)"
  by (cases m) simp_all

lemma returns_Inr [simp]: "returns (Inr x)"
  by (simp add: returns_def)

lemma returns_Inl [simp]: "\<not> returns (Inl e)"
  by (simp add: returns_def)

lemma returns_iff: "returns m \<longleftrightarrow> (\<exists>x. m = Inr x)"
  by (cases m) simp_all

lemma returns_ebind: "returns (ebind m f) \<longleftrightarrow> (\<exists>x. m = Inr x \<and> returns (f x))"
  by (cases m) simp_all

lemma emap_eq_Inr: "emap f xs = Inr ys \<longleftrightarrow> list_all2 (\<lambda>x y. f x = Inr y) xs ys"
  by (induction xs arbitrary: ys) (auto simp: ebind_eq_Inr list_all2_Cons1)

lemma emap_Inr [simp]: "emap (\<lambda>x. Inr (g x)) xs = Inr (map g xs)"
  by (induction xs) simp_all

lemma emap_raises: "emap f xs = Inl e \<Longrightarrow> \<exists>x \<in> set xs. f x = Inl e"
  by (induction xs) (auto simp: ebind_def split: sum.splits)

lemma emap_all: "(\<And>x. x \<in> set xs \<Longrightarrow> f x = Inr (g x)) \<Longrightarrow> emap f xs = Inr (map g xs)"
  by (induction xs) simp_all

lemma emap_returns: "returns (emap f xs) \<longleftrightarrow> (\<forall>x \<in> set xs. returns (f x))"
  by (induction xs) (auto simp: returns_ebind, auto simp: returns_iff)

lemma emap_compose:
  assumes "emap f xs = Inr ys" and "\<And>x y. x \<in> set xs \<Longrightarrow> f x = Inr y \<Longrightarrow> g y = Inr (h x)"
  shows "emap g ys = Inr (map h xs)"
  using assms by (induction xs arbitrary: ys) (auto simp: ebind_eq_Inr)

section \<open>Lemmas on dictionaries\<close>

lemma dget_dput [simp, dict_simps]: "dget (dput k v d) = (dget d)(k \<mapsto> v)"
  by (rule update_conv')

lemma dget_dpop [simp, dict_simps]: "dget (dpop k d) = (dget d)(k := None)"
  by (rule delete_conv')

lemma distinct_dkeys_dput [simp]: "distinct (dkeys d) \<Longrightarrow> distinct (dkeys (dput k v d))"
  by (rule distinct_update)

lemma distinct_dkeys_dpop [simp]: "distinct (dkeys d) \<Longrightarrow> distinct (dkeys (dpop k d))"
  by (rule distinct_delete)

lemma set_dkeys_dput [simp]: "set (dkeys (dput k v d)) = insert k (set (dkeys d))"
  by (induction d) auto

lemma fst_image_dput [simp]: "fst ` set (dput k v d) = insert k (fst ` set d)"
  using set_dkeys_dput [of k v d] by simp

lemma dkeys_dput_present: "k \<in> set (dkeys d) \<Longrightarrow> dkeys (dput k v d) = dkeys d"
  by (induction d) auto

lemma set_dput: "distinct (dkeys d) \<Longrightarrow>
    set (dput k v d) = insert (k, v) {p \<in> set d. fst p \<noteq> k}"
  by (induction d) (auto simp: image_iff)

lemma dget_None_iff: "dget d k = None \<longleftrightarrow> k \<notin> set (dkeys d)"
  by (simp add: map_of_eq_None_iff)

lemma dget_in_set: "distinct (dkeys d) \<Longrightarrow> (k, v) \<in> set d \<longleftrightarrow> dget d k = Some v"
  by (simp add: map_of_eq_Some_iff)

lemma dget_key: "dget d k = Some v \<Longrightarrow> k \<in> set (dkeys d)"
  by (force dest: map_of_SomeD)

lemma dkey_get: "k \<in> set (dkeys d) \<Longrightarrow> \<exists>v. dget d k = Some v"
  using dget_None_iff [of d k] by auto

lemma dindex_eq_Inr [simp]: "dindex d k = Inr v \<longleftrightarrow> dget d k = Some v"
  by (simp add: dindex_def split: option.split)

lemma dindex_eq_Inl [simp]: "dindex d k = Inl e \<longleftrightarrow> dget d k = None \<and> e = KeyError"
  by (auto simp: dindex_def split: option.split)

lemma dget_default_Some [simp]: "dget d k = Some v \<Longrightarrow> dget_default d k w = v"
  by (simp add: dget_default_def)

lemma dget_default_None [simp]: "dget d k = None \<Longrightarrow> dget_default d k w = w"
  by (simp add: dget_default_def)

lemma dget_dappend: "dget (dappend k x d) j =
    (if j = k then Some (dget_default d k [] @ [x]) else dget d j)"
  by (simp add: dappend_def)

lemma dget_default_dappend: "dget_default (dappend k x d) j [] =
    (if j = k then dget_default d k [] @ [x] else dget_default d j [])"
  by (simp add: dget_default_def dget_dappend)

lemma distinct_dkeys_dappend [simp]:
  "distinct (dkeys d) \<Longrightarrow> distinct (dkeys (dappend k x d))"
  by (simp add: dappend_def)

section \<open>Lemmas on decimal printing\<close>

lemma show_nat_less_10: "n < 10 \<Longrightarrow> show_nat n = [char_of (48 + n)]"
  by (subst show_nat.simps) simp

lemma show_nat_ge_10: "\<not> n < 10 \<Longrightarrow>
    show_nat n = show_nat (n div 10) @ [char_of (48 + n mod 10)]"
  by (subst show_nat.simps) simp

lemma show_nat_nonempty: "show_nat n \<noteq> []"
  by (subst show_nat.simps) simp

lemma digit_char_inj:
  assumes "a < 10" and "b < 10" and "(char_of (48 + a) :: char) = char_of (48 + b)"
  shows "a = (b :: nat)"
proof -
  from assms(3) have "of_char (char_of (48 + a) :: char) = (of_char (char_of (48 + b)) :: nat)"
    by simp
  with assms(1,2) show ?thesis by simp
qed

lemma show_nat_inj: "show_nat m = show_nat n \<Longrightarrow> m = n"
proof (induction m arbitrary: n rule: show_nat.induct)
  case (1 m)
  show ?case
  proof (cases "m < 10")
    case m: True
    show ?thesis
    proof (cases "n < 10")
      case True
      with m "1.prems" show ?thesis
        by (auto simp: show_nat_less_10 dest: digit_char_inj)
    next
      case False
      with m "1.prems" show ?thesis
        by (auto simp: show_nat_less_10 show_nat_ge_10 show_nat_nonempty dest: sym)
    qed
  next
    case m: False
    show ?thesis
    proof (cases "n < 10")
      case True
      with m "1.prems" show ?thesis
        by (auto simp: show_nat_less_10 show_nat_ge_10 show_nat_nonempty dest: sym)
    next
      case False
      with m "1.prems" have pre: "show_nat (m div 10) = show_nat (n div 10)"
        and last: "(char_of (48 + m mod 10) :: char) = char_of (48 + n mod 10)"
        by (simp_all add: show_nat_ge_10)
      from "1.IH" [OF m pre] have "m div 10 = n div 10" .
      moreover from last have "m mod 10 = n mod 10"
        by (intro digit_char_inj) simp_all
      ultimately show ?thesis by (metis div_mult_mod_eq)
    qed
  qed
qed

lemma show_int_inj: "0 \<le> a \<Longrightarrow> 0 \<le> b \<Longrightarrow> show_int a = show_int b \<Longrightarrow> a = b"
  by (auto simp: show_int_def dest: show_nat_inj)

section \<open>Lemmas on lists\<close>

lemma py_pos_less: "py_pos xs i = Inr n \<Longrightarrow> n < length xs"
  by (auto simp: py_pos_def split: if_splits)

lemma position_less: "x \<in> set xs \<Longrightarrow> position x xs < length xs"
  by (induction xs) auto

lemma nth_position: "x \<in> set xs \<Longrightarrow> xs ! position x xs = x"
  by (induction xs) auto

lemma position_append: "x \<in> set xs \<Longrightarrow> position x (xs @ ys) = position x xs"
  by (induction xs) auto

lemma position_append_new: "x \<notin> set xs \<Longrightarrow> position x (xs @ [x]) = length xs"
  by (induction xs) auto

lemma nth_position_filter:
  assumes "x \<in> set xs" and "P x" and "distinct xs"
  shows "map (nth ys) (filter (\<lambda>i. P (xs ! i)) [0..<length xs]) ! position x (filter P xs) = ys ! position x xs"
proof -
  have "filter P xs = map (nth xs) (filter (\<lambda>i. P (xs ! i)) [0..<length xs])"
    by (metis (mono_tags, lifting) comp_apply filter_cong filter_map map_nth)
  moreover let ?is = "filter (\<lambda>i. P (xs ! i)) [0..<length xs]"
  have "position x (map (nth xs) is) < length is \<and> is ! position x (map (nth xs) is) = position x xs"
    if "position x xs \<in> set is" "set is \<subseteq> {..<length xs}" for "is"
    using that
  proof (induction "is")
    case (Cons i js)
    show ?case
    proof (cases "x = xs ! i")
      case True
      with Cons.prems assms(1,3) position_less [OF assms(1)] nth_position [OF assms(1)]
      show ?thesis by (auto simp: nth_eq_iff_index_eq)
    next
      case False
      with Cons nth_position [OF assms(1)] show ?thesis by auto
    qed
  qed simp
  moreover have "position x xs \<in> set ?is" "set ?is \<subseteq> {..<length xs}"
    using assms(1,2) position_less [OF assms(1)] nth_position [OF assms(1)] by auto
  ultimately show ?thesis by simp
qed

lemma fold_invariant_result:
  assumes "\<And>x s s'. x \<in> set xs \<Longrightarrow> P s \<Longrightarrow> f x s = s' \<Longrightarrow> P s'" and "P s"
  shows "P (fold f xs s)"
  using assms by (induction xs arbitrary: s) auto

lemma distinct_filter_map: "distinct (map f xs) \<Longrightarrow> distinct (map f (filter P xs))"
  by (rule distinct_map_filter)

end
