(* ===== verification/Floats.thy ===== *)
theory Floats
  imports Complex_Main Prelude
begin

text \<open>
  Python floats.  A float is a rational number (\<^verbatim>\<open>py_float\<close>) and every
  arithmetic operation of the source rounds its exact result to a 53-bit significand,
  ties to even, as IEEE 754 binary64 does (\<^verbatim>\<open>fl64\<close>).  The exponent is not
  bounded: overflow to infinity, subnormal numbers and NaN are outside the model.  The
  program's floats are clock readings in seconds and moving averages, far from those limits.

  The locale \<^verbatim>\<open>rounding\<close> states what the components rely on (rounding is
  monotone, idempotent, odd and fixes 0 and 1); it is interpreted on \<^verbatim>\<open>fl64\<close>.
  \<^verbatim>\<open>round_even\<close> is Python's built-in \<^verbatim>\<open>round\<close> with one argument.
\<close>

type_synonym py_float = rat

section \<open>Rounding to integers and to 53 significant bits\<close>

definition round_even :: "rat \<Rightarrow> int" where
  "round_even x =
     (let f = \<lfloor>x\<rfloor>; d = x - of_int f in
      if d < 1/2 then f else if 1/2 < d then f + 1
      else if even f then f else f + 1)"

fun bits :: "int \<Rightarrow> nat" where
  "bits n = (if n \<le> 0 then 0 else Suc (bits (n div 2)))"

declare bits.simps [simp del]

text \<open>The binary exponent of a positive rational: \<^verbatim>\<open>2^e \<le> x < 2^(e+1)\<close>.\<close>

definition fl_exp :: "rat \<Rightarrow> int" where
  "fl_exp x =
     (let (p, q) = quotient_of x;
          k = int (bits p) - int (bits q) in
      if 2 powi k \<le> x then k else k - 1)"

definition fl_pos :: "rat \<Rightarrow> rat" where
  "fl_pos x = (let e = fl_exp x in
     of_int (round_even (x * 2 powi (52 - e))) * 2 powi (e - 52))"

definition fl64 :: "rat \<Rightarrow> py_float" where
  "fl64 x = (if x = 0 then 0 else if x < 0 then - fl_pos (- x) else fl_pos x)"

definition fadd :: "py_float \<Rightarrow> py_float \<Rightarrow> py_float" where
  "fadd a b = fl64 (a + b)"

definition fsub :: "py_float \<Rightarrow> py_float \<Rightarrow> py_float" where
  "fsub a b = fl64 (a - b)"

definition fmul :: "py_float \<Rightarrow> py_float \<Rightarrow> py_float" where
  "fmul a b = fl64 (a * b)"

text \<open>Division by a non-zero float; every divisor in the source is a literal.\<close>

definition fdiv :: "py_float \<Rightarrow> py_float \<Rightarrow> py_float" where
  "fdiv a b = fl64 (a / b)"

definition float_of_int :: "int \<Rightarrow> py_float" where
  "float_of_int i = fl64 (of_int i)"

text \<open>\<^verbatim>\<open>n / 1000.0\<close>, the conversion of a configured duration in milliseconds.\<close>

definition ms_to_s :: "int \<Rightarrow> py_float" where
  "ms_to_s n = fdiv (float_of_int n) 1000"

text \<open>\<^verbatim>\<open>int(x)\<close> on a float truncates towards zero.\<close>

definition int_trunc :: "py_float \<Rightarrow> int" where
  "int_trunc x = (if x < 0 then \<lceil>x\<rceil> else \<lfloor>x\<rfloor>)"

section \<open>The contract of rounding\<close>

locale rounding =
  fixes fl :: "rat \<Rightarrow> rat"
  assumes fl_mono: "x \<le> y \<Longrightarrow> fl x \<le> fl y"
    and fl_idem: "fl (fl x) = fl x"
    and fl_zero: "fl 0 = 0"
    and fl_one: "fl 1 = 1"
    and fl_minus: "fl (- x) = - fl x"
begin

lemma fl_nonneg: "0 \<le> x \<Longrightarrow> 0 \<le> fl x"
  using fl_mono [of 0 x] by (simp add: fl_zero)

lemma fl_le_one: "x \<le> 1 \<Longrightarrow> fl x \<le> 1"
  using fl_mono [of x 1] by (simp add: fl_one)

lemma fl_le_float: "x \<le> y \<Longrightarrow> fl y = y \<Longrightarrow> fl x \<le> y"
  using fl_mono [of x y] by simp

lemma float_le_fl: "y \<le> x \<Longrightarrow> fl y = y \<Longrightarrow> y \<le> fl x"
  using fl_mono [of y x] by simp

text \<open>Scaling a non-negative float by a factor in the unit interval never increases it.\<close>

lemma fl_scale_le:
  assumes "0 \<le> w" and "w \<le> 1" and "0 \<le> v" and "fl v = v"
  shows "fl (w * v) \<le> v"
  using assms by (intro fl_le_float) (auto intro: mult_left_le_one_le)

text \<open>One step of an exponential moving average keeps the average non-negative.\<close>

lemma fl_ema_nonneg:
  assumes "0 \<le> a" and "a \<le> 1" and "0 \<le> c" and "0 \<le> v"
  shows "0 \<le> fl (fl (a * c) + fl (fl (1 - a) * v))"
  using assms by (intro fl_nonneg add_nonneg_nonneg mult_nonneg_nonneg) auto

end

section \<open>Rounding to integers\<close>

lemma floor_frac_bounds: "of_int \<lfloor>x\<rfloor> \<le> x \<and> x < of_int \<lfloor>x\<rfloor> + (1 :: rat)"
  using floor_correct [of x] by simp

lemma round_even_of_int [simp]: "round_even (of_int i) = i"
  by (simp add: round_even_def)

lemma round_even_zero [simp]: "round_even 0 = 0"
  by (simp add: round_even_def)

lemma round_even_ge_floor: "\<lfloor>x\<rfloor> \<le> round_even x"
  by (simp add: round_even_def Let_def)

lemma round_even_le_floor_Suc: "round_even x \<le> \<lfloor>x\<rfloor> + 1"
  by (simp add: round_even_def Let_def)

lemma round_even_mono: "x \<le> y \<Longrightarrow> round_even x \<le> round_even y"
proof -
  assume le: "x \<le> y"
  show ?thesis
  proof (cases "\<lfloor>x\<rfloor> = \<lfloor>y\<rfloor>")
    case True
    with le show ?thesis by (auto simp: round_even_def Let_def)
  next
    case False
    with floor_mono [OF le] have "\<lfloor>x\<rfloor> + 1 \<le> \<lfloor>y\<rfloor>" by simp
    with round_even_le_floor_Suc [of x] round_even_ge_floor [of y] show ?thesis by linarith
  qed
qed

lemma round_even_nonneg: "0 \<le> x \<Longrightarrow> 0 \<le> round_even x"
  using round_even_mono [of 0 x] by simp

lemma round_even_near: "\<bar>x - of_int (round_even x)\<bar> \<le> 1/2"
  using floor_frac_bounds [of x] by (auto simp: round_even_def Let_def abs_le_iff)

section \<open>The binary exponent\<close>

lemma bits_bounds: "0 < n \<Longrightarrow> 2 ^ (bits n - 1) \<le> n \<and> n < 2 ^ bits n"
proof (induction n rule: bits.induct)
  case (1 n)
  show ?case
  proof (cases "n div 2 \<le> 0")
    case True
    with "1.prems" have "n = 1" by auto
    then show ?thesis by (simp add: bits.simps)
  next
    case False
    with "1.IH" "1.prems" have IH: "2 ^ (bits (n div 2) - 1) \<le> n div 2" "n div 2 < 2 ^ bits (n div 2)"
      by auto
    from False have "bits (n div 2) \<noteq> 0" by (subst bits.simps) simp
    then obtain b where b: "bits (n div 2) = Suc b" by (cases "bits (n div 2)") auto
    with "1.prems" have "bits n = Suc (Suc b)" by (subst bits.simps) simp
    with IH b show ?thesis by auto
  qed
qed

lemma bits_pos: "0 < n \<Longrightarrow> 0 < bits n"
  by (subst bits.simps) simp

lemma powi_less_iff: "(2 :: rat) powi m < 2 powi n \<longleftrightarrow> m < n"
  by (metis linorder_less_linear order_less_asym one_less_numeral_iff power_int_strict_increasing
      semiring_norm(76))

lemma powi_le_iff: "(2 :: rat) powi m \<le> 2 powi n \<longleftrightarrow> m \<le> n"
  using powi_less_iff [of n m] by (simp add: linorder_not_less [symmetric])

lemma fl_exp_bounds:
  assumes "0 < x"
  shows "2 powi (fl_exp x) \<le> x" and "x < 2 powi (fl_exp x + 1)"
proof -
  obtain p q where pq: "quotient_of x = (p, q)" by (cases "quotient_of x") auto
  have q: "0 < q" using quotient_of_denom_pos [OF pq] .
  have x: "x = of_int p / of_int q" using quotient_of_div [OF pq] .
  with assms q have p: "0 < p" by (simp add: zero_less_divide_iff)
  define a where "a = bits p"
  define b where "b = bits q"
  have ab: "0 < a" "0 < b" using p q by (simp_all add: a_def b_def bits_pos)
  have pb: "2 ^ (a - 1) \<le> p" "p < 2 ^ a"
    using bits_bounds [OF p] unfolding a_def by simp_all
  have qb: "2 ^ (b - 1) \<le> q" "q < 2 ^ b"
    using bits_bounds [OF q] unfolding b_def by simp_all
  have pr: "(2::rat) ^ (a - 1) \<le> of_int p" "of_int p < (2::rat) ^ a"
    using pb by (metis of_int_le_iff of_int_numeral of_int_power, metis of_int_less_iff of_int_numeral of_int_power)
  have qr: "(2::rat) ^ (b - 1) \<le> of_int q" "of_int q < (2::rat) ^ b"
    using qb by (metis of_int_le_iff of_int_numeral of_int_power, metis of_int_less_iff of_int_numeral of_int_power)
  let ?k = "int a - int b"
  have up: "x < 2 powi (?k + 1)"
  proof -
    have "x < 2 ^ a / 2 ^ (b - 1)"
      unfolding x using pr(2) qr(1) p q by (intro frac_less) auto
    also have "\<dots> = 2 powi (?k + 1)"
      using ab by (simp add: power_int_diff [symmetric] power_int_of_nat [symmetric] of_nat_diff
          algebra_simps del: power_int_of_nat)
    finally show ?thesis .
  qed
  have lo: "2 powi (?k - 1) \<le> x"
  proof -
    have "2 powi (?k - 1) = (2::rat) ^ (a - 1) / 2 ^ b"
      using ab by (simp add: power_int_diff [symmetric] power_int_of_nat [symmetric] of_nat_diff
          algebra_simps del: power_int_of_nat)
    also have "\<dots> \<le> x"
      unfolding x using pr(1) qr(2) p q by (intro frac_le) auto
    finally show ?thesis .
  qed
  show "2 powi (fl_exp x) \<le> x" "x < 2 powi (fl_exp x + 1)"
    using up lo by (simp_all add: fl_exp_def pq a_def b_def Let_def)
qed

lemma fl_exp_unique:
  assumes "2 powi e \<le> x" and "x < 2 powi (e + 1)"
  shows "fl_exp x = e"
proof -
  have "0 < x" using assms(1) by (rule less_le_trans [rotated]) simp
  from fl_exp_bounds [OF this] assms
  have "(2::rat) powi (fl_exp x) < 2 powi (e + 1)" "(2::rat) powi e < 2 powi (fl_exp x + 1)"
    by linarith+
  then have "fl_exp x < e + 1" "e < fl_exp x + 1"
    by (simp_all only: powi_less_iff)
  then show ?thesis by simp
qed

lemma fl_exp_mono: "0 < x \<Longrightarrow> x \<le> y \<Longrightarrow> fl_exp x \<le> fl_exp y"
proof -
  assume "0 < x" "x \<le> y"
  with fl_exp_bounds [of x] fl_exp_bounds [of y]
  have "(2::rat) powi (fl_exp x) < 2 powi (fl_exp y + 1)" by linarith
  then have "fl_exp x < fl_exp y + 1" by (simp only: powi_less_iff)
  then show ?thesis by simp
qed

section \<open>Rounding to 53 significant bits\<close>

lemma powi_cancel: "(2 :: rat) powi a * 2 powi b = 2 powi (a + b)"
  by (simp add: power_int_add)

lemma fl_pos_ge: "0 < x \<Longrightarrow> 2 powi (fl_exp x) \<le> fl_pos x"
proof -
  assume x: "0 < x"
  let ?e = "fl_exp x"
  have "(2::rat) powi 52 = 2 powi ?e * 2 powi (52 - ?e)" by (simp add: powi_cancel)
  also have "\<dots> \<le> x * 2 powi (52 - ?e)"
    using fl_exp_bounds(1) [OF x] by (rule mult_right_mono) simp
  finally have "round_even (of_int (2 ^ 52)) \<le> round_even (x * 2 powi (52 - ?e))"
    by (intro round_even_mono) simp
  then have "(2 ^ 52 :: int) \<le> round_even (x * 2 powi (52 - ?e))" by (simp only: round_even_of_int)
  then have "(of_int (2 ^ 52) :: rat) \<le> of_int (round_even (x * 2 powi (52 - ?e)))"
    by (simp only: of_int_le_iff)
  then have "(2 powi 52 :: rat) * 2 powi (?e - 52) \<le> fl_pos x"
    unfolding fl_pos_def Let_def by (intro mult_right_mono) simp_all
  then show ?thesis by (simp only: powi_cancel) simp
qed

lemma fl_pos_le: "0 < x \<Longrightarrow> fl_pos x \<le> 2 powi (fl_exp x + 1)"
proof -
  assume x: "0 < x"
  let ?e = "fl_exp x"
  have "x * 2 powi (52 - ?e) \<le> 2 powi (?e + 1) * 2 powi (52 - ?e)"
    using fl_exp_bounds(2) [OF x] by (intro mult_right_mono) simp_all
  also have "\<dots> = (2::rat) powi 53" by (simp only: powi_cancel) simp
  finally have "round_even (x * 2 powi (52 - ?e)) \<le> round_even (of_int (2 ^ 53))"
    by (intro round_even_mono) simp
  then have "round_even (x * 2 powi (52 - ?e)) \<le> 2 ^ 53" by (simp only: round_even_of_int)
  then have "(of_int (round_even (x * 2 powi (52 - ?e))) :: rat) \<le> of_int (2 ^ 53)"
    by (simp only: of_int_le_iff)
  then have "fl_pos x \<le> (2 powi 53 :: rat) * 2 powi (?e - 52)"
    unfolding fl_pos_def Let_def by (intro mult_right_mono) simp_all
  then show ?thesis by (simp only: powi_cancel) (simp add: add.commute)
qed

lemma fl_pos_gt_0: "0 < x \<Longrightarrow> 0 < fl_pos x"
  using fl_pos_ge [of x] by (rule less_le_trans [rotated]) simp_all

lemma fl_pos_mono:
  assumes "0 < x" and "x \<le> y"
  shows "fl_pos x \<le> fl_pos y"
proof (cases "fl_exp x = fl_exp y")
  case True
  with assms show ?thesis
    unfolding fl_pos_def Let_def by (auto intro!: mult_right_mono round_even_mono)
next
  case False
  with fl_exp_mono [OF assms] have "fl_exp x + 1 \<le> fl_exp y" by simp
  then have "(2::rat) powi (fl_exp x + 1) \<le> 2 powi (fl_exp y)" by (simp only: powi_le_iff)
  with fl_pos_le [of x] fl_pos_ge [of y] assms show ?thesis by linarith
qed

text \<open>A value with at most 53 significant bits is a float: rounding leaves it unchanged.\<close>

lemma fl_pos_exact:
  assumes "0 < x" and "x * 2 powi (52 - fl_exp x) = of_int m"
  shows "fl_pos x = x"
proof -
  have "fl_pos x = x * 2 powi (52 - fl_exp x) * 2 powi (fl_exp x - 52)"
    unfolding fl_pos_def Let_def using assms(2) by simp
  also have "\<dots> = x" by (simp only: mult.assoc powi_cancel) simp
  finally show ?thesis .
qed

lemma fl_pos_power: "fl_pos (2 powi e) = 2 powi e"
proof -
  have e: "fl_exp (2 powi e) = e" by (rule fl_exp_unique) (simp_all add: powi_less_iff)
  show ?thesis
    by (rule fl_pos_exact [where m = "2 ^ 52"]) (simp_all only: e powi_cancel, simp_all)
qed

lemma fl_pos_idem:
  assumes x: "0 < x"
  shows "fl_pos (fl_pos x) = fl_pos x"
proof (cases "fl_pos x = 2 powi (fl_exp x + 1)")
  case True
  then show ?thesis by (simp only: fl_pos_power)
next
  case False
  with fl_pos_le [OF x] have "fl_pos x < 2 powi (fl_exp x + 1)" by simp
  with fl_pos_ge [OF x] have e: "fl_exp (fl_pos x) = fl_exp x" by (rule fl_exp_unique)
  have "fl_pos x * 2 powi (52 - fl_exp x) = of_int (round_even (x * 2 powi (52 - fl_exp x)))"
    unfolding fl_pos_def Let_def by (simp only: mult.assoc powi_cancel) simp
  with fl_pos_gt_0 [OF x] show ?thesis by (intro fl_pos_exact) (simp_all only: e)
qed

lemma fl64_minus: "fl64 (- x) = - fl64 x"
  by (simp add: fl64_def)

lemma fl64_mono: "x \<le> y \<Longrightarrow> fl64 x \<le> fl64 y"
proof -
  assume le: "x \<le> y"
  consider "0 < x" | "x = 0" | "x < 0" "0 \<le> y" | "x < 0" "y < 0" by linarith
  then show ?thesis
  proof cases
    case 3
    with fl_pos_gt_0 [of "- x"] fl_pos_gt_0 [of y] show ?thesis by (auto simp: fl64_def)
  next
    case 4
    with fl_pos_mono [of "- y" "- x"] le show ?thesis by (auto simp: fl64_def)
  qed (use le fl_pos_mono [of x y] fl_pos_gt_0 [of y] in \<open>auto simp: fl64_def\<close>)
qed

lemma fl64_idem: "fl64 (fl64 x) = fl64 x"
  using fl_pos_gt_0 [of x] fl_pos_gt_0 [of "- x"] by (auto simp: fl64_def fl_pos_idem)

lemma fl64_one: "fl64 1 = 1"
  using fl_pos_power [of 0] by (simp add: fl64_def)

interpretation fl64: rounding fl64
  by unfold_locales (simp_all add: fl64_mono fl64_idem fl64_one fl64_minus, simp add: fl64_def)

text \<open>Integers below \<^verbatim>\<open>2^53\<close> are floats.\<close>

lemma float_of_int_nonneg: "0 \<le> i \<Longrightarrow> 0 \<le> float_of_int i"
  by (simp add: float_of_int_def fl64.fl_nonneg)

lemma ms_to_s_nonneg: "0 \<le> n \<Longrightarrow> 0 \<le> ms_to_s n"
  by (simp add: ms_to_s_def fdiv_def fl64.fl_nonneg float_of_int_nonneg)

lemma fadd_mono: "a \<le> b \<Longrightarrow> c \<le> d \<Longrightarrow> fadd a c \<le> fadd b d"
  by (simp add: fadd_def fl64_mono add_mono)

lemma fadd_ge: "fl64 a = a \<Longrightarrow> 0 \<le> b \<Longrightarrow> a \<le> fadd a b"
  by (simp add: fadd_def fl64.float_le_fl)

end
