(* ===== verification/Py_Random.thy ===== *)
theory Py_Random
  imports Floats "HOL-Library.Multiset"
begin

text \<open>
  The parts of Python's \<^verbatim>\<open>random.Random\<close> the program uses.  A generator is the
  sequence of raw values it is going to deliver (\<^verbatim>\<open>rng\<close>); a finite run reads
  finitely many of them, so a theorem for every list of draws covers every seed.  A list that
  has run out delivers 0.  \<^verbatim>\<open>choice\<close>, \<^verbatim>\<open>shuffle\<close> and \<^verbatim>\<open>sample2\<close> are
  the algorithms of the standard library over \<^verbatim>\<open>randbelow\<close>: an index below the length,
  a Fisher-Yates shuffle, and the pool selection of two elements.
\<close>

type_synonym rng = "nat list"

definition randbelow :: "nat \<Rightarrow> rng \<Rightarrow> nat \<times> rng" where
  "randbelow n r = (case r of [] \<Rightarrow> (0, []) | d # ds \<Rightarrow> (d mod n, ds))"

definition choice :: "'a list \<Rightarrow> rng \<Rightarrow> ('a \<times> rng) result" where
  "choice xs r =
     (if xs = [] then Inl IndexError
      else let (i, r') = randbelow (length xs) r in Inr (xs ! i, r'))"

definition swap :: "nat \<Rightarrow> nat \<Rightarrow> 'a list \<Rightarrow> 'a list" where
  "swap i j xs = xs[i := xs ! j, j := xs ! i]"

text \<open>The loop \<^verbatim>\<open>for i in reversed(range(1, len(x)))\<close>, with \<^verbatim>\<open>i\<close> counting down.\<close>

fun shuffle_from :: "nat \<Rightarrow> 'a list \<Rightarrow> rng \<Rightarrow> 'a list \<times> rng" where
  "shuffle_from 0 xs r = (xs, r)"
| "shuffle_from (Suc i) xs r =
     (let (j, r') = randbelow (Suc (Suc i)) r in shuffle_from i (swap (Suc i) j xs) r')"

definition rng_shuffle :: "'a list \<Rightarrow> rng \<Rightarrow> 'a list \<times> rng" where
  "rng_shuffle xs r = shuffle_from (length xs - 1) xs r"

definition sample2 :: "'a list \<Rightarrow> rng \<Rightarrow> ('a list \<times> rng) result" where
  "sample2 xs r =
     (let n = length xs in
      if n < 2 then Inl ValueError
      else let (i, r1) = randbelow n r;
               pool = xs[i := xs ! (n - 1)];
               (j, r2) = randbelow (n - 1) r1
           in Inr ([xs ! i, pool ! j], r2))"

text \<open>\<^verbatim>\<open>random()\<close> is a multiple of \<^verbatim>\<open>2^-53\<close> below 1; \<^verbatim>\<open>uniform(a, b)\<close> is
  \<^verbatim>\<open>a + (b - a) * random()\<close>.\<close>

definition rng_random :: "rng \<Rightarrow> py_float \<times> rng" where
  "rng_random r = (case r of [] \<Rightarrow> (0, []) | d # ds \<Rightarrow> (of_nat (d mod 2 ^ 53) / 2 ^ 53, ds))"

definition uniform :: "py_float \<Rightarrow> py_float \<Rightarrow> rng \<Rightarrow> py_float \<times> rng" where
  "uniform a b r = (let (u, r') = rng_random r in (fadd a (fmul (fsub b a) u), r'))"

section \<open>What the algorithms guarantee\<close>

lemma randbelow_less: "0 < n \<Longrightarrow> fst (randbelow n r) < n"
  by (simp add: randbelow_def split: list.split)

lemma choice_returns: "xs \<noteq> [] \<Longrightarrow> \<exists>x r'. choice xs r = Inr (x, r') \<and> x \<in> set xs"
  using randbelow_less [of "length xs" r]
  by (simp add: choice_def split: prod.split) (metis fst_conv length_greater_0_conv nth_mem)

lemma choice_in_set: "choice xs r = Inr (x, r') \<Longrightarrow> x \<in> set xs"
  using choice_returns [of xs r] by (cases "xs = []") (auto simp: choice_def)

lemma mset_swap: "i < length xs \<Longrightarrow> j < length xs \<Longrightarrow> mset (swap i j xs) = mset xs"
  by (simp add: swap_def mset_swap)

lemma length_swap [simp]: "length (swap i j xs) = length xs"
  by (simp add: swap_def)

lemma mset_shuffle_from: "i < length xs \<Longrightarrow> mset (fst (shuffle_from i xs r)) = mset xs"
proof (induction i xs r rule: shuffle_from.induct)
  case (2 i xs r)
  obtain j r' where jr: "randbelow (Suc (Suc i)) r = (j, r')"
    by (cases "randbelow (Suc (Suc i)) r") auto
  with randbelow_less [of "Suc (Suc i)" r] have j: "j < Suc (Suc i)" by simp
  have "mset (fst (shuffle_from i (swap (Suc i) j xs) r')) = mset (swap (Suc i) j xs)"
    using "2.IH" [of "(j, r')" j r'] "2.prems" jr by simp
  also have "\<dots> = mset xs"
    using "2.prems" j by (intro mset_swap) auto
  finally show ?case using jr by simp
qed simp

lemma mset_rng_shuffle: "mset (fst (rng_shuffle xs r)) = mset xs"
  by (cases "xs = []") (simp_all add: rng_shuffle_def mset_shuffle_from)

lemma set_rng_shuffle: "set (fst (rng_shuffle xs r)) = set xs"
  using mset_rng_shuffle [of xs r] by (metis set_mset_mset)

lemma distinct_rng_shuffle: "distinct (fst (rng_shuffle xs r)) = distinct xs"
  using mset_rng_shuffle [of xs r] by (metis mset_eq_imp_distinct_iff)

lemma length_rng_shuffle: "length (fst (rng_shuffle xs r)) = length xs"
  using mset_rng_shuffle [of xs r] by (metis size_mset)

lemma sample2_returns:
  assumes "2 \<le> length xs"
  shows "\<exists>a b r'. sample2 xs r = Inr ([a, b], r') \<and> a \<in> set xs \<and> b \<in> set xs"
proof -
  let ?n = "length xs"
  obtain i r1 where i: "randbelow ?n r = (i, r1)" by (cases "randbelow ?n r") auto
  obtain j r2 where j: "randbelow (?n - 1) r1 = (j, r2)" by (cases "randbelow (?n - 1) r1") auto
  have "i < ?n" using randbelow_less [of ?n r] i assms by (cases xs) auto
  moreover have "j < ?n" using randbelow_less [of "?n - 1" r1] j assms by simp
  ultimately show ?thesis
    using assms i j by (auto simp: sample2_def Let_def nth_list_update)
qed

lemma sample2_distinct:
  assumes "2 \<le> length xs" and "distinct xs" and "sample2 xs r = Inr ([a, b], r')"
  shows "a \<noteq> b"
proof -
  let ?n = "length xs"
  obtain i r1 where i: "randbelow ?n r = (i, r1)" by (cases "randbelow ?n r") auto
  obtain j r2 where j: "randbelow (?n - 1) r1 = (j, r2)" by (cases "randbelow (?n - 1) r1") auto
  have bi: "i < ?n" using randbelow_less [of ?n r] i assms(1) by (cases xs) auto
  have bj: "j < ?n - 1" using randbelow_less [of "?n - 1" r1] j assms by simp
  from assms(1,3) i j have ab: "a = xs ! i" "b = (xs[i := xs ! (?n - 1)]) ! j"
    by (auto simp: sample2_def Let_def)
  show ?thesis
  proof (cases "i = j")
    case True
    with ab bi bj have "b = xs ! (?n - 1)" by simp
    with ab bi bj True assms(2) show ?thesis by (simp add: nth_eq_iff_index_eq)
  next
    case False
    with ab bi bj assms(2) show ?thesis by (simp add: nth_eq_iff_index_eq)
  qed
qed

end
