(* ===== verification/Records.thy ===== *)
theory Records
  imports Floats
begin

text \<open>
  The data types of the membership layer: \<^verbatim>\<open>membership/records.py\<close>,
  \<^verbatim>\<open>membership/config.py\<close> and the dataclasses of \<^verbatim>\<open>membership/state.py\<close>.
  A dataclass is a record; its fields carry a short prefix because several dataclasses share
  field names.  \<^verbatim>\<open>MemberState\<close> is an \<^verbatim>\<open>IntEnum\<close>: its linear order is the
  order of severity.
\<close>

section \<open>Member states and records\<close>

datatype MemberState = ALIVE | SUSPECT | DEAD

primrec severity :: "MemberState \<Rightarrow> int" where
  "severity ALIVE = 0"
| "severity SUSPECT = 1"
| "severity DEAD = 2"

lemma severity_inj [simp]: "severity a = severity b \<longleftrightarrow> a = b"
  by (cases a; cases b) simp_all

instantiation MemberState :: linorder
begin

definition less_eq_MemberState :: "MemberState \<Rightarrow> MemberState \<Rightarrow> bool" where
  "less_eq_MemberState a b \<longleftrightarrow> severity a \<le> severity b"

definition less_MemberState :: "MemberState \<Rightarrow> MemberState \<Rightarrow> bool" where
  "less_MemberState a b \<longleftrightarrow> severity a < severity b"

instance
  by standard (auto simp: less_eq_MemberState_def less_MemberState_def)

end

record MemberRecord =
  mr_shard_id :: string
  mr_host :: string
  mr_udp_port :: int
  mr_state :: MemberState
  mr_incarnation :: int
  mr_model_id :: string
  mr_last_state_change :: py_float
  mr_suspect_deadline :: "py_float option"

text \<open>Equality of the dataclass: the two local clock fields do not take part.\<close>

definition record_eq :: "MemberRecord \<Rightarrow> MemberRecord \<Rightarrow> bool" where
  "record_eq a b \<longleftrightarrow>
     mr_shard_id a = mr_shard_id b \<and> mr_host a = mr_host b \<and> mr_udp_port a = mr_udp_port b \<and>
     mr_state a = mr_state b \<and> mr_incarnation a = mr_incarnation b \<and> mr_model_id a = mr_model_id b"

record LoadReportRecord =
  lr_shard_id :: string
  lr_queue_depth_ema :: int
  lr_ts_unix_ms :: int

record HeatReportRecord =
  hr_shard_id :: string
  hr_entries :: "(int \<times> int \<times> int) list"
  hr_ts_unix_ms :: int

record OwnershipDeltaRecord =
  od_shard_id :: string
  od_layer_idx :: int
  od_expert_id :: int
  od_action :: int
  od_ts_unix_ms :: int

record StateTransition =
  st_shard_id :: string
  st_old_state :: "MemberState option"
  st_new_record :: MemberRecord

section \<open>Messages\<close>

record PingMsg =
  pi_from_shard_id :: string
  pi_from_incarnation :: int
  pi_deltas :: "MemberRecord list"
  pi_loads :: "LoadReportRecord list"
  pi_heat :: "HeatReportRecord list"
  pi_ownership :: "OwnershipDeltaRecord list"

record AckMsg =
  ac_from_shard_id :: string
  ac_from_incarnation :: int
  ac_deltas :: "MemberRecord list"
  ac_loads :: "LoadReportRecord list"
  ac_heat :: "HeatReportRecord list"
  ac_ownership :: "OwnershipDeltaRecord list"

record PingReqMsg =
  pr_from_shard_id :: string
  pr_target_shard_id :: string
  pr_probe_id :: string
  pr_deltas :: "MemberRecord list"
  pr_loads :: "LoadReportRecord list"
  pr_heat :: "HeatReportRecord list"
  pr_ownership :: "OwnershipDeltaRecord list"

record PingReqAckMsg =
  pa_from_shard_id :: string
  pa_target_shard_id :: string
  pa_probe_id :: string
  pa_success :: bool
  pa_deltas :: "MemberRecord list"
  pa_loads :: "LoadReportRecord list"
  pa_heat :: "HeatReportRecord list"
  pa_ownership :: "OwnershipDeltaRecord list"

record JoinMsg =
  jo_self_record :: MemberRecord

record MembershipDeltaMsg =
  md_members :: "MemberRecord list"

datatype IncomingMessage =
    Ping PingMsg
  | Ack AckMsg
  | PingReq PingReqMsg
  | PingReqAck PingReqAckMsg
  | Join JoinMsg
  | MembershipDelta MembershipDeltaMsg

record OutgoingMessage =
  om_target_shard_id :: string
  om_payload :: IncomingMessage

text \<open>The constructors with the default of no piggybacked reports.\<close>

definition PingMsg0 :: "string \<Rightarrow> int \<Rightarrow> MemberRecord list \<Rightarrow> IncomingMessage" where
  "PingMsg0 frm inc ds = Ping \<lparr>pi_from_shard_id = frm, pi_from_incarnation = inc, pi_deltas = ds,
     pi_loads = [], pi_heat = [], pi_ownership = []\<rparr>"

definition AckMsg0 :: "string \<Rightarrow> int \<Rightarrow> MemberRecord list \<Rightarrow> IncomingMessage" where
  "AckMsg0 frm inc ds = Ack \<lparr>ac_from_shard_id = frm, ac_from_incarnation = inc, ac_deltas = ds,
     ac_loads = [], ac_heat = [], ac_ownership = []\<rparr>"

definition PingReqMsg0 :: "string \<Rightarrow> string \<Rightarrow> string \<Rightarrow> MemberRecord list \<Rightarrow> IncomingMessage" where
  "PingReqMsg0 frm tgt pid ds = PingReq \<lparr>pr_from_shard_id = frm, pr_target_shard_id = tgt,
     pr_probe_id = pid, pr_deltas = ds, pr_loads = [], pr_heat = [], pr_ownership = []\<rparr>"

definition PingReqAckMsg0 ::
    "string \<Rightarrow> string \<Rightarrow> string \<Rightarrow> bool \<Rightarrow> MemberRecord list \<Rightarrow> IncomingMessage" where
  "PingReqAckMsg0 frm tgt pid ok ds = PingReqAck \<lparr>pa_from_shard_id = frm, pa_target_shard_id = tgt,
     pa_probe_id = pid, pa_success = ok, pa_deltas = ds, pa_loads = [], pa_heat = [],
     pa_ownership = []\<rparr>"

section \<open>Configuration and the state machine's own dataclasses\<close>

record SwimConfig =
  t_ping_ms :: int
  t_tick_ms :: int
  t_timeout_ms :: int
  k_indirect :: int
  k_gossip :: int
  mtu_bytes :: int
  t_suspect_ms :: int

definition default_config :: SwimConfig where
  "default_config = \<lparr>t_ping_ms = 1000, t_tick_ms = 100, t_timeout_ms = 500, k_indirect = 2,
     k_gossip = 3, mtu_bytes = 1400, t_suspect_ms = 4000\<rparr>"

record PeerSpec =
  ps_shard_id :: string
  ps_host :: string
  ps_udp_port :: int

record PendingHelp =
  ph_probe_id :: string
  ph_target_id :: string
  ph_requester_id :: string
  ph_sent_at :: py_float

record PendingProbe =
  pp_probe_id :: string
  pp_target_id :: string
  pp_sent_at :: py_float
  pp_indirect_sent_at :: "py_float option"
  pp_indirect_targets :: "string list"
  pp_indirect_acks :: int
  pp_indirect_success_seen :: bool

record BacklogEntry =
  be_record :: MemberRecord
  be_priority :: int
  be_enqueued_at :: py_float
  be_seq :: int

text \<open>A slice \<^verbatim>\<open>xs[:k]\<close>: a negative bound counts from the end.\<close>

definition slice_to :: "int \<Rightarrow> 'a list \<Rightarrow> 'a list" where
  "slice_to k xs = take (nat (if k < 0 then int (length xs) + k else k)) xs"

lemma slice_to_nonneg: "0 \<le> k \<Longrightarrow> slice_to k xs = take (nat k) xs"
  by (simp add: slice_to_def)

lemma set_slice_to: "set (slice_to k xs) \<subseteq> set xs"
  by (simp add: slice_to_def set_take_subset)

lemma length_slice_to: "0 \<le> k \<Longrightarrow> length (slice_to k xs) \<le> nat k"
  by (simp add: slice_to_nonneg)

lemma record_eq_refl [simp]: "record_eq r r"
  by (simp add: record_eq_def)

lemma less_MemberState_simps [simp]:
  "ALIVE \<le> s" "(s \<le> ALIVE) = (s = ALIVE)" "s \<le> DEAD" "(DEAD \<le> s) = (s = DEAD)"
  "ALIVE < SUSPECT" "ALIVE < DEAD" "SUSPECT < DEAD"
  by (cases s; simp add: less_eq_MemberState_def less_MemberState_def)+

end
