(* ===== verification/Swim.thy ===== *)
theory Swim
  imports Py_Random Records "HOL-Library.Product_Lexorder"
begin

text \<open>
  The SWIM state machine of \<^verbatim>\<open>membership/state.py\<close>, method by method.
  \<^verbatim>\<open>MembershipState\<close> is the object's attributes; a method takes the state and
  returns its result and the new state, or the exception it raises (a dictionary access
  \<^verbatim>\<open>self._members[k]\<close> may raise \<^verbatim>\<open>KeyError\<close>).  \<^verbatim>\<open>_members\<close> is a
  dictionary in insertion order, because the candidate lists handed to the random generator
  and the member list sent to a joining node are in that order.  Logging is not modelled.
\<close>

section \<open>State\<close>

record MembershipState =
  self_id :: string
  self_incarnation :: int
  cfg :: SwimConfig
  ms_rng :: rng
  local_model_id :: string
  addrs :: "(string, PeerSpec) dict"
  members :: "(string, MemberRecord) dict"
  transitions :: "StateTransition list"
  next_period_at :: py_float
  pending_probe :: "PendingProbe option"
  probe_counter :: int
  pending_helps :: "PendingHelp list"
  backlog :: "BacklogEntry list"
  backlog_seq :: int

section \<open>Backlog and record installation\<close>

definition enqueue_backlog :: "MemberRecord \<Rightarrow> py_float \<Rightarrow> MembershipState \<Rightarrow> MembershipState" where
  "enqueue_backlog rec now s =
     s\<lparr>backlog := filter (\<lambda>b. mr_shard_id (be_record b) \<noteq> mr_shard_id rec) (backlog s) @
         [\<lparr>be_record = rec, be_priority = 0, be_enqueued_at = now, be_seq = backlog_seq s\<rparr>],
       backlog_seq := backlog_seq s + 1\<rparr>"

definition gc_backlog :: "py_float \<Rightarrow> MembershipState \<Rightarrow> MembershipState" where
  "gc_backlog now s =
     (let cutoff = fdiv (float_of_int (3 * t_suspect_ms (cfg s))) 1000
      in s\<lparr>backlog := filter (\<lambda>b. fsub now (be_enqueued_at b) \<le> cutoff) (backlog s)\<rparr>)"

text \<open>The three statements every state change ends with: store the record, log the transition,
  queue the record for gossip.\<close>

definition install :: "string \<Rightarrow> MemberState option \<Rightarrow> MemberRecord \<Rightarrow> py_float \<Rightarrow>
    MembershipState \<Rightarrow> MembershipState" where
  "install sid old new now s =
     enqueue_backlog new now
       (s\<lparr>members := dput sid new (members s),
          transitions := transitions s @
            [\<lparr>st_shard_id = sid, st_old_state = old, st_new_record = new\<rparr>]\<rparr>)"

definition select_outgoing_deltas ::
    "MembershipState \<Rightarrow> (MemberRecord list \<times> MembershipState) result" where
  "select_outgoing_deltas s =
     ebind (dindex (members s) (self_id s)) (\<lambda>own.
       let srt = sort_key (\<lambda>b. (be_priority b, be_seq b)) (backlog s);
           chosen = slice_to (k_gossip (cfg s)) srt;
           rest = drop (length chosen) srt
       in Inr (own # map be_record chosen,
               s\<lparr>backlog := map (\<lambda>b. b\<lparr>be_priority := be_priority b + 1\<rparr>) chosen @ rest\<rparr>))"

section \<open>Suspicion, death and resurrection\<close>

definition mark_suspect :: "string \<Rightarrow> py_float \<Rightarrow> MembershipState \<Rightarrow> MembershipState result" where
  "mark_suspect sid now s =
     ebind (dindex (members s) sid) (\<lambda>prev.
       if mr_state prev = SUSPECT \<or> mr_state prev = DEAD then Inr s
       else Inr (install sid (Some (mr_state prev))
              \<lparr>mr_shard_id = sid, mr_host = mr_host prev, mr_udp_port = mr_udp_port prev,
               mr_state = SUSPECT, mr_incarnation = mr_incarnation prev,
               mr_model_id = mr_model_id prev, mr_last_state_change = now,
               mr_suspect_deadline = Some (fadd now (ms_to_s (t_suspect_ms (cfg s))))\<rparr> now s))"

definition deadline_passed :: "py_float \<Rightarrow> MemberRecord \<Rightarrow> bool" where
  "deadline_passed now rec \<longleftrightarrow> mr_state rec = SUSPECT \<and>
     (case mr_suspect_deadline rec of None \<Rightarrow> False | Some d \<Rightarrow> d \<le> now)"

definition promote_dead_step ::
    "py_float \<Rightarrow> string \<times> MemberRecord \<Rightarrow> MembershipState \<Rightarrow> MembershipState" where
  "promote_dead_step now p s =
     (case p of (sid, rec) \<Rightarrow>
        if deadline_passed now rec
        then install sid (Some SUSPECT)
               \<lparr>mr_shard_id = sid, mr_host = mr_host rec, mr_udp_port = mr_udp_port rec,
                mr_state = DEAD, mr_incarnation = mr_incarnation rec,
                mr_model_id = mr_model_id rec, mr_last_state_change = now,
                mr_suspect_deadline = None\<rparr> now s
        else s)"

definition maybe_promote_dead :: "py_float \<Rightarrow> MembershipState \<Rightarrow> MembershipState" where
  "maybe_promote_dead now s = fold (promote_dead_step now) (members s) s"

definition maybe_promote_sender_alive ::
    "string \<Rightarrow> int \<Rightarrow> py_float \<Rightarrow> MembershipState \<Rightarrow> MembershipState" where
  "maybe_promote_sender_alive sender_id sender_incarnation now s =
     (if sender_id = self_id s then s
      else case dget (members s) sender_id of
             None \<Rightarrow> s
           | Some prev \<Rightarrow>
               if mr_state prev = ALIVE then s
               else install sender_id (Some (mr_state prev))
                      \<lparr>mr_shard_id = mr_shard_id prev, mr_host = mr_host prev,
                       mr_udp_port = mr_udp_port prev, mr_state = ALIVE,
                       mr_incarnation = max (mr_incarnation prev) sender_incarnation,
                       mr_model_id = mr_model_id prev, mr_last_state_change = now,
                       mr_suspect_deadline = None\<rparr> now s)"

section \<open>Gossip\<close>

definition admit :: "MembershipState \<Rightarrow> MemberRecord \<Rightarrow> bool" where
  "admit s rec \<longleftrightarrow> local_model_id s = [] \<or> mr_model_id rec = local_model_id s"

definition maybe_refute ::
    "MemberRecord \<Rightarrow> py_float \<Rightarrow> MembershipState \<Rightarrow> MembershipState result" where
  "maybe_refute d now s =
     (if mr_state d = ALIVE then Inr s
      else if mr_incarnation d < self_incarnation s then Inr s
      else let s1 = s\<lparr>self_incarnation := mr_incarnation d + 1\<rparr> in
           ebind (dindex (members s1) (self_id s1)) (\<lambda>prev.
             Inr (install (self_id s1) (Some (mr_state prev))
                    \<lparr>mr_shard_id = self_id s1, mr_host = mr_host prev,
                     mr_udp_port = mr_udp_port prev, mr_state = ALIVE,
                     mr_incarnation = self_incarnation s1, mr_model_id = mr_model_id prev,
                     mr_last_state_change = now, mr_suspect_deadline = None\<rparr> now s1)))"

definition maybe_apply_peer_delta ::
    "MemberRecord \<Rightarrow> py_float \<Rightarrow> MembershipState \<Rightarrow> MembershipState result" where
  "maybe_apply_peer_delta d now s =
     (if \<not> admit s d then Inr s
      else ebind (dindex (members s) (mr_shard_id d)) (\<lambda>prev.
        if mr_incarnation d < mr_incarnation prev then Inr s
        else if mr_incarnation d = mr_incarnation prev \<and> mr_state d \<le> mr_state prev then Inr s
        else Inr (install (mr_shard_id d) (Some (mr_state prev))
               \<lparr>mr_shard_id = mr_shard_id d, mr_host = mr_host prev,
                mr_udp_port = mr_udp_port prev, mr_state = mr_state d,
                mr_incarnation = mr_incarnation d, mr_model_id = mr_model_id d,
                mr_last_state_change = now,
                mr_suspect_deadline =
                  (if mr_state d = SUSPECT
                   then Some (fadd now (ms_to_s (t_suspect_ms (cfg s)))) else None)\<rparr> now s)))"

fun apply_deltas ::
    "MemberRecord list \<Rightarrow> py_float \<Rightarrow> MembershipState \<Rightarrow> MembershipState result" where
  "apply_deltas [] now s = Inr s"
| "apply_deltas (d # ds) now s =
     ebind (if mr_shard_id d = self_id s then maybe_refute d now s
            else if mr_shard_id d \<notin> set (dkeys (members s)) then Inr s
            else maybe_apply_peer_delta d now s)
       (apply_deltas ds now)"

section \<open>Probing\<close>

definition maybe_escalate_helpers :: "PendingProbe \<Rightarrow> MembershipState \<Rightarrow> string list" where
  "maybe_escalate_helpers probe s =
     map mr_shard_id (filter (\<lambda>r. mr_shard_id r \<noteq> self_id s \<and> mr_shard_id r \<noteq> pp_target_id probe \<and>
                                mr_state r = ALIVE) (dvalues (members s)))"

fun send_pingreqs :: "PendingProbe \<Rightarrow> string list \<Rightarrow> MembershipState \<Rightarrow>
    (OutgoingMessage list \<times> MembershipState) result" where
  "send_pingreqs probe [] s = Inr ([], s)"
| "send_pingreqs probe (helper # hs) s =
     ebind (select_outgoing_deltas s) (\<lambda>(ds, s1).
     ebind (send_pingreqs probe hs s1) (\<lambda>(out, s2).
       Inr (\<lparr>om_target_shard_id = helper,
             om_payload = PingReqMsg0 (self_id s) (pp_target_id probe) (pp_probe_id probe) ds\<rparr> # out,
            s2)))"

definition maybe_escalate_probe ::
    "py_float \<Rightarrow> MembershipState \<Rightarrow> (OutgoingMessage list \<times> MembershipState) result" where
  "maybe_escalate_probe now s =
     (case pending_probe s of
        None \<Rightarrow> Inr ([], s)
      | Some probe \<Rightarrow>
          if pp_indirect_sent_at probe \<noteq> None then Inr ([], s)
          else if now < fadd (pp_sent_at probe) (ms_to_s (t_timeout_ms (cfg s))) then Inr ([], s)
          else
            let (candidates, r') = rng_shuffle (maybe_escalate_helpers probe s) (ms_rng s);
                chosen = slice_to (k_indirect (cfg s)) candidates
            in ebind (send_pingreqs probe chosen (s\<lparr>ms_rng := r'\<rparr>)) (\<lambda>(out, s1).
               let s2 = s1\<lparr>pending_probe := Some (probe\<lparr>pp_indirect_sent_at := Some now,
                                                     pp_indirect_targets := chosen\<rparr>)\<rparr>
               in if chosen = []
                  then ebind (mark_suspect (pp_target_id probe) now s2) (\<lambda>s3.
                         Inr (out, s3\<lparr>pending_probe := None\<rparr>))
                  else Inr (out, s2)))"

definition probe_candidates :: "MembershipState \<Rightarrow> string list" where
  "probe_candidates s =
     map mr_shard_id (filter (\<lambda>r. mr_shard_id r \<noteq> self_id s \<and> mr_state r = ALIVE)
                             (dvalues (members s)))"

definition start_protocol_period ::
    "py_float \<Rightarrow> MembershipState \<Rightarrow> (OutgoingMessage list \<times> MembershipState) result" where
  "start_protocol_period now s =
     ebind (case pending_probe s of
              None \<Rightarrow> Inr s
            | Some prev \<Rightarrow>
                if pp_indirect_sent_at prev \<noteq> None \<and> \<not> pp_indirect_success_seen prev
                then mark_suspect (pp_target_id prev) now s else Inr s)
       (\<lambda>s0. let s1 = s0\<lparr>pending_probe := None\<rparr>; candidates = probe_candidates s1 in
          if candidates = []
          then Inr ([], s1\<lparr>next_period_at := fadd now (ms_to_s (t_ping_ms (cfg s1)))\<rparr>)
          else ebind (choice candidates (ms_rng s1)) (\<lambda>(target, r').
            let cnt = probe_counter s1 + 1;
                pid = self_id s1 @ '':'' @ show_int cnt;
                s2 = s1\<lparr>ms_rng := r', probe_counter := cnt,
                        pending_probe := Some \<lparr>pp_probe_id = pid, pp_target_id = target,
                          pp_sent_at = now, pp_indirect_sent_at = None,
                          pp_indirect_targets = [], pp_indirect_acks = 0,
                          pp_indirect_success_seen = False\<rparr>,
                        next_period_at := fadd now (ms_to_s (t_ping_ms (cfg s1)))\<rparr>
            in ebind (select_outgoing_deltas s2) (\<lambda>(ds, s3).
                 Inr ([\<lparr>om_target_shard_id = target,
                         om_payload = PingMsg0 (self_id s3) (self_incarnation s3) ds\<rparr>], s3))))"

text \<open>One loop serves \<^verbatim>\<open>_handle_ack\<close> and \<^verbatim>\<open>_maybe_timeout_helps\<close>: the help
  requests selected by the condition are answered, the others are kept.\<close>

fun answer_helps :: "(PendingHelp \<Rightarrow> bool) \<Rightarrow> bool \<Rightarrow> PendingHelp list \<Rightarrow> MembershipState \<Rightarrow>
    (OutgoingMessage list \<times> PendingHelp list \<times> MembershipState) result" where
  "answer_helps sel ok [] s = Inr ([], [], s)"
| "answer_helps sel ok (h # hs) s =
     (if sel h
      then ebind (select_outgoing_deltas s) (\<lambda>(ds, s1).
           ebind (answer_helps sel ok hs s1) (\<lambda>(out, remaining, s2).
             Inr (\<lparr>om_target_shard_id = ph_requester_id h,
                   om_payload = PingReqAckMsg0 (self_id s) (ph_target_id h) (ph_probe_id h) ok ds\<rparr>
                  # out, remaining, s2)))
      else ebind (answer_helps sel ok hs s) (\<lambda>(out, remaining, s2).
             Inr (out, h # remaining, s2)))"

definition maybe_timeout_helps ::
    "py_float \<Rightarrow> MembershipState \<Rightarrow> (OutgoingMessage list \<times> MembershipState) result" where
  "maybe_timeout_helps now s =
     ebind (answer_helps (\<lambda>h. fadd (ph_sent_at h) (ms_to_s (t_timeout_ms (cfg s))) \<le> now) False
              (pending_helps s) s)
       (\<lambda>(out, remaining, s1). Inr (out, s1\<lparr>pending_helps := remaining\<rparr>))"

definition tick :: "py_float \<Rightarrow> MembershipState \<Rightarrow> (OutgoingMessage list \<times> MembershipState) result" where
  "tick now s =
     ebind (maybe_timeout_helps now (gc_backlog now s)) (\<lambda>(out1, s1).
     let s2 = maybe_promote_dead now s1 in
     ebind (if next_period_at s2 \<le> now then start_protocol_period now s2 else Inr ([], s2))
       (\<lambda>(out3, s3).
     ebind (maybe_escalate_probe now s3) (\<lambda>(out4, s4).
       Inr (out1 @ out3 @ out4, s4))))"

section \<open>Message handlers\<close>

definition handle_ping ::
    "PingMsg \<Rightarrow> py_float \<Rightarrow> MembershipState \<Rightarrow> (OutgoingMessage list \<times> MembershipState) result" where
  "handle_ping msg now s =
     (if pi_from_shard_id msg \<notin> set (dkeys (members s)) then Inr ([], s)
      else let s1 = maybe_promote_sender_alive (pi_from_shard_id msg) (pi_from_incarnation msg) now s in
           ebind (apply_deltas (pi_deltas msg) now s1) (\<lambda>s2.
           ebind (select_outgoing_deltas s2) (\<lambda>(ds, s3).
             Inr ([\<lparr>om_target_shard_id = pi_from_shard_id msg,
                     om_payload = AckMsg0 (self_id s3) (self_incarnation s3) ds\<rparr>], s3))))"

definition handle_ack ::
    "AckMsg \<Rightarrow> py_float \<Rightarrow> MembershipState \<Rightarrow> (OutgoingMessage list \<times> MembershipState) result" where
  "handle_ack msg now s =
     (let s0 = (case pending_probe s of
                  None \<Rightarrow> s
                | Some probe \<Rightarrow> if pp_target_id probe = ac_from_shard_id msg
                                then s\<lparr>pending_probe := None\<rparr> else s);
          s1 = maybe_promote_sender_alive (ac_from_shard_id msg) (ac_from_incarnation msg) now s0
      in ebind (apply_deltas (ac_deltas msg) now s1) (\<lambda>s2.
         ebind (answer_helps (\<lambda>h. ph_target_id h = ac_from_shard_id msg) True (pending_helps s2) s2)
           (\<lambda>(out, remaining, s3). Inr (out, s3\<lparr>pending_helps := remaining\<rparr>))))"

definition handle_pingreq ::
    "PingReqMsg \<Rightarrow> py_float \<Rightarrow> MembershipState \<Rightarrow> (OutgoingMessage list \<times> MembershipState) result" where
  "handle_pingreq msg now s =
     (if pr_target_shard_id msg \<notin> set (dkeys (members s)) then Inr ([], s)
      else let s1 = s\<lparr>pending_helps := pending_helps s @
                  [\<lparr>ph_probe_id = pr_probe_id msg, ph_target_id = pr_target_shard_id msg,
                    ph_requester_id = pr_from_shard_id msg, ph_sent_at = now\<rparr>]\<rparr> in
           ebind (select_outgoing_deltas s1) (\<lambda>(ds, s2).
             Inr ([\<lparr>om_target_shard_id = pr_target_shard_id msg,
                     om_payload = PingMsg0 (self_id s2) (self_incarnation s2) ds\<rparr>], s2)))"

definition handle_pingreqack ::
    "PingReqAckMsg \<Rightarrow> py_float \<Rightarrow> MembershipState \<Rightarrow> (OutgoingMessage list \<times> MembershipState) result" where
  "handle_pingreqack msg now s =
     (case pending_probe s of
        None \<Rightarrow> Inr ([], s)
      | Some probe \<Rightarrow>
          if pp_probe_id probe \<noteq> pa_probe_id msg then Inr ([], s)
          else if pa_success msg then Inr ([], s\<lparr>pending_probe := None\<rparr>)
          else
            let new_acks = pp_indirect_acks probe + 1;
                new_success = (pp_indirect_success_seen probe \<or> pa_success msg)
            in if int (length (pp_indirect_targets probe)) \<le> new_acks \<and> \<not> new_success
               then ebind (mark_suspect (pp_target_id probe) now s) (\<lambda>s1.
                      Inr ([], s1\<lparr>pending_probe := None\<rparr>))
               else Inr ([], s\<lparr>pending_probe := Some (probe\<lparr>pp_indirect_acks := new_acks,
                                    pp_indirect_success_seen := new_success\<rparr>)\<rparr>))"

definition handle_join ::
    "JoinMsg \<Rightarrow> py_float \<Rightarrow> MembershipState \<Rightarrow> (OutgoingMessage list \<times> MembershipState) result" where
  "handle_join msg now s =
     (let rec = jo_self_record msg in
      if \<not> admit s rec then Inr ([], s)
      else
        let prev = dget (members s) (mr_shard_id rec);
            installed = \<lparr>mr_shard_id = mr_shard_id rec, mr_host = mr_host rec,
                         mr_udp_port = mr_udp_port rec, mr_state = ALIVE,
                         mr_incarnation = mr_incarnation rec, mr_model_id = mr_model_id rec,
                         mr_last_state_change = now, mr_suspect_deadline = None\<rparr>;
            s1 = (if (case prev of None \<Rightarrow> False
                      | Some p \<Rightarrow> mr_state p = DEAD \<and> mr_incarnation rec < mr_incarnation p)
                  then s
                  else install (mr_shard_id rec) (map_option mr_state prev) installed now s)
        in Inr ([\<lparr>om_target_shard_id = mr_shard_id rec,
                   om_payload = MembershipDelta \<lparr>md_members = dvalues (members s1)\<rparr>\<rparr>], s1))"

fun handle_delta_loop ::
    "MemberRecord list \<Rightarrow> py_float \<Rightarrow> MembershipState \<Rightarrow> MembershipState result" where
  "handle_delta_loop [] now s = Inr s"
| "handle_delta_loop (rec # rs) now s =
     ebind (if mr_shard_id rec = self_id s then maybe_refute rec now s
            else case dget (members s) (mr_shard_id rec) of
                   None \<Rightarrow> if \<not> admit s rec then Inr s
                           else Inr (install (mr_shard_id rec) None rec now s)
                 | Some _ \<Rightarrow> maybe_apply_peer_delta rec now s)
       (handle_delta_loop rs now)"

definition handle_delta ::
    "MembershipDeltaMsg \<Rightarrow> py_float \<Rightarrow> MembershipState \<Rightarrow>
      (OutgoingMessage list \<times> MembershipState) result" where
  "handle_delta msg now s =
     ebind (handle_delta_loop (md_members msg) now s) (\<lambda>s'. Inr ([], s'))"

definition recv ::
    "IncomingMessage \<Rightarrow> py_float \<Rightarrow> MembershipState \<Rightarrow> (OutgoingMessage list \<times> MembershipState) result" where
  "recv msg now s = (case msg of
       Ping m \<Rightarrow> handle_ping m now s
     | Ack m \<Rightarrow> handle_ack m now s
     | PingReq m \<Rightarrow> handle_pingreq m now s
     | PingReqAck m \<Rightarrow> handle_pingreqack m now s
     | Join m \<Rightarrow> handle_join m now s
     | MembershipDelta m \<Rightarrow> handle_delta m now s)"

section \<open>Construction and the read-only interface\<close>

definition initial_record :: "string \<Rightarrow> int \<Rightarrow> string \<Rightarrow> PeerSpec \<Rightarrow> MemberRecord" where
  "initial_record own inc mid p =
     \<lparr>mr_shard_id = ps_shard_id p, mr_host = ps_host p, mr_udp_port = ps_udp_port p,
      mr_state = ALIVE, mr_incarnation = (if ps_shard_id p = own then inc else 0),
      mr_model_id = mid, mr_last_state_change = 0, mr_suspect_deadline = None\<rparr>"

definition init_state :: "PeerSpec \<Rightarrow> PeerSpec list \<Rightarrow> rng \<Rightarrow> SwimConfig \<Rightarrow> string \<Rightarrow> int \<Rightarrow>
    MembershipState" where
  "init_state self_spec peer_specs r c mid initial_incarnation =
     (let own = ps_shard_id self_spec;
          s = \<lparr>self_id = own, self_incarnation = initial_incarnation, cfg = c, ms_rng = r,
               local_model_id = mid,
               addrs = fold (\<lambda>p. dput (ps_shard_id p) p) peer_specs [(own, self_spec)],
               members = fold (\<lambda>p. dput (ps_shard_id p)
                   (initial_record own initial_incarnation mid p)) (self_spec # peer_specs) [],
               transitions = [],
               next_period_at = fdiv (float_of_int (t_ping_ms c)) 1000,
               pending_probe = None, probe_counter = 0, pending_helps = [], backlog = [],
               backlog_seq = 0\<rparr>
      in if 0 < initial_incarnation
         then (case dget (members s) own of
                 None \<Rightarrow> s
               | Some rec \<Rightarrow> enqueue_backlog rec 0 s)
         else s)"

definition view :: "MembershipState \<Rightarrow> (string, MemberRecord) dict" where
  "view s = members s"

definition changes_since :: "nat \<Rightarrow> MembershipState \<Rightarrow> StateTransition list" where
  "changes_since watermark s = drop watermark (transitions s)"

definition transition_watermark :: "MembershipState \<Rightarrow> nat" where
  "transition_watermark s = length (transitions s)"

end
