(* ===== verification/Swim_Inv.thy ===== *)
theory Swim_Inv
  imports Swim
begin

text \<open>
  The invariant of the SWIM state machine, that every operation keeps it and raises no
  exception, and the transition log.

  \<^verbatim>\<open>evolves j s s'\<close> is what one or more operations may do to a well-formed state: the
  identity, configuration and addresses stay, the new state is well formed, and the transitions
  appended to the log replay the old view into the new one (\<^verbatim>\<open>log_ok\<close>), each by an
  admissible change (\<^verbatim>\<open>change_ok\<close>; \<^verbatim>\<open>j\<close> says whether a join is among them).  It is
  reflexive and transitive, so each operation is treated by composing its parts.
\<close>

declare map_of_eq_Some_iff [simp del] Some_eq_map_of_iff [simp del]

section \<open>The invariant\<close>

definition members_ok :: "string \<Rightarrow> (string, MemberRecord) dict \<Rightarrow> bool" where
  "members_ok own m \<longleftrightarrow>
     distinct (dkeys m) \<and>
     (\<forall>k r. dget m k = Some r \<longrightarrow> mr_shard_id r = k) \<and>
     (\<exists>r. dget m own = Some r \<and> mr_state r = ALIVE)"

definition probe_ok :: "string \<Rightarrow> (string, MemberRecord) dict \<Rightarrow> PendingProbe option \<Rightarrow> bool" where
  "probe_ok own m p = (case p of None \<Rightarrow> True
     | Some q \<Rightarrow> pp_target_id q \<noteq> own \<and> pp_target_id q \<in> set (dkeys m))"

definition entry_key :: "BacklogEntry \<Rightarrow> MemberRecord \<times> int" where
  "entry_key b = (be_record b, be_seq b)"

definition backlog_ok :: "BacklogEntry list \<Rightarrow> int \<Rightarrow> bool" where
  "backlog_ok bl n \<longleftrightarrow>
     distinct (map (mr_shard_id \<circ> fst) (map entry_key bl)) \<and>
     distinct (map snd (map entry_key bl)) \<and>
     (\<forall>p \<in> set (map entry_key bl). snd p < n)"

definition swim_wf :: "MembershipState \<Rightarrow> bool" where
  "swim_wf s \<longleftrightarrow>
     members_ok (self_id s) (members s) \<and>
     probe_ok (self_id s) (members s) (pending_probe s) \<and>
     backlog_ok (backlog s) (backlog_seq s) \<and>
     0 \<le> probe_counter s"

section \<open>The transition log\<close>

text \<open>A log is right for a view when each entry names the state its member had at that point
  and storing the new records one after the other gives the final view.\<close>

fun log_ok :: "(string \<rightharpoonup> MemberRecord) \<Rightarrow> StateTransition list \<Rightarrow> (string \<rightharpoonup> MemberRecord) \<Rightarrow> bool" where
  "log_ok m [] m' \<longleftrightarrow> m' = m"
| "log_ok m (t # ts) m' \<longleftrightarrow>
     st_old_state t = map_option mr_state (m (st_shard_id t)) \<and>
     mr_shard_id (st_new_record t) = st_shard_id t \<and>
     log_ok (m(st_shard_id t \<mapsto> st_new_record t)) ts m'"

text \<open>What a single change of a record may do: the model identity is kept or admitted, and the
  incarnation of a peer does not go back, unless the change is a join (\<^verbatim>\<open>j\<close>).\<close>

definition change_ok :: "bool \<Rightarrow> string \<Rightarrow> string \<Rightarrow> string \<Rightarrow> MemberRecord option \<Rightarrow> MemberRecord \<Rightarrow> bool" where
  "change_ok j own mid k old new \<longleftrightarrow>
     (mid = [] \<or> mr_model_id new = mid \<or> map_option mr_model_id old = Some (mr_model_id new)) \<and>
     (j \<or> k = own \<or> (case old of None \<Rightarrow> True | Some r \<Rightarrow> mr_incarnation r \<le> mr_incarnation new))"

fun changes_ok :: "bool \<Rightarrow> string \<Rightarrow> string \<Rightarrow> (string \<rightharpoonup> MemberRecord) \<Rightarrow> StateTransition list \<Rightarrow> bool" where
  "changes_ok j own mid m [] \<longleftrightarrow> True"
| "changes_ok j own mid m (t # ts) \<longleftrightarrow>
     change_ok j own mid (st_shard_id t) (m (st_shard_id t)) (st_new_record t) \<and>
     changes_ok j own mid (m(st_shard_id t \<mapsto> st_new_record t)) ts"

definition evolves :: "bool \<Rightarrow> MembershipState \<Rightarrow> MembershipState \<Rightarrow> bool" where
  "evolves j s s' \<longleftrightarrow>
     self_id s' = self_id s \<and> cfg s' = cfg s \<and> local_model_id s' = local_model_id s \<and>
     addrs s' = addrs s \<and> swim_wf s' \<and>
     (\<exists>ts. transitions s' = transitions s @ ts \<and>
           log_ok (dget (members s)) ts (dget (members s')) \<and>
           changes_ok j (self_id s) (local_model_id s) (dget (members s)) ts)"

text \<open>Runs: what the runner does to the state machine, in any order and with any input.\<close>

inductive swim_step :: "MembershipState \<Rightarrow> OutgoingMessage list \<Rightarrow> MembershipState \<Rightarrow> bool" where
  step_tick: "tick now s = Inr (out, s') \<Longrightarrow> swim_step s out s'"
| step_recv: "recv msg now s = Inr (out, s') \<Longrightarrow> swim_step s out s'"

inductive swim_run :: "MembershipState \<Rightarrow> MembershipState \<Rightarrow> bool" where
  run_refl: "swim_run s s"
| run_step: "swim_run s t \<Longrightarrow> swim_step t out u \<Longrightarrow> swim_run s u"

inductive_simps swim_step_iff: "swim_step s out s'"

lemma log_ok_append: "log_ok m ts m' \<Longrightarrow> log_ok m' us m'' \<Longrightarrow> log_ok m (ts @ us) m''"
  by (induction ts arbitrary: m) auto

lemma log_ok_fold:
  "log_ok m ts m' \<Longrightarrow> m' = fold (\<lambda>t m. m(st_shard_id t \<mapsto> st_new_record t)) ts m"
  by (induction ts arbitrary: m) auto

lemma changes_ok_append:
  "log_ok m ts m' \<Longrightarrow> changes_ok j own mid m ts \<Longrightarrow> changes_ok j own mid m' us \<Longrightarrow>
     changes_ok j own mid m (ts @ us)"
  by (induction ts arbitrary: m) auto

lemma evolves_wf: "evolves j s s' \<Longrightarrow> swim_wf s'"
  by (simp add: evolves_def)

lemma evolves_frame:
  "evolves j s s' \<Longrightarrow> self_id s' = self_id s \<and> cfg s' = cfg s \<and>
     local_model_id s' = local_model_id s \<and> addrs s' = addrs s"
  by (simp add: evolves_def)

lemma evolves_refl: "swim_wf s \<Longrightarrow> evolves j s s"
  by (auto simp: evolves_def intro: exI [of _ "[]"])

lemma evolves_trans: "evolves j s t \<Longrightarrow> evolves j t u \<Longrightarrow> evolves j s u"
  by (auto simp: evolves_def intro: log_ok_append changes_ok_append)

text \<open>Bookkeeping that touches neither the view nor the log.\<close>

lemma evolves_same_view:
  assumes "swim_wf s'" and "self_id s' = self_id s" and "cfg s' = cfg s"
    and "local_model_id s' = local_model_id s" and "addrs s' = addrs s"
    and "transitions s' = transitions s" and "members s' = members s"
  shows "evolves j s s'"
  using assms by (auto simp: evolves_def intro: exI [of _ "[]"])

lemma wf_self: "swim_wf s \<Longrightarrow> \<exists>r. dget (members s) (self_id s) = Some r \<and> mr_state r = ALIVE"
  by (simp add: swim_wf_def members_ok_def)

lemma wf_key: "swim_wf s \<Longrightarrow> dget (members s) k = Some r \<Longrightarrow> mr_shard_id r = k"
  by (simp add: swim_wf_def members_ok_def)

lemma wf_distinct: "swim_wf s \<Longrightarrow> distinct (dkeys (members s))"
  by (simp add: swim_wf_def members_ok_def)

lemma backlog_ok_mset:
  assumes "backlog_ok bl n" and "mset (map entry_key bl') = mset (map entry_key bl)"
  shows "backlog_ok bl' n"
proof -
  have "distinct (map (mr_shard_id \<circ> fst) (map entry_key bl')) =
        distinct (map (mr_shard_id \<circ> fst) (map entry_key bl))"
    by (rule mset_eq_imp_distinct_iff) (metis assms(2) mset_map)
  moreover have "distinct (map snd (map entry_key bl')) = distinct (map snd (map entry_key bl))"
    by (rule mset_eq_imp_distinct_iff) (metis assms(2) mset_map)
  moreover have "set (map entry_key bl') = set (map entry_key bl)"
    using assms(2) by (metis set_mset_mset)
  ultimately show ?thesis using assms(1) unfolding backlog_ok_def by simp
qed

lemma backlog_ok_filter: "backlog_ok bl n \<Longrightarrow> backlog_ok (filter P bl) n"
  by (auto simp: backlog_ok_def intro: distinct_map_filter)

lemma probe_ok_mono:
  "probe_ok own m p \<Longrightarrow> set (dkeys m) \<subseteq> set (dkeys m') \<Longrightarrow> probe_ok own m' p"
  by (auto simp: probe_ok_def split: option.splits)


section \<open>Every operation evolves a well-formed state\<close>

lemma enqueue_fields [simp]:
  "members (enqueue_backlog r now s) = members s"
  "transitions (enqueue_backlog r now s) = transitions s"
  "self_id (enqueue_backlog r now s) = self_id s"
  "cfg (enqueue_backlog r now s) = cfg s"
  "local_model_id (enqueue_backlog r now s) = local_model_id s"
  "addrs (enqueue_backlog r now s) = addrs s"
  "pending_probe (enqueue_backlog r now s) = pending_probe s"
  "pending_helps (enqueue_backlog r now s) = pending_helps s"
  "probe_counter (enqueue_backlog r now s) = probe_counter s"
  "self_incarnation (enqueue_backlog r now s) = self_incarnation s"
  "next_period_at (enqueue_backlog r now s) = next_period_at s"
  "ms_rng (enqueue_backlog r now s) = ms_rng s"
  by (simp_all add: enqueue_backlog_def)

lemma install_fields [simp]:
  "members (install sid old new now s) = dput sid new (members s)"
  "transitions (install sid old new now s) = transitions s @
     [\<lparr>st_shard_id = sid, st_old_state = old, st_new_record = new\<rparr>]"
  "self_id (install sid old new now s) = self_id s"
  "cfg (install sid old new now s) = cfg s"
  "local_model_id (install sid old new now s) = local_model_id s"
  "addrs (install sid old new now s) = addrs s"
  "pending_probe (install sid old new now s) = pending_probe s"
  "pending_helps (install sid old new now s) = pending_helps s"
  "probe_counter (install sid old new now s) = probe_counter s"
  "self_incarnation (install sid old new now s) = self_incarnation s"
  "next_period_at (install sid old new now s) = next_period_at s"
  "ms_rng (install sid old new now s) = ms_rng s"
  by (simp_all add: install_def)

lemma backlog_ok_enqueue:
  assumes "backlog_ok (backlog s) (backlog_seq s)"
  shows "backlog_ok (backlog (enqueue_backlog r now s)) (backlog_seq (enqueue_backlog r now s))"
  using assms
  by (force simp: backlog_ok_def enqueue_backlog_def entry_key_def distinct_map_filter)

lemma evolves_install:
  assumes "swim_wf s" and "mr_shard_id new = sid" and "sid = self_id s \<longrightarrow> mr_state new = ALIVE"
    and "old = map_option mr_state (dget (members s) sid)"
    and "change_ok j (self_id s) (local_model_id s) sid (dget (members s) sid) new"
  shows "evolves j s (install sid old new now s)"
proof -
  have "members_ok (self_id s) (dput sid new (members s))"
    using assms(1-3) by (auto simp: swim_wf_def members_ok_def)
  moreover have "probe_ok (self_id s) (dput sid new (members s)) (pending_probe s)"
    using assms(1) by (rule_tac probe_ok_mono) (auto simp: swim_wf_def)
  moreover have "backlog_ok (backlog (install sid old new now s)) (backlog_seq (install sid old new now s))"
    using assms(1) by (simp add: install_def swim_wf_def backlog_ok_enqueue)
  ultimately have "swim_wf (install sid old new now s)"
    using assms(1) by (simp add: swim_wf_def)
  then show ?thesis
    using assms(2,4,5) by (simp add: evolves_def)
qed

lemma evolves_gc_backlog: "swim_wf s \<Longrightarrow> evolves j s (gc_backlog now s)"
  by (rule evolves_same_view) (simp_all add: gc_backlog_def Let_def swim_wf_def backlog_ok_filter)

lemma map_entry_key_bump: "map entry_key (map (\<lambda>b. b\<lparr>be_priority := f b\<rparr>) xs) = map entry_key xs"
  by (simp add: entry_key_def)

lemma slice_to_drop: "slice_to k xs @ drop (length (slice_to k xs)) xs = xs"
  by (simp add: slice_to_def) (metis append_take_drop_id min.commute min_def nat_le_linear take_all_iff drop_eq_Nil2)

lemma select_deltas_evolves:
  assumes "swim_wf s"
  shows "\<exists>ds s'. select_outgoing_deltas s = Inr (ds, s') \<and> evolves j s s' \<and>
    s' = s\<lparr>backlog := backlog s'\<rparr> \<and> dget (members s) (self_id s) = Some (hd ds) \<and> ds \<noteq> [] \<and>
    (0 \<le> k_gossip (cfg s) \<longrightarrow> length ds \<le> 1 + nat (k_gossip (cfg s)))"
proof -
  obtain own where own: "dget (members s) (self_id s) = Some own" using wf_self [OF assms] by blast
  define srt where "srt = sort_key (\<lambda>b. (be_priority b, be_seq b)) (backlog s)"
  define chosen where "chosen = slice_to (k_gossip (cfg s)) srt"
  define bl where "bl = map (\<lambda>b. b\<lparr>be_priority := be_priority b + 1\<rparr>) chosen @ drop (length chosen) srt"
  have sel: "select_outgoing_deltas s = Inr (own # map be_record chosen, s\<lparr>backlog := bl\<rparr>)"
    using own by (simp add: select_outgoing_deltas_def Let_def srt_def chosen_def bl_def dindex_def)
  have "map entry_key bl = map entry_key (chosen @ drop (length chosen) srt)"
    unfolding bl_def map_append map_entry_key_bump ..
  also have "\<dots> = map entry_key srt" by (simp only: chosen_def slice_to_drop)
  finally have "mset (map entry_key bl) = mset (map entry_key (backlog s))"
    by (simp add: srt_def)
  with assms have "swim_wf (s\<lparr>backlog := bl\<rparr>)"
    by (auto simp: swim_wf_def intro: backlog_ok_mset)
  then have "evolves j s (s\<lparr>backlog := bl\<rparr>)" by (rule evolves_same_view) simp_all
  moreover have "0 \<le> k_gossip (cfg s) \<Longrightarrow> length chosen \<le> nat (k_gossip (cfg s))"
    by (simp add: chosen_def length_slice_to)
  ultimately show ?thesis using sel own by auto
qed


lemma mark_suspect_evolves:
  assumes "swim_wf s" and "sid \<in> set (dkeys (members s))" and "sid \<noteq> self_id s"
  shows "\<exists>s'. mark_suspect sid now s = Inr s' \<and> evolves j s s' \<and> pending_probe s' = pending_probe s"
proof -
  obtain prev where prev: "dget (members s) sid = Some prev" using dkey_get [OF assms(2)] by blast
  show ?thesis
    using assms prev
    by (auto simp: mark_suspect_def dindex_def evolves_refl change_ok_def intro!: evolves_install)
qed

lemma promote_dead_step_evolves:
  assumes "swim_wf s" and "dget (members s) sid = Some rec"
  shows "evolves j s (promote_dead_step now (sid, rec) s)"
proof (cases "deadline_passed now rec")
  case True
  then have "mr_state rec = SUSPECT" by (simp add: deadline_passed_def)
  moreover from this have "sid \<noteq> self_id s" using wf_self [OF assms(1)] assms(2) by auto
  ultimately show ?thesis
    using True assms by (auto simp: promote_dead_step_def change_ok_def intro!: evolves_install)
qed (simp add: promote_dead_step_def evolves_refl assms(1))

lemma promote_dead_step_other:
  "k \<noteq> sid \<Longrightarrow> dget (members (promote_dead_step now (sid, rec) s)) k = dget (members s) k"
  by (simp add: promote_dead_step_def)

lemma fold_promote_dead_evolves:
  assumes "swim_wf s" and "distinct (dkeys ps)" and "\<forall>(k, r) \<in> set ps. dget (members s) k = Some r"
  shows "evolves j s (fold (promote_dead_step now) ps s)"
  using assms
proof (induction ps arbitrary: s)
  case Nil
  then show ?case by (simp add: evolves_refl)
next
  case (Cons p ps)
  obtain sid rec where p: "p = (sid, rec)" by (cases p)
  let ?s' = "promote_dead_step now (sid, rec) s"
  have ev: "evolves j s ?s'" using Cons.prems p by (intro promote_dead_step_evolves) auto
  have "\<forall>(k, r) \<in> set ps. dget (members ?s') k = Some r"
  proof clarify
    fix k r assume kr: "(k, r) \<in> set ps"
    with Cons.prems(2) p have "k \<noteq> sid" by force
    with kr Cons.prems(3) show "dget (members ?s') k = Some r" by (auto simp: promote_dead_step_other)
  qed
  then have "evolves j ?s' (fold (promote_dead_step now) ps ?s')"
    using Cons.prems p evolves_wf [OF ev] by (intro Cons.IH) auto
  with ev show ?case by (auto simp: p intro: evolves_trans)
qed

lemma maybe_promote_dead_evolves: "swim_wf s \<Longrightarrow> evolves j s (maybe_promote_dead now s)"
  unfolding maybe_promote_dead_def
  by (rule fold_promote_dead_evolves) (auto simp: wf_distinct dget_in_set [symmetric])

lemma sender_alive_evolves: "swim_wf s \<Longrightarrow> evolves j s (maybe_promote_sender_alive k inc now s)"
  by (auto simp: maybe_promote_sender_alive_def evolves_refl wf_key change_ok_def split: option.split
      intro!: evolves_install)

lemma wf_self_incarnation [simp]: "swim_wf (s\<lparr>self_incarnation := i\<rparr>) = swim_wf s"
  by (simp add: swim_wf_def)

lemma refute_evolves: "swim_wf s \<Longrightarrow> \<exists>s'. maybe_refute d now s = Inr s' \<and> evolves j s s'"
proof -
  assume s: "swim_wf s"
  obtain own where own: "dget (members s) (self_id s) = Some own" using wf_self [OF s] by blast
  let ?s1 = "s\<lparr>self_incarnation := mr_incarnation d + 1\<rparr>"
  have "evolves j s ?s1" using s by (intro evolves_same_view) simp_all
  moreover have "evolves j ?s1 (install (self_id s) (Some (mr_state own)) new now ?s1)"
    if "mr_shard_id new = self_id s" "mr_state new = ALIVE" "mr_model_id new = mr_model_id own" for new
    using that s own by (intro evolves_install) (simp_all add: change_ok_def)
  ultimately show ?thesis
    using s own by (auto simp: maybe_refute_def dindex_def Let_def evolves_refl intro: evolves_trans)
qed

lemma apply_peer_delta_evolves:
  assumes "swim_wf s" and "mr_shard_id d \<in> set (dkeys (members s))" and "mr_shard_id d \<noteq> self_id s"
  shows "\<exists>s'. maybe_apply_peer_delta d now s = Inr s' \<and> evolves j s s'"
proof -
  obtain prev where prev: "dget (members s) (mr_shard_id d) = Some prev"
    using dkey_get [OF assms(2)] by blast
  show ?thesis
    using assms prev
    by (auto simp: maybe_apply_peer_delta_def dindex_def evolves_refl change_ok_def admit_def intro!: evolves_install)
qed

lemma apply_delta_evolves:
  "swim_wf s \<Longrightarrow> \<exists>s'. (if mr_shard_id d = self_id s then maybe_refute d now s
            else if mr_shard_id d \<notin> set (dkeys (members s)) then Inr s
            else maybe_apply_peer_delta d now s) = Inr s' \<and> evolves j s s'"
  using refute_evolves [of s d now] apply_peer_delta_evolves [of s d now] by (auto intro: evolves_refl)

lemma apply_deltas_evolves: "swim_wf s \<Longrightarrow> \<exists>s'. apply_deltas ds now s = Inr s' \<and> evolves j s s'"
proof (induction ds arbitrary: s)
  case (Cons d ds)
  from apply_delta_evolves [OF Cons.prems, of d now] obtain s1 where
    s1: "(if mr_shard_id d = self_id s then maybe_refute d now s
            else if mr_shard_id d \<notin> set (dkeys (members s)) then Inr s
            else maybe_apply_peer_delta d now s) = Inr s1" "evolves j s s1" by blast
  from Cons.IH [OF evolves_wf [OF s1(2)]] obtain s2 where
    "apply_deltas ds now s1 = Inr s2" "evolves j s1 s2" by blast
  with s1 show ?case by (auto simp only: apply_deltas.simps ebind_Inr intro: evolves_trans)
qed (simp add: evolves_refl)


text \<open>The loops that attach gossip to a batch of messages only reorder the backlog.\<close>

lemma send_pingreqs_evolves:
  "swim_wf s \<Longrightarrow> \<exists>out s'. send_pingreqs probe hs s = Inr (out, s') \<and> evolves j s s' \<and>
     pending_probe s' = pending_probe s \<and> map om_target_shard_id out = hs"
proof (induction hs arbitrary: s)
  case (Cons h hs)
  from select_deltas_evolves [OF Cons.prems] obtain ds s1 where
    s1: "select_outgoing_deltas s = Inr (ds, s1)" "evolves j s s1" "s1 = s\<lparr>backlog := backlog s1\<rparr>"
    by blast
  from Cons.IH [OF evolves_wf [OF s1(2)]] obtain out s2 where
    "send_pingreqs probe hs s1 = Inr (out, s2)" "evolves j s1 s2" "pending_probe s2 = pending_probe s1"
    "map om_target_shard_id out = hs" by blast
  moreover have "pending_probe s1 = pending_probe s" by (subst s1(3)) simp
  ultimately show ?case using s1(1,2) by (auto intro: evolves_trans)
qed (simp add: evolves_refl)

lemma answer_helps_evolves:
  "swim_wf s \<Longrightarrow> \<exists>out rem s'. answer_helps sel ok hs s = Inr (out, rem, s') \<and> evolves j s s' \<and>
     rem = filter (\<lambda>x. \<not> sel x) hs \<and> map om_target_shard_id out = map ph_requester_id (filter sel hs)"
proof (induction hs arbitrary: s)
  case (Cons h hs)
  show ?case
  proof (cases "sel h")
    case True
    from select_deltas_evolves [OF Cons.prems] obtain ds s1 where
      s1: "select_outgoing_deltas s = Inr (ds, s1)" "evolves j s s1" by blast
    from Cons.IH [OF evolves_wf [OF s1(2)]] obtain out rem s2 where
      "answer_helps sel ok hs s1 = Inr (out, rem, s2)" "evolves j s1 s2" "rem = filter (\<lambda>x. \<not> sel x) hs"
      "map om_target_shard_id out = map ph_requester_id (filter sel hs)" by blast
    with s1 True show ?thesis by (auto intro: evolves_trans)
  next
    case False
    from Cons.IH [OF Cons.prems] obtain out rem s2 where
      "answer_helps sel ok hs s = Inr (out, rem, s2)" "evolves j s s2" "rem = filter (\<lambda>x. \<not> sel x) hs"
      "map om_target_shard_id out = map ph_requester_id (filter sel hs)" by blast
    with False show ?thesis by auto
  qed
qed (simp add: evolves_refl)

lemma probe_ok_None [simp]: "probe_ok own m None"
  by (simp add: probe_ok_def)

lemma evolves_update:
  assumes "evolves j s s'"
  shows "evolves j s (s'\<lparr>pending_helps := hs\<rparr>)" and "evolves j s (s'\<lparr>ms_rng := r\<rparr>)"
    and "evolves j s (s'\<lparr>next_period_at := t\<rparr>)" and "evolves j s (s'\<lparr>pending_probe := None\<rparr>)"
  using assms by (auto simp: evolves_def swim_wf_def)

lemma evolves_probe:
  assumes "evolves j s s'" and "pp_target_id p \<noteq> self_id s'"
    and "pp_target_id p \<in> set (dkeys (members s'))"
  shows "evolves j s (s'\<lparr>pending_probe := Some p\<rparr>)"
proof -
  have "probe_ok (self_id s') (members s') (Some p)" using assms(2,3) by (simp add: probe_ok_def)
  with assms(1) show ?thesis by (auto simp: evolves_def swim_wf_def)
qed

lemma timeout_helps_evolves:
  "swim_wf s \<Longrightarrow> \<exists>out s'. maybe_timeout_helps now s = Inr (out, s') \<and> evolves j s s'"
  using answer_helps_evolves [of s "\<lambda>h. fadd (ph_sent_at h) (ms_to_s (t_timeout_ms (cfg s))) \<le> now"
      False "pending_helps s"]
  by (fastforce simp: maybe_timeout_helps_def intro: evolves_update)

lemma wf_probe:
  "swim_wf s \<Longrightarrow> pending_probe s = Some p \<Longrightarrow>
     pp_target_id p \<noteq> self_id s \<and> pp_target_id p \<in> set (dkeys (members s))"
  by (simp add: swim_wf_def probe_ok_def)

lemma evolves_keys:
  assumes "evolves j s s'" shows "set (dkeys (members s)) \<subseteq> set (dkeys (members s'))"
proof -
  have mono: "log_ok m ts m' \<Longrightarrow> dom m \<subseteq> dom m'" for m ts m'
  proof (induction ts arbitrary: m)
    case (Cons t ts)
    then have "dom (m(st_shard_id t \<mapsto> st_new_record t)) \<subseteq> dom m'"
      by (intro Cons.IH) (simp only: log_ok.simps)
    then show ?case by auto
  qed simp
  from assms obtain ts where "log_ok (dget (members s)) ts (dget (members s'))"
    by (auto simp: evolves_def)
  from mono [OF this] show ?thesis by (simp add: dom_map_of_conv_image_fst)
qed

lemma escalate_evolves:
  assumes s: "swim_wf s"
  shows "\<exists>out s'. maybe_escalate_probe now s = Inr (out, s') \<and> evolves j s s'"
proof (cases "pending_probe s")
  case None
  then show ?thesis by (simp add: maybe_escalate_probe_def evolves_refl s)
next
  case (Some probe)
  show ?thesis
  proof (cases "pp_indirect_sent_at probe \<noteq> None \<or>
      now < fadd (pp_sent_at probe) (ms_to_s (t_timeout_ms (cfg s)))")
    case True
    then show ?thesis using Some by (auto simp: maybe_escalate_probe_def evolves_refl s)
  next
    case False
    obtain cs r' where sh: "rng_shuffle (maybe_escalate_helpers probe s) (ms_rng s) = (cs, r')"
      by (cases "rng_shuffle (maybe_escalate_helpers probe s) (ms_rng s)")
    let ?ch = "slice_to (k_indirect (cfg s)) cs"
    have r: "evolves j s (s\<lparr>ms_rng := r'\<rparr>)" by (intro evolves_update evolves_refl s)
    from send_pingreqs_evolves [OF evolves_wf [OF r], of probe ?ch] obtain out s1 where
      s1: "send_pingreqs probe ?ch (s\<lparr>ms_rng := r'\<rparr>) = Inr (out, s1)" "evolves j (s\<lparr>ms_rng := r'\<rparr>) s1"
      by blast
    have ev1: "evolves j s s1" using r s1(2) by (rule evolves_trans)
    let ?s2 = "s1\<lparr>pending_probe := Some (probe\<lparr>pp_indirect_sent_at := Some now,
                                             pp_indirect_targets := ?ch\<rparr>)\<rparr>"
    have tgt: "pp_target_id probe \<noteq> self_id s1" "pp_target_id probe \<in> set (dkeys (members s1))"
      using wf_probe [OF s Some] evolves_keys [OF ev1] evolves_frame [OF ev1] by auto
    then have ev2: "evolves j s ?s2" by (intro evolves_probe ev1) simp_all
    from mark_suspect_evolves [OF evolves_wf [OF ev2], of "pp_target_id probe" now] tgt obtain s3 where
      "mark_suspect (pp_target_id probe) now ?s2 = Inr s3" "evolves j ?s2 s3" by auto
    then show ?thesis
      using ev2 False Some sh s1(1)
      by (cases "?ch = []") (auto simp: maybe_escalate_probe_def Let_def intro: evolves_update evolves_trans)
  qed
qed


lemma probe_candidates_ok:
  assumes "swim_wf s" and "t \<in> set (probe_candidates s)"
  shows "t \<noteq> self_id s \<and> t \<in> set (dkeys (members s)) \<and>
    (\<exists>r. dget (members s) t = Some r \<and> mr_state r = ALIVE)"
proof -
  from assms(2) obtain p where "p \<in> set (members s)" "t = mr_shard_id (snd p)"
      "mr_shard_id (snd p) \<noteq> self_id s" "mr_state (snd p) = ALIVE"
    unfolding probe_candidates_def by fastforce
  then obtain k r where kr: "(k, r) \<in> set (members s)" "t = mr_shard_id r"
      "t \<noteq> self_id s" "mr_state r = ALIVE"
    using that [of "fst p" "snd p"] by simp
  from kr(1) have get: "dget (members s) k = Some r"
    using dget_in_set [OF wf_distinct [OF assms(1)]] by blast
  moreover have "k = t" using wf_key [OF assms(1) get] kr(2) by simp
  ultimately have "dget (members s) t = Some r" by simp
  with kr(3,4) dget_key [OF this] show ?thesis by blast
qed

lemma start_period_evolves:
  assumes s: "swim_wf s"
  shows "\<exists>out s'. start_protocol_period now s = Inr (out, s') \<and> evolves j s s'"
proof -
  have "\<exists>s0. (case pending_probe s of None \<Rightarrow> Inr s | Some prev \<Rightarrow>
                if pp_indirect_sent_at prev \<noteq> None \<and> \<not> pp_indirect_success_seen prev
                then mark_suspect (pp_target_id prev) now s else Inr s) = Inr s0 \<and> evolves j s s0"
    using mark_suspect_evolves [OF s, of _ now] wf_probe [OF s] evolves_refl [OF s]
    by (fastforce split: option.split)
  then obtain s0 where s0: "(case pending_probe s of None \<Rightarrow> Inr s | Some prev \<Rightarrow>
                if pp_indirect_sent_at prev \<noteq> None \<and> \<not> pp_indirect_success_seen prev
                then mark_suspect (pp_target_id prev) now s else Inr s) = Inr s0" "evolves j s s0"
    by blast
  let ?s1 = "s0\<lparr>pending_probe := None\<rparr>"
  have ev1: "evolves j s ?s1" using s0(2) by (rule evolves_update)
  show ?thesis
  proof (cases "probe_candidates ?s1 = []")
    case True
    with ev1 s0(1) show ?thesis
      by (auto simp: start_protocol_period_def Let_def intro: evolves_update)
  next
    case False
    then obtain t r' where ch: "choice (probe_candidates ?s1) (ms_rng ?s1) = Inr (t, r')"
        "t \<in> set (probe_candidates ?s1)"
      using choice_returns [of "probe_candidates ?s1" "ms_rng ?s1"] by blast
    define s2 where "s2 = ?s1\<lparr>ms_rng := r', probe_counter := probe_counter ?s1 + 1,
        pending_probe := Some \<lparr>pp_probe_id = self_id ?s1 @ '':'' @ show_int (probe_counter ?s1 + 1),
          pp_target_id = t, pp_sent_at = now, pp_indirect_sent_at = None,
          pp_indirect_targets = [], pp_indirect_acks = 0, pp_indirect_success_seen = False\<rparr>,
        next_period_at := fadd now (ms_to_s (t_ping_ms (cfg ?s1)))\<rparr>"
    have "swim_wf s2"
      using evolves_wf [OF ev1] probe_candidates_ok [OF evolves_wf [OF ev1] ch(2)]
      by (simp add: s2_def swim_wf_def probe_ok_def)
    moreover from this have "evolves j ?s1 s2" by (rule evolves_same_view) (simp_all add: s2_def)
    ultimately obtain ds s3 where "select_outgoing_deltas s2 = Inr (ds, s3)" "evolves j ?s1 s3"
      using select_deltas_evolves by (blast intro: evolves_trans)
    with False ch(1) s0(1) ev1 show ?thesis
      by (auto simp: start_protocol_period_def Let_def s2_def intro: evolves_trans)
  qed
qed

lemma tick_evolves:
  assumes s: "swim_wf s"
  shows "\<exists>out s'. tick now s = Inr (out, s') \<and> evolves j s s'"
proof -
  have g: "evolves j s (gc_backlog now s)" using s by (rule evolves_gc_backlog)
  from timeout_helps_evolves [OF evolves_wf [OF g], of now] obtain out1 s1 where
    s1: "maybe_timeout_helps now (gc_backlog now s) = Inr (out1, s1)" "evolves j (gc_backlog now s) s1"
    by blast
  let ?s2 = "maybe_promote_dead now s1"
  have e2: "evolves j s1 ?s2" using evolves_wf [OF s1(2)] by (rule maybe_promote_dead_evolves)
  have "\<exists>out3 s3. (if next_period_at ?s2 \<le> now then start_protocol_period now ?s2
                   else Inr ([], ?s2)) = Inr (out3, s3) \<and> evolves j ?s2 s3"
    using start_period_evolves [OF evolves_wf [OF e2], of now] evolves_refl [OF evolves_wf [OF e2]]
    by auto
  then obtain out3 s3 where s3: "(if next_period_at ?s2 \<le> now then start_protocol_period now ?s2
                   else Inr ([], ?s2)) = Inr (out3, s3)" "evolves j ?s2 s3" by blast
  from escalate_evolves [OF evolves_wf [OF s3(2)], of now] obtain out4 s4 where
    s4: "maybe_escalate_probe now s3 = Inr (out4, s4)" "evolves j s3 s4" by blast
  have "tick now s = Inr (out1 @ out3 @ out4, s4)"
    using s1(1) s3(1) s4(1) by (simp add: tick_def Let_def)
  moreover have "evolves j s s4"
    using g s1(2) e2 s3(2) s4(2) by (blast intro: evolves_trans)
  ultimately show ?thesis by blast
qed


lemma ping_evolves:
  assumes s: "swim_wf s"
  shows "\<exists>out s'. handle_ping msg now s = Inr (out, s') \<and> evolves j s s'"
proof (cases "pi_from_shard_id msg \<in> set (dkeys (members s))")
  case True
  let ?s1 = "maybe_promote_sender_alive (pi_from_shard_id msg) (pi_from_incarnation msg) now s"
  have e1: "evolves j s ?s1" using s by (rule sender_alive_evolves)
  from apply_deltas_evolves [OF evolves_wf [OF e1]] obtain s2 where
    s2: "apply_deltas (pi_deltas msg) now ?s1 = Inr s2" "evolves j ?s1 s2" by blast
  from select_deltas_evolves [OF evolves_wf [OF s2(2)]] obtain ds s3 where
    s3: "select_outgoing_deltas s2 = Inr (ds, s3)" "evolves j s2 s3" by blast
  show ?thesis
    using True e1 s2 s3 by (auto simp: handle_ping_def Let_def intro: evolves_trans)
qed (auto simp: handle_ping_def evolves_refl s)

lemma ack_evolves:
  assumes s: "swim_wf s"
  shows "\<exists>out s'. handle_ack msg now s = Inr (out, s') \<and> evolves j s s'"
proof -
  define s0 where "s0 = (case pending_probe s of None \<Rightarrow> s
      | Some probe \<Rightarrow> if pp_target_id probe = ac_from_shard_id msg
                      then s\<lparr>pending_probe := None\<rparr> else s)"
  have e0: "evolves j s s0"
    by (auto simp: s0_def split: option.split intro: evolves_update evolves_refl s)
  let ?s1 = "maybe_promote_sender_alive (ac_from_shard_id msg) (ac_from_incarnation msg) now s0"
  have e1: "evolves j s0 ?s1" using evolves_wf [OF e0] by (rule sender_alive_evolves)
  from apply_deltas_evolves [OF evolves_wf [OF e1]] obtain s2 where
    s2: "apply_deltas (ac_deltas msg) now ?s1 = Inr s2" "evolves j ?s1 s2" by blast
  from answer_helps_evolves [OF evolves_wf [OF s2(2)]] obtain out remn s3 where
    s3: "answer_helps (\<lambda>h. ph_target_id h = ac_from_shard_id msg) True (pending_helps s2) s2 =
           Inr (out, remn, s3)" "evolves j s2 s3" by blast
  have "handle_ack msg now s = Inr (out, s3\<lparr>pending_helps := remn\<rparr>)"
    using s2(1) s3(1) by (simp add: handle_ack_def Let_def s0_def)
  moreover have "evolves j s s3" using e0 e1 s2(2) s3(2) by (blast intro: evolves_trans)
  ultimately show ?thesis by (auto intro: evolves_update)
qed

lemma pingreq_evolves:
  assumes s: "swim_wf s"
  shows "\<exists>out s'. handle_pingreq msg now s = Inr (out, s') \<and> evolves j s s'"
proof (cases "pr_target_shard_id msg \<in> set (dkeys (members s))")
  case True
  define s1 where "s1 = s\<lparr>pending_helps := pending_helps s @
      [\<lparr>ph_probe_id = pr_probe_id msg, ph_target_id = pr_target_shard_id msg,
        ph_requester_id = pr_from_shard_id msg, ph_sent_at = now\<rparr>]\<rparr>"
  have e1: "evolves j s s1" unfolding s1_def by (intro evolves_update evolves_refl s)
  from select_deltas_evolves [OF evolves_wf [OF e1]] obtain ds s2 where
    "select_outgoing_deltas s1 = Inr (ds, s2)" "evolves j s1 s2" by blast
  with True e1 show ?thesis
    by (auto simp: handle_pingreq_def Let_def s1_def intro: evolves_trans)
qed (auto simp: handle_pingreq_def evolves_refl s)

lemma pingreqack_evolves:
  assumes s: "swim_wf s"
  shows "\<exists>out s'. handle_pingreqack msg now s = Inr (out, s') \<and> evolves j s s'"
proof (cases "pending_probe s")
  case (Some probe)
  from mark_suspect_evolves [OF s, of "pp_target_id probe" now] wf_probe [OF s Some] obtain s1 where
    s1: "mark_suspect (pp_target_id probe) now s = Inr s1" "evolves j s s1" by blast
  then have "evolves j s (s1\<lparr>pending_probe := None\<rparr>)" by (intro evolves_update)
  moreover have "evolves j s (s\<lparr>pending_probe := Some q\<rparr>)" if "pp_target_id q = pp_target_id probe" for q
    using that wf_probe [OF s Some] by (intro evolves_probe evolves_refl s) simp_all
  ultimately show ?thesis
    using Some s1(1) evolves_refl [OF s]
    by (auto simp: handle_pingreqack_def Let_def intro: evolves_update)
qed (simp add: handle_pingreqack_def evolves_refl s)

lemma join_evolves:
  "swim_wf s \<Longrightarrow> \<exists>out s'. handle_join msg now s = Inr (out, s') \<and> evolves True s s'"
  by (auto simp: handle_join_def Let_def evolves_refl change_ok_def admit_def intro!: evolves_install)

lemma delta_loop_evolves: "swim_wf s \<Longrightarrow> \<exists>s'. handle_delta_loop ds now s = Inr s' \<and> evolves j s s'"
proof (induction ds arbitrary: s)
  case (Cons d ds)
  have new: "evolves j s (install (mr_shard_id d) None d now s)"
    if "mr_shard_id d \<noteq> self_id s" "dget (members s) (mr_shard_id d) = None" "admit s d"
    using that Cons.prems by (intro evolves_install) (simp_all add: change_ok_def admit_def)
  have old: "\<exists>s'. maybe_apply_peer_delta d now s = Inr s' \<and> evolves j s s'"
    if "mr_shard_id d \<noteq> self_id s" "dget (members s) (mr_shard_id d) = Some r" for r
    using that Cons.prems by (intro apply_peer_delta_evolves) (auto dest: dget_key)
  have "\<exists>s1. (if mr_shard_id d = self_id s then maybe_refute d now s
            else case dget (members s) (mr_shard_id d) of
                   None \<Rightarrow> if \<not> admit s d then Inr s
                           else Inr (install (mr_shard_id d) None d now s)
                 | Some _ \<Rightarrow> maybe_apply_peer_delta d now s) = Inr s1 \<and> evolves j s s1"
    using refute_evolves [OF Cons.prems, of d now] new old evolves_refl [OF Cons.prems]
    by (auto split: option.split)
  then obtain s1 where s1: "(if mr_shard_id d = self_id s then maybe_refute d now s
            else case dget (members s) (mr_shard_id d) of
                   None \<Rightarrow> if \<not> admit s d then Inr s
                           else Inr (install (mr_shard_id d) None d now s)
                 | Some _ \<Rightarrow> maybe_apply_peer_delta d now s) = Inr s1" "evolves j s s1" by blast
  from Cons.IH [OF evolves_wf [OF s1(2)]] obtain s2 where
    "handle_delta_loop ds now s1 = Inr s2" "evolves j s1 s2" by blast
  with s1 show ?case by (auto simp only: handle_delta_loop.simps ebind_Inr intro: evolves_trans)
qed (simp add: evolves_refl)

fun is_join :: "IncomingMessage \<Rightarrow> bool" where
  "is_join (Join m) \<longleftrightarrow> True"
| "is_join _ \<longleftrightarrow> False"

lemma recv_evolves:
  assumes s: "swim_wf s" and j: "is_join msg \<Longrightarrow> j"
  shows "\<exists>out s'. recv msg now s = Inr (out, s') \<and> evolves j s s'"
proof (cases msg)
  case (MembershipDelta m)
  with delta_loop_evolves [OF s, where ds = "md_members m" and now = now and j = j] show ?thesis
    by (auto simp: recv_def handle_delta_def)
next
  case (Join m)
  with j join_evolves [OF s, of m now] show ?thesis by (simp add: recv_def)
qed (simp_all add: recv_def ping_evolves [OF s] ack_evolves [OF s] pingreq_evolves [OF s]
      pingreqack_evolves [OF s])

lemma step_evolves: "swim_step s out s' \<Longrightarrow> swim_wf s \<Longrightarrow> evolves True s s'"
  by (auto simp: swim_step_iff) (metis tick_evolves recv_evolves Inr_inject prod.inject)+

lemma run_evolves: "swim_run s s' \<Longrightarrow> swim_wf s \<Longrightarrow> evolves True s s'"
  by (induction rule: swim_run.induct)
     (auto intro: evolves_refl evolves_trans step_evolves evolves_wf)

section \<open>The initial state\<close>

lemma fold_dput_keys:
  "set (dkeys (fold (\<lambda>p. dput (k p) (v p)) ps d)) = set (dkeys d) \<union> k ` set ps"
  by (induction ps arbitrary: d) auto

lemma fold_dput_distinct: "distinct (dkeys d) \<Longrightarrow> distinct (dkeys (fold (\<lambda>p. dput (k p) (v p)) ps d))"
  by (induction ps arbitrary: d) auto

lemma fold_dput_origin:
  "dget (fold (\<lambda>p. dput (k p) (v p)) ps d) j = Some r \<Longrightarrow>
     dget d j = Some r \<or> (\<exists>p \<in> set ps. j = k p \<and> r = v p)"
proof (induction ps arbitrary: d)
  case (Cons a ps)
  from Cons.IH [of "dput (k a) (v a) d"] Cons.prems
  have "dget (dput (k a) (v a) d) j = Some r \<or> (\<exists>p \<in> set ps. j = k p \<and> r = v p)" by simp
  then show ?case by (auto split: if_splits)
qed simp

lemma init_members:
  assumes "ms = fold (\<lambda>p. dput (ps_shard_id p) (initial_record own inc mid p)) (sp # ps) []"
    and "own = ps_shard_id sp"
  shows "members_ok own ms"
proof -
  have "\<exists>r. dget ms own = Some r"
    using dkey_get [of own ms] by (simp only: assms(1) fold_dput_keys) (simp add: assms(2))
  moreover have "mr_shard_id r = k \<and> mr_state r = ALIVE" if "dget ms k = Some r" for k r
    using that fold_dput_origin [of ps_shard_id "initial_record own inc mid" "sp # ps" "[]" k r]
    by (auto simp: assms(1) initial_record_def)
  moreover have "distinct (dkeys ms)"
    by (simp only: assms(1)) (rule fold_dput_distinct, simp)
  ultimately show ?thesis by (auto simp: members_ok_def)
qed

lemma init_wf: "swim_wf (init_state sp ps r c mid inc)"
proof -
  note m = init_members [of _ "ps_shard_id sp" inc mid sp ps, OF refl refl]
  show ?thesis
    using m by (auto simp: init_state_def Let_def swim_wf_def backlog_ok_enqueue split: option.split)
               (auto simp: backlog_ok_def enqueue_backlog_def entry_key_def)
qed

end
