(* ===== verification/Convergence.thy ===== *)
theory Convergence
  imports Prelude
begin

text \<open>
  The contract of replicated state that gossip keeps convergent, as locales.  A replica processes
  a sequence of updates, each of which may raise; \<^verbatim>\<open>efold\<close> is that loop.

  \<^verbatim>\<open>max_register\<close>: every update moves the observed value to the maximum of itself and
  the value the update carries, if it carries one for this observer.  Then the final value is the
  maximum over everything received, whatever the order and however often an update arrives.
\<close>

fun efold :: "('d \<Rightarrow> 's \<Rightarrow> 'e + 's) \<Rightarrow> 'd list \<Rightarrow> 's \<Rightarrow> 'e + 's" where
  "efold f [] s = Inr s"
| "efold f (d # ds) s = ebind (f d s) (efold f ds)"

lemma efold_append: "efold f (xs @ ys) s = ebind (efold f xs s) (efold f ys)"
  by (induction xs arbitrary: s) (simp_all add: ebind_assoc cong: ebind_cong)

lemma efold_preserves:
  assumes "\<And>d s. d \<in> set ds \<Longrightarrow> P s \<Longrightarrow> \<exists>s'. f d s = Inr s' \<and> P s'" and "P s"
  shows "\<exists>s'. efold f ds s = Inr s' \<and> P s'"
  using assms
proof (induction ds arbitrary: s)
  case (Cons d ds)
  from Cons.prems obtain s1 where "f d s = Inr s1" "P s1" by force
  with Cons show ?case by auto
qed simp

definition carried :: "('d \<Rightarrow> 'v option) \<Rightarrow> 'd list \<Rightarrow> 'v set" where
  "carried val ds = {v. Some v \<in> val ` set ds}"

lemma carried_simps [simp]:
  "carried val [] = {}"
  "carried val (d # ds) = (case val d of None \<Rightarrow> carried val ds | Some v \<Rightarrow> insert v (carried val ds))"
  by (auto simp: carried_def split: option.split)

lemma finite_carried [simp]: "finite (carried val ds)"
  by (induction ds) (auto split: option.split)

lemma carried_cong: "set ds = set ds' \<Longrightarrow> carried val ds = carried val ds'"
  by (simp add: carried_def)

locale max_register =
  fixes inv :: "'s \<Rightarrow> bool"
    and get :: "'s \<Rightarrow> 'v :: linorder"
    and step :: "'d \<Rightarrow> 's \<Rightarrow> 'e + 's"
    and val :: "'d \<Rightarrow> 'v option"
  assumes step_max: "inv s \<Longrightarrow> \<exists>s'. step d s = Inr s' \<and> inv s' \<and>
      get s' = (case val d of None \<Rightarrow> get s | Some v \<Rightarrow> max (get s) v)"
begin

lemma fold_Max:
  "inv s \<Longrightarrow> \<exists>s'. efold step ds s = Inr s' \<and> inv s' \<and> get s' = Max (insert (get s) (carried val ds))"
proof (induction ds arbitrary: s)
  case (Cons d ds)
  from step_max [OF Cons.prems, of d] obtain s1 where
    s1: "step d s = Inr s1" "inv s1" "get s1 = (case val d of None \<Rightarrow> get s | Some v \<Rightarrow> max (get s) v)"
    by blast
  from Cons.IH [OF s1(2)] obtain s2 where
    s2: "efold step ds s1 = Inr s2" "inv s2" "get s2 = Max (insert (get s1) (carried val ds))" by blast
  have "Max (insert (max (get s) v) A) = Max (insert (get s) (insert v A))" if "finite A" for v A
    using that by (cases "A = {}") (simp_all add: max.assoc)
  then have "get s2 = Max (insert (get s) (carried val (d # ds)))"
    using s1(3) s2(3) by (simp split: option.split)
  with s1(1) s2(1,2) show ?case by simp
qed simp

lemma converges:
  assumes "inv s" and "inv t" and "get s = get t" and "set ds = set es"
  shows "\<exists>s' t'. efold step ds s = Inr s' \<and> efold step es t = Inr t' \<and> get s' = get t'"
  using fold_Max [OF assms(1), of ds] fold_Max [OF assms(2), of es] assms(3)
    carried_cong [OF assms(4), of val] by auto

lemma inflationary: "inv s \<Longrightarrow> efold step ds s = Inr s' \<Longrightarrow> get s \<le> get s'"
  using fold_Max [of s ds] by (auto intro: Max_ge)

end


text \<open>
  \<^verbatim>\<open>lww_register\<close>: last writer wins.  An update carries a timestamp and a value; it is
  stored only if its timestamp is strictly newer than the stored one.  The stored timestamp is
  then always the newest one received.  Which value is stored among updates of one timestamp
  depends on the order of arrival, so replicas agree when a timestamp identifies its value.
\<close>

definition newer :: "('t :: linorder \<times> 'a) option \<Rightarrow> ('t \<times> 'a) \<Rightarrow> ('t \<times> 'a) option" where
  "newer cur u = (case cur of None \<Rightarrow> Some u | Some c \<Rightarrow> if fst c < fst u then Some u else cur)"

definition lww_all :: "('t :: linorder \<times> 'a) option \<Rightarrow> ('t \<times> 'a) set \<Rightarrow> ('t \<times> 'a) set" where
  "lww_all cur us = set_option cur \<union> us"

locale lww_register =
  fixes get :: "'s \<Rightarrow> ('t :: linorder \<times> 'a) option"
    and step :: "'d \<Rightarrow> 's \<Rightarrow> 's"
    and val :: "'d \<Rightarrow> ('t \<times> 'a) option"
  assumes step_newer: "get (step d s) = (case val d of None \<Rightarrow> get s | Some u \<Rightarrow> newer (get s) u)"
begin

lemma fold_newest:
  "get (fold step ds s) = None \<longleftrightarrow> lww_all (get s) (carried val ds) = {}"
  "get (fold step ds s) = Some w \<Longrightarrow> w \<in> lww_all (get s) (carried val ds) \<and>
     (\<forall>u \<in> lww_all (get s) (carried val ds). fst u \<le> fst w)"
proof -
  have "(get (fold step ds s) = None \<longleftrightarrow> lww_all (get s) (carried val ds) = {}) \<and>
    (\<forall>w. get (fold step ds s) = Some w \<longrightarrow> w \<in> lww_all (get s) (carried val ds) \<and>
     (\<forall>u \<in> lww_all (get s) (carried val ds). fst u \<le> fst w))"
  proof (induction ds arbitrary: s)
    case Nil
    then show ?case by (auto simp: lww_all_def)
  next
    case (Cons d ds)
    show ?case
    proof (cases "val d")
      case None
      then have "lww_all (get (step d s)) (carried val ds) = lww_all (get s) (carried val (d # ds))"
        by (simp add: step_newer)
      with Cons [of "step d s"] show ?thesis by simp
    next
      case (Some u)
      let ?A = "lww_all (get (step d s)) (carried val ds)" and ?B = "lww_all (get s) (carried val (d # ds))"
      have sub: "?A \<subseteq> ?B" and dom: "\<forall>b \<in> ?B. \<exists>a \<in> ?A. fst b \<le> fst a"
        using Some by (auto simp: step_newer newer_def lww_all_def split: option.splits if_splits)
      then have emp: "?A = {} \<longleftrightarrow> ?B = {}" by auto
      have "w \<in> ?B \<and> (\<forall>b \<in> ?B. fst b \<le> fst w)"
        if "w \<in> ?A" and "\<forall>u \<in> ?A. fst u \<le> fst w" for w
        using that sub dom by (meson order_trans subsetD)
      with Cons [of "step d s"] emp show ?thesis by (simp only: fold_simps) blast
    qed
  qed
  then show "get (fold step ds s) = None \<longleftrightarrow> lww_all (get s) (carried val ds) = {}"
    "get (fold step ds s) = Some w \<Longrightarrow> w \<in> lww_all (get s) (carried val ds) \<and>
       (\<forall>u \<in> lww_all (get s) (carried val ds). fst u \<le> fst w)" by blast+
qed

lemma lww_converges:
  assumes "get s = get t" and "set ds = set es"
    and inj: "\<And>a b. a \<in> lww_all (get s) (carried val ds) \<Longrightarrow> b \<in> lww_all (get s) (carried val ds) \<Longrightarrow>
      fst a = fst b \<Longrightarrow> a = b"
  shows "get (fold step ds s) = get (fold step es t)"
proof -
  have eq: "lww_all (get t) (carried val es) = lww_all (get s) (carried val ds)"
    using assms(1,2) carried_cong [OF assms(2), of val] by simp
  show ?thesis
  proof (cases "get (fold step ds s)")
    case None
    then have "lww_all (get s) (carried val ds) = {}" by (simp add: fold_newest(1))
    then have "get (fold step es t) = None" by (simp add: fold_newest(1) eq)
    with None show ?thesis by simp
  next
    case (Some w)
    note w = fold_newest(2) [OF Some]
    then have "lww_all (get t) (carried val es) \<noteq> {}" using eq by blast
    then obtain v where v: "get (fold step es t) = Some v" using fold_newest(1) [of es t] by auto
    from fold_newest(2) [OF v] w eq have "fst v = fst w" by (simp add: order_antisym)
    with fold_newest(2) [OF v] w eq have "v = w" using inj by auto
    with Some v show ?thesis by simp
  qed
qed

end

end
