(* ===== verification/Swim_Gossip.thy ===== *)
theory Swim_Gossip
  imports Swim_Inv Convergence
begin

text \<open>
  What the SWIM gossip computes.  Claims about a peer are ordered by \<^verbatim>\<open>rank\<close>: incarnation
  first, severity second.  Both receive loops of \<^verbatim>\<open>membership/state.py\<close> (piggybacked
  deltas and the bulk \<^verbatim>\<open>MembershipDelta\<close>) are interpretations of
  \<^verbatim>\<open>max_register\<close>: a node's belief about a known peer is the maximum of what it believed
  and of every admissible claim it received, so beliefs converge whatever order, duplication or
  time the claims arrive in.
\<close>

declare map_of_eq_Some_iff [simp del] Some_eq_map_of_iff [simp del]

definition rank :: "MemberRecord \<Rightarrow> int \<times> MemberState" where
  "rank r = (mr_incarnation r, mr_state r)"

definition rank_in :: "string \<Rightarrow> MembershipState \<Rightarrow> int \<times> MemberState" where
  "rank_in k s = (case dget (members s) k of None \<Rightarrow> (0, ALIVE) | Some r \<Rightarrow> rank r)"

definition claim_about :: "string \<Rightarrow> string \<Rightarrow> MemberRecord \<Rightarrow> (int \<times> MemberState) option" where
  "claim_about k mid d =
     (if mr_shard_id d = k \<and> (mid = [] \<or> mr_model_id d = mid) then Some (rank d) else None)"

definition knows_peer :: "string \<Rightarrow> string \<Rightarrow> MembershipState \<Rightarrow> bool" where
  "knows_peer k mid s \<longleftrightarrow> swim_wf s \<and> k \<noteq> self_id s \<and> k \<in> set (dkeys (members s)) \<and>
     local_model_id s = mid"

text \<open>The bodies of the two receive loops.\<close>

definition apply_delta :: "py_float \<Rightarrow> MemberRecord \<Rightarrow> MembershipState \<Rightarrow> MembershipState result" where
  "apply_delta now d s =
     (if mr_shard_id d = self_id s then maybe_refute d now s
      else if mr_shard_id d \<notin> set (dkeys (members s)) then Inr s
      else maybe_apply_peer_delta d now s)"

definition bulk_delta :: "py_float \<Rightarrow> MemberRecord \<Rightarrow> MembershipState \<Rightarrow> MembershipState result" where
  "bulk_delta now rec s =
     (if mr_shard_id rec = self_id s then maybe_refute rec now s
      else case dget (members s) (mr_shard_id rec) of
             None \<Rightarrow> if \<not> admit s rec then Inr s
                     else Inr (install (mr_shard_id rec) None rec now s)
           | Some _ \<Rightarrow> maybe_apply_peer_delta rec now s)"

lemma apply_deltas_efold: "apply_deltas ds now s = efold (apply_delta now) ds s"
  by (induction ds arbitrary: s) (simp_all add: apply_delta_def cong: ebind_cong)

lemma handle_delta_loop_efold: "handle_delta_loop ds now s = efold (bulk_delta now) ds s"
  by (induction ds arbitrary: s) (simp_all add: bulk_delta_def cong: ebind_cong)

lemma evolves_knows:
  assumes "evolves j s s'" and "knows_peer k mid s" shows "knows_peer k mid s'"
  using evolves_keys [OF assms(1)] evolves_frame [OF assms(1)] evolves_wf [OF assms(1)] assms(2)
  by (auto simp: knows_peer_def)

lemma refute_other:
  "k \<noteq> self_id s \<Longrightarrow> maybe_refute d now s = Inr s' \<Longrightarrow> dget (members s') k = dget (members s) k"
  by (auto simp: maybe_refute_def Let_def exn_simps split: if_splits)

lemma apply_peer_rank:
  assumes "knows_peer k mid s" and "mr_shard_id d \<in> set (dkeys (members s))"
    and "maybe_apply_peer_delta d now s = Inr s'"
  shows "rank_in k s' = (case claim_about k mid d of None \<Rightarrow> rank_in k s | Some v \<Rightarrow> max (rank_in k s) v)"
proof -
  obtain prev where "dget (members s) (mr_shard_id d) = Some prev" using dkey_get [OF assms(2)] by blast
  with assms(1,3) show ?thesis
    by (auto simp: maybe_apply_peer_delta_def claim_about_def admit_def knows_peer_def rank_in_def rank_def
        max_def less_eq_prod_def dindex_def split: if_splits)
qed

lemma apply_delta_max:
  assumes k: "knows_peer k mid s"
  shows "\<exists>s'. apply_delta now d s = Inr s' \<and> knows_peer k mid s' \<and>
    rank_in k s' = (case claim_about k mid d of None \<Rightarrow> rank_in k s | Some v \<Rightarrow> max (rank_in k s) v)"
proof -
  have wf: "swim_wf s" and ne: "k \<noteq> self_id s" and dom: "k \<in> set (dkeys (members s))"
    using k by (auto simp: knows_peer_def)
  from apply_delta_evolves [OF wf, of d now] obtain s' where
    s': "apply_delta now d s = Inr s'" "evolves True s s'" by (auto simp: apply_delta_def)
  have "rank_in k s' = (case claim_about k mid d of None \<Rightarrow> rank_in k s | Some v \<Rightarrow> max (rank_in k s) v)"
  proof (cases "mr_shard_id d \<noteq> self_id s \<and> mr_shard_id d \<in> set (dkeys (members s))")
    case True
    with s'(1) show ?thesis by (intro apply_peer_rank [OF k]) (auto simp: apply_delta_def)
  next
    case False
    with ne dom have "mr_shard_id d \<noteq> k" by auto
    moreover have "dget (members s') k = dget (members s) k"
      using False s'(1) refute_other [OF ne, of d now s'] by (auto simp: apply_delta_def split: if_splits)
    ultimately show ?thesis by (simp add: claim_about_def rank_in_def)
  qed
  with s' evolves_knows [OF s'(2) k] show ?thesis by blast
qed

lemma bulk_delta_known:
  "mr_shard_id d \<in> set (dkeys (members s)) \<Longrightarrow> bulk_delta now d s = apply_delta now d s"
  using dkey_get [of "mr_shard_id d" "members s"] by (auto simp: bulk_delta_def apply_delta_def)

lemma bulk_delta_max:
  assumes k: "knows_peer k mid s"
  shows "\<exists>s'. bulk_delta now d s = Inr s' \<and> knows_peer k mid s' \<and>
    rank_in k s' = (case claim_about k mid d of None \<Rightarrow> rank_in k s | Some v \<Rightarrow> max (rank_in k s) v)"
proof (cases "mr_shard_id d \<in> set (dkeys (members s))")
  case True
  with apply_delta_max [OF k, of now d] show ?thesis by (simp only: bulk_delta_known)
next
  case False
  with k have ne: "mr_shard_id d \<noteq> k" and wf: "swim_wf s" and "mr_shard_id d \<noteq> self_id s"
    using wf_self [of s] by (auto simp: knows_peer_def dest: dget_key)
  moreover have none: "dget (members s) (mr_shard_id d) = None" using False by (simp add: dget_None_iff)
  moreover have "evolves True s (install (mr_shard_id d) None d now s)" if "admit s d"
    using that wf none calculation(3) by (intro evolves_install) (simp_all add: change_ok_def admit_def)
  ultimately show ?thesis
    using k evolves_knows [OF _ k]
    by (auto simp: bulk_delta_def claim_about_def rank_in_def)
qed

interpretation gossip: max_register "knows_peer k mid" "rank_in k" "apply_delta now" "claim_about k mid"
  for k mid now
  by unfold_locales (rule apply_delta_max)

interpretation bulk: max_register "knows_peer k mid" "rank_in k" "bulk_delta now" "claim_about k mid"
  for k mid now
  by unfold_locales (rule bulk_delta_max)

lemma carried_claims:
  "carried (claim_about k (local_model_id s)) ds = rank ` {d \<in> set ds. mr_shard_id d = k \<and> admit s d}"
  by (auto simp: carried_def claim_about_def admit_def image_iff split: if_splits)

lemma knows_peerI: "swim_wf s \<Longrightarrow> dget (members s) k = Some r \<Longrightarrow> k \<noteq> self_id s \<Longrightarrow>
    knows_peer k (local_model_id s) s"
  by (auto simp: knows_peer_def dest: dget_key)

lemma rank_in_known: "knows_peer k mid s \<Longrightarrow> \<exists>r. dget (members s) k = Some r \<and> rank_in k s = rank r"
  using dkey_get [of k "members s"] by (auto simp: knows_peer_def rank_in_def)

lemma gossip_merge:
  assumes "swim_wf s" and "dget (view s) k = Some r" and "k \<noteq> self_id s"
  shows "\<exists>s' r'. apply_deltas ds now s = Inr s' \<and> dget (view s') k = Some r' \<and>
    rank r' = Max (insert (rank r) (rank ` {d \<in> set ds. mr_shard_id d = k \<and> admit s d}))"
proof -
  have k: "knows_peer k (local_model_id s) s" using assms by (intro knows_peerI) (simp_all add: view_def)
  have r: "rank_in k s = rank r" using assms(2) by (simp add: rank_in_def view_def)
  from gossip.fold_Max [OF k, of now ds] obtain s' where
    s': "efold (apply_delta now) ds s = Inr s'" "knows_peer k (local_model_id s) s'"
    "rank_in k s' = Max (insert (rank_in k s) (carried (claim_about k (local_model_id s)) ds))" by blast
  from rank_in_known [OF s'(2)] s'(1,3) r show ?thesis
    by (auto simp: apply_deltas_efold carried_claims view_def)
qed

text \<open>C9: Gossip merge.  After processing any list of deltas a node's belief about a peer it
  already knows has the maximal (incarnation, severity) among its previous belief and the
  admissible claims in the list; nothing is raised.\<close>

theorem gossip_merge_is_max:
  assumes "swim_wf s" and "dget (view s) k = Some r" and "k \<noteq> self_id s"
  shows "\<exists>s' r'. apply_deltas ds now s = Inr s' \<and> dget (view s') k = Some r' \<and>
    rank r' = Max (insert (rank r) (rank ` {d \<in> set ds. mr_shard_id d = k \<and> admit s d}))"
  using assms by (rule gossip_merge)

text \<open>C10: Convergence of gossip.  Two nodes of the same model that hold equally ranked beliefs
  about a peer and then receive the same claims, in different orders, with different repetitions
  and at different times, one as piggybacked deltas and the other as a bulk membership message,
  end with equally ranked beliefs about that peer.\<close>

theorem gossip_converges:
  assumes "swim_wf s" and "swim_wf t" and "local_model_id s = local_model_id t"
    and "k \<noteq> self_id s" and "k \<noteq> self_id t"
    and "dget (view s) k = Some r" and "dget (view t) k = Some q" and "rank r = rank q"
    and "set ds = set es"
  shows "\<exists>s' t' r' q'. apply_deltas ds now s = Inr s' \<and>
    recv (MembershipDelta \<lparr>md_members = es\<rparr>) now' t = Inr ([], t') \<and>
    dget (view s') k = Some r' \<and> dget (view t') k = Some q' \<and> rank r' = rank q'"
proof -
  let ?mid = "local_model_id t"
  have ks: "knows_peer k ?mid s" and kt: "knows_peer k ?mid t"
    using assms knows_peerI [of s k r] knows_peerI [of t k q] by (simp_all add: view_def)
  from gossip.fold_Max [OF ks, of now ds] obtain s' where
    s': "efold (apply_delta now) ds s = Inr s'" "knows_peer k ?mid s'"
    "rank_in k s' = Max (insert (rank_in k s) (carried (claim_about k ?mid) ds))" by blast
  from bulk.fold_Max [OF kt, of now' es] obtain t' where
    t': "efold (bulk_delta now') es t = Inr t'" "knows_peer k ?mid t'"
    "rank_in k t' = Max (insert (rank_in k t) (carried (claim_about k ?mid) es))" by blast
  have "rank_in k s' = rank_in k t'"
    using s'(3) t'(3) assms(6-8) carried_cong [OF assms(9), of "claim_about k ?mid"]
    by (simp add: rank_in_def view_def)
  with rank_in_known [OF s'(2)] rank_in_known [OF t'(2)] s'(1) t'(1) show ?thesis
    by (auto simp: apply_deltas_efold recv_def handle_delta_def handle_delta_loop_efold view_def)
qed

end
