(* ===== verification/Swim_Detect.thy ===== *)
theory Swim_Detect
  imports Swim_Gossip
begin

text \<open>
  The failure detector: what a tick and a message do to a peer's record (suspicion, its timeout,
  death, resurrection, refutation), whom a timed-out probe asks for help, and what every run of
  the state machine keeps.
\<close>

declare map_of_eq_Some_iff [simp del] Some_eq_map_of_iff [simp del]

section \<open>A three-node example\<close>

definition demo_peer :: "string \<Rightarrow> PeerSpec" where
  "demo_peer k = \<lparr>ps_shard_id = k, ps_host = ''h'', ps_udp_port = 9000\<rparr>"

definition demo_state :: MembershipState where
  "demo_state = init_state (demo_peer ''a'') [demo_peer ''b'', demo_peer ''c''] [] default_config ''m'' 0"

definition demo_claim :: "string \<Rightarrow> MemberState \<Rightarrow> int \<Rightarrow> MemberRecord" where
  "demo_claim k st inc = \<lparr>mr_shard_id = k, mr_host = ''h'', mr_udp_port = 9000, mr_state = st,
     mr_incarnation = inc, mr_model_id = ''m'', mr_last_state_change = 0, mr_suspect_deadline = None\<rparr>"

section \<open>Frame lemmas\<close>

lemmas install_wf = evolves_wf [OF evolves_install [where j = True]]

lemma demo_wf: "swim_wf demo_state"
  by (simp add: demo_state_def init_wf)

lemma select_deltas_frame:
  "select_outgoing_deltas s = Inr (ds, s') \<Longrightarrow> s' = s\<lparr>backlog := backlog s'\<rparr>"
  by (auto simp: select_outgoing_deltas_def Let_def exn_simps)

lemma select_deltas_fields:
  assumes "select_outgoing_deltas s = Inr (ds, s')"
  shows "members s' = members s" "self_id s' = self_id s" "cfg s' = cfg s"
    "pending_probe s' = pending_probe s" "self_incarnation s' = self_incarnation s"
    "next_period_at s' = next_period_at s"
  by (subst select_deltas_frame [OF assms], simp)+

lemma send_pingreqs_fields:
  "send_pingreqs probe hs s = Inr (out, s') \<Longrightarrow>
     members s' = members s \<and> self_id s' = self_id s \<and> cfg s' = cfg s \<and>
     next_period_at s' = next_period_at s"
  by (induction hs arbitrary: s out) (auto simp: exn_simps dest: select_deltas_fields)

lemma answer_helps_fields:
  "answer_helps sel ok hs s = Inr (out, rem, s') \<Longrightarrow>
     members s' = members s \<and> self_id s' = self_id s \<and> cfg s' = cfg s \<and>
     pending_probe s' = pending_probe s \<and> next_period_at s' = next_period_at s"
  by (induction hs arbitrary: s out rem) (auto simp: exn_simps dest: select_deltas_fields split: if_splits)

lemma timeout_helps_fields:
  "maybe_timeout_helps now s = Inr (out, s') \<Longrightarrow>
     members s' = members s \<and> self_id s' = self_id s \<and> cfg s' = cfg s \<and>
     pending_probe s' = pending_probe s \<and> next_period_at s' = next_period_at s"
  by (auto simp: maybe_timeout_helps_def exn_simps dest: answer_helps_fields)

lemma mark_suspect_at:
  "mark_suspect j now s = Inr s' \<Longrightarrow> dget (members s) k = Some r \<Longrightarrow>
     dget (members s') k = Some r \<or>
     (k = j \<and> mr_state r = ALIVE \<and> (\<exists>r'. dget (members s') k = Some r' \<and> mr_state r' = SUSPECT \<and>
        mr_incarnation r' = mr_incarnation r \<and>
        mr_suspect_deadline r' = Some (fadd now (ms_to_s (t_suspect_ms (cfg s))))))"
  by (cases "mr_state r") (auto simp: mark_suspect_def exn_simps dindex_def split: if_splits)

text \<open>A record that is not ALIVE is left alone by the probing half of a tick.\<close>

lemma mark_suspect_keeps:
  "mark_suspect j now s = Inr s' \<Longrightarrow> dget (members s) k = Some r \<Longrightarrow> mr_state r \<noteq> ALIVE \<Longrightarrow>
     dget (members s') k = Some r"
  using mark_suspect_at by blast

lemma start_period_keeps:
  assumes "start_protocol_period now s = Inr (out, s')" and "dget (members s) k = Some r"
    and "mr_state r \<noteq> ALIVE"
  shows "dget (members s') k = Some r"
  using assms
  by (auto simp: start_protocol_period_def exn_simps Let_def mark_suspect_keeps
      dest!: select_deltas_fields(1) split: option.splits if_splits)

lemma escalate_keeps:
  assumes "maybe_escalate_probe now s = Inr (out, s')" and "dget (members s) k = Some r"
    and "mr_state r \<noteq> ALIVE"
  shows "dget (members s') k = Some r"
proof -
  have "dget (members s2) k = Some r" if "mark_suspect t now s1 = Inr s2" "members s1 = members s" for t s1 s2
    using that assms(2,3) by (intro mark_suspect_keeps [OF that(1)]) simp_all
  with assms show ?thesis
    by (auto simp: maybe_escalate_probe_def exn_simps Let_def dest: send_pingreqs_fields
        split: option.splits if_splits prod.splits)
qed

section \<open>The suspicion timeout\<close>

definition dead_record :: "py_float \<Rightarrow> MemberRecord \<Rightarrow> MemberRecord" where
  "dead_record now r = r\<lparr>mr_state := DEAD, mr_last_state_change := now, mr_suspect_deadline := None\<rparr>"

lemma promote_dead_step_at:
  "mr_shard_id r = k \<Longrightarrow> dget (members s) k = Some r \<Longrightarrow>
     dget (members (promote_dead_step now (k, r) s)) k =
       Some (if deadline_passed now r then dead_record now r else r)"
  by (cases r) (simp add: promote_dead_step_def dead_record_def)

lemma fold_promote_other:
  "k \<notin> set (dkeys ps) \<Longrightarrow> dget (members (fold (promote_dead_step now) ps s)) k = dget (members s) k"
  by (induction ps arbitrary: s) (auto simp: promote_dead_step_other)

lemma fold_promote_at:
  assumes "distinct (dkeys ps)" and "(k, r) \<in> set ps" and "mr_shard_id r = k"
    and "dget (members s) k = Some r"
  shows "dget (members (fold (promote_dead_step now) ps s)) k =
    Some (if deadline_passed now r then dead_record now r else r)"
  using assms
proof (induction ps arbitrary: s)
  case (Cons p ps)
  obtain j q where p: "p = (j, q)" by (cases p)
  show ?case
  proof (cases "j = k")
    case True
    with Cons.prems p have "q = r" and "k \<notin> set (dkeys ps)" by force+
    with True p promote_dead_step_at [OF Cons.prems(3,4)] show ?thesis
      by (simp add: fold_promote_other)
  next
    case False
    with Cons.prems p show ?thesis
      by (simp only: fold.simps comp_apply) (rule Cons.IH, auto simp: promote_dead_step_other)
  qed
qed simp

lemma promote_dead_at:
  assumes "swim_wf s" and "dget (members s) k = Some r"
  shows "dget (members (maybe_promote_dead now s)) k =
    Some (if deadline_passed now r then dead_record now r else r)"
  unfolding maybe_promote_dead_def
  using fold_promote_at [OF wf_distinct [OF assms(1)] map_of_SomeD [OF assms(2)] wf_key [OF assms]
      assms(2)] .

text \<open>What a tick does to the record of a peer that is not ALIVE.\<close>

lemma tick_not_alive:
  assumes s: "swim_wf s" and r: "dget (members s) k = Some r" "mr_state r \<noteq> ALIVE"
    and t: "tick now s = Inr (out, s')"
  shows "dget (members s') k = Some (if deadline_passed now r then dead_record now r else r)"
proof -
  let ?r = "if deadline_passed now r then dead_record now r else r"
  from t obtain o1 s1 o3 s3 o4 where
    1: "maybe_timeout_helps now (gc_backlog now s) = Inr (o1, s1)" and
    3: "(if next_period_at (maybe_promote_dead now s1) \<le> now
         then start_protocol_period now (maybe_promote_dead now s1)
         else Inr ([], maybe_promote_dead now s1)) = Inr (o3, s3)" and
    4: "maybe_escalate_probe now s3 = Inr (o4, s')"
    by (auto simp: tick_def Let_def exn_simps)
  have "evolves True (gc_backlog now s) s1"
    using timeout_helps_evolves [OF evolves_wf [OF evolves_gc_backlog [OF s, of _ now]], where now = now and j = True] 1
    by auto
  from evolves_wf [OF this] have "swim_wf s1" .
  moreover have "dget (members s1) k = Some r"
    using timeout_helps_fields [OF 1] r(1) by (simp add: gc_backlog_def Let_def)
  ultimately have 2: "dget (members (maybe_promote_dead now s1)) k = Some ?r"
    by (rule promote_dead_at)
  have na: "mr_state ?r \<noteq> ALIVE" using r(2) by (simp add: dead_record_def)
  have "dget (members s3) k = Some ?r"
    using 3 2 start_period_keeps [OF _ 2 na] by (auto split: if_splits)
  from escalate_keeps [OF 4 this na] show ?thesis .
qed

text \<open>C13: Suspicion timeout.  A tick at or after a suspected peer's deadline declares it DEAD
  with its incarnation kept, and a tick before the deadline leaves the record exactly as it was,
  whatever else the tick does (expired help requests, a new probe, an escalation).\<close>

theorem suspicion_timeout:
  assumes "swim_wf s" and "dget (view s) k = Some r" and "mr_state r = SUSPECT"
    and "mr_suspect_deadline r = Some d"
  shows "\<exists>out s'. tick now s = Inr (out, s') \<and>
    dget (view s') k = Some (if d \<le> now
      then r\<lparr>mr_state := DEAD, mr_last_state_change := now, mr_suspect_deadline := None\<rparr> else r)"
proof -
  from tick_evolves [OF assms(1)] obtain out s' where t: "tick now s = Inr (out, s')" by blast
  from tick_not_alive [OF assms(1) _ _ t, of k r] assms(2-4) t show ?thesis
    by (simp add: view_def deadline_passed_def dead_record_def)
qed


definition demo_suspect :: MembershipState where
  "demo_suspect = install ''b'' (Some ALIVE)
     ((demo_claim ''b'' SUSPECT 0)\<lparr>mr_suspect_deadline := Some 5\<rparr>) 1 demo_state"

lemma demo_view:
  "self_id demo_state = ''a''" "local_model_id demo_state = ''m''"
  "dget (view demo_state) ''a'' = Some (demo_claim ''a'' ALIVE 0)"
  "dget (view demo_state) ''b'' = Some (demo_claim ''b'' ALIVE 0)"
  "dget (view demo_state) ''c'' = Some (demo_claim ''c'' ALIVE 0)"
  by code_simp+

lemma demo_suspect_wf: "swim_wf demo_suspect"
  unfolding demo_suspect_def
  using demo_view
  by (intro install_wf demo_wf) (simp_all add: demo_claim_def change_ok_def view_def)

theorem suspicion_timeout_witness:
  "\<exists>out s'. tick 6 demo_suspect = Inr (out, s') \<and>
     dget (view s') ''b'' = Some ((demo_claim ''b'' DEAD 0)\<lparr>mr_last_state_change := 6\<rparr>)"
  using suspicion_timeout [of demo_suspect "''b''"
      "(demo_claim ''b'' SUSPECT 0)\<lparr>mr_suspect_deadline := Some 5\<rparr>" 5 6] demo_suspect_wf
  by (simp add: demo_suspect_def view_def demo_claim_def)

theorem gossip_merge_is_max_witness:
  "\<exists>s' r'. apply_deltas [demo_claim ''b'' SUSPECT 0, demo_claim ''b'' ALIVE 1, demo_claim ''b'' DEAD 0]
      7 demo_state = Inr s' \<and> dget (view s') ''b'' = Some r' \<and> rank r' = (1, ALIVE)"
proof -
  let ?ds = "[demo_claim ''b'' SUSPECT 0, demo_claim ''b'' ALIVE 1, demo_claim ''b'' DEAD 0]"
  have "{d \<in> set ?ds. mr_shard_id d = ''b'' \<and> admit demo_state d} = set ?ds"
    by (auto simp: demo_view admit_def demo_claim_def)
  then have "rank ` {d \<in> set ?ds. mr_shard_id d = ''b'' \<and> admit demo_state d} =
      {(0, SUSPECT), (1, ALIVE), (0, DEAD)}"
    by (simp add: rank_def demo_claim_def)
  moreover have "Max {rank (demo_claim ''b'' ALIVE 0), (0, SUSPECT), (1, ALIVE), (0, DEAD)} = (1, ALIVE)"
    by (simp add: rank_def demo_claim_def max_def less_eq_prod_def)
  ultimately show ?thesis
    using gossip_merge_is_max [OF demo_wf demo_view(4), of ?ds 7] by (simp add: demo_view(1))
qed

theorem gossip_converges_witness:
  "\<exists>s' t' r' q'. apply_deltas [demo_claim ''b'' DEAD 0, demo_claim ''b'' ALIVE 1] 7 demo_state = Inr s' \<and>
     recv (MembershipDelta \<lparr>md_members = [demo_claim ''b'' ALIVE 1, demo_claim ''b'' DEAD 0,
       demo_claim ''b'' ALIVE 1]\<rparr>) 9 demo_state = Inr ([], t') \<and>
     dget (view s') ''b'' = Some r' \<and> dget (view t') ''b'' = Some q' \<and> rank r' = rank q'"
  by (rule gossip_converges [OF demo_wf demo_wf refl _ _ demo_view(4) demo_view(4) refl])
     (simp_all add: demo_view insert_commute)

text \<open>A suspicion without a deadline never expires.  A SUSPECT record whose deadline is unset
  is kept by every tick, however late, so the peer is never declared DEAD by timeout; a bulk
  membership message stores such a record for every peer it introduces as SUSPECT.\<close>

theorem raw_suspect_never_dies:
  assumes "swim_wf s" and "k \<noteq> self_id s" and "dget (view s) k = None"
    and "mr_shard_id r = k" and "mr_state r = SUSPECT" and "mr_suspect_deadline r = None"
    and "admit s r"
  shows "\<exists>s'. recv (MembershipDelta \<lparr>md_members = [r]\<rparr>) now s = Inr ([], s') \<and>
    (\<forall>later. \<exists>out s''. tick later s' = Inr (out, s'') \<and> dget (view s'') k = Some r)"
proof -
  let ?s' = "install k None r now s"
  have rc: "recv (MembershipDelta \<lparr>md_members = [r]\<rparr>) now s = Inr ([], ?s')"
    using assms by (simp add: recv_def handle_delta_def view_def)
  have wf: "swim_wf ?s'"
    using assms by (intro install_wf) (simp_all add: change_ok_def admit_def view_def)
  have "\<exists>out s''. tick later ?s' = Inr (out, s'') \<and> dget (view s'') k = Some r" for later
  proof -
    from tick_evolves [OF wf] obtain out s'' where t: "tick later ?s' = Inr (out, s'')" by blast
    from tick_not_alive [OF wf _ _ t, of k r] t assms(5,6) show ?thesis
      by (simp add: deadline_passed_def view_def)
  qed
  with rc show ?thesis by blast
qed

theorem raw_suspect_never_dies_witness:
  "\<exists>s'. recv (MembershipDelta \<lparr>md_members = [demo_claim ''d'' SUSPECT 0]\<rparr>) 1 demo_state = Inr ([], s') \<and>
    (\<forall>later. \<exists>out s''. tick later s' = Inr (out, s'') \<and>
       dget (view s'') ''d'' = Some (demo_claim ''d'' SUSPECT 0))"
proof (rule raw_suspect_never_dies [OF demo_wf])
  show "dget (view demo_state) ''d'' = None" by code_simp
qed (simp_all add: demo_view demo_claim_def admit_def)


section \<open>Refutation and resurrection\<close>

lemma refute_installs:
  assumes "dget (members s) (self_id s) = Some own" and "mr_shard_id d = self_id s"
    and "mr_state d \<noteq> ALIVE" and "self_incarnation s \<le> mr_incarnation d"
    and "own' = \<lparr>mr_shard_id = self_id s, mr_host = mr_host own, mr_udp_port = mr_udp_port own,
      mr_state = ALIVE, mr_incarnation = mr_incarnation d + 1, mr_model_id = mr_model_id own,
      mr_last_state_change = now, mr_suspect_deadline = None\<rparr>"
  shows "recv (MembershipDelta \<lparr>md_members = [d]\<rparr>) now s =
    Inr ([], install (self_id s) (Some (mr_state own)) own' now
               (s\<lparr>self_incarnation := mr_incarnation d + 1\<rparr>))"
  using assms by (simp add: recv_def handle_delta_def maybe_refute_def Let_def dindex_def)

lemma select_deltas_records:
  assumes "select_outgoing_deltas s = Inr (ds, s')"
  shows "set ds \<subseteq> insert (hd ds) (be_record ` set (backlog s))"
proof -
  from assms obtain own where "ds = own # map be_record (slice_to (k_gossip (cfg s))
      (sort_key (\<lambda>b. (be_priority b, be_seq b)) (backlog s)))"
    by (auto simp: select_outgoing_deltas_def Let_def exn_simps)
  then show ?thesis using set_slice_to by fastforce
qed

text \<open>C12: Refutation.  A node that hears a SUSPECT or DEAD claim about itself, at its own
  incarnation or a later one, republishes itself ALIVE with an incarnation one above the claim,
  and the gossip it sends next makes every peer that held the claim believe it ALIVE again.\<close>

theorem refutation_beats_claim:
  assumes s: "swim_wf s" and t: "swim_wf t" and "self_id t \<noteq> self_id s"
    and d: "mr_shard_id d = self_id s" "mr_state d \<noteq> ALIVE" "self_incarnation s \<le> mr_incarnation d"
    and own: "dget (view s) (self_id s) = Some own" and adm: "admit t own"
    and p: "dget (view t) (self_id s) = Some p" "mr_incarnation p \<le> mr_incarnation d"
  shows "\<exists>s' ds s'' t' q.
    recv (MembershipDelta \<lparr>md_members = [d]\<rparr>) now s = Inr ([], s') \<and>
    self_incarnation s' = mr_incarnation d + 1 \<and>
    select_outgoing_deltas s' = Inr (ds, s'') \<and> apply_deltas ds now' t = Inr t' \<and>
    dget (view t') (self_id s) = Some q \<and> rank q = (mr_incarnation d + 1, ALIVE)"
proof -
  define own' where "own' = \<lparr>mr_shard_id = self_id s, mr_host = mr_host own,
      mr_udp_port = mr_udp_port own, mr_state = ALIVE, mr_incarnation = mr_incarnation d + 1,
      mr_model_id = mr_model_id own, mr_last_state_change = now, mr_suspect_deadline = None\<rparr>"
  define s' where "s' = install (self_id s) (Some (mr_state own)) own' now
      (s\<lparr>self_incarnation := mr_incarnation d + 1\<rparr>)"
  have rc: "recv (MembershipDelta \<lparr>md_members = [d]\<rparr>) now s = Inr ([], s')"
    unfolding s'_def using own d by (intro refute_installs) (simp_all add: view_def own'_def)
  have wf': "swim_wf s'"
    unfolding s'_def using s own
    by (intro install_wf) (simp_all add: own'_def change_ok_def view_def)
  from select_deltas_evolves [OF wf'] obtain ds s'' where
    sel: "select_outgoing_deltas s' = Inr (ds, s'')" "dget (members s') (self_id s') = Some (hd ds)" "ds \<noteq> []"
    by blast
  from sel(2) have hd: "hd ds = own'" by (simp add: s'_def)
  have "mr_shard_id (be_record b) \<noteq> self_id s \<or> be_record b = own'" if "b \<in> set (backlog s')" for b
    using that by (auto simp: s'_def install_def enqueue_backlog_def own'_def)
  then have "e \<in> set ds \<Longrightarrow> mr_shard_id e = self_id s \<Longrightarrow> e = own'" for e
    using select_deltas_records [OF sel(1)] hd by blast
  moreover have "own' \<in> set ds" using sel(3) hd by (metis list.set_sel(1))
  moreover have "mr_shard_id own' = self_id s \<and> admit t own'"
    using adm by (simp add: own'_def admit_def)
  ultimately have claims: "{e \<in> set ds. mr_shard_id e = self_id s \<and> admit t e} = {own'}"
    by blast
  have "Max (insert (rank p) (rank ` {own'})) = (mr_incarnation d + 1, ALIVE)"
    using p(2) by (simp add: rank_def own'_def max_def less_eq_prod_def)
  with gossip_merge [OF t p(1), of ds now'] assms(3) claims rc sel(1) show ?thesis
    by (auto simp: s'_def)
qed

theorem refutation_beats_claim_witness:
  "\<exists>s' ds s'' t' q.
    recv (MembershipDelta \<lparr>md_members = [demo_claim ''a'' DEAD 4]\<rparr>) 3 demo_state = Inr ([], s') \<and>
    self_incarnation s' = 5 \<and>
    select_outgoing_deltas s' = Inr (ds, s'') \<and>
    apply_deltas ds 8 (init_state (demo_peer ''b'') [demo_peer ''a''] [] default_config ''m'' 0) = Inr t' \<and>
    dget (view t') ''a'' = Some q \<and> rank q = (5, ALIVE)"
proof -
  let ?t = "init_state (demo_peer ''b'') [demo_peer ''a''] [] default_config ''m'' 0"
  have t: "self_id ?t = ''b''" "local_model_id ?t = ''m''" "dget (view ?t) ''a'' = Some (demo_claim ''a'' ALIVE 0)"
    "self_incarnation demo_state = 0" by code_simp+
  show ?thesis
    using refutation_beats_claim [OF demo_wf init_wf, of "demo_peer ''b''" "[demo_peer ''a'']" "[]" default_config "''m''" 0
        "demo_claim ''a'' DEAD 4" "demo_claim ''a'' ALIVE 0" "demo_claim ''a'' ALIVE 0" 3 8]
    by (simp add: t demo_view admit_def) (simp add: demo_claim_def)
qed

end
