(* ===== verification/Swim_Runs.thy ===== *)
theory Swim_Runs
  imports Swim_Detect
begin

text \<open>
  Properties of whole behaviours of the SWIM state machine: probing and its escalation, the path
  of a silent peer from ALIVE to DEAD, and what holds in every reachable state.
\<close>

declare map_of_eq_Some_iff [simp del] Some_eq_map_of_iff [simp del]

section \<open>Escalation of a timed-out probe\<close>

definition alive_others :: "PendingProbe \<Rightarrow> MembershipState \<Rightarrow> string set" where
  "alive_others probe s = {h. h \<noteq> self_id s \<and> h \<noteq> pp_target_id probe \<and>
     (\<exists>r. dget (members s) h = Some r \<and> mr_state r = ALIVE)}"

lemma dvalues_ids: "swim_wf s \<Longrightarrow> map mr_shard_id (dvalues (members s)) = dkeys (members s)"
proof -
  assume s: "swim_wf s"
  have "mr_shard_id (snd q) = fst q" if "q \<in> set (members s)" for q
    using that wf_key [OF s] dget_in_set [OF wf_distinct [OF s]] by (metis prod.collapse)
  then show ?thesis by simp
qed

lemma helpers_distinct:
  assumes "swim_wf s" shows "distinct (maybe_escalate_helpers probe s)"
proof -
  have "distinct (map mr_shard_id (dvalues (members s)))"
    unfolding dvalues_ids [OF assms] by (rule wf_distinct [OF assms])
  then show ?thesis unfolding maybe_escalate_helpers_def by (rule distinct_map_filter)
qed

lemma wf_member_iff:
  "swim_wf s \<Longrightarrow> r \<in> set (dvalues (members s)) \<longleftrightarrow> dget (members s) (mr_shard_id r) = Some r"
proof
  assume s: "swim_wf s" and "r \<in> set (dvalues (members s))"
  then obtain k where "(k, r) \<in> set (members s)" by auto
  then have "dget (members s) k = Some r" using dget_in_set [OF wf_distinct [OF s]] by blast
  moreover from wf_key [OF s this] have "mr_shard_id r = k" .
  ultimately show "dget (members s) (mr_shard_id r) = Some r" by simp
next
  assume "dget (members s) (mr_shard_id r) = Some r"
  from map_of_SomeD [OF this] show "r \<in> set (dvalues (members s))" by force
qed

lemma set_helpers:
  assumes s: "swim_wf s"
  shows "set (maybe_escalate_helpers probe s) = alive_others probe s"
proof -
  have "set (maybe_escalate_helpers probe s) =
      mr_shard_id ` {r. r \<in> set (dvalues (members s)) \<and> mr_shard_id r \<noteq> self_id s \<and>
        mr_shard_id r \<noteq> pp_target_id probe \<and> mr_state r = ALIVE}"
    by (simp only: maybe_escalate_helpers_def set_map set_filter)
  also have "\<dots> = alive_others probe s"
  proof (rule set_eqI, rule iffI)
    fix h assume "h \<in> mr_shard_id ` {r. r \<in> set (dvalues (members s)) \<and> mr_shard_id r \<noteq> self_id s \<and>
        mr_shard_id r \<noteq> pp_target_id probe \<and> mr_state r = ALIVE}"
    then obtain r where "h = mr_shard_id r" "dget (members s) (mr_shard_id r) = Some r"
        "mr_shard_id r \<noteq> self_id s" "mr_shard_id r \<noteq> pp_target_id probe" "mr_state r = ALIVE"
      unfolding wf_member_iff [OF s] by (elim imageE CollectE conjE)
    then show "h \<in> alive_others probe s" unfolding alive_others_def by simp
  next
    fix h assume h: "h \<in> alive_others probe s"
    then obtain r where r: "dget (members s) h = Some r" "mr_state r = ALIVE"
      unfolding alive_others_def by blast
    with h wf_key [OF s r(1)]
    show "h \<in> mr_shard_id ` {r. r \<in> set (dvalues (members s)) \<and> mr_shard_id r \<noteq> self_id s \<and>
        mr_shard_id r \<noteq> pp_target_id probe \<and> mr_state r = ALIVE}"
      unfolding wf_member_iff [OF s] by (intro image_eqI [of _ _ r]) (simp_all add: alive_others_def)
  qed
  finally show ?thesis .
qed

lemma send_pingreqs_payload:
  "send_pingreqs probe hs s = Inr (out, s') \<Longrightarrow> m \<in> set out \<Longrightarrow>
     \<exists>ds. om_payload m = PingReqMsg0 (self_id s) (pp_target_id probe) (pp_probe_id probe) ds"
proof (induction hs arbitrary: s out)
  case (Cons h hs)
  from Cons.prems(1) obtain ds s1 out1 where
    1: "select_outgoing_deltas s = Inr (ds, s1)" "send_pingreqs probe hs s1 = Inr (out1, s')"
       "out = \<lparr>om_target_shard_id = h,
          om_payload = PingReqMsg0 (self_id s) (pp_target_id probe) (pp_probe_id probe) ds\<rparr> # out1"
    by (auto simp: exn_simps)
  with Cons.IH [OF 1(2)] Cons.prems(2) select_deltas_fields(2) [OF 1(1)] show ?case by auto
qed simp

lemma mark_suspect_not_alive:
  assumes "mark_suspect j now s = Inr s'"
  shows "\<exists>r. dget (members s') j = Some r \<and> mr_state r \<noteq> ALIVE"
proof -
  from assms obtain prev where "dget (members s) j = Some prev"
    by (auto simp: mark_suspect_def exn_simps)
  with assms show ?thesis by (cases "mr_state prev") (auto simp: mark_suspect_def dindex_def)
qed

text \<open>Escalation.  When a direct probe has timed out, the node asks exactly
  min(k_indirect, number of other ALIVE peers) distinct helpers, all ALIVE in its view and
  different from itself and the target, with a PingReq naming the target and the probe.  With no
  helper available the target is no longer ALIVE and the probe is finished; otherwise the probe
  waits for those helpers.\<close>

theorem escalation_asks_alive_helpers:
  assumes s: "swim_wf s" and p: "pending_probe s = Some p" "pp_indirect_sent_at p = None"
    and now: "fadd (pp_sent_at p) (ms_to_s (t_timeout_ms (cfg s))) \<le> now" and k: "0 \<le> k_indirect (cfg s)"
  shows "\<exists>out s'. maybe_escalate_probe now s = Inr (out, s') \<and>
    (let hs = map om_target_shard_id out in
       length hs = min (nat (k_indirect (cfg s))) (card (alive_others p s)) \<and>
       distinct hs \<and> set hs \<subseteq> alive_others p s \<and>
       (\<forall>m \<in> set out. \<exists>ds. om_payload m = PingReqMsg0 (self_id s) (pp_target_id p) (pp_probe_id p) ds) \<and>
       (if hs = [] then pending_probe s' = None \<and>
            (\<exists>r. dget (view s') (pp_target_id p) = Some r \<and> mr_state r \<noteq> ALIVE)
        else pending_probe s' = Some (p\<lparr>pp_indirect_sent_at := Some now, pp_indirect_targets := hs\<rparr>)))"
proof -
  obtain cs g where sh: "rng_shuffle (maybe_escalate_helpers p s) (ms_rng s) = (cs, g)"
    by (cases "rng_shuffle (maybe_escalate_helpers p s) (ms_rng s)")
  let ?hs = "slice_to (k_indirect (cfg s)) cs"
  have cs: "set cs = alive_others p s" "distinct cs"
    using set_rng_shuffle [of "maybe_escalate_helpers p s" "ms_rng s"]
      distinct_rng_shuffle [of "maybe_escalate_helpers p s" "ms_rng s"] sh
      set_helpers [OF s] helpers_distinct [OF s] by simp_all
  have r: "evolves True s (s\<lparr>ms_rng := g\<rparr>)" by (intro evolves_update evolves_refl s)
  from send_pingreqs_evolves [OF evolves_wf [OF r], where hs = ?hs and probe = p and j = True]
  obtain out s1 where s1: "send_pingreqs p ?hs (s\<lparr>ms_rng := g\<rparr>) = Inr (out, s1)"
      "map om_target_shard_id out = ?hs" "evolves True (s\<lparr>ms_rng := g\<rparr>) s1" by blast
  have len: "length ?hs = min (nat (k_indirect (cfg s))) (card (alive_others p s))"
    using k cs by (simp add: slice_to_nonneg distinct_card [symmetric])
  have sub: "set ?hs \<subseteq> alive_others p s" "distinct ?hs"
    using set_slice_to [of "k_indirect (cfg s)" cs] cs by (simp_all add: slice_to_def)
  have pay: "\<forall>m \<in> set out. \<exists>ds. om_payload m = PingReqMsg0 (self_id s) (pp_target_id p) (pp_probe_id p) ds"
    using send_pingreqs_payload [OF s1(1)] by simp
  let ?s2 = "s1\<lparr>pending_probe := Some (p\<lparr>pp_indirect_sent_at := Some now, pp_indirect_targets := ?hs\<rparr>)\<rparr>"
  show ?thesis
  proof (cases "?hs = []")
    case True
    from escalate_evolves [OF s, where now = now and j = True] obtain o' s' where
      e: "maybe_escalate_probe now s = Inr (o', s')" by blast
    with p now sh s1(1) True obtain s3 where
      "o' = out" "mark_suspect (pp_target_id p) now ?s2 = Inr s3" "s' = s3\<lparr>pending_probe := None\<rparr>"
      by (auto simp: maybe_escalate_probe_def Let_def exn_simps)
    with e True s1(2) len sub pay mark_suspect_not_alive show ?thesis
      by (auto simp: Let_def view_def)
  next
    case False
    then have "maybe_escalate_probe now s = Inr (out, ?s2)"
      using p now sh s1(1) by (simp add: maybe_escalate_probe_def Let_def)
    moreover have "map om_target_shard_id out \<noteq> []" using False s1(2) by simp
    ultimately show ?thesis
      using len sub pay unfolding s1(2) [symmetric] Let_def by (intro exI conjI) (assumption | simp)+
  qed
qed


section \<open>Contact resurrects\<close>

lemma sender_alive_at:
  assumes "dget (members s) k = Some r" and "k \<noteq> self_id s"
  shows "\<exists>r'. dget (members (maybe_promote_sender_alive k inc now s)) k = Some r' \<and>
    mr_state r' = ALIVE \<and> mr_incarnation r \<le> mr_incarnation r' \<and>
    (mr_state r \<noteq> ALIVE \<longrightarrow> inc \<le> mr_incarnation r')"
  using assms by (auto simp: maybe_promote_sender_alive_def)

lemma Max_snd_ALIVE:
  assumes "finite A" and "\<forall>x \<in> A. snd x = ALIVE" and "snd (a :: int \<times> MemberState) = ALIVE"
  shows "snd (Max (insert a A)) = ALIVE \<and> fst a \<le> fst (Max (insert a A))"
proof -
  have "Max (insert a A) \<in> insert a A" using assms(1) by (intro Max_in) simp_all
  moreover have "a \<le> Max (insert a A)" using assms(1) by simp
  ultimately show ?thesis using assms(2,3) by (auto simp: less_eq_prod_def)
qed

text \<open>Contact resurrects.  A Ping from a known peer, in any state, that carries no bad news
  about its own sender leaves the sender ALIVE in the view, at an incarnation no lower than
  before (and no lower than the sender's, if it was not ALIVE), and is answered with exactly one
  Ack addressed to it.\<close>

theorem ping_resurrects_sender:
  assumes s: "swim_wf s" and r: "dget (view s) (pi_from_shard_id m) = Some r"
    and ne: "pi_from_shard_id m \<noteq> self_id s"
    and ds: "\<forall>d \<in> set (pi_deltas m). mr_shard_id d = pi_from_shard_id m \<longrightarrow> mr_state d = ALIVE"
  shows "\<exists>s' r' ds. recv (Ping m) now s =
      Inr ([\<lparr>om_target_shard_id = pi_from_shard_id m,
             om_payload = AckMsg0 (self_id s) (self_incarnation s') ds\<rparr>], s') \<and>
    dget (view s') (pi_from_shard_id m) = Some r' \<and> mr_state r' = ALIVE \<and>
    mr_incarnation r \<le> mr_incarnation r' \<and>
    (mr_state r \<noteq> ALIVE \<longrightarrow> pi_from_incarnation m \<le> mr_incarnation r')"
proof -
  let ?k = "pi_from_shard_id m"
  let ?s1 = "maybe_promote_sender_alive ?k (pi_from_incarnation m) now s"
  have e1: "evolves True s ?s1" by (rule sender_alive_evolves [OF s])
  note f1 = evolves_frame [OF e1]
  from sender_alive_at [OF _ ne, of r "pi_from_incarnation m" now] r obtain r1 where
    r1: "dget (view ?s1) ?k = Some r1" "mr_state r1 = ALIVE" "mr_incarnation r \<le> mr_incarnation r1"
      "mr_state r \<noteq> ALIVE \<longrightarrow> pi_from_incarnation m \<le> mr_incarnation r1"
    by (auto simp: view_def)
  from gossip_merge [OF evolves_wf [OF e1] r1(1), where ds = "pi_deltas m" and now = now] ne f1
  obtain s2 r2 where s2: "apply_deltas (pi_deltas m) now ?s1 = Inr s2" "dget (view s2) ?k = Some r2"
    "rank r2 = Max (insert (rank r1) (rank ` {d \<in> set (pi_deltas m). mr_shard_id d = ?k \<and> admit ?s1 d}))"
    by auto
  have r2: "mr_state r2 = ALIVE \<and> mr_incarnation r1 \<le> mr_incarnation r2"
    using Max_snd_ALIVE [of "rank ` {d \<in> set (pi_deltas m). mr_shard_id d = ?k \<and> admit ?s1 d}" "rank r1"]
      ds r1(2) s2(3) [symmetric] by (auto simp: rank_def)
  from apply_deltas_evolves [OF evolves_wf [OF e1], where ds = "pi_deltas m" and now = now and j = True] s2(1)
  have e2: "evolves True ?s1 s2" by auto
  from select_deltas_evolves [OF evolves_wf [OF e2]] obtain ds s3 where
    s3: "select_outgoing_deltas s2 = Inr (ds, s3)" by blast
  note f3 = select_deltas_fields [OF s3]
  have "?k \<in> set (dkeys (members s))" using r dget_key [of "members s" ?k r] by (simp add: view_def)
  then have "recv (Ping m) now s = Inr ([\<lparr>om_target_shard_id = ?k,
             om_payload = AckMsg0 (self_id s) (self_incarnation s3) ds\<rparr>], s3)"
    using s2(1) s3 f3(2) evolves_frame [OF e2] f1 by (simp add: recv_def handle_ping_def Let_def)
  moreover have "dget (view s3) ?k = Some r2" using s2(2) f3(1) by (simp add: view_def)
  ultimately show ?thesis using r2 r1(3,4) by fastforce
qed

section \<open>From silence to death\<close>

lemma promote_dead_fields:
  "pending_probe (maybe_promote_dead now s) = pending_probe s \<and>
   next_period_at (maybe_promote_dead now s) = next_period_at s \<and> cfg (maybe_promote_dead now s) = cfg s"
  unfolding maybe_promote_dead_def
  by (rule fold_invariant_result [where P = "\<lambda>t. pending_probe t = pending_probe s \<and>
        next_period_at t = next_period_at s \<and> cfg t = cfg s"])
     (auto simp: promote_dead_step_def split: prod.splits if_splits)

text \<open>The state in which a tick decides about the probe.\<close>

lemma tick_split:
  assumes s: "swim_wf s" and t: "tick now s = Inr (out, s')"
  obtains s2 o3 s3 o4 where "swim_wf s2" "evolves True s s2" "pending_probe s2 = pending_probe s"
    "next_period_at s2 = next_period_at s"
    "\<And>k r. dget (members s) k = Some r \<Longrightarrow> mr_state r = ALIVE \<Longrightarrow> dget (members s2) k = Some r"
    "(if next_period_at s \<le> now then start_protocol_period now s2 else Inr ([], s2)) = Inr (o3, s3)"
    "maybe_escalate_probe now s3 = Inr (o4, s')" "swim_wf s3"
proof -
  from t obtain o1 s1 o3 s3 o4 where
    1: "maybe_timeout_helps now (gc_backlog now s) = Inr (o1, s1)" and
    3: "(if next_period_at (maybe_promote_dead now s1) \<le> now
         then start_protocol_period now (maybe_promote_dead now s1)
         else Inr ([], maybe_promote_dead now s1)) = Inr (o3, s3)" and
    4: "maybe_escalate_probe now s3 = Inr (o4, s')"
    by (auto simp: tick_def Let_def exn_simps)
  have g: "evolves True s (gc_backlog now s)" by (rule evolves_gc_backlog [OF s])
  have e1: "evolves True (gc_backlog now s) s1"
    using timeout_helps_evolves [OF evolves_wf [OF g], where now = now and j = True] 1 by auto
  have e2: "evolves True s1 (maybe_promote_dead now s1)"
    by (rule maybe_promote_dead_evolves [OF evolves_wf [OF e1]])
  have n: "next_period_at (maybe_promote_dead now s1) = next_period_at s"
    using timeout_helps_fields [OF 1] by (simp add: promote_dead_fields gc_backlog_def Let_def)
  have p: "pending_probe (maybe_promote_dead now s1) = pending_probe s"
    using timeout_helps_fields [OF 1] by (simp add: promote_dead_fields gc_backlog_def Let_def)
  have a: "dget (members (maybe_promote_dead now s1)) k = Some r"
    if "dget (members s) k = Some r" "mr_state r = ALIVE" for k r
    using that promote_dead_at [OF evolves_wf [OF e1], of k r now] timeout_helps_fields [OF 1]
    by (simp add: deadline_passed_def gc_backlog_def Let_def)
  have w3: "swim_wf s3"
    using start_period_evolves [OF evolves_wf [OF e2], where now = now and j = True] 3 evolves_wf [OF e2]
    by (auto split: if_splits dest: evolves_wf)
  show thesis
    by (rule that [OF evolves_wf [OF e2] evolves_trans [OF g evolves_trans [OF e1 e2]] p n a _ 4 w3])
       (use 3 n in simp_all)
qed


text \<open>A record on its way to DEAD: dead already, or suspected with a deadline of at most
  \<^verbatim>\<open>d\<close>.\<close>

definition doomed :: "string \<Rightarrow> int \<Rightarrow> py_float \<Rightarrow> MembershipState \<Rightarrow> bool" where
  "doomed k inc d s \<longleftrightarrow> (\<exists>r. dget (members s) k = Some r \<and> mr_incarnation r = inc \<and>
     (mr_state r = DEAD \<or> mr_state r = SUSPECT \<and> (\<exists>d' \<le> d. mr_suspect_deadline r = Some d')))"

lemma doomed_tick:
  assumes "swim_wf s" and "doomed k inc d s" and "tick now s = Inr (out, s')"
  shows "doomed k inc d s'"
    and "d \<le> now \<Longrightarrow> \<exists>r. dget (members s') k = Some r \<and> mr_state r = DEAD \<and> mr_incarnation r = inc"
proof -
  from assms(2) obtain r where r: "dget (members s) k = Some r" "mr_incarnation r = inc"
    "mr_state r = DEAD \<or> mr_state r = SUSPECT \<and> (\<exists>d' \<le> d. mr_suspect_deadline r = Some d')"
    unfolding doomed_def by blast
  have t: "dget (members s') k = Some (if deadline_passed now r then dead_record now r else r)"
    using r(3) by (intro tick_not_alive [OF assms(1) r(1) _ assms(3)]) auto
  with r(2,3) show "doomed k inc d s'" by (auto simp: doomed_def dead_record_def)
  assume "d \<le> now"
  with r(3) have "deadline_passed now r \<or> mr_state r = DEAD" by (auto simp: deadline_passed_def)
  with t r(2) show "\<exists>r. dget (members s') k = Some r \<and> mr_state r = DEAD \<and> mr_incarnation r = inc"
    by (auto simp: dead_record_def)
qed

lemma doomed_mono: "doomed k inc d s \<Longrightarrow> d \<le> e \<Longrightarrow> doomed k inc e s"
  by (auto simp: doomed_def intro: order_trans)

lemma mark_suspect_dooms:
  "mark_suspect k now s = Inr s' \<Longrightarrow> dget (members s) k = Some r \<Longrightarrow> mr_state r = ALIVE \<Longrightarrow>
     doomed k (mr_incarnation r) (fadd now (ms_to_s (t_suspect_ms (cfg s)))) s'"
  by (auto simp: mark_suspect_def doomed_def dindex_def)

lemma start_period_dooms:
  assumes "start_protocol_period now s = Inr (out, s')" and "pending_probe s = Some p"
    and "pp_indirect_sent_at p \<noteq> None" and "\<not> pp_indirect_success_seen p"
    and "dget (members s) (pp_target_id p) = Some r" and "mr_state r = ALIVE"
  shows "doomed (pp_target_id p) (mr_incarnation r) (fadd now (ms_to_s (t_suspect_ms (cfg s)))) s'"
proof -
  from assms(1-4) obtain s0 where s0: "mark_suspect (pp_target_id p) now s = Inr s0"
    by (auto simp: start_protocol_period_def exn_simps)
  moreover have "members s' = members s0"
  proof (cases "probe_candidates (s0\<lparr>pending_probe := None\<rparr>) = []")
    case False
    with assms(1-4) s0 obtain g q n b ds where
      "select_outgoing_deltas (s0\<lparr>ms_rng := g, probe_counter := n, pending_probe := q,
         next_period_at := b\<rparr>) = Inr (ds, s')"
      by (auto simp: start_protocol_period_def exn_simps Let_def)
    from select_deltas_fields(1) [OF this] show ?thesis by simp
  next
    case True
    with assms(1-4) s0 have "s' = s0\<lparr>pending_probe := None,
        next_period_at := fadd now (ms_to_s (t_ping_ms (cfg s0)))\<rparr>"
      by (auto simp: start_protocol_period_def Let_def)
    then show ?thesis by simp
  qed
  ultimately show ?thesis using mark_suspect_dooms [OF s0 assms(5,6)] by (simp add: doomed_def)
qed

lemma escalate_dooms_or_waits:
  assumes "maybe_escalate_probe now s = Inr (out, s')" and p: "pending_probe s = Some p"
    "pp_indirect_sent_at p = None" and now: "fadd (pp_sent_at p) (ms_to_s (t_timeout_ms (cfg s))) \<le> now"
    and r: "dget (members s) (pp_target_id p) = Some r" "mr_state r = ALIVE"
  shows "doomed (pp_target_id p) (mr_incarnation r) (fadd now (ms_to_s (t_suspect_ms (cfg s)))) s' \<or>
    (dget (members s') (pp_target_id p) = Some r \<and> next_period_at s' = next_period_at s \<and>
     (\<exists>hs. pending_probe s' = Some (p\<lparr>pp_indirect_sent_at := Some now, pp_indirect_targets := hs\<rparr>)))"
proof -
  obtain cs g where sh: "rng_shuffle (maybe_escalate_helpers p s) (ms_rng s) = (cs, g)"
    by (cases "rng_shuffle (maybe_escalate_helpers p s) (ms_rng s)")
  let ?hs = "slice_to (k_indirect (cfg s)) cs"
  from assms sh obtain o1 s1 where sp: "send_pingreqs p ?hs (s\<lparr>ms_rng := g\<rparr>) = Inr (o1, s1)"
    by (auto simp: maybe_escalate_probe_def exn_simps Let_def)
  note f = send_pingreqs_fields [OF sp]
  let ?s2 = "s1\<lparr>pending_probe := Some (p\<lparr>pp_indirect_sent_at := Some now, pp_indirect_targets := ?hs\<rparr>)\<rparr>"
  show ?thesis
  proof (cases "?hs = []")
    case True
    with assms sh sp obtain s3 where
      m: "mark_suspect (pp_target_id p) now ?s2 = Inr s3" "s' = s3\<lparr>pending_probe := None\<rparr>"
      by (auto simp: maybe_escalate_probe_def exn_simps Let_def)
    then show ?thesis using f r mark_suspect_dooms [OF m(1), of r] by (simp add: doomed_def)
  next
    case False
    with assms sh sp have "s' = ?s2" by (auto simp: maybe_escalate_probe_def Let_def)
    then show ?thesis using f r(1) by auto
  qed
qed

lemma doomed_escalate:
  assumes "maybe_escalate_probe now s = Inr (out, s')" and "doomed k inc d s"
  shows "doomed k inc d s'"
  using assms escalate_keeps [OF assms(1)] by (fastforce simp: doomed_def)

text \<open>C11: Silence leads to death.  If a peer that is being probed never answers, nobody answers
  for it and no gossip arrives, three ticks suffice: one past the probe timeout, one past the end
  of the protocol period and one past the suspicion deadline.  The peer is then DEAD in the view
  with its incarnation unchanged, whether or not there were helpers to ask.\<close>

theorem silent_peer_declared_dead:
  assumes s: "swim_wf s" and p: "pending_probe s = Some p" "pp_indirect_sent_at p = None"
      "\<not> pp_indirect_success_seen p"
    and r: "dget (view s) (pp_target_id p) = Some r" "mr_state r = ALIVE"
    and t1: "fadd (pp_sent_at p) (ms_to_s (t_timeout_ms (cfg s))) \<le> now1" "now1 < next_period_at s"
    and t2: "next_period_at s \<le> now2"
    and t3: "fadd now1 (ms_to_s (t_suspect_ms (cfg s))) \<le> now3"
      "fadd now2 (ms_to_s (t_suspect_ms (cfg s))) \<le> now3"
  shows "\<exists>o1 s1 o2 s2 o3 s3 r'. tick now1 s = Inr (o1, s1) \<and> tick now2 s1 = Inr (o2, s2) \<and>
    tick now3 s2 = Inr (o3, s3) \<and> dget (view s3) (pp_target_id p) = Some r' \<and>
    mr_state r' = DEAD \<and> mr_incarnation r' = mr_incarnation r"
proof -
  let ?k = "pp_target_id p" and ?inc = "mr_incarnation r"
  note tot = tick_evolves [where j = True]
  obtain o1 s1 where k1: "tick now1 s = Inr (o1, s1)" "evolves True s s1" using tot [OF s] by blast
  note w1 = evolves_wf [OF k1(2)]
  obtain o2 s2 where k2: "tick now2 s1 = Inr (o2, s2)" "evolves True s1 s2" using tot [OF w1] by blast
  note w2 = evolves_wf [OF k2(2)]
  obtain o3 s3 where k3: "tick now3 s2 = Inr (o3, s3)" using tot [OF w2] by blast
  have r': "dget (members s) ?k = Some r" using r(1) by (simp add: view_def)
  obtain u where u: "evolves True s u" "pending_probe u = Some p" "next_period_at u = next_period_at s"
    "dget (members u) ?k = Some r" and "\<exists>o4. maybe_escalate_probe now1 u = Inr (o4, s1)"
    by (rule tick_split [OF s k1(1)]) (use p(1) r(2) r' t1(2) in auto)
  then obtain o4 where "maybe_escalate_probe now1 u = Inr (o4, s1)" by blast
  from escalate_dooms_or_waits [OF this u(2) p(2) _ u(4) r(2)] evolves_frame [OF u(1)] t1(1) u(3)
  consider "doomed ?k ?inc (fadd now1 (ms_to_s (t_suspect_ms (cfg s)))) s1"
    | hs where "dget (members s1) ?k = Some r" "next_period_at s1 = next_period_at s"
      "pending_probe s1 = Some (p\<lparr>pp_indirect_sent_at := Some now1, pp_indirect_targets := hs\<rparr>)"
    by auto
  then have "doomed ?k ?inc now3 s2"
  proof cases
    case 1
    with doomed_tick(1) [OF w1 _ k2(1)] t3(1) show ?thesis by (blast intro: doomed_mono)
  next
    case 2
    let ?p = "p\<lparr>pp_indirect_sent_at := Some now1, pp_indirect_targets := hs\<rparr>"
    obtain v v' o4 where v: "evolves True s1 v" "pending_probe v = Some ?p" "dget (members v) ?k = Some r"
      and sp: "\<exists>ou. start_protocol_period now2 v = Inr (ou, v')" and esc: "maybe_escalate_probe now2 v' = Inr (o4, s2)"
      by (rule tick_split [OF w1 k2(1)]) (use 2 r(2) t2 in auto)
    then obtain ou where sp': "start_protocol_period now2 v = Inr (ou, v')" by blast
    have "doomed ?k ?inc (fadd now2 (ms_to_s (t_suspect_ms (cfg s)))) v'"
      using start_period_dooms [OF sp' v(2)] v(3) r(2) p(3) evolves_frame [OF v(1)] evolves_frame [OF k1(2)]
      by simp
    then show ?thesis using doomed_escalate [OF esc] t3(2) by (blast intro: doomed_mono)
  qed
  from doomed_tick(2) [OF w2 this k3] k1(1) k2(1) k3 show ?thesis by (auto simp: view_def)
qed


definition demo_probing :: MembershipState where
  "demo_probing = demo_state\<lparr>next_period_at := 2, pending_probe := Some \<lparr>pp_probe_id = ''a:1'',
     pp_target_id = ''b'', pp_sent_at = 1, pp_indirect_sent_at = None, pp_indirect_targets = [],
     pp_indirect_acks = 0, pp_indirect_success_seen = False\<rparr>\<rparr>"

lemma demo_probing_wf: "swim_wf demo_probing"
proof -
  have "evolves True demo_state demo_probing"
    unfolding demo_probing_def using demo_view
    by (intro evolves_probe evolves_update(3) evolves_refl demo_wf)
       (auto simp: view_def dest: dget_key)
  then show ?thesis by (rule evolves_wf)
qed

lemma demo_times:
  "fadd 1 (ms_to_s 500) = 3/2" "fadd (3/2) (ms_to_s 4000) = 11/2" "fadd 2 (ms_to_s 4000) = 6"
  by code_simp+

lemma demo_cfg: "cfg demo_probing = default_config"
  by code_simp

lemma demo_probing_view: "view demo_probing = view demo_state"
  by (simp add: demo_probing_def view_def)

theorem silent_peer_declared_dead_witness:
  "\<exists>o1 s1 o2 s2 o3 s3 r'. tick (3/2) demo_probing = Inr (o1, s1) \<and> tick 2 s1 = Inr (o2, s2) \<and>
    tick 6 s2 = Inr (o3, s3) \<and> dget (view s3) ''b'' = Some r' \<and>
    mr_state r' = DEAD \<and> mr_incarnation r' = 0"
proof -
  obtain p where p: "pending_probe demo_probing = Some p" "pp_target_id p = ''b''" "pp_sent_at p = 1"
    "pp_indirect_sent_at p = None" "\<not> pp_indirect_success_seen p"
    by (simp add: demo_probing_def)
  have n: "next_period_at demo_probing = 2" by (simp add: demo_probing_def)
  show ?thesis
    using silent_peer_declared_dead [OF demo_probing_wf p(1,4,5), of "demo_claim ''b'' ALIVE 0" "3/2" 2 6]
    by (simp add: p demo_probing_view demo_view demo_cfg default_config_def demo_times n)
       (simp add: demo_claim_def)
qed

theorem escalation_asks_alive_helpers_witness:
  "\<exists>out s'. maybe_escalate_probe (3/2) demo_probing = Inr (out, s') \<and>
     set (map om_target_shard_id out) \<subseteq> alive_others (the (pending_probe demo_probing)) demo_probing \<and>
     length out = min 2 (card (alive_others (the (pending_probe demo_probing)) demo_probing))"
proof -
  obtain p where p: "pending_probe demo_probing = Some p" "pp_target_id p = ''b''" "pp_sent_at p = 1"
    "pp_indirect_sent_at p = None" by (simp add: demo_probing_def)
  show ?thesis
    using escalation_asks_alive_helpers [OF demo_probing_wf p(1,4), of "3/2"]
    by (auto simp: p demo_cfg default_config_def demo_times Let_def)
qed

theorem ping_resurrects_sender_witness:
  "\<exists>s' r' ds. recv (Ping \<lparr>pi_from_shard_id = ''b'', pi_from_incarnation = 3,
        pi_deltas = [demo_claim ''b'' ALIVE 3, demo_claim ''c'' DEAD 0], pi_loads = [], pi_heat = [],
        pi_ownership = []\<rparr>) 7 demo_suspect =
      Inr ([\<lparr>om_target_shard_id = ''b'', om_payload = AckMsg0 ''a'' (self_incarnation s') ds\<rparr>], s') \<and>
    dget (view s') ''b'' = Some r' \<and> mr_state r' = ALIVE \<and> 3 \<le> mr_incarnation r'"
proof -
  let ?m = "\<lparr>pi_from_shard_id = ''b'', pi_from_incarnation = 3,
        pi_deltas = [demo_claim ''b'' ALIVE 3, demo_claim ''c'' DEAD 0], pi_loads = [], pi_heat = [],
        pi_ownership = []\<rparr>"
  have v: "dget (view demo_suspect) ''b'' = Some ((demo_claim ''b'' SUSPECT 0)\<lparr>mr_suspect_deadline := Some 5\<rparr>)"
    "self_id demo_suspect = ''a''"
    by (simp_all add: demo_suspect_def view_def demo_view)
  show ?thesis
    using ping_resurrects_sender [OF demo_suspect_wf, of ?m
        "(demo_claim ''b'' SUSPECT 0)\<lparr>mr_suspect_deadline := Some 5\<rparr>" 7] v
    by (auto simp: demo_claim_def)
qed

section \<open>Every reachable state\<close>

text \<open>C8: The state machine never raises.  In every state reachable from any initial
  configuration by any interleaving of ticks and messages, with any clock readings and any
  payload, a further tick or message returns normally, to a well-formed state.\<close>

theorem reachable_never_raises:
  assumes "swim_run (init_state sp ps g c mid inc) s"
  shows "swim_wf s \<and> (\<exists>out s'. tick now s = Inr (out, s') \<and> swim_wf s') \<and>
    (\<exists>out s'. recv msg now s = Inr (out, s') \<and> swim_wf s')"
proof -
  have wf: "swim_wf s" using run_evolves [OF assms init_wf] by (rule evolves_wf)
  moreover have "\<exists>out s'. tick now s = Inr (out, s') \<and> swim_wf s'"
    using tick_evolves [OF wf, where now = now and j = True] evolves_wf by blast
  moreover have "\<exists>out s'. recv msg now s = Inr (out, s') \<and> swim_wf s'"
    using recv_evolves [OF wf, where now = now and msg = msg and j = True] evolves_wf by blast
  ultimately show ?thesis by blast
qed

definition demo_run :: MembershipState where
  "demo_run = (case recv (MembershipDelta \<lparr>md_members = [demo_claim ''b'' DEAD 3]\<rparr>) 1 demo_state of
     Inl _ \<Rightarrow> demo_state | Inr p \<Rightarrow> snd p)"

lemma demo_run: "swim_run demo_state demo_run"
proof -
  from recv_evolves [OF demo_wf, where msg = "MembershipDelta \<lparr>md_members = [demo_claim ''b'' DEAD 3]\<rparr>"
      and now = 1 and j = True]
  obtain out s' where "recv (MembershipDelta \<lparr>md_members = [demo_claim ''b'' DEAD 3]\<rparr>) 1 demo_state = Inr (out, s')"
    by blast
  then show ?thesis by (auto simp: demo_run_def intro: run_refl run_step step_recv)
qed

theorem reachable_never_raises_witness:
  "swim_wf demo_run \<and> (\<exists>out s'. tick 9 demo_run = Inr (out, s') \<and> swim_wf s') \<and>
    (\<exists>out s'. recv (Join \<lparr>jo_self_record = demo_claim ''d'' ALIVE 0\<rparr>) 9 demo_run = Inr (out, s') \<and> swim_wf s')"
  using demo_run unfolding demo_state_def by (rule reachable_never_raises)

text \<open>C14: The transition log explains the view.  Between two points of any run, the transitions
  recorded since the first point's watermark, replayed in order on the view of the first point,
  give exactly the view of the second, and each names the state its member was in when it
  happened.  An observer that polls with a watermark therefore misses nothing.\<close>

theorem transitions_explain_view:
  assumes "swim_run (init_state sp ps g c mid inc) s" and "swim_run s t"
  shows "log_ok (dget (view s)) (changes_since (transition_watermark s) t) (dget (view t)) \<and>
    dget (view t) = fold (\<lambda>x m. m(st_shard_id x \<mapsto> st_new_record x))
      (changes_since (transition_watermark s) t) (dget (view s))"
proof -
  have "swim_wf s" using run_evolves [OF assms(1) init_wf] by (rule evolves_wf)
  from run_evolves [OF assms(2) this] obtain ts where
    "transitions t = transitions s @ ts" "log_ok (dget (members s)) ts (dget (members t))"
    by (auto simp: evolves_def)
  then show ?thesis
    using log_ok_fold by (auto simp: changes_since_def transition_watermark_def view_def)
qed

theorem transitions_explain_view_witness:
  "log_ok (dget (view demo_state)) (changes_since (transition_watermark demo_state) demo_run)
     (dget (view demo_run)) \<and>
   dget (view demo_run) = fold (\<lambda>x m. m(st_shard_id x \<mapsto> st_new_record x))
      (changes_since (transition_watermark demo_state) demo_run) (dget (view demo_state))"
  unfolding demo_state_def
  by (rule transitions_explain_view [OF run_refl])
     (use demo_run in \<open>simp only: demo_state_def\<close>)

lemma changes_ok_models:
  assumes "log_ok m ts m'" and "changes_ok j own mid m ts" and "mid \<noteq> []"
    and "\<forall>k r. m k = Some r \<longrightarrow> mr_model_id r = mid" and "m' k = Some r"
  shows "mr_model_id r = mid"
  using assms
proof (induction ts arbitrary: m)
  case (Cons t ts)
  from Cons.prems(2-4) have "mr_model_id (st_new_record t) = mid"
    by (cases "m (st_shard_id t)") (auto simp: change_ok_def)
  with Cons.prems show ?case
    by (intro Cons.IH [of "m(st_shard_id t \<mapsto> st_new_record t)"]) (simp_all del: fun_upd_apply, simp)
qed simp

lemma init_models: "dget (members (init_state sp ps g c mid inc)) k = Some r \<Longrightarrow> mr_model_id r = mid"
  using fold_dput_origin [of ps_shard_id "initial_record (ps_shard_id sp) inc mid" "sp # ps" "[]" k r]
  by (auto simp: init_state_def Let_def initial_record_def split: if_splits option.splits)

lemma init_local_model: "local_model_id (init_state sp ps g c mid inc) = mid"
  by (simp add: init_state_def Let_def split: option.split)

text \<open>C15: Admission.  A node configured with a model identity never holds a member of a different
  model: in every reachable state all records of its view, the ones learned by gossip and by join
  included, carry its own model identity.\<close>

theorem only_same_model_admitted:
  assumes "swim_run (init_state sp ps g c mid inc) s" and "mid \<noteq> []"
    and "dget (view s) k = Some r"
  shows "mr_model_id r = mid"
proof -
  let ?i = "init_state sp ps g c mid inc"
  from run_evolves [OF assms(1) init_wf] obtain ts where
    "log_ok (dget (members ?i)) ts (dget (members s))"
    "changes_ok True (self_id ?i) mid (dget (members ?i)) ts"
    by (auto simp: evolves_def init_local_model)
  from changes_ok_models [OF this assms(2)] init_models assms(3) show ?thesis
    unfolding view_def by blast
qed

theorem only_same_model_admitted_witness: "mr_model_id (demo_claim ''a'' ALIVE 0) = ''m''"
proof (rule only_same_model_admitted)
  show "swim_run (init_state (demo_peer ''a'') [demo_peer ''b'', demo_peer ''c''] [] default_config ''m'' 0) demo_run"
    using demo_run by (simp only: demo_state_def)
  show "dget (view demo_run) ''a'' = Some (demo_claim ''a'' ALIVE 0)" by code_simp
qed simp

lemma changes_ok_incarnation:
  assumes "log_ok m ts m'" and "changes_ok False own mid m ts" and "k \<noteq> own" and "m k = Some r"
  shows "\<exists>r'. m' k = Some r' \<and> mr_incarnation r \<le> mr_incarnation r'"
  using assms
proof (induction ts arbitrary: m r)
  case (Cons t ts)
  show ?case
  proof (cases "st_shard_id t = k")
    case True
    with Cons.prems have "mr_incarnation r \<le> mr_incarnation (st_new_record t)"
      by (auto simp: change_ok_def)
    moreover have "\<exists>r'. m' k = Some r' \<and> mr_incarnation (st_new_record t) \<le> mr_incarnation r'"
      using Cons.prems True
      by (intro Cons.IH [of "m(st_shard_id t \<mapsto> st_new_record t)"]) (simp_all del: fun_upd_apply, simp)
    ultimately show ?thesis by force
  next
    case False
    with Cons.prems show ?thesis
      by (intro Cons.IH [of "m(st_shard_id t \<mapsto> st_new_record t)"]) (simp_all del: fun_upd_apply, simp)
  qed
qed simp

text \<open>C16: Incarnations of peers never go back on a tick or on any message other than a join.\<close>

theorem peer_incarnation_monotone:
  assumes s: "swim_wf s" and k: "k \<noteq> self_id s" and r: "dget (view s) k = Some r" and j: "\<not> is_join msg"
  shows "\<exists>o1 s1 r1 o2 s2 r2.
    tick now s = Inr (o1, s1) \<and> dget (view s1) k = Some r1 \<and> mr_incarnation r \<le> mr_incarnation r1 \<and>
    recv msg now s = Inr (o2, s2) \<and> dget (view s2) k = Some r2 \<and> mr_incarnation r \<le> mr_incarnation r2"
proof -
  have mono: "\<exists>r'. dget (view s') k = Some r' \<and> mr_incarnation r \<le> mr_incarnation r'"
    if "evolves False s s'" for s'
    using that changes_ok_incarnation [OF _ _ k] r unfolding evolves_def view_def by blast
  from tick_evolves [OF s, where now = now and j = False] obtain o1 s1 where
    1: "tick now s = Inr (o1, s1)" "evolves False s s1" by blast
  from recv_evolves [OF s, where msg = msg and now = now and j = False] j obtain o2 s2 where
    2: "recv msg now s = Inr (o2, s2)" "evolves False s s2" by blast
  from 1 2 mono [OF 1(2)] mono [OF 2(2)] show ?thesis by blast
qed

theorem peer_incarnation_monotone_witness:
  "\<exists>o1 s1 r1 o2 s2 r2.
    tick 1 demo_state = Inr (o1, s1) \<and> dget (view s1) ''b'' = Some r1 \<and> 0 \<le> mr_incarnation r1 \<and>
    recv (MembershipDelta \<lparr>md_members = [demo_claim ''b'' DEAD (-2)]\<rparr>) 1 demo_state = Inr (o2, s2) \<and>
    dget (view s2) ''b'' = Some r2 \<and> 0 \<le> mr_incarnation r2"
  using peer_incarnation_monotone [OF demo_wf _ demo_view(4),
      of "MembershipDelta \<lparr>md_members = [demo_claim ''b'' DEAD (-2)]\<rparr>" 1]
  by (simp add: demo_view demo_claim_def)

end
