(* ===== verification/Transport.thy ===== *)
theory Transport
  imports Prelude "HOL-Library.Word"
begin

text \<open>
  The wire framing of \<^verbatim>\<open>transport.py\<close> and the envelope wrappers of
  \<^verbatim>\<open>envelope.py\<close>.

  An input stream is the list of segments in which the operating system hands the bytes over:
  \<^verbatim>\<open>stream.read(n)\<close> returns at most \<^verbatim>\<open>n\<close> bytes of the next segment, and the
  empty byte string at the end of the stream.  An output stream holds the bytes sent so far and,
  for the writes to come, how many bytes each will accept: an unbuffered socket file may accept
  fewer bytes than it was given and says so only in its return value, which the source ignores.
  A stream with no announced limits accepts every write whole.

  The locale \<^verbatim>\<open>framing\<close> is the contract of a self-delimiting encoding; it is interpreted
  on \<^verbatim>\<open>frame_bytes\<close> and \<^verbatim>\<open>read_frame_flat\<close>, to which the streaming
  \<^verbatim>\<open>read_frame\<close> is proved equal for every segmentation.
\<close>

type_synonym byte = "8 word"
type_synonym bytes = "byte list"
type_synonym in_stream = "bytes list"

record out_stream =
  os_sent :: bytes
  os_accepts :: "nat list"

section \<open>The length prefix: struct.pack and struct.unpack with format !I\<close>

definition LEN_SIZE :: nat where
  "LEN_SIZE = 4"

definition be32 :: "nat \<Rightarrow> bytes" where
  "be32 n = [word_of_nat (n div 2 ^ 24), word_of_nat (n div 2 ^ 16),
             word_of_nat (n div 2 ^ 8), word_of_nat n]"

definition pack_len :: "nat \<Rightarrow> bytes result" where
  "pack_len n = (if n < 2 ^ 32 then Inr (be32 n) else Inl StructError)"

definition unpack_len :: "bytes \<Rightarrow> nat result" where
  "unpack_len bs = (case bs of
       [a, b, c, d] \<Rightarrow> Inr (unat a * 2 ^ 24 + unat b * 2 ^ 16 + unat c * 2 ^ 8 + unat d)
     | _ \<Rightarrow> Inl StructError)"

section \<open>Reading\<close>

fun stream_read :: "nat \<Rightarrow> in_stream \<Rightarrow> bytes \<times> in_stream" where
  "stream_read n [] = ([], [])"
| "stream_read n (c # cs) =
     (take n c, if length c \<le> n then cs else drop n c # cs)"

text \<open>The loop of \<^verbatim>\<open>_read_exact\<close>; every turn adds at least one byte or raises.\<close>

function read_loop :: "nat \<Rightarrow> bytes \<Rightarrow> in_stream \<Rightarrow> (bytes \<times> in_stream) result" where
  "read_loop n buf s =
     (if length buf < n
      then (case stream_read (n - length buf) s of
              (chunk, s') \<Rightarrow> if chunk = [] then Inl EOFError else read_loop n (buf @ chunk) s')
      else Inr (buf, s))"
  by pat_completeness auto
termination
  by (relation "measure (\<lambda>(n, buf, s). n - length buf)") (auto simp: neq_Nil_conv)

declare read_loop.simps [simp del]

definition read_exact :: "in_stream \<Rightarrow> nat \<Rightarrow> (bytes \<times> in_stream) result" where
  "read_exact s n = read_loop n [] s"

definition read_frame :: "in_stream \<Rightarrow> ((bytes \<times> bytes) \<times> in_stream) result" where
  "read_frame s =
     ebind (read_exact s LEN_SIZE) (\<lambda>(h1, s1).
     ebind (unpack_len h1) (\<lambda>msg_len.
     ebind (if msg_len \<noteq> 0 then read_exact s1 msg_len else Inr ([], s1)) (\<lambda>(msg, s2).
     ebind (read_exact s2 LEN_SIZE) (\<lambda>(h2, s3).
     ebind (unpack_len h2) (\<lambda>tensor_len.
     ebind (if tensor_len \<noteq> 0 then read_exact s3 tensor_len else Inr ([], s3)) (\<lambda>(tensor, s4).
     Inr ((msg, tensor), s4)))))))"

section \<open>Writing\<close>

definition stream_write :: "bytes \<Rightarrow> out_stream \<Rightarrow> out_stream" where
  "stream_write data s = (case os_accepts s of
       [] \<Rightarrow> s\<lparr>os_sent := os_sent s @ data\<rparr>
     | k # ks \<Rightarrow> s\<lparr>os_sent := os_sent s @ take k data, os_accepts := ks\<rparr>)"

text \<open>The stream after the call, and the exception if one was raised on the way.\<close>

definition write_frame :: "out_stream \<Rightarrow> bytes \<Rightarrow> bytes \<Rightarrow> out_stream \<times> py_exn option" where
  "write_frame s msg_bytes tensor_bytes =
     (case pack_len (length msg_bytes) of
        Inl e \<Rightarrow> (s, Some e)
      | Inr h1 \<Rightarrow>
          (let s1 = stream_write h1 s;
               s2 = (if msg_bytes \<noteq> [] then stream_write msg_bytes s1 else s1)
           in case pack_len (length tensor_bytes) of
                Inl e \<Rightarrow> (s2, Some e)
              | Inr h2 \<Rightarrow>
                  (let s3 = stream_write h2 s2
                   in (if tensor_bytes \<noteq> [] then stream_write tensor_bytes s3 else s3, None))))"

section \<open>Envelopes\<close>

text \<open>The protobuf runtime serialises and parses an envelope; both functions are parameters.\<close>

definition send_envelope ::
    "('m \<Rightarrow> bytes) \<Rightarrow> out_stream \<Rightarrow> 'm \<Rightarrow> bytes \<Rightarrow> out_stream \<times> py_exn option" where
  "send_envelope serialize s env tensor_bytes = write_frame s (serialize env) tensor_bytes"

definition recv_envelope ::
    "(bytes \<Rightarrow> 'm result) \<Rightarrow> in_stream \<Rightarrow> (('m \<times> bytes) \<times> in_stream) result" where
  "recv_envelope parse s =
     ebind (read_frame s) (\<lambda>((msg_bytes, tensor_bytes), s').
     ebind (parse msg_bytes) (\<lambda>env. Inr ((env, tensor_bytes), s')))"

section \<open>The reference encoding on whole byte strings\<close>

definition frame_bytes :: "bytes \<times> bytes \<Rightarrow> bytes" where
  "frame_bytes f = be32 (length (fst f)) @ fst f @ be32 (length (snd f)) @ snd f"

definition frame_ok :: "bytes \<times> bytes \<Rightarrow> bool" where
  "frame_ok f \<longleftrightarrow> length (fst f) < 2 ^ 32 \<and> length (snd f) < 2 ^ 32"

definition take_exact :: "nat \<Rightarrow> bytes \<Rightarrow> (bytes \<times> bytes) result" where
  "take_exact n bs = (if n \<le> length bs then Inr (take n bs, drop n bs) else Inl EOFError)"

definition read_frame_flat :: "bytes \<Rightarrow> ((bytes \<times> bytes) \<times> bytes) result" where
  "read_frame_flat bs =
     ebind (take_exact 4 bs) (\<lambda>(h1, r1).
     ebind (unpack_len h1) (\<lambda>n.
     ebind (take_exact n r1) (\<lambda>(msg, r2).
     ebind (take_exact 4 r2) (\<lambda>(h2, r3).
     ebind (unpack_len h2) (\<lambda>m.
     ebind (take_exact m r3) (\<lambda>(tensor, r4). Inr ((msg, tensor), r4)))))))"

text \<open>A segmentation with no empty segment: the operating system never hands over zero bytes
  before the end of the stream.\<close>

definition live_segments :: "in_stream \<Rightarrow> bool" where
  "live_segments s \<longleftrightarrow> [] \<notin> set s"

fun read_frames :: "nat \<Rightarrow> in_stream \<Rightarrow> ((bytes \<times> bytes) list \<times> in_stream) result" where
  "read_frames 0 s = Inr ([], s)"
| "read_frames (Suc n) s =
     ebind (read_frame s) (\<lambda>(f, s1). ebind (read_frames n s1) (\<lambda>(fs, s2). Inr (f # fs, s2)))"

section \<open>A self-delimiting encoding\<close>

locale framing =
  fixes encode :: "'f \<Rightarrow> 'b list"
    and decode :: "'b list \<Rightarrow> ('e + 'f \<times> 'b list)"
    and valid :: "'f \<Rightarrow> bool"
  assumes decode_encode: "valid f \<Longrightarrow> decode (encode f @ rest) = Inr (f, rest)"
begin

fun decode_many :: "nat \<Rightarrow> 'b list \<Rightarrow> 'e + 'f list \<times> 'b list" where
  "decode_many 0 bs = Inr ([], bs)"
| "decode_many (Suc n) bs = (case decode bs of Inl e \<Rightarrow> Inl e
     | Inr (f, r) \<Rightarrow> (case decode_many n r of Inl e \<Rightarrow> Inl e | Inr (fs, r') \<Rightarrow> Inr (f # fs, r')))"

lemma decode_many_encode:
  "list_all valid fs \<Longrightarrow> decode_many (length fs) (concat (map encode fs) @ rest) = Inr (fs, rest)"
  by (induction fs) (simp_all add: decode_encode)

lemma encode_prefix_free:
  assumes "valid f" and "valid g" and "encode f @ r = encode g @ r'"
  shows "f = g \<and> r = r'"
proof -
  have "Inr (f, r) = decode (encode f @ r)" using assms(1) by (simp add: decode_encode)
  also have "\<dots> = Inr (g, r')" using assms(2,3) by (simp add: decode_encode)
  finally show ?thesis by simp
qed

end

section \<open>The length prefix round trips\<close>

lemma length_be32 [simp]: "length (be32 n) = 4"
  by (simp add: be32_def)

lemma unpack_be32:
  assumes "n < 2 ^ 32"
  shows "unpack_len (be32 n) = Inr n"
proof -
  define a where "a = n div 256"
  define b where "b = a div 256"
  define c where "c = b div 256"
  have n: "n = a * 256 + n mod 256" and a: "a = b * 256 + a mod 256" and b: "b = c * 256 + b mod 256"
    by (simp_all add: a_def b_def c_def)
  have d: "n div 2 ^ 8 = a" "n div 2 ^ 16 = b" "n div 2 ^ 24 = c"
    by (simp_all add: a_def b_def c_def flip: div_mult2_eq)
  have "c < 256" using assms by (simp add: d(3) [symmetric] less_mult_imp_div_less)
  then have "c mod 256 * 2 ^ 24 + b mod 256 * 2 ^ 16 + a mod 256 * 2 ^ 8 + n mod 256 = n"
    using n a b by simp
  then show ?thesis
    by (simp add: unpack_len_def be32_def unat_of_nat d [simplified])
qed

lemma pack_len_ok [simp]: "n < 2 ^ 32 \<Longrightarrow> pack_len n = Inr (be32 n)"
  by (simp add: pack_len_def)

section \<open>Reading a segmented stream equals reading the bytes\<close>

lemma live_segments_simps [simp]:
  "live_segments []" "live_segments (c # cs) \<longleftrightarrow> c \<noteq> [] \<and> live_segments cs"
  by (auto simp: live_segments_def)

lemma read_loop_flat:
  assumes "live_segments s"
  shows "n - length buf \<le> length (concat s) \<Longrightarrow> length buf \<le> n \<Longrightarrow>
    \<exists>s'. read_loop n buf s = Inr (buf @ take (n - length buf) (concat s), s') \<and>
      concat s' = drop (n - length buf) (concat s) \<and> live_segments s'"
  using assms
proof (induction n buf s rule: read_loop.induct)
  case (1 n buf s)
  show ?case
  proof (cases "length buf < n")
    case False
    with "1.prems" show ?thesis by (subst read_loop.simps) simp
  next
    case True
    with "1.prems" obtain c cs where s: "s = c # cs" by (cases s) auto
    let ?k = "n - length buf"
    let ?s' = "if length c \<le> ?k then cs else drop ?k c # cs"
    have ne: "take ?k c \<noteq> []" using True s "1.prems" by auto
    have step: "read_loop n buf s = read_loop n (buf @ take ?k c) ?s'"
      using True ne s by (subst read_loop.simps) simp
    have "\<exists>s'. read_loop n (buf @ take ?k c) ?s' =
        Inr ((buf @ take ?k c) @ take (n - length (buf @ take ?k c)) (concat ?s'), s') \<and>
        concat s' = drop (n - length (buf @ take ?k c)) (concat ?s') \<and> live_segments s'"
      using True ne s "1.prems" by (intro "1.IH" [OF True, of "take ?k c" ?s']) auto
    with step s True show ?thesis by (cases "length c \<le> ?k") (auto simp: min_def)
  qed
qed

lemma read_loop_short:
  assumes "live_segments s"
  shows "length (concat s) < n - length buf \<Longrightarrow> read_loop n buf s = Inl EOFError"
  using assms
proof (induction n buf s rule: read_loop.induct)
  case (1 n buf s)
  then have less: "length buf < n" by simp
  show ?case
  proof (cases s)
    case Nil
    with less show ?thesis by (subst read_loop.simps) simp
  next
    case (Cons c cs)
    with less "1.prems" show ?thesis
      by (subst read_loop.simps) (use "1.IH" [OF less] in auto)
  qed
qed

lemma read_exact_flat:
  assumes "live_segments s"
  shows "(\<exists>s'. read_exact s n = Inr (take n (concat s), s') \<and> concat s' = drop n (concat s) \<and>
           live_segments s' \<and> n \<le> length (concat s)) \<or>
         (read_exact s n = Inl EOFError \<and> length (concat s) < n)"
  using read_loop_flat [OF assms, of n "[]"] read_loop_short [OF assms, of n "[]"]
  by (cases "n \<le> length (concat s)") (auto simp: read_exact_def)

lemma read_exact_0: "read_exact s 0 = Inr ([], s)"
  by (simp add: read_exact_def read_loop.simps)

text \<open>The streaming reader behaves as \<^verbatim>\<open>take_exact\<close> on the bytes that are left.\<close>

definition agrees :: "('a \<times> in_stream) result \<Rightarrow> ('a \<times> bytes) result \<Rightarrow> bool" where
  "agrees m f = (case m of
      Inl e \<Rightarrow> f = Inl e
    | Inr (x, s') \<Rightarrow> live_segments s' \<and> f = Inr (x, concat s'))"

lemma agrees_Inr [simp]: "agrees (Inr (x, s)) f \<longleftrightarrow> live_segments s \<and> f = Inr (x, concat s)"
  by (simp add: agrees_def)

lemma agrees_read_exact:
  "live_segments s \<Longrightarrow> agrees (read_exact s n) (take_exact n (concat s))"
  using read_exact_flat [of s n] by (auto simp: agrees_def take_exact_def)

lemma agrees_read_body:
  "live_segments s \<Longrightarrow>
    agrees (if n \<noteq> 0 then read_exact s n else Inr ([], s)) (take_exact n (concat s))"
  using agrees_read_exact [of s n] by (cases "n = 0") (simp_all add: take_exact_def [of 0])

lemma agrees_ebind:
  assumes "agrees m f" and "\<And>x s. live_segments s \<Longrightarrow> agrees (g (x, s)) (h (x, concat s))"
  shows "agrees (ebind m g) (ebind f h)"
proof (cases m)
  case (Inr p)
  with assms(1) obtain x s where "m = Inr (x, s)" "live_segments s" "f = Inr (x, concat s)"
    by (cases p) auto
  with assms(2) show ?thesis by simp
qed (use assms(1) in \<open>simp add: agrees_def\<close>)

lemma agrees_ebind_pure:
  assumes "\<And>x. agrees (g x) (h x)"
  shows "agrees (ebind m g) (ebind m h)"
  using assms by (cases m) (auto simp: agrees_def)

lemma agrees_read_frame: "live_segments s \<Longrightarrow> agrees (read_frame s) (read_frame_flat (concat s))"
  unfolding read_frame_def read_frame_flat_def LEN_SIZE_def
  by (intro agrees_ebind agrees_ebind_pure agrees_read_exact agrees_read_body case_prodI2
        | simp only: prod.case | simp only: agrees_Inr | simp)+

section \<open>Encoding and decoding frames\<close>

lemma take_exact_append [simp]: "length xs = n \<Longrightarrow> take_exact n (xs @ ys) = Inr (xs, ys)"
  by (auto simp: take_exact_def)

lemma read_frame_flat_frame_bytes:
  "frame_ok f \<Longrightarrow> read_frame_flat (frame_bytes f @ rest) = Inr (f, rest)"
  by (cases f) (simp add: read_frame_flat_def frame_bytes_def frame_ok_def unpack_be32)

interpretation frames: framing frame_bytes read_frame_flat frame_ok
  by unfold_locales (rule read_frame_flat_frame_bytes)

lemma read_frames_flat: "live_segments s \<Longrightarrow>
    agrees (read_frames n s) (frames.decode_many n (concat s))"
proof (induction n arbitrary: s)
  case (Suc n)
  from agrees_read_frame [OF Suc.prems] show ?case
  proof (cases "read_frame s")
    case (Inr fs)
    then obtain f s1 where fs: "read_frame s = Inr (f, s1)" by (cases fs) auto
    with agrees_read_frame [OF Suc.prems] have "live_segments s1"
      and flat: "read_frame_flat (concat s) = Inr (f, concat s1)" by auto
    from Suc.IH [OF this(1)] fs flat show ?thesis
      by (cases "read_frames n s1") (auto simp: agrees_def)
  qed (simp add: agrees_def)
qed simp

lemma stream_write_whole [simp]:
  "os_accepts s = [] \<Longrightarrow> stream_write d s = s\<lparr>os_sent := os_sent s @ d\<rparr>"
  by (simp add: stream_write_def)

lemma write_frame_whole:
  assumes "os_accepts s = []" and "frame_ok f"
  shows "write_frame s (fst f) (snd f) = (s\<lparr>os_sent := os_sent s @ frame_bytes f\<rparr>, None)"
  using assms by (simp add: write_frame_def frame_ok_def frame_bytes_def Let_def)

lemma take_exact_mono:
  "take_exact n bs = Inr (x, r) \<Longrightarrow> take_exact n (bs @ zs) = Inr (x, r @ zs)"
  by (auto simp: take_exact_def split: if_splits)

lemma unpack_length_4:
  assumes "length h = 4"
  shows "\<exists>n. unpack_len h = Inr n"
proof -
  from assms have "length h = Suc (Suc (Suc (Suc 0)))" by simp
  then obtain a b c d where "h = [a, b, c, d]" by (auto simp only: length_Suc_conv length_0_conv)
  then show ?thesis by (simp add: unpack_len_def)
qed

lemma unpack_take_exact: "take_exact 4 bs = Inr (h, r) \<Longrightarrow> \<exists>n. unpack_len h = Inr n"
  by (rule unpack_length_4) (auto simp: take_exact_def split: if_splits)

lemma read_frame_flat_error: "read_frame_flat bs = Inl e \<Longrightarrow> e = EOFError"
  unfolding read_frame_flat_def
  by (auto simp: exn_simps dest!: unpack_take_exact) (auto simp: take_exact_def split: if_splits)

lemma read_frame_flat_mono:
  assumes "read_frame_flat bs = Inr (f, r)"
  shows "read_frame_flat (bs @ zs) = Inr (f, r @ zs)"
proof -
  from assms obtain h1 r1 n msg r2 h2 r3 m tensor where
      "take_exact 4 bs = Inr (h1, r1)" "unpack_len h1 = Inr n"
      "take_exact n r1 = Inr (msg, r2)" "take_exact 4 r2 = Inr (h2, r3)"
      "unpack_len h2 = Inr m" "take_exact m r3 = Inr (tensor, r)" "f = (msg, tensor)"
    by (auto simp: read_frame_flat_def exn_simps)
  then show ?thesis by (simp add: read_frame_flat_def take_exact_mono)
qed

section \<open>Properties\<close>

fun write_frames :: "out_stream \<Rightarrow> (bytes \<times> bytes) list \<Rightarrow> out_stream \<times> py_exn option" where
  "write_frames s [] = (s, None)"
| "write_frames s (f # fs) = (case write_frame s (fst f) (snd f) of
     (s', Some e) \<Rightarrow> (s', Some e) | (s', None) \<Rightarrow> write_frames s' fs)"

lemma write_frames_whole:
  "os_accepts s = [] \<Longrightarrow> list_all frame_ok fs \<Longrightarrow>
    write_frames s fs = (s\<lparr>os_sent := os_sent s @ concat (map frame_bytes fs)\<rparr>, None)"
  by (induction fs arbitrary: s) (simp_all add: write_frame_whole)

text \<open>C27: Whatever the sequence of messages written to a connection (each part shorter than 4 GiB),
  and however the network cuts the bytes into segments, the receiver reads back exactly those
  messages, in order, and nothing is left over.
\<close>

theorem framing_roundtrip:
  assumes "list_all frame_ok fs"
    and "write_frames \<lparr>os_sent = [], os_accepts = []\<rparr> fs = (out, e)"
    and "live_segments s" and "concat s = os_sent out"
  shows "e = None \<and> (\<exists>s'. read_frames (length fs) s = Inr (fs, s') \<and> concat s' = [])"
proof -
  have out: "out = \<lparr>os_sent = concat (map frame_bytes fs), os_accepts = []\<rparr>" "e = None"
    using assms(1,2) write_frames_whole [of "\<lparr>os_sent = [], os_accepts = []\<rparr>" fs] by auto
  with assms(4) frames.decode_many_encode [OF assms(1), of "[]"]
  have "frames.decode_many (length fs) (concat s) = Inr (fs, [])" by simp
  with read_frames_flat [OF assms(3), of "length fs"] out show ?thesis
    by (cases "read_frames (length fs) s") (auto simp: agrees_def)
qed

theorem framing_roundtrip_witness:
  "(\<exists>s'. read_frames (Suc (Suc 0)) [[0, 0], [0, 2, 7, 8, 0], [0, 0, 1, 9, 0, 0], [0, 0, 0, 0, 0], [0]] =
      Inr ([([7, 8], [9]), ([], [])], s') \<and> concat s' = [])"
  using framing_roundtrip [of "[([7, 8], [9]), ([], [])]"
      "\<lparr>os_sent = [0, 0, 0, 2, 7, 8, 0, 0, 0, 1, 9, 0, 0, 0, 0, 0, 0, 0, 0], os_accepts = []\<rparr>" None
      "[[0, 0], [0, 2, 7, 8, 0], [0, 0, 1, 9, 0, 0], [0, 0, 0, 0, 0], [0]]"]
  by (simp add: frame_ok_def write_frame_def be32_def)

text \<open>A connection that closes before a whole frame has arrived makes
  \<^verbatim>\<open>read_frame\<close> raise \<^verbatim>\<open>EOFError\<close> and nothing else: a truncated frame is
  never delivered as a message.\<close>

theorem truncated_frame_raises_eof:
  assumes "frame_ok f" and "live_segments s" and "concat s @ missing = frame_bytes f"
    and "missing \<noteq> []"
  shows "read_frame s = Inl EOFError"
proof (cases "read_frame s")
  case (Inl e)
  with agrees_read_frame [OF assms(2)] have "read_frame_flat (concat s) = Inl e"
    by (simp add: agrees_def)
  with Inl show ?thesis by (auto dest: read_frame_flat_error)
next
  case (Inr p)
  with agrees_read_frame [OF assms(2)] obtain g r where
    "read_frame_flat (concat s) = Inr (g, r)" by (cases p) auto
  then have "read_frame_flat (frame_bytes f) = Inr (g, r @ missing)"
    using read_frame_flat_mono assms(3) by metis
  moreover have "read_frame_flat (frame_bytes f) = Inr (f, [])"
    using read_frame_flat_frame_bytes [OF assms(1), of "[]"] by simp
  ultimately show ?thesis using assms(4) by simp
qed

theorem truncated_frame_raises_eof_witness:
  "read_frame [[0, 0, 0], [2, 7]] = Inl EOFError"
  using truncated_frame_raises_eof [of "([7, 8], [9])" "[[0, 0, 0], [2, 7]]" "[8, 0, 0, 0, 1, 9]"]
  by (simp add: frame_ok_def frame_bytes_def be32_def)

text \<open>\<^verbatim>\<open>write_frame\<close> ignores how many bytes each write accepted.  On an unbuffered
  socket file one short write of the tensor leaves the receiver one frame behind: the bytes of
  the next frame complete the first tensor, and the frame that is delivered is not the one
  sent, with no error raised on either side.
\<close>

theorem short_write_desynchronises:
  "write_frames \<lparr>os_sent = [], os_accepts = [4, 1, 4, 1]\<rparr> [([7], [1, 2]), ([], [])] =
     (\<lparr>os_sent = [0, 0, 0, 1, 7, 0, 0, 0, 2, 1, 0, 0, 0, 0, 0, 0, 0, 0], os_accepts = []\<rparr>, None) \<and>
   read_frame [[0, 0, 0, 1, 7, 0, 0, 0, 2, 1, 0, 0, 0, 0, 0, 0, 0, 0]] =
     Inr (([7], [1, 0]), [[0, 0, 0, 0, 0, 0, 0]])"
proof
  show "write_frames \<lparr>os_sent = [], os_accepts = [4, 1, 4, 1]\<rparr> [([7], [1, 2]), ([], [])] =
     (\<lparr>os_sent = [0, 0, 0, 1, 7, 0, 0, 0, 2, 1, 0, 0, 0, 0, 0, 0, 0, 0], os_accepts = []\<rparr>, None)"
    by (simp add: write_frame_def be32_def stream_write_def)
  show "read_frame [[0, 0, 0, 1, 7, 0, 0, 0, 2, 1, 0, 0, 0, 0, 0, 0, 0, 0]] =
     Inr (([7], [1, 0]), [[0, 0, 0, 0, 0, 0, 0]])"
    by (simp add: read_frame_def read_exact_def read_loop.simps LEN_SIZE_def unpack_len_def)
qed

text \<open>An envelope that the protobuf runtime can parse back from its own serialisation survives
  \<^verbatim>\<open>send_envelope\<close> and \<^verbatim>\<open>recv_envelope\<close> with its tensor payload unchanged, for
  every segmentation of the connection.
\<close>

theorem envelope_roundtrip:
  assumes "parse (serialize env) = Inr env"
    and "length (serialize env) < 2 ^ 32" and "length tensor < 2 ^ 32"
    and "send_envelope serialize \<lparr>os_sent = [], os_accepts = []\<rparr> env tensor = (out, e)"
    and "live_segments s" and "concat s = os_sent out"
  shows "\<exists>s'. recv_envelope parse s = Inr ((env, tensor), s') \<and> concat s' = []"
proof -
  have ok: "frame_ok (serialize env, tensor)" using assms(2,3) by (simp add: frame_ok_def)
  with assms(4) write_frame_whole [of "\<lparr>os_sent = [], os_accepts = []\<rparr>" "(serialize env, tensor)"]
  have "out = \<lparr>os_sent = frame_bytes (serialize env, tensor), os_accepts = []\<rparr>"
    by (simp add: send_envelope_def)
  with assms(6) read_frame_flat_frame_bytes [OF ok, of "[]"]
  have "read_frame_flat (concat s) = Inr ((serialize env, tensor), [])" by simp
  with agrees_read_frame [OF assms(5)] obtain s' where
    "read_frame s = Inr ((serialize env, tensor), s')" "concat s' = []"
    by (cases "read_frame s") (auto simp: agrees_def)
  with assms(1) show ?thesis by (simp add: recv_envelope_def)
qed

theorem envelope_roundtrip_witness:
  "\<exists>s'. recv_envelope (\<lambda>bs. Inr (rev bs)) [[0, 0, 0], [2, 8, 7, 0, 0, 0], [1, 9]] =
      Inr (([7, 8], [9]), s') \<and> concat s' = []"
  using envelope_roundtrip [of "\<lambda>bs. Inr (rev bs)" rev "[7, 8]" "[9]"
      "\<lparr>os_sent = [0, 0, 0, 2, 8, 7, 0, 0, 0, 1, 9], os_accepts = []\<rparr>" None
      "[[0, 0, 0], [2, 8, 7, 0, 0, 0], [1, 9]]"]
  by (simp add: send_envelope_def write_frame_def be32_def)

end
