(* ===== verification/Messages.thy ===== *)
theory Messages
  imports Records Transport
begin

text \<open>
  \<^verbatim>\<open>membership/messages.py\<close>: the adapters between the dataclasses of the membership layer
  and the protobuf messages of \<^verbatim>\<open>proto/wire.proto\<close>.  A protobuf message is a record whose
  integer fields are words of the declared width; assigning an \<^verbatim>\<open>int\<close> outside the range of
  a field raises \<^verbatim>\<open>ValueError\<close>.  \<^verbatim>\<open>EnvelopePb\<close> is the \<^verbatim>\<open>oneof\<close> with
  the payloads of this layer; \<^verbatim>\<open>EnvOther\<close> stands for an envelope with any other payload or
  none.  The protobuf runtime (\<^verbatim>\<open>SerializeToString\<close>, \<^verbatim>\<open>ParseFromString\<close>) is a
  parameter of the functions that call it.
\<close>

section \<open>Protobuf integers\<close>

definition pb_u32 :: "int \<Rightarrow> 32 word result" where
  "pb_u32 i = (if 0 \<le> i \<and> i < 2 ^ 32 then Inr (word_of_int i) else Inl ValueError)"

definition pb_u64 :: "int \<Rightarrow> 64 word result" where
  "pb_u64 i = (if 0 \<le> i \<and> i < 2 ^ 64 then Inr (word_of_int i) else Inl ValueError)"

definition pb_i64 :: "int \<Rightarrow> 64 word result" where
  "pb_i64 i = (if - (2 ^ 63) \<le> i \<and> i < 2 ^ 63 then Inr (word_of_int i) else Inl ValueError)"

section \<open>Protobuf messages\<close>

record MemberRecordPb =
  mb_shard_id :: string
  mb_host :: string
  mb_udp_port :: "32 word"
  mb_state :: "32 word"
  mb_incarnation :: "64 word"
  mb_model_id :: string

record LoadReportPb =
  lb_shard_id :: string
  lb_queue_depth_ema :: "32 word"
  lb_ts_unix_ms :: "64 word"

record ExpertHeatEntryPb =
  hb_layer_idx :: "32 word"
  hb_expert_id :: "32 word"
  hb_heat_ema_x100 :: "32 word"

record ExpertHeatReportPb =
  eb_shard_id :: string
  eb_entries :: "ExpertHeatEntryPb list"
  eb_ts_unix_ms :: "64 word"

record OwnershipDeltaPb =
  ob_shard_id :: string
  ob_layer_idx :: "32 word"
  ob_expert_id :: "32 word"
  ob_action :: "32 word"
  ob_ts_unix_ms :: "64 word"

record PiggybackPb =
  gb_deltas :: "MemberRecordPb list"
  gb_loads :: "LoadReportPb list"
  gb_heat :: "ExpertHeatReportPb list"
  gb_ownership :: "OwnershipDeltaPb list"

record PingPb =
  pb_protocol_version :: "32 word"
  pb_from_shard_id :: string
  pb_from_incarnation :: "64 word"
  pb_piggyback :: PiggybackPb

record PingReqPb =
  qb_protocol_version :: "32 word"
  qb_from_shard_id :: string
  qb_target_shard_id :: string
  qb_probe_id :: string
  qb_success :: bool
  qb_piggyback :: PiggybackPb

record JoinPb =
  jb_protocol_version :: "32 word"
  jb_self_record :: MemberRecordPb

record MembershipDeltaPb =
  db_protocol_version :: "32 word"
  db_members :: "MemberRecordPb list"

datatype EnvelopePb =
    EnvPing PingPb
  | EnvAck PingPb
  | EnvPingReq PingReqPb
  | EnvPingReqAck PingReqPb
  | EnvJoin JoinPb
  | EnvMembershipDelta MembershipDeltaPb
  | EnvOther

definition PROTOCOL_VERSION :: "32 word" where
  "PROTOCOL_VERSION = 1"

section \<open>Record adapters\<close>

definition member_state :: "int \<Rightarrow> MemberState result" where
  "member_state i = (if i = 0 then Inr ALIVE else if i = 1 then Inr SUSPECT
                     else if i = 2 then Inr DEAD else Inl ValueError)"

definition record_to_pb :: "MemberRecord \<Rightarrow> MemberRecordPb result" where
  "record_to_pb r =
     ebind (pb_u32 (mr_udp_port r)) (\<lambda>port.
     ebind (pb_u32 (severity (mr_state r))) (\<lambda>st.
     ebind (pb_u64 (mr_incarnation r)) (\<lambda>inc.
       Inr \<lparr>mb_shard_id = mr_shard_id r, mb_host = mr_host r, mb_udp_port = port, mb_state = st,
            mb_incarnation = inc, mb_model_id = mr_model_id r\<rparr>)))"

definition record_from_pb :: "MemberRecordPb \<Rightarrow> MemberRecord result" where
  "record_from_pb pb =
     ebind (member_state (uint (mb_state pb))) (\<lambda>st.
       Inr \<lparr>mr_shard_id = mb_shard_id pb, mr_host = mb_host pb, mr_udp_port = uint (mb_udp_port pb),
            mr_state = st, mr_incarnation = uint (mb_incarnation pb), mr_model_id = mb_model_id pb,
            mr_last_state_change = 0, mr_suspect_deadline = None\<rparr>)"

definition load_to_pb :: "LoadReportRecord \<Rightarrow> LoadReportPb result" where
  "load_to_pb r =
     ebind (pb_u32 (lr_queue_depth_ema r)) (\<lambda>q.
     ebind (pb_i64 (lr_ts_unix_ms r)) (\<lambda>ts.
       Inr \<lparr>lb_shard_id = lr_shard_id r, lb_queue_depth_ema = q, lb_ts_unix_ms = ts\<rparr>))"

definition load_from_pb :: "LoadReportPb \<Rightarrow> LoadReportRecord" where
  "load_from_pb pb = \<lparr>lr_shard_id = lb_shard_id pb, lr_queue_depth_ema = uint (lb_queue_depth_ema pb),
     lr_ts_unix_ms = sint (lb_ts_unix_ms pb)\<rparr>"

definition heat_entry_to_pb :: "int \<times> int \<times> int \<Rightarrow> ExpertHeatEntryPb result" where
  "heat_entry_to_pb e = (case e of (layer_idx, expert_id, ema) \<Rightarrow>
     ebind (pb_u32 layer_idx) (\<lambda>l.
     ebind (pb_u32 expert_id) (\<lambda>x.
     ebind (pb_u32 ema) (\<lambda>m.
       Inr \<lparr>hb_layer_idx = l, hb_expert_id = x, hb_heat_ema_x100 = m\<rparr>))))"

definition heat_to_pb :: "HeatReportRecord \<Rightarrow> ExpertHeatReportPb result" where
  "heat_to_pb r =
     ebind (pb_i64 (hr_ts_unix_ms r)) (\<lambda>ts.
     ebind (emap heat_entry_to_pb (hr_entries r)) (\<lambda>es.
       Inr \<lparr>eb_shard_id = hr_shard_id r, eb_entries = es, eb_ts_unix_ms = ts\<rparr>))"

definition heat_from_pb :: "ExpertHeatReportPb \<Rightarrow> HeatReportRecord" where
  "heat_from_pb pb = \<lparr>hr_shard_id = eb_shard_id pb,
     hr_entries = map (\<lambda>e. (uint (hb_layer_idx e), uint (hb_expert_id e), uint (hb_heat_ema_x100 e)))
                      (eb_entries pb),
     hr_ts_unix_ms = sint (eb_ts_unix_ms pb)\<rparr>"

definition ownership_to_pb :: "OwnershipDeltaRecord \<Rightarrow> OwnershipDeltaPb result" where
  "ownership_to_pb r =
     ebind (pb_u32 (od_layer_idx r)) (\<lambda>l.
     ebind (pb_u32 (od_expert_id r)) (\<lambda>x.
     ebind (pb_u32 (od_action r)) (\<lambda>a.
     ebind (pb_i64 (od_ts_unix_ms r)) (\<lambda>ts.
       Inr \<lparr>ob_shard_id = od_shard_id r, ob_layer_idx = l, ob_expert_id = x, ob_action = a,
            ob_ts_unix_ms = ts\<rparr>))))"

definition ownership_from_pb :: "OwnershipDeltaPb \<Rightarrow> OwnershipDeltaRecord" where
  "ownership_from_pb pb = \<lparr>od_shard_id = ob_shard_id pb, od_layer_idx = uint (ob_layer_idx pb),
     od_expert_id = uint (ob_expert_id pb), od_action = uint (ob_action pb),
     od_ts_unix_ms = sint (ob_ts_unix_ms pb)\<rparr>"

section \<open>Envelopes\<close>

text \<open>The four repeated fields every ping-family message ends with.\<close>

definition piggyback_to_pb :: "MemberRecord list \<Rightarrow> LoadReportRecord list \<Rightarrow> HeatReportRecord list \<Rightarrow>
    OwnershipDeltaRecord list \<Rightarrow> PiggybackPb result" where
  "piggyback_to_pb ds ls hs os =
     ebind (emap record_to_pb ds) (\<lambda>ds'.
     ebind (emap load_to_pb ls) (\<lambda>ls'.
     ebind (emap heat_to_pb hs) (\<lambda>hs'.
     ebind (emap ownership_to_pb os) (\<lambda>os'.
       Inr \<lparr>gb_deltas = ds', gb_loads = ls', gb_heat = hs', gb_ownership = os'\<rparr>))))"

definition membership_to_pb :: "IncomingMessage \<Rightarrow> EnvelopePb result" where
  "membership_to_pb msg = (case msg of
       Ping m \<Rightarrow>
         ebind (pb_u64 (pi_from_incarnation m)) (\<lambda>inc.
         ebind (piggyback_to_pb (pi_deltas m) (pi_loads m) (pi_heat m) (pi_ownership m)) (\<lambda>g.
           Inr (EnvPing \<lparr>pb_protocol_version = PROTOCOL_VERSION, pb_from_shard_id = pi_from_shard_id m,
                         pb_from_incarnation = inc, pb_piggyback = g\<rparr>)))
     | Ack m \<Rightarrow>
         ebind (pb_u64 (ac_from_incarnation m)) (\<lambda>inc.
         ebind (piggyback_to_pb (ac_deltas m) (ac_loads m) (ac_heat m) (ac_ownership m)) (\<lambda>g.
           Inr (EnvAck \<lparr>pb_protocol_version = PROTOCOL_VERSION, pb_from_shard_id = ac_from_shard_id m,
                        pb_from_incarnation = inc, pb_piggyback = g\<rparr>)))
     | PingReq m \<Rightarrow>
         ebind (piggyback_to_pb (pr_deltas m) (pr_loads m) (pr_heat m) (pr_ownership m)) (\<lambda>g.
           Inr (EnvPingReq \<lparr>qb_protocol_version = PROTOCOL_VERSION, qb_from_shard_id = pr_from_shard_id m,
                 qb_target_shard_id = pr_target_shard_id m, qb_probe_id = pr_probe_id m,
                 qb_success = False, qb_piggyback = g\<rparr>))
     | PingReqAck m \<Rightarrow>
         ebind (piggyback_to_pb (pa_deltas m) (pa_loads m) (pa_heat m) (pa_ownership m)) (\<lambda>g.
           Inr (EnvPingReqAck \<lparr>qb_protocol_version = PROTOCOL_VERSION, qb_from_shard_id = pa_from_shard_id m,
                 qb_target_shard_id = pa_target_shard_id m, qb_probe_id = pa_probe_id m,
                 qb_success = pa_success m, qb_piggyback = g\<rparr>))
     | Join m \<Rightarrow>
         ebind (record_to_pb (jo_self_record m)) (\<lambda>r.
           Inr (EnvJoin \<lparr>jb_protocol_version = PROTOCOL_VERSION, jb_self_record = r\<rparr>))
     | MembershipDelta m \<Rightarrow>
         ebind (emap record_to_pb (md_members m)) (\<lambda>rs.
           Inr (EnvMembershipDelta \<lparr>db_protocol_version = PROTOCOL_VERSION, db_members = rs\<rparr>)))"

definition encode_membership_envelope ::
    "(EnvelopePb \<Rightarrow> bytes) \<Rightarrow> IncomingMessage \<Rightarrow> bytes result" where
  "encode_membership_envelope serialize msg = ebind (membership_to_pb msg) (\<lambda>env. Inr (serialize env))"

definition membership_from_pb :: "EnvelopePb \<Rightarrow> IncomingMessage option result" where
  "membership_from_pb env = (case env of
       EnvPing p \<Rightarrow>
         ebind (emap record_from_pb (gb_deltas (pb_piggyback p))) (\<lambda>ds.
           Inr (Some (Ping \<lparr>pi_from_shard_id = pb_from_shard_id p,
             pi_from_incarnation = uint (pb_from_incarnation p), pi_deltas = ds,
             pi_loads = map load_from_pb (gb_loads (pb_piggyback p)),
             pi_heat = map heat_from_pb (gb_heat (pb_piggyback p)),
             pi_ownership = map ownership_from_pb (gb_ownership (pb_piggyback p))\<rparr>)))
     | EnvAck p \<Rightarrow>
         ebind (emap record_from_pb (gb_deltas (pb_piggyback p))) (\<lambda>ds.
           Inr (Some (Ack \<lparr>ac_from_shard_id = pb_from_shard_id p,
             ac_from_incarnation = uint (pb_from_incarnation p), ac_deltas = ds,
             ac_loads = map load_from_pb (gb_loads (pb_piggyback p)),
             ac_heat = map heat_from_pb (gb_heat (pb_piggyback p)),
             ac_ownership = map ownership_from_pb (gb_ownership (pb_piggyback p))\<rparr>)))
     | EnvPingReq p \<Rightarrow>
         ebind (emap record_from_pb (gb_deltas (qb_piggyback p))) (\<lambda>ds.
           Inr (Some (PingReq \<lparr>pr_from_shard_id = qb_from_shard_id p,
             pr_target_shard_id = qb_target_shard_id p, pr_probe_id = qb_probe_id p, pr_deltas = ds,
             pr_loads = map load_from_pb (gb_loads (qb_piggyback p)),
             pr_heat = map heat_from_pb (gb_heat (qb_piggyback p)),
             pr_ownership = map ownership_from_pb (gb_ownership (qb_piggyback p))\<rparr>)))
     | EnvPingReqAck p \<Rightarrow>
         ebind (emap record_from_pb (gb_deltas (qb_piggyback p))) (\<lambda>ds.
           Inr (Some (PingReqAck \<lparr>pa_from_shard_id = qb_from_shard_id p,
             pa_target_shard_id = qb_target_shard_id p, pa_probe_id = qb_probe_id p,
             pa_success = qb_success p, pa_deltas = ds,
             pa_loads = map load_from_pb (gb_loads (qb_piggyback p)),
             pa_heat = map heat_from_pb (gb_heat (qb_piggyback p)),
             pa_ownership = map ownership_from_pb (gb_ownership (qb_piggyback p))\<rparr>)))
     | EnvJoin p \<Rightarrow>
         ebind (record_from_pb (jb_self_record p)) (\<lambda>r. Inr (Some (Join \<lparr>jo_self_record = r\<rparr>)))
     | EnvMembershipDelta p \<Rightarrow>
         ebind (emap record_from_pb (db_members p)) (\<lambda>rs. Inr (Some (MembershipDelta \<lparr>md_members = rs\<rparr>)))
     | EnvOther \<Rightarrow> Inr None)"

definition decode_membership_envelope ::
    "(bytes \<Rightarrow> EnvelopePb result) \<Rightarrow> bytes \<Rightarrow> IncomingMessage option result" where
  "decode_membership_envelope parse raw = ebind (parse raw) membership_from_pb"

section \<open>What the wire keeps\<close>

text \<open>The clock fields of a record are not transported.\<close>

definition on_wire :: "MemberRecord \<Rightarrow> MemberRecord" where
  "on_wire r = r\<lparr>mr_last_state_change := 0, mr_suspect_deadline := None\<rparr>"

fun msg_on_wire :: "IncomingMessage \<Rightarrow> IncomingMessage" where
  "msg_on_wire (Ping m) = Ping (m\<lparr>pi_deltas := map on_wire (pi_deltas m)\<rparr>)"
| "msg_on_wire (Ack m) = Ack (m\<lparr>ac_deltas := map on_wire (ac_deltas m)\<rparr>)"
| "msg_on_wire (PingReq m) = PingReq (m\<lparr>pr_deltas := map on_wire (pr_deltas m)\<rparr>)"
| "msg_on_wire (PingReqAck m) = PingReqAck (m\<lparr>pa_deltas := map on_wire (pa_deltas m)\<rparr>)"
| "msg_on_wire (Join m) = Join (m\<lparr>jo_self_record := on_wire (jo_self_record m)\<rparr>)"
| "msg_on_wire (MembershipDelta m) = MembershipDelta (m\<lparr>md_members := map on_wire (md_members m)\<rparr>)"

lemma uint_pb_u32 [simp]: "pb_u32 i = Inr w \<Longrightarrow> uint w = i"
  by (auto simp: pb_u32_def uint_word_of_int split: if_splits)

lemma uint_pb_u64 [simp]: "pb_u64 i = Inr w \<Longrightarrow> uint w = i"
  by (auto simp: pb_u64_def uint_word_of_int split: if_splits)

lemma sint_pb_i64 [simp]: "pb_i64 i = Inr w \<Longrightarrow> sint w = i"
  by (auto simp: pb_i64_def sint_sbintrunc' signed_take_bit_int_eq_self split: if_splits)

lemma member_state_severity [simp]: "member_state (severity st) = Inr st"
  by (cases st) (simp_all add: member_state_def)

lemma record_wire: "record_to_pb r = Inr pb \<Longrightarrow> record_from_pb pb = Inr (on_wire r)"
  by (cases r) (auto simp: record_to_pb_def record_from_pb_def on_wire_def exn_simps)

lemma load_wire: "load_to_pb r = Inr pb \<Longrightarrow> load_from_pb pb = r"
  by (cases r) (auto simp: load_to_pb_def load_from_pb_def exn_simps)

lemma heat_wire: "heat_to_pb r = Inr pb \<Longrightarrow> heat_from_pb pb = r"
proof -
  assume a: "heat_to_pb r = Inr pb"
  have "map (\<lambda>e. (uint (hb_layer_idx e), uint (hb_expert_id e), uint (hb_heat_ema_x100 e))) es = xs"
    if "emap heat_entry_to_pb xs = Inr es" for xs es
    using that by (induction xs arbitrary: es) (auto simp: exn_simps heat_entry_to_pb_def)
  with a show ?thesis by (cases r) (auto simp: heat_to_pb_def heat_from_pb_def exn_simps)
qed

lemma ownership_wire: "ownership_to_pb r = Inr pb \<Longrightarrow> ownership_from_pb pb = r"
  by (cases r) (auto simp: ownership_to_pb_def ownership_from_pb_def exn_simps)

lemma emap_inverse: "emap f xs = Inr ys \<Longrightarrow> (\<And>x y. f x = Inr y \<Longrightarrow> g y = x) \<Longrightarrow> map g ys = xs"
  by (induction xs arbitrary: ys) (auto simp: exn_simps)

lemma piggyback_wire:
  assumes "piggyback_to_pb ds ls hs os = Inr g"
  shows "emap record_from_pb (gb_deltas g) = Inr (map on_wire ds)" "map load_from_pb (gb_loads g) = ls"
    "map heat_from_pb (gb_heat g) = hs" "map ownership_from_pb (gb_ownership g) = os"
proof -
  from assms obtain ds' ls' hs' os' where
    "emap record_to_pb ds = Inr ds'" "emap load_to_pb ls = Inr ls'" "emap heat_to_pb hs = Inr hs'"
    "emap ownership_to_pb os = Inr os'"
    "g = \<lparr>gb_deltas = ds', gb_loads = ls', gb_heat = hs', gb_ownership = os'\<rparr>"
    by (auto simp: piggyback_to_pb_def exn_simps)
  then show "emap record_from_pb (gb_deltas g) = Inr (map on_wire ds)" "map load_from_pb (gb_loads g) = ls"
    "map heat_from_pb (gb_heat g) = hs" "map ownership_from_pb (gb_ownership g) = os"
    by (auto intro: emap_compose emap_inverse record_wire load_wire heat_wire ownership_wire)
qed

lemma records_wire: "emap record_to_pb rs = Inr pbs \<Longrightarrow> emap record_from_pb pbs = Inr (map on_wire rs)"
  by (auto intro: emap_compose record_wire)

lemma membership_wire: "membership_to_pb msg = Inr env \<Longrightarrow> membership_from_pb env = Inr (Some (msg_on_wire msg))"
  by (cases msg)
     (auto simp: membership_to_pb_def membership_from_pb_def exn_simps piggyback_wire record_wire
        records_wire)

text \<open>C28: Round trip of membership messages.  Whatever message the adapters can encode, decoding
  the datagram gives back the same message with only the receiver-local clock fields of its
  member records reset, provided the protobuf runtime parses back the envelope it serialised.\<close>

theorem membership_wire_roundtrip:
  assumes "encode_membership_envelope serialize msg = Inr raw"
    and "\<And>env. membership_to_pb msg = Inr env \<Longrightarrow> parse (serialize env) = Inr env"
  shows "decode_membership_envelope parse raw = Inr (Some (msg_on_wire msg))"
  using assms membership_wire
  by (auto simp: encode_membership_envelope_def decode_membership_envelope_def exn_simps)

definition demo_ping :: IncomingMessage where
  "demo_ping = Ping \<lparr>pi_from_shard_id = ''a'', pi_from_incarnation = 7, pi_deltas =
     [\<lparr>mr_shard_id = ''b'', mr_host = ''h'', mr_udp_port = 9001, mr_state = SUSPECT, mr_incarnation = 3,
       mr_model_id = ''m'', mr_last_state_change = 12, mr_suspect_deadline = Some 16\<rparr>],
     pi_loads = [\<lparr>lr_shard_id = ''a'', lr_queue_depth_ema = 250, lr_ts_unix_ms = 5\<rparr>],
     pi_heat = [\<lparr>hr_shard_id = ''a'', hr_entries = [(0, 4, 130)], hr_ts_unix_ms = 5\<rparr>],
     pi_ownership = [\<lparr>od_shard_id = ''a'', od_layer_idx = 0, od_expert_id = 4, od_action = 1, od_ts_unix_ms = 6\<rparr>]\<rparr>"

theorem membership_wire_roundtrip_witness:
  "decode_membership_envelope (\<lambda>_. membership_to_pb demo_ping) [1] = Inr (Some (msg_on_wire demo_ping))"
proof (rule membership_wire_roundtrip [where serialize = "\<lambda>_. [1]"])
  have "returns (membership_to_pb demo_ping)" by code_simp
  then show "encode_membership_envelope (\<lambda>_. [1]) demo_ping = Inr [1]"
    by (auto simp: encode_membership_envelope_def returns_iff)
qed simp

end
