(* ===== verification/Runner.thy ===== *)
theory Runner
  imports Swim_Runs Messages
begin

text \<open>
  \<^verbatim>\<open>membership/runner.py\<close> and the send path of \<^verbatim>\<open>membership/transport.py\<close>.
  The runner's threads are modelled as atomic steps: the transport thread's
  \<^verbatim>\<open>on_recv_decoded\<close> and one iteration of the run loop, \<^verbatim>\<open>run_iteration\<close>, in any
  order.  A message that arrives while an iteration drains the inbox is modelled as arriving
  before it.  Parameters: the protobuf serialiser, the name resolution and the datagram socket,
  the clock readings (\<^verbatim>\<open>clock n\<close> for the n-th message of an iteration; wall-clock
  milliseconds for the announcements), and what the registered load and heat sources return
  (\<^verbatim>\<open>None\<close> when there is none or it raises).  A callback is an element of a type
  \<^verbatim>\<open>'o\<close>; calling it is an entry of the list of calls made.
\<close>

declare map_of_eq_Some_iff [simp del] Some_eq_map_of_iff [simp del]

type_synonym owner_key = "string \<times> int \<times> int"
type_synonym address = "string \<times> int"

definition INTERNAL_QUEUE_MAX :: nat where
  "INTERNAL_QUEUE_MAX = 4096"

definition DEFAULT_OWNERSHIP_TTL :: int where
  "DEFAULT_OWNERSHIP_TTL = 5"

definition MTU_GUARD :: nat where
  "MTU_GUARD = 1400"

record OutboundOwnership =
  oo_record :: OwnershipDeltaRecord
  oo_ttl :: int

record 'o MembershipRunner =
  rn_state :: MembershipState
  rn_self_shard_id :: string
  rn_addr_by_id :: "(string, address) dict"
  rn_inbox :: "IncomingMessage list"
  rn_observers :: "'o list"
  rn_watermark :: nat
  rn_peer_loads :: "(string, LoadReportRecord) dict"
  rn_peer_heat :: "(string, HeatReportRecord) dict"
  rn_outbound_ownership :: "OutboundOwnership list"
  rn_ownership_view :: "(owner_key, int \<times> int) dict"
  rn_ownership_observers :: "'o list"
  rn_ipv4_cache :: "(string, string) dict"

definition runner_init :: "PeerSpec \<Rightarrow> PeerSpec list \<Rightarrow> SwimConfig \<Rightarrow> rng \<Rightarrow> string \<Rightarrow> int \<Rightarrow>
    'o MembershipRunner" where
  "runner_init self_spec peers config r mid wall_s =
     \<lparr>rn_state = init_state self_spec peers r config mid wall_s,
      rn_self_shard_id = ps_shard_id self_spec,
      rn_addr_by_id = fold (\<lambda>p. dput (ps_shard_id p) (ps_host p, ps_udp_port p)) peers
        [(ps_shard_id self_spec, (ps_host self_spec, ps_udp_port self_spec))],
      rn_inbox = [], rn_observers = [], rn_watermark = 0, rn_peer_loads = [], rn_peer_heat = [],
      rn_outbound_ownership = [], rn_ownership_view = [], rn_ownership_observers = [],
      rn_ipv4_cache = []\<rparr>"

definition subscribe :: "'o \<Rightarrow> 'o MembershipRunner \<Rightarrow> 'o MembershipRunner" where
  "subscribe cb r = r\<lparr>rn_observers := rn_observers r @ [cb]\<rparr>"

definition register_ownership_observer :: "'o \<Rightarrow> 'o MembershipRunner \<Rightarrow> 'o MembershipRunner" where
  "register_ownership_observer cb r = r\<lparr>rn_ownership_observers := rn_ownership_observers r @ [cb]\<rparr>"

section \<open>Ownership\<close>

definition od_key :: "OwnershipDeltaRecord \<Rightarrow> owner_key" where
  "od_key od = (od_shard_id od, od_layer_idx od, od_expert_id od)"

definition ownership_newer :: "OwnershipDeltaRecord \<Rightarrow> (owner_key, int \<times> int) dict \<Rightarrow> bool" where
  "ownership_newer od v = (case dget v (od_key od) of None \<Rightarrow> True
     | Some e \<Rightarrow> snd e < od_ts_unix_ms od)"

definition apply_ownership :: "OwnershipDeltaRecord \<Rightarrow> (owner_key, int \<times> int) dict \<Rightarrow>
    (owner_key, int \<times> int) dict" where
  "apply_ownership od v =
     (if ownership_newer od v then dput (od_key od) (od_action od, od_ts_unix_ms od) v else v)"

fun apply_ownerships :: "OwnershipDeltaRecord list \<Rightarrow> (owner_key, int \<times> int) dict \<Rightarrow>
    OwnershipDeltaRecord list \<times> (owner_key, int \<times> int) dict" where
  "apply_ownerships [] v = ([], v)"
| "apply_ownerships (od # ods) v =
     (let (applied, v') = apply_ownerships ods (apply_ownership od v)
      in (if ownership_newer od v then od # applied else applied, v'))"

definition announce_ownership_add :: "int \<Rightarrow> int \<Rightarrow> int \<Rightarrow> int \<Rightarrow> 'o MembershipRunner \<Rightarrow>
    'o MembershipRunner" where
  "announce_ownership_add layer_idx expert_id ttl now_ms r =
     (let rec = \<lparr>od_shard_id = rn_self_shard_id r, od_layer_idx = layer_idx,
                 od_expert_id = expert_id, od_action = 0, od_ts_unix_ms = now_ms\<rparr>
      in r\<lparr>rn_outbound_ownership := rn_outbound_ownership r @ [\<lparr>oo_record = rec, oo_ttl = ttl\<rparr>],
           rn_ownership_view := apply_ownership rec (rn_ownership_view r)\<rparr>)"

definition announce_ownership_remove :: "int \<Rightarrow> int \<Rightarrow> int \<Rightarrow> int \<Rightarrow> 'o MembershipRunner \<Rightarrow>
    'o MembershipRunner" where
  "announce_ownership_remove layer_idx expert_id ttl now_ms r =
     (let key = (rn_self_shard_id r, layer_idx, expert_id);
          existing_ts = (case dget (rn_ownership_view r) key of None \<Rightarrow> 0 | Some e \<Rightarrow> snd e);
          ts = max now_ms (existing_ts + 1);
          rec = \<lparr>od_shard_id = rn_self_shard_id r, od_layer_idx = layer_idx,
                 od_expert_id = expert_id, od_action = 1, od_ts_unix_ms = ts\<rparr>
      in r\<lparr>rn_ownership_view := dput key (1, ts) (rn_ownership_view r),
           rn_outbound_ownership := rn_outbound_ownership r @ [\<lparr>oo_record = rec, oo_ttl = ttl\<rparr>]\<rparr>)"

definition ownership_view :: "'o MembershipRunner \<Rightarrow> owner_key set" where
  "ownership_view r = {k. \<exists>ts. dget (rn_ownership_view r) k = Some (0, ts)}"

definition drain_outbound_ownership ::
    "OutboundOwnership list \<Rightarrow> OwnershipDeltaRecord list \<times> OutboundOwnership list" where
  "drain_outbound_ownership out =
     (map oo_record out,
      map (\<lambda>x. \<lparr>oo_record = oo_record x, oo_ttl = oo_ttl x - 1\<rparr>) (filter (\<lambda>x. 1 < oo_ttl x) out))"

section \<open>The transport hook\<close>

fun msg_loads :: "IncomingMessage \<Rightarrow> LoadReportRecord list" where
  "msg_loads (Ping m) = pi_loads m"
| "msg_loads (Ack m) = ac_loads m"
| "msg_loads (PingReq m) = pr_loads m"
| "msg_loads (PingReqAck m) = pa_loads m"
| "msg_loads _ = []"

fun msg_heat :: "IncomingMessage \<Rightarrow> HeatReportRecord list" where
  "msg_heat (Ping m) = pi_heat m"
| "msg_heat (Ack m) = ac_heat m"
| "msg_heat (PingReq m) = pr_heat m"
| "msg_heat (PingReqAck m) = pa_heat m"
| "msg_heat _ = []"

fun msg_ownership :: "IncomingMessage \<Rightarrow> OwnershipDeltaRecord list" where
  "msg_ownership (Ping m) = pi_ownership m"
| "msg_ownership (Ack m) = ac_ownership m"
| "msg_ownership (PingReq m) = pr_ownership m"
| "msg_ownership (PingReqAck m) = pa_ownership m"
| "msg_ownership _ = []"

definition on_recv_decoded :: "IncomingMessage \<Rightarrow> 'o MembershipRunner \<Rightarrow>
    ('o \<times> OwnershipDeltaRecord) list \<times> 'o MembershipRunner" where
  "on_recv_decoded msg r =
     (let (applied, view') = apply_ownerships (msg_ownership msg) (rn_ownership_view r);
          calls = concat (map (\<lambda>od. map (\<lambda>cb. (cb, od)) (rn_ownership_observers r)) applied)
      in (calls,
          r\<lparr>rn_peer_loads := fold (\<lambda>lr. dput (lr_shard_id lr) lr) (msg_loads msg) (rn_peer_loads r),
            rn_peer_heat := fold (\<lambda>hr. dput (hr_shard_id hr) hr) (msg_heat msg) (rn_peer_heat r),
            rn_ownership_view := view',
            rn_inbox := (if length (rn_inbox r) < INTERNAL_QUEUE_MAX then rn_inbox r @ [msg]
                         else rn_inbox r)\<rparr>))"

definition on_recv :: "(bytes \<Rightarrow> EnvelopePb result) \<Rightarrow> bytes \<Rightarrow> 'o MembershipRunner \<Rightarrow>
    (('o \<times> OwnershipDeltaRecord) list \<times> 'o MembershipRunner) result" where
  "on_recv parse raw r =
     ebind (decode_membership_envelope parse raw) (\<lambda>decoded.
       case decoded of None \<Rightarrow> Inr ([], r) | Some msg \<Rightarrow> Inr (on_recv_decoded msg r))"

section \<open>Sending\<close>

definition send_to :: "(string \<Rightarrow> string option) \<Rightarrow> (address \<Rightarrow> bytes \<Rightarrow> bool) \<Rightarrow> address \<Rightarrow> bytes \<Rightarrow>
    (string, string) dict \<Rightarrow> (address \<times> bytes) list \<times> (string, string) dict" where
  "send_to gethostbyname sendto addr payload cache =
     (if MTU_GUARD < length payload then ([], cache)
      else case (case dget cache (fst addr) of
                   Some ip \<Rightarrow> Some (ip, cache)
                 | None \<Rightarrow> map_option (\<lambda>ip. (ip, dput (fst addr) ip cache)) (gethostbyname (fst addr))) of
             None \<Rightarrow> ([], cache)
           | Some (ip, cache') \<Rightarrow>
               (if sendto (ip, snd addr) payload then [((ip, snd addr), payload)] else [], cache'))"

fun send_all :: "(EnvelopePb \<Rightarrow> bytes) \<Rightarrow> (string \<Rightarrow> string option) \<Rightarrow> (address \<Rightarrow> bytes \<Rightarrow> bool) \<Rightarrow>
    (string, address) dict \<Rightarrow> OutgoingMessage list \<Rightarrow> (string, string) dict \<Rightarrow>
    ((address \<times> bytes) list \<times> (string, string) dict) result" where
  "send_all ser ghbn sendto ab [] cache = Inr ([], cache)"
| "send_all ser ghbn sendto ab (m # ms) cache =
     (case dget ab (om_target_shard_id m) of
        None \<Rightarrow> send_all ser ghbn sendto ab ms cache
      | Some addr \<Rightarrow>
          ebind (encode_membership_envelope ser (om_payload m)) (\<lambda>payload.
          let (sent, cache') = send_to ghbn sendto addr payload cache in
          ebind (send_all ser ghbn sendto ab ms cache') (\<lambda>(rest, cache'').
            Inr (sent @ rest, cache''))))"

section \<open>The run loop\<close>

fun piggyback :: "LoadReportRecord option \<Rightarrow> HeatReportRecord option \<Rightarrow> OwnershipDeltaRecord list \<Rightarrow>
    IncomingMessage \<Rightarrow> IncomingMessage" where
  "piggyback ld ht ow (Ping m) = Ping (m\<lparr>pi_loads := pi_loads m @ case_option [] (\<lambda>x. [x]) ld,
     pi_heat := pi_heat m @ case_option [] (\<lambda>x. [x]) ht, pi_ownership := pi_ownership m @ ow\<rparr>)"
| "piggyback ld ht ow (Ack m) = Ack (m\<lparr>ac_loads := ac_loads m @ case_option [] (\<lambda>x. [x]) ld,
     ac_heat := ac_heat m @ case_option [] (\<lambda>x. [x]) ht, ac_ownership := ac_ownership m @ ow\<rparr>)"
| "piggyback ld ht ow (PingReq m) = PingReq (m\<lparr>pr_loads := pr_loads m @ case_option [] (\<lambda>x. [x]) ld,
     pr_heat := pr_heat m @ case_option [] (\<lambda>x. [x]) ht, pr_ownership := pr_ownership m @ ow\<rparr>)"
| "piggyback ld ht ow (PingReqAck m) = PingReqAck (m\<lparr>pa_loads := pa_loads m @ case_option [] (\<lambda>x. [x]) ld,
     pa_heat := pa_heat m @ case_option [] (\<lambda>x. [x]) ht, pa_ownership := pa_ownership m @ ow\<rparr>)"
| "piggyback ld ht ow m = m"

fun drain_inbox :: "(nat \<Rightarrow> py_float) \<Rightarrow> nat \<Rightarrow> IncomingMessage list \<Rightarrow> MembershipState \<Rightarrow>
    (OutgoingMessage list \<times> MembershipState) result" where
  "drain_inbox clock n [] s = Inr ([], s)"
| "drain_inbox clock n (msg # msgs) s =
     ebind (recv msg (clock n) s) (\<lambda>(out, s1).
     ebind (drain_inbox clock (Suc n) msgs s1) (\<lambda>(out', s2). Inr (out @ out', s2)))"

definition fire_observers :: "StateTransition list \<Rightarrow> 'o MembershipRunner \<Rightarrow> ('o \<times> StateTransition) list" where
  "fire_observers ts r = concat (map (\<lambda>t. map (\<lambda>cb. (cb, t)) (rn_observers r)) ts)"

definition loop_outgoing :: "py_float \<Rightarrow> (nat \<Rightarrow> py_float) \<Rightarrow> 'o MembershipRunner \<Rightarrow>
    (OutgoingMessage list \<times> MembershipState) result" where
  "loop_outgoing now clock r =
     ebind (tick now (rn_state r)) (\<lambda>(out1, s1).
     ebind (drain_inbox clock 0 (rn_inbox r) s1) (\<lambda>(out2, s2). Inr (out1 @ out2, s2)))"

definition fuse :: "LoadReportRecord option \<Rightarrow> HeatReportRecord option \<Rightarrow> OwnershipDeltaRecord list \<Rightarrow>
    OutgoingMessage list \<Rightarrow> OutgoingMessage list" where
  "fuse ld ht ow out =
     (if ld \<noteq> None \<or> ht \<noteq> None \<or> ow \<noteq> []
      then map (\<lambda>m. m\<lparr>om_payload := piggyback ld ht ow (om_payload m)\<rparr>) out else out)"

definition run_iteration :: "(EnvelopePb \<Rightarrow> bytes) \<Rightarrow> (string \<Rightarrow> string option) \<Rightarrow> (address \<Rightarrow> bytes \<Rightarrow> bool) \<Rightarrow>
    py_float \<Rightarrow> (nat \<Rightarrow> py_float) \<Rightarrow> LoadReportRecord option \<Rightarrow> HeatReportRecord option \<Rightarrow>
    'o MembershipRunner \<Rightarrow>
    ((address \<times> bytes) list \<times> ('o \<times> StateTransition) list \<times> 'o MembershipRunner) result" where
  "run_iteration ser ghbn sendto now clock my_load my_heat r =
     ebind (loop_outgoing now clock r) (\<lambda>(outgoing, s).
     let (owner_batch, surviving) =
           (if outgoing \<noteq> [] then drain_outbound_ownership (rn_outbound_ownership r)
            else ([], rn_outbound_ownership r));
         fused = fuse my_load my_heat owner_batch outgoing
     in ebind (send_all ser ghbn sendto (rn_addr_by_id r) fused (rn_ipv4_cache r)) (\<lambda>(sent, cache).
        let new_transitions = changes_since (rn_watermark r) s in
        Inr (sent, fire_observers new_transitions r,
             r\<lparr>rn_state := s, rn_inbox := [], rn_outbound_ownership := surviving, rn_ipv4_cache := cache,
               rn_watermark := transition_watermark s\<rparr>)))"

text \<open>Runs of the runner, with the transitions it hands to its observers.\<close>

inductive runner_run :: "'o MembershipRunner \<Rightarrow> StateTransition list \<Rightarrow> 'o MembershipRunner \<Rightarrow> bool"
  for r0 where
  rr_start: "runner_run r0 [] r0"
| rr_recv: "runner_run r0 ts r \<Longrightarrow> runner_run r0 ts (snd (on_recv_decoded msg r))"
| rr_subscribe: "runner_run r0 ts r \<Longrightarrow> runner_run r0 ts (subscribe cb r)"
| rr_add: "runner_run r0 ts r \<Longrightarrow> runner_run r0 ts (announce_ownership_add l e ttl ms r)"
| rr_remove: "runner_run r0 ts r \<Longrightarrow> runner_run r0 ts (announce_ownership_remove l e ttl ms r)"
| rr_loop: "runner_run r0 ts r \<Longrightarrow>
     run_iteration ser ghbn sendto now clock ld ht r = Inr (sent, calls, r') \<Longrightarrow>
     runner_run r0 (ts @ changes_since (rn_watermark r) (rn_state r')) r'"


section \<open>Observers miss nothing\<close>

lemma drain_inbox_evolves:
  "swim_wf s \<Longrightarrow> \<exists>out s'. drain_inbox clock n msgs s = Inr (out, s') \<and> evolves True s s'"
proof (induction msgs arbitrary: s n)
  case (Cons m ms)
  from recv_evolves [OF Cons.prems, where msg = m and now = "clock n" and j = True] obtain o1 s1 where
    1: "recv m (clock n) s = Inr (o1, s1)" "evolves True s s1" by blast
  from Cons.IH [OF evolves_wf [OF 1(2)], of "Suc n"] obtain o2 s2 where
    "drain_inbox clock (Suc n) ms s1 = Inr (o2, s2)" "evolves True s1 s2" by blast
  with 1 show ?case by (auto intro: evolves_trans)
qed (simp add: evolves_refl)

lemma loop_outgoing_evolves:
  assumes "swim_wf (rn_state r)"
  shows "\<exists>out s. loop_outgoing now clock r = Inr (out, s) \<and> evolves True (rn_state r) s"
proof -
  from tick_evolves [OF assms, where now = now and j = True] obtain o1 s1 where
    1: "tick now (rn_state r) = Inr (o1, s1)" "evolves True (rn_state r) s1" by blast
  from drain_inbox_evolves [OF evolves_wf [OF 1(2)]] obtain o2 s2 where
    "drain_inbox clock 0 (rn_inbox r) s1 = Inr (o2, s2)" "evolves True s1 s2" by blast
  with 1 show ?thesis by (auto simp: loop_outgoing_def intro: evolves_trans)
qed

lemma run_iteration_state:
  assumes "run_iteration ser ghbn sendto now clock ld ht r = Inr (sent, calls, r')"
    and "swim_wf (rn_state r)"
  shows "evolves True (rn_state r) (rn_state r') \<and> rn_watermark r' = transition_watermark (rn_state r') \<and>
    rn_inbox r' = [] \<and> calls = fire_observers (changes_since (rn_watermark r) (rn_state r')) r"
  using assms loop_outgoing_evolves [OF assms(2), of now clock]
  by (auto simp: run_iteration_def exn_simps Let_def case_prod_beta)

definition runner_ok :: "MembershipState \<Rightarrow> StateTransition list \<Rightarrow> 'o MembershipRunner \<Rightarrow> bool" where
  "runner_ok s0 ts r \<longleftrightarrow> swim_wf (rn_state r) \<and> transitions (rn_state r) = transitions s0 @ ts \<and>
     log_ok (dget (members s0)) ts (dget (members (rn_state r))) \<and>
     rn_watermark r = transition_watermark (rn_state r) \<and> length (rn_inbox r) \<le> INTERNAL_QUEUE_MAX"

lemma runner_run_ok:
  assumes "runner_run r0 ts r" and "swim_wf (rn_state r0)"
    and "rn_watermark r0 = transition_watermark (rn_state r0)" and "length (rn_inbox r0) \<le> INTERNAL_QUEUE_MAX"
  shows "runner_ok (rn_state r0) ts r"
  using assms(1)
proof induction
  case (rr_loop ts r ser ghbn sendto now clock ld ht sent calls r')
  then have wf: "swim_wf (rn_state r)" by (simp add: runner_ok_def)
  note st = run_iteration_state [OF rr_loop.hyps(2) wf]
  from st obtain us where us: "transitions (rn_state r') = transitions (rn_state r) @ us"
    "log_ok (dget (members (rn_state r))) us (dget (members (rn_state r')))" by (auto simp: evolves_def)
  with rr_loop.IH have "changes_since (rn_watermark r) (rn_state r') = us"
    by (simp add: runner_ok_def changes_since_def transition_watermark_def)
  with rr_loop.IH st us evolves_wf show ?case by (auto simp: runner_ok_def intro: log_ok_append)
qed (use assms(2-4) in \<open>auto simp: runner_ok_def on_recv_decoded_def subscribe_def announce_ownership_add_def
      announce_ownership_remove_def Let_def split: prod.splits\<close>)


section \<open>Ownership gossip\<close>

definition owner_get :: "owner_key \<Rightarrow> (owner_key, int \<times> int) dict \<Rightarrow> (int \<times> int) option" where
  "owner_get k v = map_option (\<lambda>(a, ts). (ts, a)) (dget v k)"

definition owner_val :: "owner_key \<Rightarrow> OwnershipDeltaRecord \<Rightarrow> (int \<times> int) option" where
  "owner_val k od = (if od_key od = k then Some (od_ts_unix_ms od, od_action od) else None)"

interpretation owner: lww_register "owner_get k" apply_ownership "owner_val k" for k
  by unfold_locales
     (auto simp: owner_get_def owner_val_def apply_ownership_def ownership_newer_def newer_def
        split: option.splits)

lemma apply_ownerships_view: "snd (apply_ownerships ods v) = fold apply_ownership ods v"
  by (induction ods arbitrary: v) (simp_all add: Let_def case_prod_beta)

lemma owner_all_iff:
  "a \<in> lww_all (owner_get k v) (carried (owner_val k) ods) \<longleftrightarrow>
     (\<exists>act ts. dget v k = Some (act, ts) \<and> a = (ts, act)) \<or>
     (\<exists>od \<in> set ods. od_key od = k \<and> a = (od_ts_unix_ms od, od_action od))"
  by (cases "dget v k") (auto simp: lww_all_def carried_def owner_val_def owner_get_def image_iff
      split: if_splits)



definition demo_own :: "int \<Rightarrow> int \<Rightarrow> OwnershipDeltaRecord" where
  "demo_own act ts = \<lparr>od_shard_id = ''b'', od_layer_idx = 2, od_expert_id = 5, od_action = act, od_ts_unix_ms = ts\<rparr>"

definition demo_own_msg :: "OwnershipDeltaRecord list \<Rightarrow> IncomingMessage" where
  "demo_own_msg ods = Ping \<lparr>pi_from_shard_id = ''b'', pi_from_incarnation = 0, pi_deltas = [], pi_loads = [],
     pi_heat = [], pi_ownership = ods\<rparr>"

definition demo_runner :: "nat MembershipRunner" where
  "demo_runner = runner_init (demo_peer ''a'') [demo_peer ''b''] default_config [] ''m'' 0"


definition demo_iteration ::
    "((address \<times> bytes) list \<times> (nat \<times> StateTransition) list \<times> nat MembershipRunner) result" where
  "demo_iteration = run_iteration (\<lambda>_. [1, 2, 3]) (\<lambda>_. Some ''10.0.0.2'') (\<lambda>_ _. True) 2 (\<lambda>_. 2) None None
     (snd (on_recv_decoded (MembershipDelta \<lparr>md_members = [demo_claim ''b'' SUSPECT 0]\<rparr>) demo_runner))"

lemma demo_iteration_returns:
  "\<exists>calls r'. demo_iteration = Inr ([((''10.0.0.2'', 9000), [1, 2, 3])], calls, r') \<and>
     transitions (rn_state r') \<noteq> []"
proof -
  have "(case demo_iteration of Inl _ \<Rightarrow> False | Inr (sent, calls, r') \<Rightarrow>
      sent = [((''10.0.0.2'', 9000), [1, 2, 3])] \<and> transitions (rn_state r') \<noteq> [])" by code_simp
  then show ?thesis by (auto split: sum.splits prod.splits)
qed


text \<open>Removal takes effect at once.  Announcing a removal drops the expert from the local view
  with a timestamp newer than anything stored for it, and from every peer's view that applies the
  announced delta, if what the peer stores is no newer than what the announcer stored.\<close>

theorem announce_remove_effective:
  assumes "\<And>a ts. dget (rn_ownership_view q) (rn_self_shard_id r, l, e) = Some (a, ts) \<Longrightarrow>
      ts \<le> (case dget (rn_ownership_view r) (rn_self_shard_id r, l, e) of None \<Rightarrow> 0 | Some x \<Rightarrow> snd x)"
  shows "\<exists>rec. rn_outbound_ownership (announce_ownership_remove l e ttl ms r) =
      rn_outbound_ownership r @ [\<lparr>oo_record = rec, oo_ttl = ttl\<rparr>] \<and>
    (rn_self_shard_id r, l, e) \<notin> ownership_view (announce_ownership_remove l e ttl ms r) \<and>
    (\<forall>m. msg_ownership m = [rec] \<longrightarrow> (rn_self_shard_id r, l, e) \<notin> ownership_view (snd (on_recv_decoded m q)))"
proof -
  let ?k = "(rn_self_shard_id r, l, e)"
  let ?ts = "max ms ((case dget (rn_ownership_view r) ?k of None \<Rightarrow> 0 | Some x \<Rightarrow> snd x) + 1)"
  let ?rec = "\<lparr>od_shard_id = rn_self_shard_id r, od_layer_idx = l, od_expert_id = e, od_action = 1, od_ts_unix_ms = ?ts\<rparr>"
  have "dget (apply_ownership ?rec (rn_ownership_view q)) ?k = Some (1, ?ts)"
    using assms by (fastforce simp: apply_ownership_def ownership_newer_def od_key_def split: option.splits)
  then have "?k \<notin> ownership_view (snd (on_recv_decoded m q))" if "msg_ownership m = [?rec]" for m
    using that by (simp add: ownership_view_def on_recv_decoded_def Let_def case_prod_beta apply_ownerships_view)
  then show ?thesis
    by (intro exI [of _ ?rec]) (auto simp: announce_ownership_remove_def Let_def ownership_view_def)
qed

theorem announce_remove_effective_witness:
  "(''a'', 2, 5) \<notin> ownership_view (announce_ownership_remove 2 5 5 10 (announce_ownership_add 2 5 5 10 demo_runner))"
proof -
  let ?r = "announce_ownership_add 2 5 5 10 demo_runner"
  have "rn_self_shard_id ?r = ''a''" "dget (rn_ownership_view ?r) (''a'', 2, 5) = Some (0, 10)" by code_simp+
  then show ?thesis using announce_remove_effective [of ?r ?r 2 5 5 10] by auto
qed

text \<open>An addition can be lost.  An ADD announced while the clock has not passed the timestamp
  of the last removal (for example within the same millisecond) leaves the expert out of the
  announcer's own view, although the delta is queued for gossip.\<close>

theorem readd_within_timestamp_lost:
  assumes "dget (rn_ownership_view r) (rn_self_shard_id r, l, e) = Some (1, ts)" and "ms \<le> ts"
  shows "(rn_self_shard_id r, l, e) \<notin> ownership_view (announce_ownership_add l e ttl ms r) \<and>
    length (rn_outbound_ownership (announce_ownership_add l e ttl ms r)) = Suc (length (rn_outbound_ownership r))"
  using assms by (simp add: announce_ownership_add_def Let_def ownership_view_def apply_ownership_def
      ownership_newer_def od_key_def)

theorem readd_within_timestamp_lost_witness:
  "(''a'', 2, 5) \<notin> ownership_view (announce_ownership_add 2 5 5 10
     (announce_ownership_remove 2 5 5 10 (announce_ownership_add 2 5 5 10 demo_runner)))"
proof -
  let ?r = "announce_ownership_remove 2 5 5 10 (announce_ownership_add 2 5 5 10 demo_runner)"
  have "rn_self_shard_id ?r = ''a''" "dget (rn_ownership_view ?r) (''a'', 2, 5) = Some (1, 11)" by code_simp+
  then show ?thesis using readd_within_timestamp_lost [of ?r 2 5 11 10 5] by simp
qed

section \<open>How long a delta is gossiped\<close>

fun drains :: "nat \<Rightarrow> OutboundOwnership list \<Rightarrow> OutboundOwnership list" where
  "drains 0 xs = xs"
| "drains (Suc n) xs = drains n (snd (drain_outbound_ownership xs))"

lemma drains_eq:
  "drains n xs = map (\<lambda>x. \<lparr>oo_record = oo_record x, oo_ttl = oo_ttl x - int n\<rparr>)
     (filter (\<lambda>x. n = 0 \<or> int n < oo_ttl x) xs)"
proof (induction n arbitrary: xs)
  case (Suc n)
  show ?case
    by (simp add: Suc drain_outbound_ownership_def filter_map o_def)
       (induction xs; auto)
qed (simp add: map_idI)

text \<open>Gossip lifetime.  An ownership delta announced with a time to live is attached to the
  piggyback batch of exactly that many draining rounds, the first one included, and is forgotten
  afterwards; the order of announcement is kept.\<close>

theorem delta_gossiped_ttl_rounds:
  assumes "\<forall>x \<in> set out. 0 < oo_ttl x"
  shows "fst (drain_outbound_ownership (drains n out)) = map oo_record (filter (\<lambda>x. int n < oo_ttl x) out)"
proof -
  have "filter (\<lambda>x. n = 0 \<or> int n < oo_ttl x) out = filter (\<lambda>x. int n < oo_ttl x) out"
    using assms by (intro filter_cong) auto
  then show ?thesis by (simp add: drain_outbound_ownership_def drains_eq)
qed

theorem delta_gossiped_ttl_rounds_witness:
  "fst (drain_outbound_ownership (drains 4 [\<lparr>oo_record = demo_own 0 1, oo_ttl = DEFAULT_OWNERSHIP_TTL\<rparr>])) = [demo_own 0 1] \<and>
   fst (drain_outbound_ownership (drains 5 [\<lparr>oo_record = demo_own 0 1, oo_ttl = DEFAULT_OWNERSHIP_TTL\<rparr>])) = []"
  using delta_gossiped_ttl_rounds [of "[\<lparr>oo_record = demo_own 0 1, oo_ttl = DEFAULT_OWNERSHIP_TTL\<rparr>]" 4]
    delta_gossiped_ttl_rounds [of "[\<lparr>oo_record = demo_own 0 1, oo_ttl = DEFAULT_OWNERSHIP_TTL\<rparr>]" 5]
  by (simp add: DEFAULT_OWNERSHIP_TTL_def)

section \<open>Datagrams\<close>

lemma send_to_mtu: "send_to ghbn sendto addr payload cache = (sent, cache') \<Longrightarrow> d \<in> set sent \<Longrightarrow>
    length (snd d) \<le> MTU_GUARD"
  by (auto simp: send_to_def split: if_splits option.splits)

lemma send_all_mtu: "send_all ser ghbn sendto ab ms cache = Inr (sent, cache') \<Longrightarrow> d \<in> set sent \<Longrightarrow>
    length (snd d) \<le> MTU_GUARD"
proof (induction ms arbitrary: cache sent)
  case (Cons m ms)
  show ?case
  proof (cases "dget ab (om_target_shard_id m)")
    case None
    with Cons show ?thesis by simp
  next
    case (Some addr)
    with Cons.prems(1) obtain p sent1 c1 rest where
      "send_to ghbn sendto addr p cache = (sent1, c1)"
      "send_all ser ghbn sendto ab ms c1 = Inr (rest, cache')" "sent = sent1 @ rest"
      by (auto simp: exn_simps Let_def case_prod_beta intro: that prod.collapse [symmetric])
    with Cons.IH Cons.prems(2) send_to_mtu show ?thesis by fastforce
  qed
qed simp

text \<open>C32: No datagram is larger than the MTU guard of 1400 bytes, whatever a loop iteration sends.\<close>

theorem datagrams_fit_mtu:
  assumes "run_iteration ser ghbn sendto now clock ld ht r = Inr (sent, calls, r')" and "d \<in> set sent"
  shows "length (snd d) \<le> MTU_GUARD"
proof -
  from assms(1) obtain ab ms c c' where "send_all ser ghbn sendto ab ms c = Inr (sent, c')"
    by (auto simp: run_iteration_def exn_simps Let_def case_prod_beta)
  then show ?thesis using assms(2) by (rule send_all_mtu)
qed

theorem datagrams_fit_mtu_witness: "length (snd ((''10.0.0.2'', 9000 :: int), [1, 2, 3 :: byte])) \<le> MTU_GUARD"
proof -
  from demo_iteration_returns obtain calls r' where
    "demo_iteration = Inr ([((''10.0.0.2'', 9000), [1, 2, 3])], calls, r')" by blast
  from datagrams_fit_mtu [OF this [unfolded demo_iteration_def]] show ?thesis by simp
qed

section \<open>What the encoder cannot carry\<close>

lemma encode_bad_incarnation:
  assumes "(case msg of Ping m \<Rightarrow> pi_from_incarnation m | Ack m \<Rightarrow> ac_from_incarnation m | _ \<Rightarrow> 0) \<ge> 2 ^ 64"
  shows "encode_membership_envelope ser msg = Inl ValueError"
  using assms by (cases msg) (simp_all add: encode_membership_envelope_def membership_to_pb_def pb_u64_def)

text \<open>A claim at the last incarnation disables the node.  When a node processes a claim that it
  is SUSPECT or DEAD at incarnation 2^64 - 1, it refutes with incarnation 2^64, which the wire
  format cannot carry: from then on the encoding of any Ping it sends raises
  \<^verbatim>\<open>ValueError\<close>, in the runner's only thread.\<close>

theorem last_incarnation_disables_node:
  assumes s: "swim_wf s" and "mr_shard_id d = self_id s" and "mr_state d \<noteq> ALIVE"
    and "mr_incarnation d = 2 ^ 64 - 1" and "self_incarnation s < 2 ^ 64"
  shows "\<exists>s'. recv (MembershipDelta \<lparr>md_members = [d]\<rparr>) now s = Inr ([], s') \<and>
    self_incarnation s' = 2 ^ 64 \<and>
    encode_membership_envelope ser (PingMsg0 (self_id s') (self_incarnation s') ds) = Inl ValueError"
proof -
  obtain own where own: "dget (members s) (self_id s) = Some own" using wf_self [OF s] by blast
  have "recv (MembershipDelta \<lparr>md_members = [d]\<rparr>) now s = Inr ([], install (self_id s) (Some (mr_state own))
      \<lparr>mr_shard_id = self_id s, mr_host = mr_host own, mr_udp_port = mr_udp_port own, mr_state = ALIVE,
       mr_incarnation = mr_incarnation d + 1, mr_model_id = mr_model_id own, mr_last_state_change = now,
       mr_suspect_deadline = None\<rparr> now (s\<lparr>self_incarnation := mr_incarnation d + 1\<rparr>))"
    using assms own by (intro refute_installs) simp_all
  then show ?thesis
    using assms(4) by (auto intro: encode_bad_incarnation simp: PingMsg0_def)
qed

theorem last_incarnation_disables_node_witness:
  "\<exists>s'. recv (MembershipDelta \<lparr>md_members = [demo_claim ''a'' DEAD (2 ^ 64 - 1)]\<rparr>) 3 demo_state = Inr ([], s') \<and>
    self_incarnation s' = 2 ^ 64 \<and>
    encode_membership_envelope (\<lambda>_. []) (PingMsg0 (self_id s') (self_incarnation s') []) = Inl ValueError"
proof -
  have "self_incarnation demo_state = 0" by code_simp
  then show ?thesis
    by (intro last_incarnation_disables_node [OF demo_wf]) (simp_all add: demo_view demo_claim_def)
qed

end
