(* ===== verification/Bootstrap.thy ===== *)
theory Bootstrap
  imports Runner
begin

text \<open>
  \<^verbatim>\<open>membership/bootstrap.py\<close>: sequential contact of the seeds.  The request function is a
  parameter: \<^verbatim>\<open>request_fn n addr payload timeout\<close> is what its n-th call returns.  Besides
  its result the model returns the addresses contacted, in order.
\<close>

declare map_of_eq_Some_iff [simp del] Some_eq_map_of_iff [simp del]

record BootstrapResult =
  br_success :: bool
  br_members :: "MemberRecord list"

definition join_record :: "PeerSpec \<Rightarrow> string \<Rightarrow> MemberRecord" where
  "join_record self_spec mid =
     \<lparr>mr_shard_id = ps_shard_id self_spec, mr_host = ps_host self_spec,
      mr_udp_port = ps_udp_port self_spec, mr_state = ALIVE, mr_incarnation = 0, mr_model_id = mid,
      mr_last_state_change = 0, mr_suspect_deadline = None\<rparr>"

fun try_seeds :: "(bytes \<Rightarrow> EnvelopePb result) \<Rightarrow> (nat \<Rightarrow> address \<Rightarrow> bytes \<Rightarrow> py_float \<Rightarrow> bytes option) \<Rightarrow>
    string \<Rightarrow> bytes \<Rightarrow> py_float \<Rightarrow> nat \<Rightarrow> PeerSpec list \<Rightarrow> address list \<times> BootstrapResult result" where
  "try_seeds parse request_fn own payload timeout n [] =
     ([], Inr \<lparr>br_success = False, br_members = []\<rparr>)"
| "try_seeds parse request_fn own payload timeout n (peer # peers) =
     (if ps_shard_id peer = own
      then try_seeds parse request_fn own payload timeout n peers
      else
        let addr = (ps_host peer, ps_udp_port peer);
            next = (\<lambda>_. let (as, res) = try_seeds parse request_fn own payload timeout (Suc n) peers
                        in (addr # as, res))
        in case request_fn n addr payload timeout of
             None \<Rightarrow> next ()
           | Some reply \<Rightarrow>
               (case decode_membership_envelope parse reply of
                  Inl e \<Rightarrow> ([addr], Inl e)
                | Inr (Some (MembershipDelta m)) \<Rightarrow>
                    ([addr], Inr \<lparr>br_success = True, br_members = md_members m\<rparr>)
                | Inr _ \<Rightarrow> next ()))"

definition bootstrap_sequential :: "(EnvelopePb \<Rightarrow> bytes) \<Rightarrow> (bytes \<Rightarrow> EnvelopePb result) \<Rightarrow>
    (nat \<Rightarrow> address \<Rightarrow> bytes \<Rightarrow> py_float \<Rightarrow> bytes option) \<Rightarrow> PeerSpec \<Rightarrow> PeerSpec list \<Rightarrow> py_float \<Rightarrow>
    string \<Rightarrow> address list \<times> BootstrapResult result" where
  "bootstrap_sequential serialize parse request_fn self_spec peers timeout_s mid =
     (case encode_membership_envelope serialize (Join \<lparr>jo_self_record = join_record self_spec mid\<rparr>) of
        Inl e \<Rightarrow> ([], Inl e)
      | Inr payload \<Rightarrow> try_seeds parse request_fn (ps_shard_id self_spec) payload timeout_s 0 peers)"

section \<open>The first seed that answers wins\<close>

lemma try_seeds_silent:
  assumes "\<And>n p. p \<in> set xs \<Longrightarrow> request_fn n (ps_host p, ps_udp_port p) payload timeout = None"
  shows "\<exists>k. try_seeds parse request_fn own payload timeout n (xs @ ys) =
    (map (\<lambda>p. (ps_host p, ps_udp_port p)) (filter (\<lambda>p. ps_shard_id p \<noteq> own) xs) @
       fst (try_seeds parse request_fn own payload timeout k ys),
     snd (try_seeds parse request_fn own payload timeout k ys))"
  using assms
proof (induction xs arbitrary: n)
  case Nil
  then show ?case by (intro exI [of _ n]) simp
next
  case (Cons x xs)
  have IH: "\<exists>k. try_seeds parse request_fn own payload timeout m (xs @ ys) =
    (map (\<lambda>p. (ps_host p, ps_udp_port p)) (filter (\<lambda>p. ps_shard_id p \<noteq> own) xs) @
       fst (try_seeds parse request_fn own payload timeout k ys),
     snd (try_seeds parse request_fn own payload timeout k ys))" for m
    using Cons.prems by (intro Cons.IH) simp
  have "request_fn n (ps_host x, ps_udp_port x) payload timeout = None"
    using Cons.prems [of x n] by simp
  with IH [of n] IH [of "Suc n"] show ?case by (auto simp: Let_def case_prod_beta)
qed

text \<open>The first answering seed wins.  If the seeds before a peer time out and that peer runs
  the membership state machine and answers the join with the reply the state machine produced,
  the joining node obtains that peer's whole view (clock fields aside), which contains the joining
  node itself, ALIVE; no later seed and never the node itself is contacted.  The seed must accept
  the model identity and not hold a DEAD record of the node at a positive incarnation.\<close>

theorem bootstrap_first_seed_wins:
  assumes enc: "encode_membership_envelope serialize (Join \<lparr>jo_self_record = join_record me mid\<rparr>) = Inr payload"
    and peers: "peers = xs @ seed # ys" and seed: "ps_shard_id seed \<noteq> ps_shard_id me"
    and silent: "\<And>n p. p \<in> set xs \<Longrightarrow> request_fn n (ps_host p, ps_udp_port p) payload t = None"
    and wf: "swim_wf s" and adm: "admit s (join_record me mid)"
    and dead: "\<And>r. dget (members s) (ps_shard_id me) = Some r \<Longrightarrow> mr_state r = DEAD \<Longrightarrow> mr_incarnation r \<le> 0"
    and rc: "recv (Join \<lparr>jo_self_record = join_record me mid\<rparr>) now s = Inr ([m], s')"
    and rep: "encode_membership_envelope serialize (om_payload m) = Inr reply"
    and pars: "\<And>env. membership_to_pb (om_payload m) = Inr env \<Longrightarrow> parse (serialize env) = Inr env"
    and answer: "\<And>n. request_fn n (ps_host seed, ps_udp_port seed) payload t = Some reply"
  shows "bootstrap_sequential serialize parse request_fn me peers t mid =
      (map (\<lambda>p. (ps_host p, ps_udp_port p)) (filter (\<lambda>p. ps_shard_id p \<noteq> ps_shard_id me) (xs @ [seed])),
       Inr \<lparr>br_success = True, br_members = map on_wire (dvalues (members s'))\<rparr>) \<and>
    (\<exists>r. dget (members s') (ps_shard_id me) = Some r \<and> mr_state r = ALIVE)"
proof -
  have m: "m = \<lparr>om_target_shard_id = ps_shard_id me,
       om_payload = MembershipDelta \<lparr>md_members = dvalues (members s')\<rparr>\<rparr>"
    using rc adm by (auto simp: recv_def handle_join_def Let_def join_record_def split: if_splits)
  have me: "\<exists>r. dget (members s') (ps_shard_id me) = Some r \<and> mr_state r = ALIVE"
    using rc adm dead
    by (fastforce simp: recv_def handle_join_def Let_def join_record_def split: option.splits if_splits)
  have "decode_membership_envelope parse reply = Inr (Some (msg_on_wire (om_payload m)))"
    using rep pars membership_wire by (auto simp: encode_membership_envelope_def decode_membership_envelope_def exn_simps)
  then have dec: "decode_membership_envelope parse reply =
      Inr (Some (MembershipDelta \<lparr>md_members = map on_wire (dvalues (members s'))\<rparr>))"
    by (simp add: m)
  have "try_seeds parse request_fn (ps_shard_id me) payload t k (seed # ys) =
      ([(ps_host seed, ps_udp_port seed)],
       Inr \<lparr>br_success = True, br_members = map on_wire (dvalues (members s'))\<rparr>)" for k
    using seed dec answer by (simp add: Let_def)
  with try_seeds_silent [of xs request_fn payload t parse "ps_shard_id me" 0 "seed # ys"] silent
  show ?thesis using me enc seed by (auto simp: bootstrap_sequential_def peers)
qed

text \<open>A dead node cannot rejoin through a seed.  Because the join carries incarnation 0, a seed
  that holds the node as DEAD at a positive incarnation ignores the join: its state is unchanged
  and the view it returns still shows the node DEAD.\<close>

theorem dead_node_join_ignored:
  assumes "admit s (join_record me mid)" and "dget (members s) (ps_shard_id me) = Some r"
    and "mr_state r = DEAD" and "0 < mr_incarnation r"
  shows "recv (Join \<lparr>jo_self_record = join_record me mid\<rparr>) now s =
    Inr ([\<lparr>om_target_shard_id = ps_shard_id me,
           om_payload = MembershipDelta \<lparr>md_members = dvalues (members s)\<rparr>\<rparr>], s)"
  using assms by (simp add: recv_def handle_join_def Let_def join_record_def)


definition demo_seed :: MembershipState where
  "demo_seed = init_state (demo_peer ''b'') [] [] default_config ''m'' 0"

lemma demo_seed_wf: "swim_wf demo_seed"
  by (simp add: demo_seed_def init_wf)

definition demo_reply :: IncomingMessage where
  "demo_reply = (case recv (Join \<lparr>jo_self_record = join_record (demo_peer ''a'') ''m''\<rparr>) 1 demo_seed of
     Inr ([m], s') \<Rightarrow> om_payload m | _ \<Rightarrow> demo_ping)"

text \<open>A codec for the two envelopes of the example: one byte names the message.\<close>

definition demo_serialize :: "EnvelopePb \<Rightarrow> bytes" where
  "demo_serialize env = (case env of EnvJoin _ \<Rightarrow> [1] | _ \<Rightarrow> [2])"

definition demo_parse :: "bytes \<Rightarrow> EnvelopePb result" where
  "demo_parse bs = membership_to_pb demo_reply"

theorem bootstrap_first_seed_wins_witness:
  "\<exists>s' :: MembershipState. bootstrap_sequential demo_serialize demo_parse
      (\<lambda>n a p t. if a = (''h'', 9000) then Some [2] else None) (demo_peer ''a'')
      [(demo_peer ''c'')\<lparr>ps_host := ''x''\<rparr>, demo_peer ''b'', demo_peer ''d''] (1/2) ''m'' =
    ([(''x'', 9000), (''h'', 9000)], Inr \<lparr>br_success = True, br_members = map on_wire (dvalues (members s'))\<rparr>) \<and>
    (\<exists>r. dget (members s') ''a'' = Some r \<and> mr_state r = ALIVE)"
proof -
  have "(case recv (Join \<lparr>jo_self_record = join_record (demo_peer ''a'') ''m''\<rparr>) 1 demo_seed of
      Inl _ \<Rightarrow> False | Inr p \<Rightarrow> length (fst p) = 1 \<and> om_payload (hd (fst p)) = demo_reply)" by code_simp
  then obtain m s' where rc: "recv (Join \<lparr>jo_self_record = join_record (demo_peer ''a'') ''m''\<rparr>) 1 demo_seed = Inr ([m], s')"
    "om_payload m = demo_reply" by (fastforce simp: length_Suc_conv split: sum.splits)
  have e: "encode_membership_envelope demo_serialize (Join \<lparr>jo_self_record = join_record (demo_peer ''a'') ''m''\<rparr>) = Inr [1]"
    "encode_membership_envelope demo_serialize demo_reply = Inr [2]"
    "admit demo_seed (join_record (demo_peer ''a'') ''m'')" "dget (members demo_seed) ''a'' = None"
    by code_simp+
  have "bootstrap_sequential demo_serialize demo_parse
      (\<lambda>n a p t. if a = (''h'', 9000) then Some [2] else None) (demo_peer ''a'')
      ([(demo_peer ''c'')\<lparr>ps_host := ''x''\<rparr>] @ demo_peer ''b'' # [demo_peer ''d'']) (1/2) ''m'' =
    (map (\<lambda>p. (ps_host p, ps_udp_port p)) (filter (\<lambda>p. ps_shard_id p \<noteq> ps_shard_id (demo_peer ''a''))
       ([(demo_peer ''c'')\<lparr>ps_host := ''x''\<rparr>] @ [demo_peer ''b''])),
     Inr \<lparr>br_success = True, br_members = map on_wire (dvalues (members s'))\<rparr>) \<and>
    (\<exists>r. dget (members s') (ps_shard_id (demo_peer ''a'')) = Some r \<and> mr_state r = ALIVE)"
    by (rule bootstrap_first_seed_wins [OF e(1) refl _ _ _ e(3) _ rc(1)])
       (use e(4) in \<open>auto simp: rc(2) e(2) demo_parse_def demo_peer_def demo_seed_wf\<close>)
  then show ?thesis by - (rule exI [of _ s'], simp add: demo_peer_def)
qed

theorem dead_node_join_ignored_witness:
  "\<exists>s. (case recv (MembershipDelta \<lparr>md_members = [demo_claim ''a'' DEAD 7]\<rparr>) 1 demo_seed of
          Inl _ \<Rightarrow> False | Inr p \<Rightarrow> s = snd p) \<and>
    recv (Join \<lparr>jo_self_record = join_record (demo_peer ''a'') ''m''\<rparr>) 9 s =
      Inr ([\<lparr>om_target_shard_id = ''a'',
             om_payload = MembershipDelta \<lparr>md_members = dvalues (members s)\<rparr>\<rparr>], s)"
proof -
  have "(case recv (MembershipDelta \<lparr>md_members = [demo_claim ''a'' DEAD 7]\<rparr>) 1 demo_seed of Inl _ \<Rightarrow> False
    | Inr p \<Rightarrow> dget (members (snd p)) ''a'' = Some (demo_claim ''a'' DEAD 7) \<and>
        admit (snd p) (join_record (demo_peer ''a'') ''m''))" by code_simp
  then obtain p where p: "recv (MembershipDelta \<lparr>md_members = [demo_claim ''a'' DEAD 7]\<rparr>) 1 demo_seed = Inr p"
    "dget (members (snd p)) ''a'' = Some (demo_claim ''a'' DEAD 7)" "admit (snd p) (join_record (demo_peer ''a'') ''m'')"
    by (auto split: sum.splits)
  from dead_node_join_ignored [OF p(3), of "demo_claim ''a'' DEAD 7" 9] p(1,2) show ?thesis
    by (intro exI [of _ "snd p"]) (simp add: demo_peer_def demo_claim_def)
qed

end
