(* ===== verification/Load.thy ===== *)
theory Load
  imports Py_Random
begin

text \<open>
  \<^verbatim>\<open>load.py\<close>: the exponential moving average of the queue depth that a node reports to its
  peers.  The lock is not modelled: each method is one atomic step.
\<close>

record LoadTracker =
  lt_alpha :: py_float
  lt_jitter_pct :: py_float
  lt_rng :: rng
  lt_ema :: py_float

definition load_init :: "py_float \<Rightarrow> py_float \<Rightarrow> rng \<Rightarrow> LoadTracker result" where
  "load_init alpha jitter_pct r =
     (if \<not> (0 < alpha \<and> alpha \<le> 1) then Inl ValueError
      else if jitter_pct < 0 then Inl ValueError
      else Inr \<lparr>lt_alpha = alpha, lt_jitter_pct = jitter_pct, lt_rng = r, lt_ema = 0\<rparr>)"

definition load_observe :: "int \<Rightarrow> LoadTracker \<Rightarrow> LoadTracker" where
  "load_observe depth t =
     t\<lparr>lt_ema := fadd (fmul (lt_alpha t) (float_of_int depth)) (fmul (fsub 1 (lt_alpha t)) (lt_ema t))\<rparr>"

definition load_jitter :: "LoadTracker \<Rightarrow> py_float \<times> rng" where
  "load_jitter t =
     (if 0 < lt_jitter_pct t
      then let (u, r') = uniform (- lt_jitter_pct t) (lt_jitter_pct t) (lt_rng t) in (fadd 1 u, r')
      else (1, lt_rng t))"

definition load_report :: "LoadTracker \<Rightarrow> int \<times> LoadTracker" where
  "load_report t =
     (let (jitter, r') = load_jitter t
      in (max 0 (round_even (fmul (fmul (lt_ema t) 100) jitter)), t\<lparr>lt_rng := r'\<rparr>))"

section \<open>The report follows the load\<close>

lemma load_observe_fields [simp]:
  "lt_alpha (load_observe d t) = lt_alpha t" "lt_jitter_pct (load_observe d t) = lt_jitter_pct t"
  "lt_rng (load_observe d t) = lt_rng t"
  by (simp_all add: load_observe_def)

lemma fold_observe_fields [simp]:
  "lt_alpha (fold load_observe ds t) = lt_alpha t" "lt_jitter_pct (fold load_observe ds t) = lt_jitter_pct t"
  "lt_rng (fold load_observe ds t) = lt_rng t"
  by (induction ds arbitrary: t) simp_all

lemma fmul_mono: "0 \<le> a \<Longrightarrow> x \<le> y \<Longrightarrow> fmul a x \<le> fmul a y"
  unfolding fmul_def by (intro fl64.fl_mono mult_left_mono)

lemma fsub_nonneg: "y \<le> x \<Longrightarrow> 0 \<le> fsub x y"
  unfolding fsub_def by (intro fl64.fl_nonneg) simp

lemma float_of_int_mono: "i \<le> j \<Longrightarrow> float_of_int i \<le> float_of_int j"
  unfolding float_of_int_def by (intro fl64.fl_mono) simp

lemma load_observe_mono:
  assumes "d \<le> d'" and "lt_alpha t = lt_alpha t'" and "0 < lt_alpha t" and "lt_alpha t \<le> 1"
    and "lt_ema t \<le> lt_ema t'"
  shows "lt_ema (load_observe d t) \<le> lt_ema (load_observe d' t')"
  using assms by (auto simp: load_observe_def intro!: fadd_mono fmul_mono float_of_int_mono fsub_nonneg)

lemma fold_observe_mono:
  assumes "list_all2 (\<le>) ds ds'" and "lt_alpha t = lt_alpha t'" and "0 < lt_alpha t" and "lt_alpha t \<le> 1"
    and "lt_ema t \<le> lt_ema t'"
  shows "lt_ema (fold load_observe ds t) \<le> lt_ema (fold load_observe ds' t')"
  using assms
proof (induction arbitrary: t t' rule: list_all2_induct)
  case (Cons d ds d' ds')
  have "lt_ema (load_observe d t) \<le> lt_ema (load_observe d' t')"
    using Cons.prems Cons.hyps(1) by (intro load_observe_mono)
  with Cons.prems show ?case by (simp only: fold_simps) (rule Cons.IH, simp_all)
qed simp

lemma uniform_ge:
  assumes "0 \<le> p" and "fl64 p = p"
  shows "- p \<le> fst (uniform (- p) p r)"
proof -
  obtain u r' where u: "rng_random r = (u, r')" by (cases "rng_random r")
  have "0 \<le> u" using u by (auto simp: rng_random_def split: list.splits)
  have "0 \<le> fsub p (- p)" using assms(1) by (intro fsub_nonneg) simp
  then have "0 \<le> fmul (fsub p (- p)) u"
    unfolding fmul_def using \<open>0 \<le> u\<close> by (intro fl64.fl_nonneg mult_nonneg_nonneg)
  then have "fl64 (- p) \<le> fadd (- p) (fmul (fsub p (- p)) u)"
    unfolding fadd_def by (intro fl64.fl_mono) simp
  moreover have "fl64 (- p) = - p" using assms(2) fl64.fl_minus by simp
  ultimately show ?thesis by (simp add: uniform_def u)
qed

lemma load_jitter_nonneg:
  assumes "lt_jitter_pct t \<le> 1" and "fl64 (lt_jitter_pct t) = lt_jitter_pct t"
  shows "0 \<le> fst (load_jitter t)"
proof (cases "0 < lt_jitter_pct t")
  case True
  obtain u r' where u: "uniform (- lt_jitter_pct t) (lt_jitter_pct t) (lt_rng t) = (u, r')"
    by (cases "uniform (- lt_jitter_pct t) (lt_jitter_pct t) (lt_rng t)")
  have "- lt_jitter_pct t \<le> u" using uniform_ge [of "lt_jitter_pct t" "lt_rng t"] True assms(2) u by simp
  then have "0 \<le> fadd 1 u" unfolding fadd_def using assms(1) by (intro fl64.fl_nonneg) simp
  then show ?thesis using True u by (simp add: load_jitter_def)
qed (simp add: load_jitter_def)

text \<open>The load report follows the load.  Two trackers with the same parameters and the same
  random generator, one of which observes queue depths at least as large as the other's at every
  sample, report loads in the same order, in spite of floating-point rounding and jitter; a
  tracker that never saw a queue reports 0.  The jitter is at most 100 percent.\<close>

theorem load_report_monotone:
  assumes i: "load_init alpha jitter_pct r = Inr t" and j: "jitter_pct \<le> 1" "fl64 jitter_pct = jitter_pct"
    and ds: "list_all2 (\<le>) ds ds'"
  shows "fst (load_report (fold load_observe ds t)) \<le> fst (load_report (fold load_observe ds' t)) \<and>
    fst (load_report (fold load_observe (replicate n 0) t)) = 0"
proof -
  from i have t: "t = \<lparr>lt_alpha = alpha, lt_jitter_pct = jitter_pct, lt_rng = r, lt_ema = 0\<rparr>"
    and a: "0 < alpha" "alpha \<le> 1"
    by (auto simp: load_init_def split: if_splits)
  have jit: "load_jitter (fold load_observe es t) = load_jitter t" for es
    by (simp add: load_jitter_def)
  have "0 \<le> fst (load_jitter t)" using j by (intro load_jitter_nonneg) (simp_all add: t)
  moreover have "lt_ema (fold load_observe ds t) \<le> lt_ema (fold load_observe ds' t)"
    using ds a by (intro fold_observe_mono) (simp_all add: t)
  ultimately have "fmul (fmul (lt_ema (fold load_observe ds t)) 100) (fst (load_jitter t)) \<le>
      fmul (fmul (lt_ema (fold load_observe ds' t)) 100) (fst (load_jitter t))"
    unfolding fmul_def by (intro fl64.fl_mono mult_right_mono) simp_all
  then have mono: "fst (load_report (fold load_observe ds t)) \<le> fst (load_report (fold load_observe ds' t))"
    unfolding load_report_def jit by (simp add: case_prod_beta Let_def round_even_mono max.coboundedI2)
  have "lt_ema (fold load_observe (replicate n 0) u) = 0" if "lt_ema u = 0" for u
    using that by (induction n arbitrary: u) (simp_all add: load_observe_def fadd_def fmul_def float_of_int_def fl64_def)
  then have "lt_ema (fold load_observe (replicate n 0) t) = 0" by (simp add: t)
  with mono show ?thesis by (simp add: load_report_def jit case_prod_beta Let_def fmul_def fl64_def)
qed

theorem load_report_monotone_witness:
  "fst (load_report (fold load_observe [1, 2, 0]
      \<lparr>lt_alpha = 1/2, lt_jitter_pct = 1/8, lt_rng = [5], lt_ema = 0\<rparr>)) \<le>
   fst (load_report (fold load_observe [3, 2, 4]
      \<lparr>lt_alpha = 1/2, lt_jitter_pct = 1/8, lt_rng = [5], lt_ema = 0\<rparr>))"
proof -
  have "load_init (1/2) (1/8) [5] = Inr \<lparr>lt_alpha = 1/2, lt_jitter_pct = 1/8, lt_rng = [5], lt_ema = 0\<rparr>"
    by (simp add: load_init_def)
  moreover have "fl64 (1/8) = 1/8" by code_simp
  ultimately show ?thesis
    using load_report_monotone [of "1/2" "1/8" "[5]" _ "[1, 2, 0]" "[3, 2, 4]" 0] by simp
qed

end
