(* ===== verification/Heat.thy ===== *)
theory Heat
  imports Records
begin

text \<open>
  \<^verbatim>\<open>heat.py\<close>: how often this node's router picks each (layer, expert), as an exponential
  moving average per pair, and the sparse report of the hottest pairs.  \<^verbatim>\<open>_ema\<close> is a
  dictionary in insertion order, because the report's sort is stable.  The lock is not modelled.
\<close>

record HeatTracker =
  ht_alpha :: py_float
  ht_top_n :: int
  ht_ema :: "(int \<times> int, py_float) dict"

definition heat_init :: "py_float \<Rightarrow> int \<Rightarrow> HeatTracker result" where
  "heat_init alpha top_n =
     (if \<not> (0 < alpha \<and> alpha \<le> 1) then Inl ValueError
      else if top_n \<le> 0 then Inl ValueError
      else Inr \<lparr>ht_alpha = alpha, ht_top_n = top_n, ht_ema = []\<rparr>)"

definition heat_counts :: "int list \<Rightarrow> (int, int) dict" where
  "heat_counts expert_ids = fold (\<lambda>eid d. dput eid (dget_default d eid 0 + 1) d) expert_ids []"

definition heat_decay :: "py_float \<Rightarrow> int \<Rightarrow> (int, int) dict \<Rightarrow> (int \<times> int, py_float) dict \<Rightarrow>
    (int \<times> int, py_float) dict" where
  "heat_decay alpha layer_idx counts ema =
     fold (\<lambda>(k, v) m. if fst k = layer_idx \<and> snd k \<notin> set (dkeys counts)
                      then dput k (fmul (fsub 1 alpha) v) m else m) ema ema"

definition heat_fold_in :: "py_float \<Rightarrow> int \<Rightarrow> (int, int) dict \<Rightarrow> (int \<times> int, py_float) dict \<Rightarrow>
    (int \<times> int, py_float) dict" where
  "heat_fold_in alpha layer_idx counts ema =
     fold (\<lambda>(eid, c) m. dput (layer_idx, eid)
             (fadd (fmul alpha (float_of_int c))
                   (fmul (fsub 1 alpha) (dget_default m (layer_idx, eid) 0))) m) counts ema"

definition heat_observe :: "int \<Rightarrow> int list \<Rightarrow> HeatTracker \<Rightarrow> HeatTracker" where
  "heat_observe layer_idx expert_ids t =
     (if expert_ids = [] then t
      else let counts = heat_counts expert_ids in
           t\<lparr>ht_ema := heat_fold_in (ht_alpha t) layer_idx counts
                         (heat_decay (ht_alpha t) layer_idx counts (ht_ema t))\<rparr>)"

definition heat_report :: "HeatTracker \<Rightarrow> (int \<times> int \<times> int) list" where
  "heat_report t =
     slice_to (ht_top_n t)
       (sort_key (\<lambda>x. - snd (snd x))
          (map (\<lambda>((layer, e), v). (layer, e, round_even (fmul v 100)))
               (filter (\<lambda>(k, v). 0 < v) (ht_ema t))))"

definition local_heat :: "int \<Rightarrow> int \<Rightarrow> HeatTracker \<Rightarrow> int" where
  "local_heat layer_idx expert_id t =
     round_even (fmul (dget_default (ht_ema t) (layer_idx, expert_id) 0) 100)"

definition heat_reset :: "int \<Rightarrow> int \<Rightarrow> HeatTracker \<Rightarrow> HeatTracker" where
  "heat_reset layer_idx expert_id t = t\<lparr>ht_ema := dpop (layer_idx, expert_id) (ht_ema t)\<rparr>"

section \<open>The invariant\<close>

definition heat_wf :: "HeatTracker \<Rightarrow> bool" where
  "heat_wf t \<longleftrightarrow> 0 < ht_alpha t \<and> ht_alpha t \<le> 1 \<and> 0 < ht_top_n t \<and> distinct (dkeys (ht_ema t)) \<and>
     (\<forall>v \<in> set (dvalues (ht_ema t)). 0 \<le> v)"

section \<open>One observation\<close>

lemma heat_counts_step:
  "dget_default (fold (\<lambda>eid d. dput eid (dget_default d eid 0 + 1) d) ids d) e 0 =
     dget_default d e 0 + int (count_list ids e)"
  by (induction ids arbitrary: d) (auto simp: dget_default_def)

lemma heat_counts_keys:
  "set (dkeys (fold (\<lambda>eid d. dput eid (f eid d) d) ids d)) = set (dkeys d) \<union> set ids"
  by (induction ids arbitrary: d) auto

lemma heat_counts_distinct:
  "distinct (dkeys d) \<Longrightarrow> distinct (dkeys (fold (\<lambda>eid d. dput eid (f eid d) d) ids d))"
  by (induction ids arbitrary: d) auto

lemma set_heat_counts: "set (dkeys (heat_counts ids)) = set ids"
  by (simp only: heat_counts_def heat_counts_keys) simp

lemma distinct_heat_counts: "distinct (dkeys (heat_counts ids))"
  by (simp only: heat_counts_def) (rule heat_counts_distinct, simp)

lemma heat_counts_get:
  assumes "e \<in> set ids" shows "dget (heat_counts ids) e = Some (int (count_list ids e))"
proof -
  from assms obtain c where "dget (heat_counts ids) e = Some c"
    using dkey_get [of e "heat_counts ids"] set_heat_counts by metis
  moreover have "dget_default (heat_counts ids) e 0 = int (count_list ids e)"
    using heat_counts_step [of ids "[]" e] by (simp add: heat_counts_def dget_default_def)
  ultimately show ?thesis by simp
qed

text \<open>Assigning to the keys of a snapshot, one after the other.\<close>

lemma fold_assign_get:
  assumes "distinct (dkeys ps)"
  shows "dget (fold (\<lambda>(k, v) m. if P k then dput k (f v) m else m) ps m) j =
    (case dget ps j of None \<Rightarrow> dget m j | Some v \<Rightarrow> if P j then Some (f v) else dget m j)"
  using assms
proof (induction ps arbitrary: m)
  case (Cons p ps)
  obtain k v where p: "p = (k, v)" by (cases p)
  from Cons.prems p have "dget ps k = None" by (simp add: dget_None_iff)
  with Cons p show ?case by (auto split: option.split)
qed simp

lemma fold_assign_keys:
  "set (dkeys ps) \<subseteq> set (dkeys m) \<Longrightarrow>
     dkeys (fold (\<lambda>(k, v) m. if P k then dput k (f v) m else m) ps m) = dkeys m"
proof (induction ps arbitrary: m)
  case (Cons p ps)
  obtain k v where p: "p = (k, v)" by (cases p)
  let ?m = "if P k then dput k (f v) m else m"
  from Cons.prems p have m: "dkeys ?m = dkeys m" by (auto simp: dkeys_dput_present)
  have "dkeys (fold (\<lambda>(k, v) m. if P k then dput k (f v) m else m) ps ?m) = dkeys ?m"
    using Cons.prems p by (intro Cons.IH) (simp only: m, simp)
  with m show ?case by (simp only: p fold_simps prod.case)
qed simp

lemma heat_decay_get:
  assumes "distinct (dkeys ema)"
  shows "dget (heat_decay a l counts ema) (l', e) =
    map_option (\<lambda>v. if l' = l \<and> e \<notin> set (dkeys counts) then fmul (fsub 1 a) v else v) (dget ema (l', e))"
  unfolding heat_decay_def fold_assign_get [OF assms] by (auto split: option.split)

lemma heat_fold_in_get:
  assumes "distinct (dkeys counts)"
  shows "dget (heat_fold_in a l counts ema) (l', e) =
    (case (if l' = l then dget counts e else None) of
       None \<Rightarrow> dget ema (l', e)
     | Some c \<Rightarrow> Some (fadd (fmul a (float_of_int c)) (fmul (fsub 1 a) (dget_default ema (l', e) 0))))"
  using assms unfolding heat_fold_in_def
proof (induction counts arbitrary: ema)
  case (Cons p counts)
  obtain k c where p: "p = (k, c)" by (cases p)
  from Cons.prems p have "dget counts k = None" by (simp add: dget_None_iff)
  with Cons p show ?case by (auto split: option.split simp: dget_default_def)
qed simp

lemma heat_observe_get:
  assumes "heat_wf t" and "ids \<noteq> []"
  shows "dget (ht_ema (heat_observe layer ids t)) (l, e) =
      (if l = layer \<and> e \<in> set ids
       then Some (fadd (fmul (ht_alpha t) (float_of_int (int (count_list ids e))))
                       (fmul (fsub 1 (ht_alpha t)) (dget_default (ht_ema t) (l, e) 0)))
       else if l = layer then map_option (fmul (fsub 1 (ht_alpha t))) (dget (ht_ema t) (l, e))
       else dget (ht_ema t) (l, e))"
proof -
  have d: "distinct (dkeys (ht_ema t))" using assms(1) by (simp add: heat_wf_def)
  have none: "e \<notin> set ids \<Longrightarrow> dget (heat_counts ids) e = None"
    using set_heat_counts [of ids] by (simp add: dget_None_iff)
  show ?thesis
    using assms(2) none
    by (auto simp: heat_observe_def Let_def heat_fold_in_get [OF distinct_heat_counts] heat_counts_get
        heat_decay_get [OF d] set_heat_counts [simplified] dget_default_def option.map_ident split: option.split)
qed

lemma fold_put_distinct:
  "distinct (dkeys m) \<Longrightarrow> distinct (dkeys (fold (\<lambda>(x, c) m. dput (k x) (v x c m) m) ps m))"
  by (induction ps arbitrary: m) auto

lemma heat_values_nonneg:
  "distinct (dkeys m) \<Longrightarrow> (\<forall>v \<in> set (dvalues m). 0 \<le> v) \<longleftrightarrow> (\<forall>k v. dget m k = Some v \<longrightarrow> (0 :: rat) \<le> v)"
  by (auto simp: dget_in_set [symmetric])

lemma heat_observe_wf: "heat_wf t \<Longrightarrow> heat_wf (heat_observe layer ids t)"
proof (cases "ids = []")
  case False
  assume wf: "heat_wf t"
  let ?t = "heat_observe layer ids t"
  have d: "distinct (dkeys (ht_ema t))" using wf by (simp add: heat_wf_def)
  have "distinct (dkeys (heat_decay (ht_alpha t) layer (heat_counts ids) (ht_ema t)))"
    unfolding heat_decay_def by (subst fold_assign_keys) (simp_all add: d)
  then have dis: "distinct (dkeys (ht_ema ?t))"
    using False by (simp add: heat_observe_def Let_def heat_fold_in_def fold_put_distinct)
  have old: "0 \<le> v" if "dget (ht_ema t) k = Some v" for k v
    using that wf heat_values_nonneg [OF d] by (auto simp: heat_wf_def)
  have nn: "0 \<le> fmul (fsub 1 (ht_alpha t)) v" if "0 \<le> v" for v
    using wf that by (auto simp: heat_wf_def fmul_def fsub_def intro!: fl64.fl_nonneg mult_nonneg_nonneg)
  have "0 \<le> v" if "dget (ht_ema ?t) (l, e) = Some v" for l e v
    using that heat_observe_get [OF wf False, of layer l e] nn old wf
      dget_default_def [of "ht_ema t" "(l, e)" 0]
    by (auto simp: heat_wf_def fadd_def fmul_def [of "ht_alpha t"] float_of_int_nonneg split: if_splits option.splits
        intro!: fl64.fl_nonneg add_nonneg_nonneg mult_nonneg_nonneg)
  then have "\<forall>v \<in> set (dvalues (ht_ema ?t)). 0 \<le> v" using heat_values_nonneg [OF dis] by auto
  with dis wf show ?thesis by (simp add: heat_wf_def heat_observe_def Let_def)
qed (simp add: heat_observe_def)

lemma heat_report_tracked:
  "(l, e, h) \<in> set (heat_report t) \<Longrightarrow> \<exists>v. ((l, e), v) \<in> set (ht_ema t) \<and> 0 < v \<and> h = round_even (fmul v 100)"
  unfolding heat_report_def by (drule set_slice_to [THEN subsetD]) auto

lemma heat_report_sound: "heat_wf t \<Longrightarrow> \<forall>(l, e, h) \<in> set (heat_report t). h = local_heat l e t"
proof (clarify)
  fix l e h assume wf: "heat_wf t" and "(l, e, h) \<in> set (heat_report t)"
  from heat_report_tracked [OF this(2)] obtain v where
    v: "((l, e), v) \<in> set (ht_ema t)" "h = round_even (fmul v 100)" by blast
  have "dget (ht_ema t) (l, e) = Some v" using v(1) wf dget_in_set [of "ht_ema t"] by (simp add: heat_wf_def)
  with v(2) show "h = local_heat l e t" by (simp add: local_heat_def)
qed

lemma heat_report_sorted: "sorted (map (\<lambda>x. - snd (snd x)) (heat_report t))"
  unfolding heat_report_def slice_to_def by (simp only: take_map [symmetric]) (rule sorted_wrt_take, simp)

lemma heat_report_length: "heat_wf t \<Longrightarrow> int (length (heat_report t)) \<le> ht_top_n t"
  by (auto simp: heat_report_def heat_wf_def slice_to_nonneg min_def)

lemma heat_report_complete:
  assumes wf: "heat_wf t"
  shows "\<forall>l e v. dget (ht_ema t) (l, e) = Some v \<longrightarrow> 0 < v \<longrightarrow> (l, e, local_heat l e t) \<notin> set (heat_report t) \<longrightarrow>
       int (length (heat_report t)) = ht_top_n t \<and>
       (\<forall>(l', e', h') \<in> set (heat_report t). local_heat l e t \<le> h')"
proof (intro allI impI)
  fix l e v
  assume v: "dget (ht_ema t) (l, e) = Some v" "0 < v" and out: "(l, e, local_heat l e t) \<notin> set (heat_report t)"
  define srt where "srt = sort_key (\<lambda>x. - snd (snd x))
      (map (\<lambda>((layer, e), v). (layer, e, round_even (fmul v 100))) (filter (\<lambda>(k, v). 0 < v) (ht_ema t)))"
  let ?n = "nat (ht_top_n t)"
  have rep: "heat_report t = take ?n srt"
    using wf by (simp add: heat_report_def srt_def heat_wf_def slice_to_nonneg)
  have "((l, e), v) \<in> set (ht_ema t)" using v(1) by (rule map_of_SomeD)
  then have "(l, e, local_heat l e t) \<in> set srt"
    using v by (force simp: srt_def local_heat_def)
  then have in_drop: "(l, e, local_heat l e t) \<in> set (drop ?n srt)"
    using out unfolding rep by (metis Un_iff append_take_drop_id set_append)
  then have "?n < length srt" by (metis drop_all empty_iff empty_set leI)
  then have len: "int (length (heat_report t)) = ht_top_n t"
    using wf by (simp add: rep heat_wf_def)
  have "sorted (map (\<lambda>x. - snd (snd x)) (take ?n srt @ drop ?n srt))" by (simp add: srt_def)
  then have "\<forall>x \<in> set (take ?n srt). \<forall>y \<in> set (drop ?n srt). - snd (snd x) \<le> - snd (snd y)"
    by (simp only: map_append sorted_append) auto
  with in_drop len show "int (length (heat_report t)) = ht_top_n t \<and>
       (\<forall>(l', e', h') \<in> set (heat_report t). local_heat l e t \<le> h')"
    unfolding rep by fastforce
qed

text \<open>One observation.  After the router picks a non-empty batch of experts at a layer, every
  expert of that layer holds alpha times its number of picks plus (1 - alpha) times its old
  value (experts that were tracked but not picked only decay, experts picked for the first time
  start from 0), and the other layers are untouched.  The tracker stays well formed.\<close>

theorem heat_observe_value:
  assumes "heat_wf t" and "ids \<noteq> []"
  shows "heat_wf (heat_observe layer ids t) \<and>
    dget (ht_ema (heat_observe layer ids t)) (l, e) =
      (if l = layer \<and> e \<in> set ids
       then Some (fadd (fmul (ht_alpha t) (float_of_int (int (count_list ids e))))
                       (fmul (fsub 1 (ht_alpha t)) (dget_default (ht_ema t) (l, e) 0)))
       else if l = layer then map_option (fmul (fsub 1 (ht_alpha t))) (dget (ht_ema t) (l, e))
       else dget (ht_ema t) (l, e))"
  using heat_observe_get [OF assms(1), of ids layer l e] heat_observe_wf [OF assms(1), of layer ids] assms(2)
  by simp

definition demo_heat :: HeatTracker where
  "demo_heat = \<lparr>ht_alpha = 1/2, ht_top_n = 2, ht_ema = [((0, 7), 1), ((0, 3), 2), ((1, 3), 4), ((2, 5), 0)]\<rparr>"

lemma demo_heat_wf: "heat_wf demo_heat"
  by (simp add: heat_wf_def demo_heat_def)

theorem heat_observe_value_witness:
  "dget (ht_ema (heat_observe 0 [7, 9, 7] demo_heat)) (0, 7) =
     Some (fadd (fmul (1/2) (float_of_int 2)) (fmul (fsub 1 (1/2)) 1)) \<and>
   dget (ht_ema (heat_observe 0 [7, 9, 7] demo_heat)) (0, 3) = Some (fmul (fsub 1 (1/2)) 2)"
  using heat_observe_value [OF demo_heat_wf, of "[7, 9, 7]" 0 0 7]
    heat_observe_value [OF demo_heat_wf, of "[7, 9, 7]" 0 0 3]
  by (simp add: demo_heat_def)

section \<open>The report\<close>

text \<open>C35: The heat report.  It lists at most top\_n pairs, hottest first, each with exactly the
  value \<^verbatim>\<open>local_heat\<close> returns; and a pair with positive heat that is missing from it is no
  hotter than any pair listed, the list then being full.\<close>

theorem heat_report_is_top_n:
  assumes "heat_wf t"
  shows "int (length (heat_report t)) \<le> ht_top_n t \<and>
    sorted (map (\<lambda>x. - snd (snd x)) (heat_report t)) \<and>
    (\<forall>(l, e, h) \<in> set (heat_report t). h = local_heat l e t) \<and>
    (\<forall>l e v. dget (ht_ema t) (l, e) = Some v \<longrightarrow> 0 < v \<longrightarrow> (l, e, local_heat l e t) \<notin> set (heat_report t) \<longrightarrow>
       int (length (heat_report t)) = ht_top_n t \<and>
       (\<forall>(l', e', h') \<in> set (heat_report t). local_heat l e t \<le> h'))"
  using heat_report_sorted heat_report_length [OF assms] heat_report_sound [OF assms]
    heat_report_complete [OF assms] by blast

theorem heat_report_is_top_n_witness:
  "heat_report demo_heat = [(1, 3, 400), (0, 3, 200)] \<and> int (length (heat_report demo_heat)) = ht_top_n demo_heat \<and>
   local_heat 1 3 demo_heat = 400 \<and> local_heat 0 3 demo_heat = 200 \<and> local_heat 0 7 demo_heat \<le> 200"
proof -
  have r: "heat_report demo_heat = [(1, 3, 400), (0, 3, 200)]" by code_simp
  have "dget (ht_ema demo_heat) (0, 7) = Some 1" by (simp add: demo_heat_def)
  with heat_report_is_top_n [OF demo_heat_wf] r show ?thesis by auto
qed

text \<open>Eviction forgets.  After a reset the pair's heat is 0 and it is in no report, and no other
  pair's heat has changed, until the router picks it again.\<close>

theorem heat_reset_forgets:
  assumes "heat_wf t"
  shows "heat_wf (heat_reset l e t) \<and> local_heat l e (heat_reset l e t) = 0 \<and>
    (\<forall>h. (l, e, h) \<notin> set (heat_report (heat_reset l e t))) \<and>
    (\<forall>l' e'. (l', e') \<noteq> (l, e) \<longrightarrow> local_heat l' e' (heat_reset l e t) = local_heat l' e' t)"
proof -
  have wf: "heat_wf (heat_reset l e t)"
    using assms distinct_map_filter [of fst "ht_ema t"] by (auto simp: heat_wf_def heat_reset_def AList.delete_eq)
  moreover have "local_heat l e (heat_reset l e t) = 0"
    by (simp add: local_heat_def heat_reset_def dget_default_def fmul_def fl64_def)
  moreover have "(l, e, h) \<notin> set (heat_report (heat_reset l e t))" for h
    using heat_report_tracked [of l e h "heat_reset l e t"] by (auto simp: heat_reset_def AList.delete_eq)
  moreover have "local_heat l' e' (heat_reset l e t) = local_heat l' e' t" if "(l', e') \<noteq> (l, e)" for l' e'
    using that by (auto simp: local_heat_def heat_reset_def dget_default_def)
  ultimately show ?thesis by blast
qed

theorem heat_reset_forgets_witness:
  "local_heat 1 3 (heat_reset 1 3 demo_heat) = 0 \<and> local_heat 0 3 (heat_reset 1 3 demo_heat) = local_heat 0 3 demo_heat"
  using heat_reset_forgets [OF demo_heat_wf, of 1 3] by simp

end
