(* ===== verification/Partial_Load.thy ===== *)
theory Partial_Load
  imports Convergence
begin

text \<open>
  The expert weights a node holds and their hot swap: \<^verbatim>\<open>partial_load.py\<close> (MLX, compact
  stacks with a list of held ids) and \<^verbatim>\<open>pt_partial_load.py\<close> (PyTorch, full stacks whose
  slots are overwritten and zeroed).  A row of a stacked tensor, the weights of one expert in one
  projection, is a value of a type \<^verbatim>\<open>'r\<close>; shapes enter the PyTorch model as a parameter
  because the code checks them.  The lock is not modelled; each function is one atomic step.

  \<^verbatim>\<open>expert_backend\<close> is the contract the migration code relies on, with both backends as
  interpretations: reading back what was attached, and no interference between experts.
\<close>

section \<open>MLX: compact stacks\<close>

type_synonym 'r layer_stacks = "(string \<times> string, 'r list) dict"

record 'r LoadedModel =
  lm_layers :: "'r layer_stacks list"
  lm_held_ids_per_layer :: "(int, int list) dict"

definition PROJ_ATTR_ORDER :: "(string \<times> string) list" where
  "PROJ_ATTR_ORDER =
     [(''gate_proj'', ''weight''), (''gate_proj'', ''scales''), (''gate_proj'', ''biases''),
      (''up_proj'', ''weight''), (''up_proj'', ''scales''), (''up_proj'', ''biases''),
      (''down_proj'', ''weight''), (''down_proj'', ''scales''), (''down_proj'', ''biases'')]"

text \<open>\<^verbatim>\<open>mx.take(full, ids, axis=0)\<close>; positions out of range are not checked by MLX.\<close>

definition take_rows :: "int list \<Rightarrow> 'r list \<Rightarrow> 'r list" where
  "take_rows ids full = map (\<lambda>i. full ! nat (if i < 0 then int (length full) + i else i)) ids"

definition get_stack :: "'r layer_stacks \<Rightarrow> string \<times> string \<Rightarrow> 'r list result" where
  "get_stack ly pa = (case dget ly pa of None \<Rightarrow> Inl AttributeError | Some full \<Rightarrow> Inr full)"

definition slice_layer :: "int list \<Rightarrow> 'r layer_stacks \<Rightarrow> 'r layer_stacks" where
  "slice_layer ids ly =
     fold (\<lambda>pa ly. case dget ly pa of None \<Rightarrow> ly | Some full \<Rightarrow> dput pa (take_rows ids full) ly)
       PROJ_ATTR_ORDER ly"

text \<open>The part of \<^verbatim>\<open>load_model_partial\<close> after the model has been loaded: the full layers are
  a parameter.\<close>

definition load_model_partial :: "'r layer_stacks list \<Rightarrow> (int, int list) dict \<Rightarrow> 'r LoadedModel result" where
  "load_model_partial full_layers held_experts_per_layer =
     ebind (efold (\<lambda>(layer_idx, ids) ls.
                     if ids = [] then Inr ls
                     else ebind (py_pos ls layer_idx) (\<lambda>n. Inr (ls[n := slice_layer ids (ls ! n)])))
              held_experts_per_layer full_layers)
       (\<lambda>ls. Inr \<lparr>lm_layers = ls, lm_held_ids_per_layer = held_experts_per_layer\<rparr>)"

definition slice_expert :: "'r LoadedModel \<Rightarrow> int \<Rightarrow> int \<Rightarrow> 'r list result" where
  "slice_expert lm layer_idx expert_id =
     (case dget (lm_held_ids_per_layer lm) layer_idx of
        None \<Rightarrow> Inl KeyError
      | Some held \<Rightarrow>
          if expert_id \<notin> set held then Inl KeyError
          else let local_slot = position expert_id held in
               ebind (py_index (lm_layers lm) layer_idx) (\<lambda>ly.
                 emap (\<lambda>pa. ebind (get_stack ly pa) (\<lambda>full. Inr (full ! local_slot))) PROJ_ATTR_ORDER))"

definition attach_expert :: "'r LoadedModel \<Rightarrow> int \<Rightarrow> int \<Rightarrow> 'r list \<Rightarrow> 'r LoadedModel result" where
  "attach_expert lm layer_idx expert_id tensors =
     (if length tensors \<noteq> 9 then Inl ValueError
      else
        let held_before = dget_default (lm_held_ids_per_layer lm) layer_idx [] in
        if expert_id \<in> set held_before then Inl ValueError
        else ebind (py_pos (lm_layers lm) layer_idx) (\<lambda>n.
             ebind (efold (\<lambda>(pa, incoming) ly.
                             ebind (get_stack ly pa) (\<lambda>current. Inr (dput pa (current @ [incoming]) ly)))
                      (zip PROJ_ATTR_ORDER tensors) (lm_layers lm ! n)) (\<lambda>ly'.
               Inr \<lparr>lm_layers = (lm_layers lm)[n := ly'],
                    lm_held_ids_per_layer =
                      dput layer_idx (held_before @ [expert_id]) (lm_held_ids_per_layer lm)\<rparr>)))"

definition detach_expert :: "'r LoadedModel \<Rightarrow> int \<Rightarrow> int \<Rightarrow> 'r LoadedModel result" where
  "detach_expert lm layer_idx expert_id =
     (case dget (lm_held_ids_per_layer lm) layer_idx of
        None \<Rightarrow> Inl KeyError
      | Some held \<Rightarrow>
          if expert_id \<notin> set held then Inl KeyError
          else
            let surviving_slots = filter (\<lambda>i. held ! i \<noteq> expert_id) [0..<length held] in
            ebind (py_pos (lm_layers lm) layer_idx) (\<lambda>n.
            ebind (efold (\<lambda>pa ly. ebind (get_stack ly pa) (\<lambda>current.
                                   Inr (dput pa (take_rows (map int surviving_slots) current) ly)))
                     PROJ_ATTR_ORDER (lm_layers lm ! n)) (\<lambda>ly'.
              Inr \<lparr>lm_layers = (lm_layers lm)[n := ly'],
                   lm_held_ids_per_layer =
                     dput layer_idx (filter (\<lambda>e. e \<noteq> expert_id) held) (lm_held_ids_per_layer lm)\<rparr>)))"

section \<open>PyTorch: full stacks\<close>

record 'r ExpertStacks =
  gate_up_proj :: "'r list"
  down_proj :: "'r list"

type_synonym 'r pt_model = "'r ExpertStacks list"

definition pt_slice_expert :: "'r pt_model \<Rightarrow> int \<Rightarrow> int \<Rightarrow> 'r list result" where
  "pt_slice_expert model layer_idx expert_id =
     ebind (py_index model layer_idx) (\<lambda>e.
     ebind (py_index (gate_up_proj e) expert_id) (\<lambda>g.
     ebind (py_index (down_proj e) expert_id) (\<lambda>d. Inr [g, d])))"

definition pt_attach_expert :: "('r \<Rightarrow> nat list) \<Rightarrow> ('r \<Rightarrow> 'r) \<Rightarrow> 'r pt_model \<Rightarrow> int \<Rightarrow> int \<Rightarrow> 'r list \<Rightarrow>
    'r pt_model result" where
  "pt_attach_expert shape to_dtype model layer_idx expert_id tensors =
     (case tensors of
        [gate_up, down] \<Rightarrow>
          ebind (py_pos model layer_idx) (\<lambda>n. let e = model ! n in
          ebind (py_pos (gate_up_proj e) expert_id) (\<lambda>i.
          ebind (py_pos (down_proj e) expert_id) (\<lambda>j.
            if shape gate_up \<noteq> shape (gate_up_proj e ! i) then Inl ValueError
            else if shape down \<noteq> shape (down_proj e ! j) then Inl ValueError
            else Inr (model[n := e\<lparr>gate_up_proj := (gate_up_proj e)[i := to_dtype gate_up],
                                   down_proj := (down_proj e)[j := to_dtype down]\<rparr>]))))
      | _ \<Rightarrow> Inl ValueError)"

definition pt_detach_expert :: "('r \<Rightarrow> 'r) \<Rightarrow> 'r pt_model \<Rightarrow> int \<Rightarrow> int \<Rightarrow> 'r pt_model result" where
  "pt_detach_expert zeros_like model layer_idx expert_id =
     ebind (py_pos model layer_idx) (\<lambda>n. let e = model ! n in
     ebind (py_pos (gate_up_proj e) expert_id) (\<lambda>i.
     ebind (py_pos (down_proj e) expert_id) (\<lambda>j.
       Inr (model[n := e\<lparr>gate_up_proj := (gate_up_proj e)[i := zeros_like (gate_up_proj e ! i)],
                         down_proj := (down_proj e)[j := zeros_like (down_proj e ! j)]\<rparr>]))))"

section \<open>The contract\<close>

type_synonym expert_key = "int \<times> int"

locale expert_backend =
  fixes ok :: "'s \<Rightarrow> bool"
    and tracks :: "'s \<Rightarrow> expert_key \<Rightarrow> bool"
    and valid :: "expert_key \<Rightarrow> bool"
    and norm :: "'r list \<Rightarrow> 'r list"
    and slice :: "'s \<Rightarrow> expert_key \<Rightarrow> 'r list result"
    and attach :: "'s \<Rightarrow> expert_key \<Rightarrow> 'r list \<Rightarrow> 's result"
    and detach :: "'s \<Rightarrow> expert_key \<Rightarrow> 's result"
  assumes attach_law: "ok s \<Longrightarrow> valid k \<Longrightarrow> tracks s k \<Longrightarrow> attach s k ts = Inr s' \<Longrightarrow> ok s' \<and> slice s' k = Inr (norm ts)"
    and attach_frame: "ok s \<Longrightarrow> valid k \<Longrightarrow> tracks s k \<Longrightarrow> valid j \<Longrightarrow> j \<noteq> k \<Longrightarrow> attach s k ts = Inr s' \<Longrightarrow>
      slice s' j = slice s j"
    and detach_law: "ok s \<Longrightarrow> valid k \<Longrightarrow> detach s k = Inr s' \<Longrightarrow> ok s'"
    and detach_frame: "ok s \<Longrightarrow> valid k \<Longrightarrow> valid j \<Longrightarrow> j \<noteq> k \<Longrightarrow> detach s k = Inr s' \<Longrightarrow> slice s' j = slice s j"
begin

text \<open>Moving an expert: pull its rows from one node, attach them on another, evict the original.\<close>

lemma move_expert:
  assumes "ok a" and "ok b" and "valid k" and "tracks b k" and "slice a k = Inr ts"
    and "attach b k ts = Inr b'" and "detach a k = Inr a'"
  shows "ok a' \<and> ok b' \<and> slice b' k = Inr (norm ts) \<and>
    (\<forall>j. valid j \<longrightarrow> j \<noteq> k \<longrightarrow> slice b' j = slice b j \<and> slice a' j = slice a j)"
  using assms attach_law attach_frame detach_law detach_frame by metis

end


section \<open>MLX satisfies the contract\<close>

definition lm_ok :: "'r LoadedModel \<Rightarrow> bool" where
  "lm_ok lm \<longleftrightarrow> (\<forall>l held. dget (lm_held_ids_per_layer lm) l = Some held \<longrightarrow>
     0 \<le> l \<and> l < int (length (lm_layers lm)) \<and> distinct held \<and>
     (\<forall>pa \<in> set PROJ_ATTR_ORDER. \<exists>full. dget (lm_layers lm ! nat l) pa = Some full \<and> length full = length held))"

definition lm_tracks :: "'r LoadedModel \<Rightarrow> expert_key \<Rightarrow> bool" where
  "lm_tracks lm k \<longleftrightarrow> fst k \<in> set (dkeys (lm_held_ids_per_layer lm))"

definition key_valid :: "expert_key \<Rightarrow> bool" where
  "key_valid k \<longleftrightarrow> 0 \<le> fst k \<and> 0 \<le> snd k"

declare map_of_eq_Some_iff [simp del] Some_eq_map_of_iff [simp del]

lemma distinct_PROJ: "distinct PROJ_ATTR_ORDER" "length PROJ_ATTR_ORDER = 9"
  by (simp_all add: PROJ_ATTR_ORDER_def)

lemma efold_stacks:
  assumes "distinct (map key qs)" and "\<And>q. q \<in> set qs \<Longrightarrow> \<exists>full. dget ly (key q) = Some full"
  shows "\<exists>ly'. efold (\<lambda>q ly. ebind (get_stack ly (key q)) (\<lambda>c. Inr (dput (key q) (f q c) ly))) qs ly = Inr ly' \<and>
    (\<forall>q \<in> set qs. dget ly' (key q) = map_option (f q) (dget ly (key q))) \<and>
    (\<forall>pa. pa \<notin> key ` set qs \<longrightarrow> dget ly' pa = dget ly pa)"
  using assms
proof (induction qs arbitrary: ly)
  case (Cons q qs)
  from Cons.prems(2) [of q] obtain full where full: "dget ly (key q) = Some full" by auto
  let ?ly = "dput (key q) (f q full) ly"
  have ne: "key r \<noteq> key q" if "r \<in> set qs" for r using Cons.prems(1) that by (metis distinct.simps(2) image_eqI list.set_map list.simps(9))
  have "\<exists>ly'. efold (\<lambda>q ly. ebind (get_stack ly (key q)) (\<lambda>c. Inr (dput (key q) (f q c) ly))) qs ?ly = Inr ly' \<and>
    (\<forall>q \<in> set qs. dget ly' (key q) = map_option (f q) (dget ?ly (key q))) \<and>
    (\<forall>pa. pa \<notin> key ` set qs \<longrightarrow> dget ly' pa = dget ?ly pa)"
    using Cons.prems ne by (intro Cons.IH) auto
  then obtain ly' where ly': "efold (\<lambda>q ly. ebind (get_stack ly (key q)) (\<lambda>c. Inr (dput (key q) (f q c) ly))) qs ?ly = Inr ly'"
    "\<forall>q \<in> set qs. dget ly' (key q) = map_option (f q) (dget ?ly (key q))"
    "\<forall>pa. pa \<notin> key ` set qs \<longrightarrow> dget ly' pa = dget ?ly pa" by blast
  have nq: "key q \<notin> key ` set qs" using Cons.prems(1) by auto
  have run: "efold (\<lambda>q ly. ebind (get_stack ly (key q)) (\<lambda>c. Inr (dput (key q) (f q c) ly))) (q # qs) ly = Inr ly'"
    using full ly'(1) by (simp add: get_stack_def)
  have "dget ly' (key r) = map_option (f r) (dget ly (key r))" if "r \<in> set (q # qs)" for r
  proof (cases "r = q")
    case True
    with ly'(3) [rule_format, OF nq] full show ?thesis by simp
  next
    case False
    with that have "r \<in> set qs" by simp
    with ly'(2) ne [OF this] show ?thesis by simp
  qed
  moreover have "dget ly' pa = dget ly pa" if "pa \<notin> key ` set (q # qs)" for pa
    using that ly'(3) [rule_format, of pa] by simp
  ultimately show ?case using run by blast
qed simp

text \<open>The rows of a held expert.\<close>

definition rows_at :: "'r layer_stacks \<Rightarrow> nat \<Rightarrow> 'r list" where
  "rows_at ly i = map (\<lambda>pa. the (dget ly pa) ! i) PROJ_ATTR_ORDER"

lemma lm_okD:
  assumes "lm_ok lm" and "dget (lm_held_ids_per_layer lm) l = Some held"
  shows "0 \<le> l" "l < int (length (lm_layers lm))" "distinct held"
    "pa \<in> set PROJ_ATTR_ORDER \<Longrightarrow> \<exists>full. dget (lm_layers lm ! nat l) pa = Some full \<and> length full = length held"
    "py_pos (lm_layers lm) l = Inr (nat l)"
proof -
  from assms show 1: "0 \<le> l" "l < int (length (lm_layers lm))" "distinct held"
    unfolding lm_ok_def by blast+
  from assms show "pa \<in> set PROJ_ATTR_ORDER \<Longrightarrow>
      \<exists>full. dget (lm_layers lm ! nat l) pa = Some full \<and> length full = length held"
    unfolding lm_ok_def by blast
  from 1(1,2) show "py_pos (lm_layers lm) l = Inr (nat l)" by (simp add: py_pos_def)
qed

lemma slice_expert_eq:
  assumes "lm_ok lm"
  shows "slice_expert lm l e = (case dget (lm_held_ids_per_layer lm) l of None \<Rightarrow> Inl KeyError
    | Some held \<Rightarrow> if e \<in> set held then Inr (rows_at (lm_layers lm ! nat l) (position e held)) else Inl KeyError)"
proof (cases "dget (lm_held_ids_per_layer lm) l")
  case (Some held)
  have "emap (\<lambda>pa. ebind (get_stack (lm_layers lm ! nat l) pa) (\<lambda>full. Inr (full ! i))) PROJ_ATTR_ORDER =
      Inr (rows_at (lm_layers lm ! nat l) i)" for i
    unfolding rows_at_def using lm_okD(4) [OF assms Some] by (intro emap_all) (fastforce simp: get_stack_def)
  with Some lm_okD(5) [OF assms Some] show ?thesis by (simp add: slice_expert_def py_index_def Let_def)
qed (simp add: slice_expert_def)

lemma attach_expert_eq:
  assumes ok: "lm_ok lm" and held: "dget (lm_held_ids_per_layer lm) l = Some held"
    and at: "attach_expert lm l e ts = Inr lm'"
  shows "e \<notin> set held \<and> length ts = 9 \<and> lm_held_ids_per_layer lm' = dput l (held @ [e]) (lm_held_ids_per_layer lm) \<and>
    (\<exists>ly'. lm_layers lm' = (lm_layers lm)[nat l := ly'] \<and>
      (\<forall>i < 9. dget ly' (PROJ_ATTR_ORDER ! i) =
         map_option (\<lambda>full. full @ [ts ! i]) (dget (lm_layers lm ! nat l) (PROJ_ATTR_ORDER ! i))))"
proof -
  from at have pre: "length ts = 9" "e \<notin> set held"
    using held by (auto simp: attach_expert_def Let_def dget_default_def split: if_splits)
  let ?qs = "zip PROJ_ATTR_ORDER ts"
  have dq: "distinct (map fst ?qs)" using pre(1) by (simp add: distinct_PROJ)
  have fq: "\<exists>full. dget (lm_layers lm ! nat l) (fst q) = Some full" if "q \<in> set ?qs" for q
    using that lm_okD(4) [OF ok held, of "fst q"] by (metis prod.collapse set_zip_leftD)
  from efold_stacks [OF dq fq, where f = "\<lambda>q c. c @ [snd q]"] obtain ly' where ly': "efold (\<lambda>q ly. ebind (get_stack ly (fst q)) (\<lambda>c. Inr (dput (fst q) (c @ [snd q]) ly)))
      ?qs (lm_layers lm ! nat l) = Inr ly'"
    "\<forall>q \<in> set ?qs. dget ly' (fst q) = map_option (\<lambda>c. c @ [snd q]) (dget (lm_layers lm ! nat l) (fst q))"
    by blast
  have "attach_expert lm l e ts = Inr \<lparr>lm_layers = (lm_layers lm)[nat l := ly'],
      lm_held_ids_per_layer = dput l (held @ [e]) (lm_held_ids_per_layer lm)\<rparr>"
    unfolding attach_expert_def Let_def case_prod_beta dget_default_Some [OF held] lm_okD(5) [OF ok held] ebind_Inr ly'(1)
    using pre by simp
  with at have "lm_layers lm' = (lm_layers lm)[nat l := ly']"
    "lm_held_ids_per_layer lm' = dput l (held @ [e]) (lm_held_ids_per_layer lm)" by auto
  moreover have "\<forall>i < 9. dget ly' (PROJ_ATTR_ORDER ! i) =
      map_option (\<lambda>full. full @ [ts ! i]) (dget (lm_layers lm ! nat l) (PROJ_ATTR_ORDER ! i))"
    using ly'(2) pre(1) distinct_PROJ(2) by (metis fst_conv in_set_zip snd_conv)
  ultimately show ?thesis using pre by blast
qed


lemma detach_expert_eq:
  assumes ok: "lm_ok lm" and de: "detach_expert lm l e = Inr lm'"
  shows "\<exists>held ly'. dget (lm_held_ids_per_layer lm) l = Some held \<and> e \<in> set held \<and>
    lm_held_ids_per_layer lm' = dput l (filter (\<lambda>x. x \<noteq> e) held) (lm_held_ids_per_layer lm) \<and>
    lm_layers lm' = (lm_layers lm)[nat l := ly'] \<and>
    (\<forall>pa \<in> set PROJ_ATTR_ORDER. dget ly' pa = map_option
       (\<lambda>full. map (nth full) (filter (\<lambda>i. held ! i \<noteq> e) [0..<length held])) (dget (lm_layers lm ! nat l) pa))"
proof -
  from de obtain held where held: "dget (lm_held_ids_per_layer lm) l = Some held" "e \<in> set held"
    by (auto simp: detach_expert_def split: option.splits if_splits)
  let ?sl = "map int (filter (\<lambda>i. held ! i \<noteq> e) [0..<length held])"
  have dq: "distinct (map (\<lambda>pa. pa) PROJ_ATTR_ORDER)" by (simp add: distinct_PROJ)
  have fq: "\<exists>full. dget (lm_layers lm ! nat l) pa = Some full" if "pa \<in> set PROJ_ATTR_ORDER" for pa
    using lm_okD(4) [OF ok held(1) that] by blast
  from efold_stacks [OF dq fq, where f = "\<lambda>_ c. take_rows ?sl c"] obtain ly' where ly': "efold (\<lambda>pa ly. ebind (get_stack ly pa) (\<lambda>c. Inr (dput pa (take_rows ?sl c) ly)))
      PROJ_ATTR_ORDER (lm_layers lm ! nat l) = Inr ly'"
    "\<forall>pa \<in> set PROJ_ATTR_ORDER. dget ly' pa = map_option (take_rows ?sl) (dget (lm_layers lm ! nat l) pa)"
    by blast
  have "detach_expert lm l e = Inr \<lparr>lm_layers = (lm_layers lm)[nat l := ly'],
      lm_held_ids_per_layer = dput l (filter (\<lambda>x. x \<noteq> e) held) (lm_held_ids_per_layer lm)\<rparr>"
    unfolding detach_expert_def held(1) option.case Let_def lm_okD(5) [OF ok held(1)] ebind_Inr ly'(1)
    using held(2) by simp
  with de have "lm_layers lm' = (lm_layers lm)[nat l := ly']"
    "lm_held_ids_per_layer lm' = dput l (filter (\<lambda>x. x \<noteq> e) held) (lm_held_ids_per_layer lm)" by auto
  moreover have tr: "take_rows ?sl = (\<lambda>full. map (nth full) (filter (\<lambda>i. held ! i \<noteq> e) [0..<length held]))"
    by (simp add: take_rows_def fun_eq_iff)
  note ly'(2) [unfolded tr]
  ultimately show ?thesis using held by (intro exI [of _ held] exI [of _ ly']) blast
qed

lemma attach_total:
  assumes ok: "lm_ok lm" and held: "dget (lm_held_ids_per_layer lm) l = Some held"
    and "e \<notin> set held" and "length ts = 9"
  shows "\<exists>lm'. attach_expert lm l e ts = Inr lm' \<and>
    lm_held_ids_per_layer lm' = dput l (held @ [e]) (lm_held_ids_per_layer lm)"
proof -
  let ?qs = "zip PROJ_ATTR_ORDER ts"
  have dq: "distinct (map fst ?qs)" using assms(4) by (simp add: distinct_PROJ)
  have fq: "\<exists>full. dget (lm_layers lm ! nat l) (fst q) = Some full" if "q \<in> set ?qs" for q
    using that lm_okD(4) [OF ok held, of "fst q"] by (metis prod.collapse set_zip_leftD)
  from efold_stacks [OF dq fq, where f = "\<lambda>q c. c @ [snd q]"] obtain ly' where
    "efold (\<lambda>q ly. ebind (get_stack ly (fst q)) (\<lambda>c. Inr (dput (fst q) (c @ [snd q]) ly)))
      ?qs (lm_layers lm ! nat l) = Inr ly'" by blast
  then show ?thesis
    unfolding attach_expert_def Let_def case_prod_beta dget_default_Some [OF held] lm_okD(5) [OF ok held] ebind_Inr
    using assms(3,4) by simp
qed

lemma detach_total:
  assumes ok: "lm_ok lm" and held: "dget (lm_held_ids_per_layer lm) l = Some held" and "e \<in> set held"
  shows "\<exists>lm'. detach_expert lm l e = Inr lm'"
proof -
  let ?sl = "map int (filter (\<lambda>i. held ! i \<noteq> e) [0..<length held])"
  have dq: "distinct (map (\<lambda>pa. pa) PROJ_ATTR_ORDER)" by (simp add: distinct_PROJ)
  have fq: "\<exists>full. dget (lm_layers lm ! nat l) pa = Some full" if "pa \<in> set PROJ_ATTR_ORDER" for pa
    using lm_okD(4) [OF ok held that] by blast
  from efold_stacks [OF dq fq, where f = "\<lambda>_ c. take_rows ?sl c"] obtain ly' where
    "efold (\<lambda>pa ly. ebind (get_stack ly pa) (\<lambda>c. Inr (dput pa (take_rows ?sl c) ly)))
      PROJ_ATTR_ORDER (lm_layers lm ! nat l) = Inr ly'" by blast
  then show ?thesis
    unfolding detach_expert_def held option.case Let_def lm_okD(5) [OF ok held] ebind_Inr
    using assms(3) by simp
qed

lemma rows_at_cong: "(\<And>pa. pa \<in> set PROJ_ATTR_ORDER \<Longrightarrow> the (dget ly pa) ! i = the (dget ly' pa) ! j) \<Longrightarrow>
    rows_at ly i = rows_at ly' j"
  by (simp add: rows_at_def)

lemma lm_ok_update:
  assumes ok: "lm_ok lm" and held: "dget (lm_held_ids_per_layer lm) l = Some held"
    and "lm_held_ids_per_layer lm' = dput l held' (lm_held_ids_per_layer lm)"
    and "lm_layers lm' = (lm_layers lm)[nat l := ly']" and "distinct held'"
    and "\<And>pa. pa \<in> set PROJ_ATTR_ORDER \<Longrightarrow> \<exists>full. dget ly' pa = Some full \<and> length full = length held'"
  shows "lm_ok lm'" and "m \<noteq> l \<Longrightarrow> slice_expert lm' m e = slice_expert lm m e"
proof -
  have nl: "nat l < length (lm_layers lm)" using lm_okD(1,2) [OF ok held] by simp
  have other: "lm_layers lm' ! nat m = lm_layers lm ! nat m" if "m \<noteq> l" "dget (lm_held_ids_per_layer lm) m = Some h" for m h
    using that lm_okD(1) [OF ok that(2)] lm_okD(1) [OF ok held] assms(4) by simp
  show ok': "lm_ok lm'"
    unfolding lm_ok_def
  proof (intro allI impI)
    fix m h assume h: "dget (lm_held_ids_per_layer lm') m = Some h"
    show "0 \<le> m \<and> m < int (length (lm_layers lm')) \<and> distinct h \<and>
      (\<forall>pa \<in> set PROJ_ATTR_ORDER. \<exists>full. dget (lm_layers lm' ! nat m) pa = Some full \<and> length full = length h)"
    proof (cases "m = l")
      case True
      with h assms(3-6) lm_okD(1,2) [OF ok held] nl show ?thesis by simp
    next
      case False
      with h assms(3) have "dget (lm_held_ids_per_layer lm) m = Some h" by simp
      with other [OF False this] lm_okD(1-4) [OF ok this] assms(4) show ?thesis by simp
    qed
  qed
  show "slice_expert lm' m e = slice_expert lm m e" if "m \<noteq> l"
    using other [OF that] assms(3) that
    by (simp add: slice_expert_eq [OF ok] slice_expert_eq [OF ok'] split: option.split)
qed

lemma mlx_attach_laws:
  assumes ok: "lm_ok lm" and tr: "lm_tracks lm (l, e)" and at: "attach_expert lm l e ts = Inr lm'"
  shows "lm_ok lm' \<and> slice_expert lm' l e = Inr ts" and "(m, x) \<noteq> (l, e) \<Longrightarrow> slice_expert lm' m x = slice_expert lm m x"
proof -
  from tr obtain held where held: "dget (lm_held_ids_per_layer lm) l = Some held"
    using dkey_get [of l "lm_held_ids_per_layer lm"] by (auto simp: lm_tracks_def)
  from attach_expert_eq [OF ok held at] obtain ly' where
    e: "e \<notin> set held" "length ts = 9" and h': "lm_held_ids_per_layer lm' = dput l (held @ [e]) (lm_held_ids_per_layer lm)"
    and l': "lm_layers lm' = (lm_layers lm)[nat l := ly']"
    and ly': "\<And>i. i < 9 \<Longrightarrow> dget ly' (PROJ_ATTR_ORDER ! i) =
         map_option (\<lambda>full. full @ [ts ! i]) (dget (lm_layers lm ! nat l) (PROJ_ATTR_ORDER ! i))" by blast
  have st: "\<exists>full. dget (lm_layers lm ! nat l) (PROJ_ATTR_ORDER ! i) = Some full \<and> length full = length held \<and>
      dget ly' (PROJ_ATTR_ORDER ! i) = Some (full @ [ts ! i])" if "i < 9" for i
    using lm_okD(4) [OF ok held, of "PROJ_ATTR_ORDER ! i"] ly' [OF that] that distinct_PROJ(2) by fastforce
  have pos: "\<exists>i < 9. pa = PROJ_ATTR_ORDER ! i" if "pa \<in> set PROJ_ATTR_ORDER" for pa
    using that distinct_PROJ(2) by (metis in_set_conv_nth)
  have d: "distinct (held @ [e])" using e(1) lm_okD(3) [OF ok held] by simp
  have full': "\<exists>full. dget ly' pa = Some full \<and> length full = length (held @ [e])" if "pa \<in> set PROJ_ATTR_ORDER" for pa
    using pos [OF that] st by fastforce
  note up = lm_ok_update [OF ok held h' l' d full']
  have nl: "nat l < length (lm_layers lm)" using lm_okD(1,2) [OF ok held] by simp
  have "rows_at ly' (length held) = ts"
  proof (rule nth_equalityI)
    fix i assume "i < length (rows_at ly' (length held))"
    then have "i < 9" by (simp add: rows_at_def distinct_PROJ)
    from st [OF this] this show "rows_at ly' (length held) ! i = ts ! i"
      by (auto simp: rows_at_def distinct_PROJ(2) nth_append)
  qed (simp add: rows_at_def distinct_PROJ e(2))
  with up(1) show "lm_ok lm' \<and> slice_expert lm' l e = Inr ts"
    using nl e(1) by (simp add: slice_expert_eq h' l' position_append_new)
  assume ne: "(m, x) \<noteq> (l, e)"
  show "slice_expert lm' m x = slice_expert lm m x"
  proof (cases "m = l")
    case True
    with ne have "x \<noteq> e" by simp
    moreover have "rows_at ly' (position x held) = rows_at (lm_layers lm ! nat l) (position x held)" if "x \<in> set held"
    proof (rule rows_at_cong)
      fix pa assume "pa \<in> set PROJ_ATTR_ORDER"
      with pos st obtain full t where "dget (lm_layers lm ! nat l) pa = Some full" "length full = length held"
        "dget ly' pa = Some (full @ [t])" by blast
      then show "the (dget ly' pa) ! position x held = the (dget (lm_layers lm ! nat l) pa) ! position x held"
        using position_less [OF that] by (simp add: nth_append)
    qed
    ultimately show ?thesis
      using True nl by (auto simp: slice_expert_eq [OF ok] slice_expert_eq [OF up(1)] h' l' held position_append)
  qed (rule up(2))
qed


lemma mlx_detach_laws:
  assumes ok: "lm_ok lm" and de: "detach_expert lm l e = Inr lm'"
  shows "lm_ok lm'" and "(m, x) \<noteq> (l, e) \<Longrightarrow> slice_expert lm' m x = slice_expert lm m x"
    and "slice_expert lm' l e = Inl KeyError"
proof -
  from detach_expert_eq [OF assms] obtain held ly' where
    held: "dget (lm_held_ids_per_layer lm) l = Some held" "e \<in> set held"
    and h': "lm_held_ids_per_layer lm' = dput l (filter (\<lambda>x. x \<noteq> e) held) (lm_held_ids_per_layer lm)"
    and l': "lm_layers lm' = (lm_layers lm)[nat l := ly']"
    and ly': "\<And>pa. pa \<in> set PROJ_ATTR_ORDER \<Longrightarrow> dget ly' pa = map_option
       (\<lambda>full. map (nth full) (filter (\<lambda>i. held ! i \<noteq> e) [0..<length held])) (dget (lm_layers lm ! nat l) pa)"
    by blast
  have d: "distinct held" by (rule lm_okD(3) [OF ok held(1)])
  have len: "length (filter (\<lambda>x. x \<noteq> e) held) = length (filter (\<lambda>i. held ! i \<noteq> e) [0..<length held])"
    using length_filter_map [of "\<lambda>x. x \<noteq> e" "nth held" "[0..<length held]"] by (simp add: map_nth comp_def)
  have full': "\<exists>full. dget ly' pa = Some full \<and> length full = length (filter (\<lambda>x. x \<noteq> e) held)"
    if "pa \<in> set PROJ_ATTR_ORDER" for pa
    using lm_okD(4) [OF ok held(1) that] ly' [OF that] len by auto
  note up = lm_ok_update [OF ok held(1) h' l' distinct_filter [OF d] full']
  show "lm_ok lm'" by (rule up(1))
  have nl: "nat l < length (lm_layers lm)" using lm_okD(1,2) [OF ok held(1)] by simp
  show "slice_expert lm' l e = Inl KeyError" by (simp add: slice_expert_eq [OF up(1)] h')
  assume ne: "(m, x) \<noteq> (l, e)"
  show "slice_expert lm' m x = slice_expert lm m x"
  proof (cases "m = l")
    case True
    with ne have xe: "x \<noteq> e" by simp
    have "rows_at ly' (position x (filter (\<lambda>x. x \<noteq> e) held)) = rows_at (lm_layers lm ! nat l) (position x held)"
      if "x \<in> set held"
    proof (rule rows_at_cong)
      fix pa assume pa: "pa \<in> set PROJ_ATTR_ORDER"
      with lm_okD(4) [OF ok held(1) pa] obtain full where "dget (lm_layers lm ! nat l) pa = Some full" by blast
      with ly' [OF pa] nth_position_filter [OF that, of "\<lambda>x. x \<noteq> e" full] xe d
      show "the (dget ly' pa) ! position x (filter (\<lambda>x. x \<noteq> e) held) =
        the (dget (lm_layers lm ! nat l) pa) ! position x held" by simp
    qed
    then show ?thesis
      using True xe nl by (simp add: slice_expert_eq [OF ok] slice_expert_eq [OF up(1)] h' l' held(1))
  qed (rule up(2))
qed

interpretation mlx_store: expert_backend lm_ok lm_tracks key_valid "\<lambda>ts. ts" "\<lambda>lm k. slice_expert lm (fst k) (snd k)"
    "\<lambda>lm k. attach_expert lm (fst k) (snd k)" "\<lambda>lm k. detach_expert lm (fst k) (snd k)"
proof unfold_locales
  fix s s' :: "'a LoadedModel" and k j :: expert_key and ts :: "'a list"
  assume s: "lm_ok s"
  { assume "lm_tracks s k" and at: "attach_expert s (fst k) (snd k) ts = Inr s'"
    then have tr: "lm_tracks s (fst k, snd k)" by simp
    show "lm_ok s' \<and> slice_expert s' (fst k) (snd k) = Inr ts" by (rule mlx_attach_laws(1) [OF s tr at])
    show "slice_expert s' (fst j) (snd j) = slice_expert s (fst j) (snd j)" if "j \<noteq> k"
      using that by (intro mlx_attach_laws(2) [OF s tr at]) (simp add: prod_eq_iff) }
  { assume de: "detach_expert s (fst k) (snd k) = Inr s'"
    show "lm_ok s'" by (rule mlx_detach_laws(1) [OF s de])
    show "slice_expert s' (fst j) (snd j) = slice_expert s (fst j) (snd j)" if "j \<noteq> k"
      using that by (intro mlx_detach_laws(2) [OF s de]) (simp add: prod_eq_iff) }
qed

section \<open>PyTorch satisfies the contract\<close>

lemma py_pos_update [simp]: "py_pos (xs[n := v]) i = py_pos xs i"
  by (simp add: py_pos_def)

lemma py_index_update: "py_pos xs i = Inr n \<Longrightarrow> 0 \<le> i \<Longrightarrow> 0 \<le> j \<Longrightarrow>
    py_index (xs[n := v]) j = (if j = i then Inr v else py_index xs j)"
  by (auto simp: py_index_def py_pos_def split: if_splits)

lemma py_index_eq: "py_pos xs i = Inr n \<Longrightarrow> py_index xs i = Inr (xs ! n)"
  by (simp add: py_index_def)

lemma pt_write:
  assumes "key_valid k" and "key_valid j" and n: "py_pos model (fst k) = Inr n"
    and i: "py_pos (gate_up_proj (model ! n)) (snd k) = Inr i" and d: "py_pos (down_proj (model ! n)) (snd k) = Inr d"
    and m': "model' = model[n := (model ! n)\<lparr>gate_up_proj := (gate_up_proj (model ! n))[i := g],
                         down_proj := (down_proj (model ! n))[d := w]\<rparr>]"
  shows "pt_slice_expert model' (fst j) (snd j) = (if j = k then Inr [g, w] else pt_slice_expert model (fst j) (snd j))"
proof -
  have nn: "0 \<le> fst k" "0 \<le> snd k" "0 \<le> fst j" "0 \<le> snd j" using assms(1,2) by (auto simp: key_valid_def)
  have idx: "py_index model (fst k) = Inr (model ! n)" by (rule py_index_eq [OF n])
  show ?thesis
    using nn idx unfolding pt_slice_expert_def m' py_index_update [OF n nn(1,3)]
    by (cases "fst j = fst k"; cases "snd j = snd k")
       (simp_all add: py_index_update [OF i] py_index_update [OF d] prod_eq_iff)
qed

lemma pt_attach_laws:
  assumes "key_valid k" and "key_valid j" and "pt_attach_expert shape conv model (fst k) (snd k) ts = Inr model'"
  shows "pt_slice_expert model' (fst j) (snd j) = (if j = k then Inr (map conv ts) else pt_slice_expert model (fst j) (snd j))"
proof -
  from assms(3) obtain g w n i d where ts: "ts = [g, w]" and n: "py_pos model (fst k) = Inr n"
    "py_pos (gate_up_proj (model ! n)) (snd k) = Inr i" "py_pos (down_proj (model ! n)) (snd k) = Inr d"
    "model' = model[n := (model ! n)\<lparr>gate_up_proj := (gate_up_proj (model ! n))[i := conv g],
                         down_proj := (down_proj (model ! n))[d := conv w]\<rparr>]"
    by (auto simp: pt_attach_expert_def exn_simps Let_def split: list.splits if_splits)
  from pt_write [OF assms(1,2) n] show ?thesis by (simp add: ts)
qed

lemma pt_detach_laws:
  assumes "key_valid k" and "key_valid j" and "pt_detach_expert z model (fst k) (snd k) = Inr model'" and "j \<noteq> k"
  shows "pt_slice_expert model' (fst j) (snd j) = pt_slice_expert model (fst j) (snd j)"
proof -
  from assms(3) obtain n i d g w where n: "py_pos model (fst k) = Inr n"
    "py_pos (gate_up_proj (model ! n)) (snd k) = Inr i" "py_pos (down_proj (model ! n)) (snd k) = Inr d"
    "model' = model[n := (model ! n)\<lparr>gate_up_proj := (gate_up_proj (model ! n))[i := g],
                         down_proj := (down_proj (model ! n))[d := w]\<rparr>]"
    by (auto simp: pt_detach_expert_def exn_simps Let_def)
  from pt_write [OF assms(1,2) n] assms(4) show ?thesis by simp
qed

interpretation pt_store: expert_backend "\<lambda>_. True" "\<lambda>_ _. True" key_valid "map conv" "\<lambda>m k. pt_slice_expert m (fst k) (snd k)"
    "\<lambda>m k. pt_attach_expert shape conv m (fst k) (snd k)" "\<lambda>m k. pt_detach_expert z m (fst k) (snd k)"
  for conv shape z
  using pt_attach_laws [where shape = shape and conv = conv] pt_detach_laws [where z = z]
  by unfold_locales simp_all

section \<open>Properties\<close>

text \<open>Hot swap of experts, MLX.  On a well-formed model, attaching an expert to a layer with a
  held list makes its nine tensors readable exactly as given and detaching makes it absent again;
  every other expert of every layer keeps its tensors and its identity, although the compact
  stacks shift.  Attaching an expert that is already held, or a wrong number of tensors, is
  refused.\<close>

theorem mlx_hot_swap:
  assumes "lm_ok lm" and "lm_tracks lm (l, e)" and "length ts = 9" and "slice_expert lm l e = Inl KeyError"
  shows "\<exists>lm' lm''. attach_expert lm l e ts = Inr lm' \<and> lm_ok lm' \<and> slice_expert lm' l e = Inr ts \<and>
    detach_expert lm' l e = Inr lm'' \<and> lm_ok lm'' \<and>
    (\<forall>m x. slice_expert lm'' m x = slice_expert lm m x) \<and>
    (\<forall>m x. (m, x) \<noteq> (l, e) \<longrightarrow> slice_expert lm' m x = slice_expert lm m x) \<and>
    attach_expert lm' l e ts = Inl ValueError"
proof -
  from assms(2) obtain held where held: "dget (lm_held_ids_per_layer lm) l = Some held"
    using dkey_get [of l "lm_held_ids_per_layer lm"] by (auto simp: lm_tracks_def)
  with assms(1,4) have ne: "e \<notin> set held" by (simp add: slice_expert_eq split: if_splits)
  from attach_total [OF assms(1) held ne assms(3)] obtain lm' where
    at: "attach_expert lm l e ts = Inr lm'" "lm_held_ids_per_layer lm' = dput l (held @ [e]) (lm_held_ids_per_layer lm)" by blast
  note a = mlx_attach_laws [OF assms(1,2) at(1)]
  have h': "dget (lm_held_ids_per_layer lm') l = Some (held @ [e])" using at(2) by simp
  from detach_total [OF _ h', of e] a(1) obtain lm'' where de: "detach_expert lm' l e = Inr lm''" by auto
  note d = mlx_detach_laws [OF _ de]
  have "slice_expert lm'' m x = slice_expert lm m x" for m x
    using a d assms(4) by (cases "(m, x) = (l, e)") auto
  moreover have "attach_expert lm' l e ts = Inl ValueError"
    using h' assms(3) by (simp add: attach_expert_def Let_def)
  ultimately show ?thesis using at(1) a de d by blast
qed

text \<open>Migration moves weights.  Pulling an expert's tensors from one node, attaching them on
  another and detaching the original leaves the target with exactly the source's tensors for that
  expert, the source without it, and every other expert of both nodes untouched.\<close>

theorem mlx_migration_moves_weights:
  assumes "lm_ok a" and "lm_ok b" and "0 \<le> l" and "0 \<le> e" and "lm_tracks b (l, e)"
    and "slice_expert a l e = Inr ts" and "attach_expert b l e ts = Inr b'" and "detach_expert a l e = Inr a'"
  shows "lm_ok a' \<and> lm_ok b' \<and> slice_expert b' l e = slice_expert a l e \<and> slice_expert a' l e = Inl KeyError \<and>
    (\<forall>m x. 0 \<le> m \<longrightarrow> 0 \<le> x \<longrightarrow> (m, x) \<noteq> (l, e) \<longrightarrow>
       slice_expert b' m x = slice_expert b m x \<and> slice_expert a' m x = slice_expert a m x)"
  using mlx_store.move_expert [of a b "(l, e)" ts b' a'] mlx_detach_laws(3) [OF assms(1,8)] assms
  by (simp add: key_valid_def)

text \<open>Hot swap of experts, PyTorch.  A write of two tensors of the slot's shapes is read back
  in the model's dtype, a detach leaves zeros, and no other slot of any layer changes.\<close>

theorem pt_hot_swap:
  assumes k: "0 \<le> l" "0 \<le> e" and s: "pt_slice_expert model l e = Inr [g, d]"
    and sh: "shape gate_up = shape g" "shape down = shape d"
  shows "\<exists>model' model''. pt_attach_expert shape to_dtype model l e [gate_up, down] = Inr model' \<and>
    pt_slice_expert model' l e = Inr [to_dtype gate_up, to_dtype down] \<and>
    pt_detach_expert zeros_like model' l e = Inr model'' \<and>
    pt_slice_expert model'' l e = Inr [zeros_like (to_dtype gate_up), zeros_like (to_dtype down)] \<and>
    (\<forall>m x. 0 \<le> m \<longrightarrow> 0 \<le> x \<longrightarrow> (m, x) \<noteq> (l, e) \<longrightarrow>
       pt_slice_expert model' m x = pt_slice_expert model m x \<and> pt_slice_expert model'' m x = pt_slice_expert model m x)"
proof -
  have v: "key_valid (l, e)" using k by (simp add: key_valid_def)
  from s obtain n i j where n: "py_pos model l = Inr n" "py_pos (gate_up_proj (model ! n)) e = Inr i"
    "py_pos (down_proj (model ! n)) e = Inr j" and g: "gate_up_proj (model ! n) ! i = g" "down_proj (model ! n) ! j = d"
    by (auto simp: pt_slice_expert_def py_index_def exn_simps)
  define m1 where "m1 = model[n := (model ! n)\<lparr>gate_up_proj := (gate_up_proj (model ! n))[i := to_dtype gate_up],
                         down_proj := (down_proj (model ! n))[j := to_dtype down]\<rparr>]"
  have at: "pt_attach_expert shape to_dtype model l e [gate_up, down] = Inr m1"
    using n g sh by (simp add: pt_attach_expert_def Let_def m1_def)
  have nl: "n < length model" and il: "i < length (gate_up_proj (model ! n))" "j < length (down_proj (model ! n))"
    using n by (auto dest: py_pos_less)
  have n1: "py_pos m1 l = Inr n" "py_pos (gate_up_proj (m1 ! n)) e = Inr i" "py_pos (down_proj (m1 ! n)) e = Inr j"
    "gate_up_proj (m1 ! n) ! i = to_dtype gate_up" "down_proj (m1 ! n) ! j = to_dtype down"
    using n nl il by (simp_all add: m1_def)
  define m2 where "m2 = m1[n := (m1 ! n)\<lparr>gate_up_proj := (gate_up_proj (m1 ! n))[i := zeros_like (to_dtype gate_up)],
                         down_proj := (down_proj (m1 ! n))[j := zeros_like (to_dtype down)]\<rparr>]"
  have de: "pt_detach_expert zeros_like m1 l e = Inr m2"
    using n1 by (simp add: pt_detach_expert_def Let_def m2_def)
  have w1: "pt_slice_expert m1 m x = (if (m, x) = (l, e) then Inr [to_dtype gate_up, to_dtype down]
      else pt_slice_expert model m x)" if "0 \<le> m" "0 \<le> x" for m x
    using pt_write [OF v, of "(m, x)" model n i j m1] n that m1_def by (simp add: key_valid_def)
  have w2: "pt_slice_expert m2 m x = (if (m, x) = (l, e) then Inr [zeros_like (to_dtype gate_up), zeros_like (to_dtype down)]
      else pt_slice_expert m1 m x)" if "0 \<le> m" "0 \<le> x" for m x
    using pt_write [OF v, of "(m, x)" m1 n i j m2] n1 that m2_def by (simp add: key_valid_def)
  show ?thesis
    using at de k by (intro exI [of _ m1] exI [of _ m2]) (simp add: w1 w2)
qed

text \<open>Attaching to a layer that holds all its experts misroutes.  On a layer without a held
  list, which means that all experts are resident, attach\_expert records the new expert as the only
  held one while its rows are appended behind the resident ones: reading it back gives the weights
  of expert 0.\<close>

theorem attach_full_layer_misroutes:
  assumes "0 \<le> l" and "l < int (length (lm_layers lm))" and "dget_default (lm_held_ids_per_layer lm) l [] = []"
    and full: "\<And>pa. pa \<in> set PROJ_ATTR_ORDER \<Longrightarrow> \<exists>row rows. dget (lm_layers lm ! nat l) pa = Some (row # rows)"
    and "length ts = 9"
  shows "\<exists>lm'. attach_expert lm l e ts = Inr lm' \<and> slice_expert lm' l e = Inr (rows_at (lm_layers lm ! nat l) 0)"
proof -
  let ?ly = "lm_layers lm ! nat l" and ?qs = "zip PROJ_ATTR_ORDER ts"
  have dq: "distinct (map fst ?qs)" and sq: "fst ` set ?qs = set PROJ_ATTR_ORDER"
    using assms(5) distinct_PROJ by (simp_all add: set_map [symmetric] del: set_map)
  have fq: "\<exists>f. dget ?ly (fst q) = Some f" if "q \<in> set ?qs" for q
    using that sq full [of "fst q"] by blast
  from efold_stacks [OF dq fq, where f = "\<lambda>q c. c @ [snd q]"] obtain ly' where ly':
    "efold (\<lambda>q ly. ebind (get_stack ly (fst q)) (\<lambda>c. Inr (dput (fst q) (c @ [snd q]) ly))) ?qs ?ly = Inr ly'"
    "\<forall>q \<in> set ?qs. dget ly' (fst q) = map_option (\<lambda>c. c @ [snd q]) (dget ?ly (fst q))" by blast
  have pos: "py_pos xs l = Inr (nat l)" if "length xs = length (lm_layers lm)" for xs :: "'a layer_stacks list"
    using assms(1,2) that by (simp add: py_pos_def)
  let ?lm = "\<lparr>lm_layers = (lm_layers lm)[nat l := ly'], lm_held_ids_per_layer = dput l [e] (lm_held_ids_per_layer lm)\<rparr>"
  have at: "attach_expert lm l e ts = Inr ?lm"
    unfolding attach_expert_def Let_def case_prod_beta assms(3) pos [OF refl] ebind_Inr ly'(1)
    using assms(5) by simp
  have "\<exists>row rows. dget ?ly pa = Some (row # rows) \<and> (\<exists>t. dget ly' pa = Some (row # rows @ [t]))"
    if "pa \<in> set PROJ_ATTR_ORDER" for pa
  proof -
    from that sq obtain q where "q \<in> set ?qs" "pa = fst q" by (metis imageE)
    with full [OF that] ly'(2) show ?thesis by fastforce
  qed
  then have "emap (\<lambda>pa. ebind (get_stack ly' pa) (\<lambda>f. Inr (f ! 0))) PROJ_ATTR_ORDER = Inr (rows_at ?ly 0)"
    unfolding rows_at_def by (intro emap_all) (fastforce simp: get_stack_def)
  then have "slice_expert ?lm l e = Inr (rows_at ?ly 0)"
    using assms(1,2) pos by (simp add: slice_expert_def Let_def py_index_def)
  with at show ?thesis by blast
qed

section \<open>Witnesses\<close>

definition demo_lm :: "nat LoadedModel" where
  "demo_lm = \<lparr>lm_layers = [map (\<lambda>pa. (pa, [10, 11, 12])) PROJ_ATTR_ORDER, map (\<lambda>pa. (pa, [20])) PROJ_ATTR_ORDER],
     lm_held_ids_per_layer = [(0, [4, 7, 9])]\<rparr>"

lemma demo_lm_ok: "lm_ok demo_lm"
  unfolding lm_ok_def by (auto simp: demo_lm_def PROJ_ATTR_ORDER_def split: if_splits)

theorem mlx_hot_swap_witness:
  "\<exists>lm' lm''. attach_expert demo_lm 0 5 [1, 2, 3, 4, 5, 6, 7, 8, 9] = Inr lm' \<and>
     slice_expert lm' 0 5 = Inr [1, 2, 3, 4, 5, 6, 7, 8, 9] \<and>
     detach_expert lm' 0 5 = Inr lm'' \<and> slice_expert lm'' 0 9 = slice_expert demo_lm 0 9"
proof -
  have "slice_expert demo_lm 0 5 = Inl KeyError" "lm_tracks demo_lm (0, 5)" by code_simp+
  from mlx_hot_swap [OF demo_lm_ok this(2) _ this(1), of "[1, 2, 3, 4, 5, 6, 7, 8, 9]"] show ?thesis by auto
qed

theorem mlx_migration_moves_weights_witness:
  "\<exists>a' b'. attach_expert \<lparr>lm_layers = [map (\<lambda>pa. (pa, [])) PROJ_ATTR_ORDER], lm_held_ids_per_layer = [(0, [])]\<rparr> 0 7
       (replicate 9 11) = Inr b' \<and> detach_expert demo_lm 0 7 = Inr a' \<and>
     slice_expert b' 0 7 = slice_expert demo_lm 0 7 \<and> slice_expert a' 0 9 = slice_expert demo_lm 0 9"
proof -
  let ?b = "\<lparr>lm_layers = [map (\<lambda>pa. (pa, [])) PROJ_ATTR_ORDER], lm_held_ids_per_layer = [(0, [])]\<rparr> :: nat LoadedModel"
  have b: "lm_ok ?b" unfolding lm_ok_def by (auto simp: PROJ_ATTR_ORDER_def split: if_splits)
  have s: "slice_expert demo_lm 0 7 = Inr (replicate 9 11)" "lm_tracks ?b (0, 7)"
    "returns (attach_expert ?b 0 7 (replicate 9 11))" "returns (detach_expert demo_lm 0 7)" by code_simp+
  then obtain a' b' where "attach_expert ?b 0 7 (replicate 9 11) = Inr b'" "detach_expert demo_lm 0 7 = Inr a'"
    by (auto simp: returns_iff)
  with mlx_migration_moves_weights [OF demo_lm_ok b _ _ s(2,1), of b' a'] show ?thesis by auto
qed

theorem pt_hot_swap_witness:
  "\<exists>model'. pt_attach_expert (\<lambda>r. [length r]) (map (\<lambda>x. x div 2 :: nat))
      [\<lparr>gate_up_proj = [[1, 2], [3, 4]], down_proj = [[5], [6]]\<rparr>] 0 1 [[8, 9], [7]] = Inr model' \<and>
    pt_slice_expert model' 0 1 = Inr [[4, 4], [3]] \<and>
    pt_slice_expert model' 0 0 = Inr [[1, 2], [5]]"
proof -
  let ?m = "[\<lparr>gate_up_proj = [[1, 2], [3, 4]], down_proj = [[5], [6]]\<rparr>] :: nat list pt_model"
  have s: "pt_slice_expert ?m 0 1 = Inr [[3, 4], [6]]" "pt_slice_expert ?m 0 0 = Inr [[1, 2], [5]]" by code_simp+
  show ?thesis
    using pt_hot_swap [OF _ _ s(1), of "\<lambda>r. [length r]" "[8, 9]" "[7]" "map (\<lambda>x. x div 2)" "\<lambda>r. r"] s(2) by fastforce
qed

theorem attach_full_layer_misroutes_witness:
  "\<exists>lm'. attach_expert demo_lm 1 5 (replicate 9 99) = Inr lm' \<and> slice_expert lm' 1 5 = Inr (replicate 9 20)"
proof -
  have "rows_at (lm_layers demo_lm ! nat 1) 0 = replicate 9 20" by code_simp
  moreover have "\<exists>row rows. dget (lm_layers demo_lm ! nat 1) pa = Some (row # rows)" if "pa \<in> set PROJ_ATTR_ORDER" for pa
    using that by (auto simp: demo_lm_def PROJ_ATTR_ORDER_def)
  ultimately show ?thesis
    using attach_full_layer_misroutes [of 1 demo_lm "replicate 9 99" 5]
    by (simp add: demo_lm_def dget_default_def)
qed

end
