(* ===== verification/Moe_Routing.thy ===== *)
theory Moe_Routing
  imports Partial_Load Py_Random "HOL-Library.Sublist"
begin

text \<open>
  \<^verbatim>\<open>moe.py\<close>: which node runs which expert, running the selected experts on a node, and
  the aggregation of their outputs.  A Python set whose iteration order matters is a list in that
  order.  Tensor arithmetic is a parameter: \<^verbatim>\<open>ffn rows x\<close> is what the expert with the nine
  weight rows \<^verbatim>\<open>rows\<close> computes on the normed hidden state \<^verbatim>\<open>x\<close>,
  \<^verbatim>\<open>ws j\<close> is the slice
  \<^verbatim>\<open>top_k_weights[..., j:j+1]\<close> of the router weights and \<^verbatim>\<open>mul\<close> scales by it,
  \<^verbatim>\<open>add\<close> is the tensor
  sum, \<^verbatim>\<open>ln\<close> a layer norm.
\<close>

declare map_of_eq_Some_iff [simp del] Some_eq_map_of_iff [simp del]

section \<open>Routing\<close>

definition id_to_owner :: "(string, int list) dict \<Rightarrow> (int, string) dict" where
  "id_to_owner owners = fold (\<lambda>(owner, ids) d. fold (\<lambda>i. dput i owner) ids d) owners []"

definition group_expert_ids_by_owner :: "int list \<Rightarrow> (string, int list) dict \<Rightarrow>
    (string, int list) dict result" where
  "group_expert_ids_by_owner top_k_ids owners =
     efold (\<lambda>eid by_owner. ebind (dindex (id_to_owner owners) eid) (\<lambda>owner.
              Inr (dappend owner eid by_owner))) top_k_ids []"

definition static_candidates_by_id :: "(string, int list) dict \<Rightarrow> (int, string list) dict" where
  "static_candidates_by_id owners =
     fold (\<lambda>(owner, ids) d. fold (\<lambda>i. dappend i owner) ids d) owners []"

definition load_of :: "(string, int) dict \<Rightarrow> string \<Rightarrow> int \<Rightarrow> string \<Rightarrow> int" where
  "load_of peer_loads self_shard_id self_load sid =
     (if sid = self_shard_id then self_load
      else case dget peer_loads sid of Some l \<Rightarrow> l | None \<Rightarrow> 2 ^ 31 - 1)"

text \<open>\<^verbatim>\<open>list(dict.fromkeys(xs))\<close>: first occurrences, in order.\<close>

definition dict_fromkeys :: "'a list \<Rightarrow> 'a list" where
  "dict_fromkeys xs = fold (\<lambda>x acc. if x \<in> set acc then acc else acc @ [x]) xs []"

text \<open>\<^verbatim>\<open>min(xs, key=f)\<close>: the first of the minimal elements.\<close>

fun min_by :: "('a \<Rightarrow> int) \<Rightarrow> 'a list \<Rightarrow> 'a result" where
  "min_by f [] = Inl ValueError"
| "min_by f [x] = Inr x"
| "min_by f (x # y # ys) = min_by f ((if f y < f x then y else x) # ys)"

definition candidates :: "(string, int list) dict \<Rightarrow> (int \<Rightarrow> string list) option \<Rightarrow> int \<Rightarrow> string list" where
  "candidates owners live eid =
     dict_fromkeys (dget_default (static_candidates_by_id owners) eid [] @
       (case live of None \<Rightarrow> [] | Some provider \<Rightarrow> provider eid))"

definition pick_winner :: "(string \<Rightarrow> int) \<Rightarrow> string list \<Rightarrow> rng \<Rightarrow> (string \<times> rng) result" where
  "pick_winner load combined r =
     (if combined = [] then Inl KeyError
      else if length combined = 1 then Inr (combined ! 0, r)
      else ebind (if length combined = 2 then Inr (combined, r) else sample2 combined r) (\<lambda>(pool, r').
           ebind (min_by load pool) (\<lambda>winner. Inr (winner, r'))))"

definition group_expert_ids_by_owner_loaded :: "int list \<Rightarrow> (string, int list) dict \<Rightarrow> (string, int) dict \<Rightarrow>
    string \<Rightarrow> int \<Rightarrow> rng \<Rightarrow> (int \<Rightarrow> string list) option \<Rightarrow> ((string, int list) dict \<times> rng) result" where
  "group_expert_ids_by_owner_loaded top_k_ids owners peer_loads self_shard_id self_load r live =
     efold (\<lambda>eid (by_owner, r).
              ebind (pick_winner (load_of peer_loads self_shard_id self_load) (candidates owners live eid) r)
                (\<lambda>(winner, r'). Inr (dappend winner eid by_owner, r')))
       top_k_ids ([], r)"

section \<open>Running and aggregating experts\<close>

definition global_to_local :: "int list \<Rightarrow> (int, nat) dict" where
  "global_to_local held = fold (\<lambda>(li, gid). dput gid li) (zip [0..<length held] held) []"

definition expert_slot :: "int list option \<Rightarrow> int \<Rightarrow> nat result" where
  "expert_slot held eid =
     (case held of
        None \<Rightarrow> Inr (nat eid)
      | Some ids \<Rightarrow> if ids = [] then Inr (nat eid) else dindex (global_to_local ids) eid)"

definition run_selected_experts :: "('r list \<Rightarrow> 't \<Rightarrow> 't) \<Rightarrow> ('t \<Rightarrow> 't) \<Rightarrow> 'r LoadedModel \<Rightarrow> 't \<Rightarrow> int \<Rightarrow>
    int list \<Rightarrow> (int, 't) dict result" where
  "run_selected_experts ffn pre_ln_2 lm h layer_idx expert_ids =
     (if expert_ids = [] then Inr []
      else ebind (py_index (lm_layers lm) layer_idx) (\<lambda>layer.
           efold (\<lambda>eid per_expert.
                    ebind (expert_slot (dget (lm_held_ids_per_layer lm) layer_idx) eid) (\<lambda>slot.
                      Inr (dput eid (ffn (rows_at layer slot) (pre_ln_2 h)) per_expert)))
             expert_ids []))"

fun aggregate_loop :: "('w \<Rightarrow> 't \<Rightarrow> 't) \<Rightarrow> ('t \<Rightarrow> 't \<Rightarrow> 't) \<Rightarrow> (int, 't) dict \<Rightarrow> (nat \<Rightarrow> 'w) \<Rightarrow> nat \<Rightarrow> int list \<Rightarrow>
    't option \<Rightarrow> 't option result" where
  "aggregate_loop mul add outs ws j [] acc = Inr acc"
| "aggregate_loop mul add outs ws j (eid # eids) acc =
     ebind (dindex outs eid) (\<lambda>out.
       let contrib = mul (ws j) out in
       aggregate_loop mul add outs ws (Suc j) eids
         (Some (case acc of None \<Rightarrow> contrib | Some a \<Rightarrow> add a contrib)))"

definition aggregate_experts :: "('w \<Rightarrow> 't \<Rightarrow> 't) \<Rightarrow> ('t \<Rightarrow> 't \<Rightarrow> 't) \<Rightarrow> (int, 't) dict \<Rightarrow> int list \<Rightarrow> (nat \<Rightarrow> 'w) \<Rightarrow>
    't \<Rightarrow> ('t \<Rightarrow> 't) \<Rightarrow> 't result" where
  "aggregate_experts mul add outs top_k_ids top_k_weights shared_out post_ffn_ln_2 =
     (if top_k_ids = [] then Inl ValueError
      else ebind (aggregate_loop mul add outs top_k_weights 0 top_k_ids None) (\<lambda>acc.
             case acc of None \<Rightarrow> Inl AssertionError
             | Some a \<Rightarrow> Inr (add shared_out (post_ffn_ln_2 a))))"

section \<open>Lemmas on grouping\<close>

definition groups_ok :: "(int \<Rightarrow> string \<Rightarrow> bool) \<Rightarrow> int list \<Rightarrow> (string, int list) dict \<Rightarrow> bool" where
  "groups_ok own ids d \<longleftrightarrow> distinct (dkeys d) \<and> mset (concat (dvalues d)) = mset ids \<and>
     (\<forall>k es. dget d k = Some es \<longrightarrow> es \<noteq> [] \<and> subseq es ids \<and> (\<forall>e \<in> set es. own e k))"

lemma mset_dappend:
  "distinct (dkeys d) \<Longrightarrow> mset (concat (dvalues (dappend k x d))) = add_mset x (mset (concat (dvalues d)))"
proof (induction d)
  case (Cons p d)
  obtain j v where p: "p = (j, v)" by (cases p)
  have "dappend k x (p # d) = (if j = k then (j, v @ [x]) # d else (j, v) # dappend k x d)"
    by (simp add: dappend_def dget_default_def p)
  with Cons p show ?case by simp
qed (simp add: dappend_def dget_default_def)

lemma groups_ok_dappend:
  assumes "groups_ok own ids d" and "own e k"
  shows "groups_ok own (ids @ [e]) (dappend k e d)"
proof -
  have "es \<noteq> [] \<and> subseq es (ids @ [e]) \<and> (\<forall>x \<in> set es. own x j)" if "dget (dappend k e d) j = Some es" for j es
  proof (cases "j = k")
    case True
    with that have "es = dget_default d k [] @ [e]" by (simp add: dget_dappend)
    moreover have "subseq (dget_default d k []) ids" "\<forall>x \<in> set (dget_default d k []). own x k"
      using assms(1) by (cases "dget d k"; auto simp: groups_ok_def dget_default_def)+
    ultimately show ?thesis using assms(2) True by (simp add: list_emb_append_mono)
  next
    case False
    with that assms(1) show ?thesis by (auto simp: dget_dappend groups_ok_def intro: subseq_append')
  qed
  then show ?thesis
    using assms(1) mset_dappend [of d k e] by (simp add: groups_ok_def)
qed

text \<open>Folding over the owners table, owner by owner and id by id.\<close>

lemma fold_owners:
  "fold (\<lambda>(owner, ids) d. fold (\<lambda>i. f i owner) ids d) owners d =
     fold (\<lambda>(i, owner). f i owner) (concat (map (\<lambda>(owner, ids). map (\<lambda>i. (i, owner)) ids) owners)) d"
  by (induction owners arbitrary: d) (auto simp: fold_map comp_def case_prod_beta)

lemma dget_fold_dput: "dget (fold (\<lambda>(k, v). dput k v) ps d) = dget d ++ map_of (rev ps)"
  by (induction ps arbitrary: d) (auto simp: fun_eq_iff map_add_def split: option.split)

lemma id_to_owner_get:
  "(\<exists>owner. dget (id_to_owner owners) e = Some owner) \<longleftrightarrow> (\<exists>(owner, ids) \<in> set owners. e \<in> set ids)"
  "dget (id_to_owner owners) e = Some owner \<Longrightarrow> \<exists>ids. (owner, ids) \<in> set owners \<and> e \<in> set ids"
proof -
  let ?ps = "concat (map (\<lambda>(owner, ids). map (\<lambda>i. (i, owner)) ids) owners)"
  have eq: "dget (id_to_owner owners) e = map_of (rev ?ps) e"
    unfolding id_to_owner_def fold_owners dget_fold_dput by simp
  have "map_of (rev ?ps) e = None \<longleftrightarrow> e \<notin> fst ` set ?ps" by (simp only: map_of_eq_None_iff set_rev)
  moreover have "e \<in> fst ` set ?ps \<longleftrightarrow> (\<exists>(owner, ids) \<in> set owners. e \<in> set ids)" by force
  ultimately show "(\<exists>owner. dget (id_to_owner owners) e = Some owner) \<longleftrightarrow> (\<exists>(owner, ids) \<in> set owners. e \<in> set ids)"
    unfolding eq by (metis not_None_eq)
  assume "dget (id_to_owner owners) e = Some owner"
  then have "(e, owner) \<in> set (rev ?ps)" unfolding eq by (rule map_of_SomeD)
  then show "\<exists>ids. (owner, ids) \<in> set owners \<and> e \<in> set ids" by auto
qed

lemma static_candidates_get:
  "set (dget_default (static_candidates_by_id owners) e []) = {owner. \<exists>ids. (owner, ids) \<in> set owners \<and> e \<in> set ids}"
proof -
  have "dget_default (fold (\<lambda>(i, w). dappend i w) ps d) e [] = dget_default d e [] @ map snd (filter (\<lambda>p. fst p = e) ps)"
    for ps :: "(int \<times> string) list" and d
    by (induction ps arbitrary: d) (auto simp: dget_default_dappend)
  from this [of _ "[]"] show ?thesis
    unfolding static_candidates_by_id_def fold_owners by (force simp: dget_default_def)
qed

lemma dict_fromkeys_spec: "set (dict_fromkeys xs) = set xs \<and> distinct (dict_fromkeys xs)"
proof -
  have "set (fold (\<lambda>x acc. if x \<in> set acc then acc else acc @ [x]) xs a) = set a \<union> set xs \<and>
    (distinct a \<longrightarrow> distinct (fold (\<lambda>x acc. if x \<in> set acc then acc else acc @ [x]) xs a))" for a
    by (induction xs arbitrary: a) auto
  from this [of "[]"] show ?thesis by (simp add: dict_fromkeys_def)
qed

lemma candidates_spec:
  "set (candidates owners live e) = {owner. \<exists>ids. (owner, ids) \<in> set owners \<and> e \<in> set ids} \<union>
     (case live of None \<Rightarrow> {} | Some p \<Rightarrow> set (p e)) \<and> distinct (candidates owners live e)"
  by (auto simp: candidates_def dict_fromkeys_spec static_candidates_get split: option.split)

lemma min_by_spec: "xs \<noteq> [] \<Longrightarrow> \<exists>x. min_by f xs = Inr x \<and> x \<in> set xs \<and> (\<forall>y \<in> set xs. f x \<le> f y)"
proof (induction f xs rule: min_by.induct)
  case (3 f x y ys)
  then obtain z where "min_by f ((if f y < f x then y else x) # ys) = Inr z"
    "z \<in> set ((if f y < f x then y else x) # ys)" "\<forall>w \<in> set ((if f y < f x then y else x) # ys). f z \<le> f w" by blast
  then show ?case by (fastforce split: if_splits)
qed simp_all

lemma pick_winner_spec:
  assumes "cs \<noteq> []" and "distinct cs"
  shows "\<exists>w r'. pick_winner load cs r = Inr (w, r') \<and> w \<in> set cs \<and>
    (2 \<le> length cs \<longrightarrow> (\<exists>c \<in> set cs. c \<noteq> w \<and> load w \<le> load c)) \<and>
    (length cs \<le> 2 \<longrightarrow> (\<forall>c \<in> set cs. load w \<le> load c))"
proof -
  consider "length cs = 1" | "length cs = 2" | "2 < length cs" using assms(1) by (cases cs; cases "tl cs") auto
  then show ?thesis
  proof cases
    case 1
    then show ?thesis by (auto simp: pick_winner_def length_Suc_conv)
  next
    case 2
    then obtain a b where cs: "cs = [a, b]" "a \<noteq> b" using assms(2) by (auto simp: numeral_2_eq_2 length_Suc_conv)
    then show ?thesis by (auto simp: pick_winner_def)
  next
    case 3
    then obtain a b r' where sm: "sample2 cs r = Inr ([a, b], r')" "a \<in> set cs" "b \<in> set cs"
      using sample2_returns [of cs r] by fastforce
    moreover have "a \<noteq> b" using sample2_distinct [OF _ assms(2) sm(1)] 3 by simp
    ultimately show ?thesis using 3 by (auto simp: pick_winner_def)
  qed
qed

section \<open>Properties of routing\<close>

text \<open>Static routing.  If every selected expert has an owner, the grouping assigns every
  selected expert to exactly one node that owns it, keeps the selection order within a node, and
  lists no node with nothing to do; if some selected expert has no owner, KeyError is raised.\<close>

theorem static_routing_partitions:
  "if \<forall>e \<in> set ids. \<exists>(owner, es) \<in> set owners. e \<in> set es
   then \<exists>d. group_expert_ids_by_owner ids owners = Inr d \<and>
     groups_ok (\<lambda>e owner. \<exists>es. (owner, es) \<in> set owners \<and> e \<in> set es) ids d
   else group_expert_ids_by_owner ids owners = Inl KeyError"
proof -
  let ?own = "\<lambda>e owner. \<exists>es. (owner, es) \<in> set owners \<and> e \<in> set es"
  let ?step = "\<lambda>eid by_owner. ebind (dindex (id_to_owner owners) eid) (\<lambda>owner. Inr (dappend owner eid by_owner))"
  have run: "if \<forall>e \<in> set ids. \<exists>(owner, es) \<in> set owners. e \<in> set es
      then \<exists>d'. efold ?step ids d = Inr d' \<and> groups_ok ?own (pre @ ids) d' else efold ?step ids d = Inl KeyError"
    if "groups_ok ?own pre d" for pre d
    using that
  proof (induction ids arbitrary: pre d)
    case (Cons e es)
    show ?case
    proof (cases "dget (id_to_owner owners) e")
      case None
      then have "\<not> (\<exists>(owner, es) \<in> set owners. e \<in> set es)" using id_to_owner_get(1) [of owners e] by simp
      with None show ?thesis by (simp add: dindex_def)
    next
      case (Some owner)
      then have "\<exists>(owner, es) \<in> set owners. e \<in> set es" using id_to_owner_get(1) [of owners e] by auto
      with Cons.IH [OF groups_ok_dappend [OF Cons.prems id_to_owner_get(2) [OF Some]]] Some
      show ?thesis by (auto simp: dindex_def split: if_splits)
    qed
  qed simp
  have "groups_ok ?own [] []" by (simp add: groups_ok_def)
  from run [OF this] show ?thesis unfolding group_expert_ids_by_owner_def append_Nil .
qed

theorem static_routing_partitions_witness:
  "\<exists>d. group_expert_ids_by_owner [5, 2, 7, 2] [(''a'', [2, 7]), (''b'', [5])] = Inr d \<and>
     groups_ok (\<lambda>e owner. \<exists>es. (owner, es) \<in> set [(''a'', [2, 7]), (''b'', [5])] \<and> e \<in> set es) [5, 2, 7, 2] d"
  using static_routing_partitions [of "[5, 2, 7, 2]" "[(''a'', [2, 7]), (''b'', [5])]"] by simp

text \<open>Load-aware routing.  With the static owners and the owners learned by gossip together,
  every selected expert goes to exactly one candidate, in selection order per node, for any random
  draws; KeyError is raised exactly when an expert has no candidate.\<close>

theorem loaded_routing_partitions:
  "if \<forall>e \<in> set ids. candidates owners live e \<noteq> []
   then \<exists>d r'. group_expert_ids_by_owner_loaded ids owners loads self sload r live = Inr (d, r') \<and>
     groups_ok (\<lambda>e owner. owner \<in> set (candidates owners live e)) ids d
   else group_expert_ids_by_owner_loaded ids owners loads self sload r live = Inl KeyError"
proof -
  let ?own = "\<lambda>e owner. owner \<in> set (candidates owners live e)"
  let ?step = "\<lambda>eid (by_owner, r). ebind (pick_winner (load_of loads self sload) (candidates owners live eid) r)
                (\<lambda>(winner, r'). Inr (dappend winner eid by_owner, r'))"
  have run: "if \<forall>e \<in> set ids. candidates owners live e \<noteq> []
      then \<exists>d' r'. efold ?step ids (d, r) = Inr (d', r') \<and> groups_ok ?own (pre @ ids) d'
      else efold ?step ids (d, r) = Inl KeyError" if "groups_ok ?own pre d" for pre d r
    using that
  proof (induction ids arbitrary: pre d r)
    case (Cons e es)
    show ?case
    proof (cases "candidates owners live e = []")
      case False
      from pick_winner_spec [OF False, of "load_of loads self sload" r] candidates_spec [of owners live e]
      obtain w r1 where w: "pick_winner (load_of loads self sload) (candidates owners live e) r = Inr (w, r1)"
        "w \<in> set (candidates owners live e)" by blast
      from Cons.IH [OF groups_ok_dappend [OF Cons.prems w(2)], of r1] w(1) False
      show ?thesis by (auto split: if_splits)
    qed (simp add: pick_winner_def)
  qed simp
  have "groups_ok ?own [] []" by (simp add: groups_ok_def)
  from run [OF this, of r] show ?thesis unfolding group_expert_ids_by_owner_loaded_def append_Nil .
qed

theorem loaded_routing_partitions_witness:
  "\<exists>d r'. group_expert_ids_by_owner_loaded [5, 2] [(''a'', [2]), (''b'', [5])] [(''b'', 250)] ''a'' 10 [1, 1]
       (Some (\<lambda>e. [''c'', ''a''])) = Inr (d, r') \<and>
     groups_ok (\<lambda>e owner. owner \<in> set (candidates [(''a'', [2]), (''b'', [5])] (Some (\<lambda>e. [''c'', ''a''])) e)) [5, 2] d"
proof -
  have "candidates [(''a'', [2]), (''b'', [5])] (Some (\<lambda>e. [''c'', ''a''])) 5 \<noteq> []"
    "candidates [(''a'', [2]), (''b'', [5])] (Some (\<lambda>e. [''c'', ''a''])) 2 \<noteq> []" by code_simp+
  then show ?thesis
    using loaded_routing_partitions [of "[5, 2]" "[(''a'', [2]), (''b'', [5])]" "Some (\<lambda>e. [''c'', ''a''])"
        "[(''b'', 250)]" "''a''" 10 "[1, 1]"] by simp
qed

text \<open>C33: Power of two choices.  Whatever the random draws, an expert with several candidates never
  goes to a candidate that is strictly more loaded than all others, and with two candidates it goes
  to the less loaded one (the first on a tie).\<close>

theorem two_choices_avoid_most_loaded:
  assumes "2 \<le> length (candidates owners live e)"
  shows "\<exists>w r'. pick_winner load (candidates owners live e) r = Inr (w, r') \<and> w \<in> set (candidates owners live e) \<and>
    (\<exists>c \<in> set (candidates owners live e). c \<noteq> w \<and> load w \<le> load c) \<and>
    (length (candidates owners live e) = 2 \<longrightarrow> (\<forall>c \<in> set (candidates owners live e). load w \<le> load c))"
proof -
  have ne: "candidates owners live e \<noteq> []" using assms by auto
  from pick_winner_spec [OF ne conjunct2 [OF candidates_spec], of load r] assms show ?thesis by (metis order_refl)
qed

theorem two_choices_avoid_most_loaded_witness:
  "\<exists>w r'. pick_winner (\<lambda>s. if s = ''b'' then 9 else 1)
      (candidates [(''a'', [3, 4]), (''b'', [3])] (Some (\<lambda>e. [''c'', ''a''])) 3) [2, 0] = Inr (w, r') \<and> w \<noteq> ''b''"
proof -
  have c: "candidates [(''a'', [3, 4]), (''b'', [3])] (Some (\<lambda>e. [''c'', ''a''])) 3 = [''a'', ''b'', ''c'']" by code_simp
  from two_choices_avoid_most_loaded [of "[(''a'', [3, 4]), (''b'', [3])]" "Some (\<lambda>e. [''c'', ''a''])" 3
      "\<lambda>s. if s = ''b'' then 9 else 1" "[2, 0]"]
  show ?thesis unfolding c by (auto split: if_splits)
qed

section \<open>Running the experts a node holds\<close>

lemma global_to_local_get:
  assumes "distinct held"
  shows "dget (global_to_local held) e = (if e \<in> set held then Some (position e held) else None)"
proof -
  have swap: "fold (\<lambda>(li, gid). dput gid li) ps = fold (\<lambda>(k, v). dput k v) (map prod.swap ps)"
    for ps :: "(nat \<times> int) list" by (induction ps) auto
  let ?ps = "map prod.swap (zip [0..<length held] held)"
  have ps: "?ps = zip held [0..<length held]" by (simp add: zip_commute [of held] comp_def case_prod_beta prod.swap_def)
  have d: "distinct (map fst (rev ?ps))" unfolding ps using assms by (simp add: rev_map [symmetric])
  have eq: "dget (global_to_local held) e = map_of (rev ?ps) e"
    unfolding global_to_local_def swap dget_fold_dput by simp
  show ?thesis
  proof (cases "e \<in> set held")
    case True
    then have "(e, position e held) \<in> set (rev ?ps)" unfolding ps set_rev set_zip
      using position_less [OF True] nth_position [OF True] by (auto intro!: exI [of _ "position e held"])
    with True show ?thesis unfolding eq using map_of_is_SomeI [OF d] by simp
  next
    case False
    then have "e \<notin> fst ` set (rev ?ps)" unfolding ps set_rev by (metis in_set_zipE imageE prod.collapse)
    then have "map_of (rev ?ps) e = None" by (simp only: map_of_eq_None_iff not_False_eq_True)
    with False show ?thesis unfolding eq by simp
  qed
qed

lemma efold_outputs:
  assumes "\<And>e. e \<in> set ids \<Longrightarrow> slot e = Inr (g e)"
  shows "\<exists>d'. efold (\<lambda>e d. ebind (slot e) (\<lambda>s. Inr (dput e (f s) d))) ids d = Inr d' \<and>
    (\<forall>e. dget d' e = (if e \<in> set ids then Some (f (g e)) else dget d e))"
  using assms
proof (induction ids arbitrary: d)
  case (Cons i ids)
  have "\<And>e. e \<in> set ids \<Longrightarrow> slot e = Inr (g e)" using Cons.prems by simp
  from Cons.IH [OF this] obtain d' where "efold (\<lambda>e d. ebind (slot e) (\<lambda>s. Inr (dput e (f s) d))) ids (dput i (f (g i)) d) = Inr d'"
    "\<forall>e. dget d' e = (if e \<in> set ids then Some (f (g e)) else dget (dput i (f (g i)) d) e)" by blast
  moreover have "slot i = Inr (g i)" using Cons.prems by simp
  ultimately show ?case by auto
qed simp

lemma run_selected_held:
  assumes "lm_ok lm" and "ids \<noteq> []" and "\<And>e. e \<in> set ids \<Longrightarrow> slice_expert lm l e = Inr (rows e)"
  shows "\<exists>outs. run_selected_experts ffn pre lm h l ids = Inr outs \<and>
    (\<forall>e. dget outs e = (if e \<in> set ids then Some (ffn (rows e) (pre h)) else None))"
proof -
  from assms(3) [of "hd ids"] assms(2) obtain held where held: "dget (lm_held_ids_per_layer lm) l = Some held"
    by (cases "dget (lm_held_ids_per_layer lm) l") (auto simp: slice_expert_eq [OF assms(1)])
  have hold: "e \<in> set held" "rows e = rows_at (lm_layers lm ! nat l) (position e held)" if "e \<in> set ids" for e
    using assms(3) [OF that] held by (auto simp: slice_expert_eq [OF assms(1)] split: if_splits)
  then have slot: "expert_slot (Some held) e = Inr (position e held)" if "e \<in> set ids" for e
    using that lm_okD(3) [OF assms(1) held] by (fastforce simp: expert_slot_def global_to_local_get)
  have ly: "py_index (lm_layers lm) l = Inr (lm_layers lm ! nat l)"
    using lm_okD(5) [OF assms(1) held] by (simp add: py_index_def)
  from efold_outputs [where ids = ids and slot = "expert_slot (Some held)" and g = "\<lambda>e. position e held" and d = "[]" and f = "\<lambda>s. ffn (rows_at (lm_layers lm ! nat l) s) (pre h)", OF slot] obtain d' where
    "efold (\<lambda>e d. ebind (expert_slot (Some held) e) (\<lambda>s. Inr (dput e (ffn (rows_at (lm_layers lm ! nat l) s) (pre h)) d))) ids [] = Inr d'"
    "\<forall>e. dget d' e = (if e \<in> set ids then Some (ffn (rows_at (lm_layers lm ! nat l) (position e held)) (pre h)) else None)"
    by auto
  with hold show ?thesis
    unfolding run_selected_experts_def ly held ebind_Inr using assms(2) by auto
qed

lemma run_selected_full:
  assumes "0 \<le> l" and "l < int (length (lm_layers lm))" and "dget_default (lm_held_ids_per_layer lm) l [] = []"
    and "ids \<noteq> []"
  shows "\<exists>outs. run_selected_experts ffn pre lm h l ids = Inr outs \<and>
    (\<forall>e. dget outs e = (if e \<in> set ids then Some (ffn (rows_at (lm_layers lm ! nat l) (nat e)) (pre h)) else None))"
proof -
  let ?held = "dget (lm_held_ids_per_layer lm) l"
  have slot: "expert_slot ?held e = Inr (nat e)" for e
    using assms(3) by (auto simp: expert_slot_def dget_default_def split: option.splits)
  have ly: "py_index (lm_layers lm) l = Inr (lm_layers lm ! nat l)"
    using assms(1,2) by (simp add: py_index_def py_pos_def)
  from efold_outputs [where ids = ids and slot = "expert_slot ?held" and g = nat and d = "[]" and f = "\<lambda>s. ffn (rows_at (lm_layers lm ! nat l) s) (pre h)", OF slot]
  show ?thesis unfolding run_selected_experts_def ly ebind_Inr using assms(4) by auto
qed

text \<open>The routed sum only depends on the outputs of the selected experts.\<close>

lemma aggregate_cong:
  assumes "\<And>e. e \<in> set ids \<Longrightarrow> dget outs e = dget outs' e"
  shows "aggregate_experts mul add outs ids ws sh post_ln = aggregate_experts mul add outs' ids ws sh post_ln"
proof -
  have "aggregate_loop mul add outs ws j ids acc = aggregate_loop mul add outs' ws j ids acc" for j acc
    using assms by (induction ids arbitrary: j acc) (simp_all add: dindex_def)
  then show ?thesis by (simp add: aggregate_experts_def)
qed

fun routed_terms :: "('w \<Rightarrow> 't \<Rightarrow> 't) \<Rightarrow> (int \<Rightarrow> 't) \<Rightarrow> (nat \<Rightarrow> 'w) \<Rightarrow> nat \<Rightarrow> int list \<Rightarrow> 't list" where
  "routed_terms mul val ws j [] = []"
| "routed_terms mul val ws j (e # es) = mul (ws j) (val e) # routed_terms mul val ws (Suc j) es"

text \<open>C34: The aggregation.  With an output for every selected expert, the result is the shared
  branch plus the norm of the weighted sum, taken from the left in router slot order, slot j's weight
  with slot j's expert; a missing output is a KeyError and an empty selection a ValueError.\<close>

theorem aggregate_in_slot_order:
  "aggregate_experts mul add outs ids ws sh post_ln =
     (if ids = [] then Inl ValueError
      else if \<forall>e \<in> set ids. e \<in> set (dkeys outs)
      then (let ts = routed_terms mul (\<lambda>e. the (dget outs e)) ws 0 ids in
            Inr (add sh (post_ln (foldl add (hd ts) (tl ts)))))
      else Inl KeyError)"
proof -
  have run: "aggregate_loop mul add outs ws j es (Some a) =
      (if \<forall>e \<in> set es. e \<in> set (dkeys outs)
       then Inr (Some (foldl add a (routed_terms mul (\<lambda>e. the (dget outs e)) ws j es))) else Inl KeyError)" for j es a
  proof (induction es arbitrary: j a)
    case (Cons e es)
    then show ?case
      using dget_None_iff [of outs e] dkey_get [of e outs] by (cases "dget outs e") (auto simp: dindex_def Let_def)
  qed simp
  show ?thesis
  proof (cases ids)
    case (Cons e es)
    then show ?thesis
      using dget_None_iff [of outs e] dkey_get [of e outs] run [of "Suc 0" es]
      by (cases "dget outs e") (auto simp: aggregate_experts_def dindex_def Let_def)
  qed (simp add: aggregate_experts_def)
qed

theorem aggregate_in_slot_order_witness:
  "aggregate_experts (*) (+) [(7, 100), (3, 10)] [3, 7] (\<lambda>j. if j = 0 then 2 else 5) (1 :: int) (\<lambda>x. x) = Inr 521"
  unfolding aggregate_in_slot_order by (simp add: Let_def)

text \<open>Evicting the last expert of a layer.  Once the only held expert of a layer has been
  detached, the layer's held list is empty, which the forward path reads as all experts being
  resident: a request for the evicted expert is computed on whatever the emptied stacks give at
  slot \<^verbatim>\<open>e\<close>, where any node with one expert left raises KeyError.\<close>

theorem evicting_last_expert_unguards:
  assumes ok: "lm_ok lm" and held: "dget (lm_held_ids_per_layer lm) l = Some [e]"
  shows "\<exists>lm' outs. detach_expert lm l e = Inr lm' \<and> slice_expert lm' l e = Inl KeyError \<and>
    run_selected_experts ffn pre lm' h l [e] = Inr outs \<and> e \<in> set (dkeys outs)"
proof -
  from detach_total [OF ok held] obtain lm' where de: "detach_expert lm l e = Inr lm'" by auto
  from detach_expert_eq [OF ok de] held obtain ly' where
    h': "lm_held_ids_per_layer lm' = dput l [] (lm_held_ids_per_layer lm)" "lm_layers lm' = (lm_layers lm)[nat l := ly']"
    by auto
  have "\<exists>outs. run_selected_experts ffn pre lm' h l [e] = Inr outs \<and>
    (\<forall>x. dget outs x = (if x \<in> set [e] then Some (ffn (rows_at (lm_layers lm' ! nat l) (nat x)) (pre h)) else None))"
    using lm_okD(1,2) [OF ok held] h' by (intro run_selected_full) simp_all
  then obtain outs where outs: "run_selected_experts ffn pre lm' h l [e] = Inr outs" "dget outs e \<noteq> None" by fastforce
  with de mlx_detach_laws(3) [OF ok de] show ?thesis unfolding dget_None_iff by blast
qed

theorem evicting_last_expert_unguards_witness:
  "\<exists>lm' outs. detach_expert \<lparr>lm_layers = [map (\<lambda>pa. (pa, [11 :: nat])) PROJ_ATTR_ORDER], lm_held_ids_per_layer = [(0, [7])]\<rparr> 0 7 =
      Inr lm' \<and> slice_expert lm' 0 7 = Inl KeyError \<and>
    run_selected_experts (\<lambda>rows x. sum_list rows + x) (\<lambda>x. x) lm' 3 0 [7] = Inr outs \<and> 7 \<in> set (dkeys outs)"
proof (rule evicting_last_expert_unguards)
  show "lm_ok \<lparr>lm_layers = [map (\<lambda>pa. (pa, [11 :: nat])) PROJ_ATTR_ORDER], lm_held_ids_per_layer = [(0, [7])]\<rparr>"
    unfolding lm_ok_def by (auto simp: PROJ_ATTR_ORDER_def split: if_splits)
qed simp

end
