(* ===== verification/Provenance.thy ===== *)
theory Provenance
  imports Messages Convergence
begin

text \<open>
  \<^verbatim>\<open>request.py\<close> and \<^verbatim>\<open>provenance.py\<close>: the provenance chain of a forward pass, its
  hashing, its wire form and its validation.  BLAKE2b and the serialisation of tensors are
  parameters (\<^verbatim>\<open>blake2b\<close>, \<^verbatim>\<open>tensor_to_bytes\<close>), as is the clock.  The callbacks
  of \<^verbatim>\<open>validate_chain\<close> are function arguments; a set they return is a list.  A
  \<^verbatim>\<open>string\<close> is a sequence of code points up to 255.

  \<^verbatim>\<open>chain_valid\<close> is the abstract specification: what the five rules say of a chain,
  without loops, buckets and early exits.
\<close>

declare map_of_eq_Some_iff [simp del] Some_eq_map_of_iff [simp del]

section \<open>Entries\<close>

datatype OpType =
    OP_UNSPECIFIED | OP_EMBED | OP_LAYER_ATOMIC | OP_ATTENTION_ROUTE
  | OP_EXPERT | OP_AGGREGATE | OP_FINALIZE | OP_SHARED_EXPERT

primrec op_int :: "OpType \<Rightarrow> int" where
  "op_int OP_UNSPECIFIED = 0"
| "op_int OP_EMBED = 1"
| "op_int OP_LAYER_ATOMIC = 2"
| "op_int OP_ATTENTION_ROUTE = 3"
| "op_int OP_EXPERT = 4"
| "op_int OP_AGGREGATE = 5"
| "op_int OP_FINALIZE = 6"
| "op_int OP_SHARED_EXPERT = 7"

definition op_of_int :: "int \<Rightarrow> OpType result" where
  "op_of_int i =
     (case find (\<lambda>t. op_int t = i) [OP_UNSPECIFIED, OP_EMBED, OP_LAYER_ATOMIC, OP_ATTENTION_ROUTE,
                                  OP_EXPERT, OP_AGGREGATE, OP_FINALIZE, OP_SHARED_EXPERT] of
        None \<Rightarrow> Inl ValueError | Some t \<Rightarrow> Inr t)"

record OpDescriptor =
  opd_op_type :: OpType
  opd_layer_idx :: int
  opd_expert_id :: int

text \<open>\<^verbatim>\<open>struct.pack("<BII", ...)\<close>: one byte and two little-endian 32-bit words.\<close>

definition le32 :: "int \<Rightarrow> bytes" where
  "le32 i = [word_of_int i, word_of_int (i div 2 ^ 8), word_of_int (i div 2 ^ 16), word_of_int (i div 2 ^ 24)]"

definition pack :: "OpDescriptor \<Rightarrow> bytes result" where
  "pack op =
     (if 0 \<le> opd_layer_idx op \<and> opd_layer_idx op < 2 ^ 32 \<and> 0 \<le> opd_expert_id op \<and> opd_expert_id op < 2 ^ 32
      then Inr (word_of_int (op_int (opd_op_type op)) # le32 (opd_layer_idx op) @ le32 (opd_expert_id op))
      else Inl StructError)"

record ProvenanceEntry =
  pe_shard_id :: string
  pe_node_id :: string
  pe_timestamp :: py_float
  pe_hash :: bytes
  pe_parent_hashes :: "bytes list"
  pe_op :: "OpDescriptor option"

record Request =
  rq_request_id :: string
  rq_sequence_id :: string
  rq_prompt_token_ids :: "int list"
  rq_position :: int
  rq_provenance :: "ProvenanceEntry list"

definition append_provenance :: "py_float \<Rightarrow> string \<Rightarrow> string \<Rightarrow> bytes \<Rightarrow> bytes list \<Rightarrow> OpDescriptor option \<Rightarrow>
    Request \<Rightarrow> Request" where
  "append_provenance now shard_id node_id hash parent_hashes op r =
     r\<lparr>rq_provenance := rq_provenance r @
        [\<lparr>pe_shard_id = shard_id, pe_node_id = node_id, pe_timestamp = now, pe_hash = hash,
          pe_parent_hashes = parent_hashes, pe_op = op\<rparr>]\<rparr>"

section \<open>Hashing\<close>

definition utf8 :: "string \<Rightarrow> bytes" where
  "utf8 s = concat (map (\<lambda>c. let n = of_char c :: nat in
     if n < 128 then [word_of_nat n] else [word_of_nat (192 + n div 64), word_of_nat (128 + n mod 64)]) s)"

definition compute_hash :: "(bytes \<Rightarrow> bytes) \<Rightarrow> bytes list \<Rightarrow> string \<Rightarrow> OpDescriptor \<Rightarrow> bytes \<Rightarrow> bytes result" where
  "compute_hash blake2b parent_hashes node_id op output_bytes =
     ebind (pack op) (\<lambda>packed.
       Inr (blake2b (concat parent_hashes @ utf8 node_id @ packed @ output_bytes)))"

definition build_entry :: "(bytes \<Rightarrow> bytes) \<Rightarrow> ('t \<Rightarrow> bytes) \<Rightarrow> py_float \<Rightarrow> string \<Rightarrow> OpDescriptor \<Rightarrow> 't \<Rightarrow>
    bytes list \<Rightarrow> ProvenanceEntry result" where
  "build_entry blake2b tensor_to_bytes now node_id op output_tensor parent_hashes =
     ebind (compute_hash blake2b parent_hashes node_id op (tensor_to_bytes output_tensor)) (\<lambda>digest.
       Inr \<lparr>pe_shard_id = node_id, pe_node_id = node_id, pe_timestamp = now, pe_hash = digest,
            pe_parent_hashes = parent_hashes, pe_op = Some op\<rparr>)"

section \<open>Wire form\<close>

record OpDescriptorPb =
  dp_op_type :: "32 word"
  dp_layer_idx :: "32 word"
  dp_expert_id :: "32 word"

record ProvenanceEntryPb =
  ep_hash :: bytes
  ep_parent_hashes :: "bytes list"
  ep_node_id :: string
  ep_op :: "OpDescriptorPb option"
  ep_timestamp :: py_float

definition entry_to_pb :: "ProvenanceEntry \<Rightarrow> ProvenanceEntryPb result" where
  "entry_to_pb entry =
     ebind (case pe_op entry of
              None \<Rightarrow> Inr None
            | Some op \<Rightarrow>
                ebind (pb_u32 (opd_layer_idx op)) (\<lambda>l. ebind (pb_u32 (opd_expert_id op)) (\<lambda>x.
                  Inr (Some \<lparr>dp_op_type = word_of_int (op_int (opd_op_type op)), dp_layer_idx = l, dp_expert_id = x\<rparr>))))
       (\<lambda>op. Inr \<lparr>ep_hash = pe_hash entry, ep_parent_hashes = pe_parent_hashes entry,
                  ep_node_id = pe_node_id entry, ep_op = op, ep_timestamp = pe_timestamp entry\<rparr>)"

definition entry_from_pb :: "ProvenanceEntryPb \<Rightarrow> ProvenanceEntry result" where
  "entry_from_pb pb =
     ebind (case ep_op pb of
              None \<Rightarrow> Inr None
            | Some op \<Rightarrow> ebind (op_of_int (sint (dp_op_type op))) (\<lambda>t.
                Inr (Some \<lparr>opd_op_type = t, opd_layer_idx = uint (dp_layer_idx op), opd_expert_id = uint (dp_expert_id op)\<rparr>)))
       (\<lambda>op. Inr \<lparr>pe_shard_id = ep_node_id pb, pe_node_id = ep_node_id pb, pe_timestamp = ep_timestamp pb,
                  pe_hash = ep_hash pb, pe_parent_hashes = ep_parent_hashes pb, pe_op = op\<rparr>)"

section \<open>Validation\<close>

definition require :: "bool \<Rightarrow> unit result" where
  "require b = (if b then Inr () else Inl ProvenanceError)"

definition each :: "('a \<Rightarrow> unit result) \<Rightarrow> 'a list \<Rightarrow> unit result" where
  "each f xs = efold (\<lambda>x _. f x) xs ()"

definition is_op :: "OpType \<Rightarrow> ProvenanceEntry \<Rightarrow> bool" where
  "is_op t e = (case pe_op e of None \<Rightarrow> False | Some op \<Rightarrow> opd_op_type op = t)"

definition rule_1 :: "ProvenanceEntry list \<Rightarrow> unit result" where
  "rule_1 chain =
     ebind (require (is_op OP_EMBED (chain ! 0))) (\<lambda>_.
       each (\<lambda>(i, e). require (\<not> (is_op OP_FINALIZE e \<and> i \<noteq> length chain - 1)))
         (zip [0..<length chain] chain))"

definition layers_covered :: "ProvenanceEntry list \<Rightarrow> int list" where
  "layers_covered chain =
     fold (\<lambda>e ls. case pe_op e of
             None \<Rightarrow> ls
           | Some op \<Rightarrow> if opd_op_type op = OP_LAYER_ATOMIC \<or> opd_op_type op = OP_AGGREGATE
                        then List.insert (opd_layer_idx op) ls else ls) chain []"

definition rule_2 :: "int \<Rightarrow> ProvenanceEntry list \<Rightarrow> unit result" where
  "rule_2 total_layers chain =
     (let covered = layers_covered chain in
      if \<exists>e \<in> set chain. is_op OP_FINALIZE e
      then each (\<lambda>layer. require (layer \<in> set covered)) [0..total_layers - 1]
      else if covered \<noteq> []
      then each (\<lambda>layer. require (layer \<in> set covered)) [0..Max (set covered)]
      else Inr ())"

definition split_ops_by_layer :: "ProvenanceEntry list \<Rightarrow> (int, (OpType, ProvenanceEntry list) dict) dict" where
  "split_ops_by_layer chain =
     fold (\<lambda>e d. case pe_op e of
             None \<Rightarrow> d
           | Some op \<Rightarrow>
               if opd_op_type op \<in> {OP_ATTENTION_ROUTE, OP_SHARED_EXPERT, OP_EXPERT, OP_AGGREGATE}
               then dput (opd_layer_idx op) (dappend (opd_op_type op) e (dget_default d (opd_layer_idx op) [])) d
               else d) chain []"

definition expert_id_of :: "ProvenanceEntry \<Rightarrow> int" where
  "expert_id_of e = (case pe_op e of None \<Rightarrow> 0 | Some op \<Rightarrow> opd_expert_id op)"

definition rule_3_bucket :: "(OpType, ProvenanceEntry list) dict \<Rightarrow> unit result" where
  "rule_3_bucket bucket =
     (let ar_list = dget_default bucket OP_ATTENTION_ROUTE [];
          shared_list = dget_default bucket OP_SHARED_EXPERT [];
          expert_list = dget_default bucket OP_EXPERT [];
          agg_list = dget_default bucket OP_AGGREGATE [] in
      ebind (require (length ar_list = 1)) (\<lambda>_.
      ebind (require (length shared_list = 1)) (\<lambda>_.
      ebind (require (length expert_list \<noteq> 0)) (\<lambda>_.
      ebind (require (length agg_list = 1)) (\<lambda>_.
      ebind (efold (\<lambda>e seen_ids. ebind (require (expert_id_of e \<notin> set seen_ids)) (\<lambda>_.
                     Inr (expert_id_of e # seen_ids))) expert_list []) (\<lambda>_.
        let parent_set = pe_parent_hashes (agg_list ! 0) in
        ebind (require (pe_hash (shared_list ! 0) \<in> set parent_set)) (\<lambda>_.
          each (\<lambda>e. require (pe_hash e \<in> set parent_set)) expert_list)))))))"

definition rule_3 :: "ProvenanceEntry list \<Rightarrow> unit result" where
  "rule_3 chain = each (\<lambda>(_, bucket). rule_3_bucket bucket) (split_ops_by_layer chain)"

definition authorize :: "(string \<Rightarrow> int \<times> int) \<Rightarrow> int \<Rightarrow> (string \<Rightarrow> int list) \<Rightarrow> (int \<Rightarrow> int \<Rightarrow> string list) \<Rightarrow>
    ProvenanceEntry \<Rightarrow> unit result" where
  "authorize shard_lookup total_layers split_layers_for_shard live_owners_of e =
     (case pe_op e of
        None \<Rightarrow> Inr ()
      | Some op \<Rightarrow>
          let sid = pe_node_id e; (start, end_layer) = shard_lookup sid; layer = opd_layer_idx op in
          case opd_op_type op of
            OP_EMBED \<Rightarrow> require (start = 0)
          | OP_FINALIZE \<Rightarrow> require (end_layer = total_layers)
          | OP_LAYER_ATOMIC \<Rightarrow>
              ebind (require (start \<le> layer \<and> layer < end_layer)) (\<lambda>_.
                require (layer \<notin> set (split_layers_for_shard sid)))
          | OP_EXPERT \<Rightarrow> require (sid \<in> set (live_owners_of layer (opd_expert_id op)))
          | OP_UNSPECIFIED \<Rightarrow> Inr ()
          | _ \<Rightarrow>
              ebind (require (start \<le> layer \<and> layer < end_layer)) (\<lambda>_.
                require (layer \<in> set (split_layers_for_shard sid))))"

definition rule_4 :: "(bytes \<Rightarrow> bytes) \<Rightarrow> bytes \<Rightarrow> ProvenanceEntry \<Rightarrow> unit result" where
  "rule_4 blake2b tail_tensor_bytes tail =
     (case pe_op tail of
        None \<Rightarrow> Inl ProvenanceError
      | Some op \<Rightarrow>
          ebind (compute_hash blake2b (pe_parent_hashes tail) (pe_node_id tail) op tail_tensor_bytes) (\<lambda>expected.
            require (expected = pe_hash tail)))"

definition validate_chain :: "(bytes \<Rightarrow> bytes) \<Rightarrow> ProvenanceEntry list \<Rightarrow> (string \<Rightarrow> int \<times> int) \<Rightarrow> int \<Rightarrow>
    (string \<Rightarrow> int list) \<Rightarrow> (int \<Rightarrow> int \<Rightarrow> string list) \<Rightarrow> bytes option \<Rightarrow> unit result" where
  "validate_chain blake2b chain shard_lookup total_layers split_layers_for_shard live_owners_of tail_tensor_bytes =
     (if chain = [] then Inl ProvenanceError
      else
        ebind (rule_1 chain) (\<lambda>_.
        ebind (rule_2 total_layers chain) (\<lambda>_.
        ebind (rule_3 chain) (\<lambda>_.
        ebind (each (authorize shard_lookup total_layers split_layers_for_shard live_owners_of) chain) (\<lambda>_.
          case tail_tensor_bytes of
            None \<Rightarrow> Inr ()
          | Some raw \<Rightarrow> rule_4 blake2b raw (last chain))))))"

section \<open>Specification\<close>

definition op_at :: "OpType \<Rightarrow> int \<Rightarrow> ProvenanceEntry \<Rightarrow> bool" where
  "op_at t l e = (case pe_op e of None \<Rightarrow> False | Some op \<Rightarrow> opd_op_type op = t \<and> opd_layer_idx op = l)"

abbreviation ops_at :: "OpType \<Rightarrow> int \<Rightarrow> ProvenanceEntry list \<Rightarrow> ProvenanceEntry list" where
  "ops_at t l chain \<equiv> filter (op_at t l) chain"

definition covers :: "ProvenanceEntry list \<Rightarrow> int \<Rightarrow> bool" where
  "covers chain l \<longleftrightarrow> (\<exists>e \<in> set chain. op_at OP_LAYER_ATOMIC l e \<or> op_at OP_AGGREGATE l e)"

definition split_touched :: "ProvenanceEntry list \<Rightarrow> int \<Rightarrow> bool" where
  "split_touched chain l \<longleftrightarrow> (\<exists>e \<in> set chain. op_at OP_ATTENTION_ROUTE l e \<or> op_at OP_SHARED_EXPERT l e \<or>
     op_at OP_EXPERT l e \<or> op_at OP_AGGREGATE l e)"

text \<open>A finished split layer: one attention, one shared expert, one aggregation, distinct experts,
  and an aggregation that names the shared expert and every expert as parents.\<close>

definition split_complete :: "ProvenanceEntry list \<Rightarrow> int \<Rightarrow> bool" where
  "split_complete chain l \<longleftrightarrow>
     length (ops_at OP_ATTENTION_ROUTE l chain) = 1 \<and> length (ops_at OP_SHARED_EXPERT l chain) = 1 \<and>
     length (ops_at OP_AGGREGATE l chain) = 1 \<and> ops_at OP_EXPERT l chain \<noteq> [] \<and>
     distinct (map expert_id_of (ops_at OP_EXPERT l chain)) \<and>
     (\<forall>e \<in> set (ops_at OP_SHARED_EXPERT l chain @ ops_at OP_EXPERT l chain).
        pe_hash e \<in> set (pe_parent_hashes (hd (ops_at OP_AGGREGATE l chain))))"

definition authorized :: "(string \<Rightarrow> int \<times> int) \<Rightarrow> int \<Rightarrow> (string \<Rightarrow> int list) \<Rightarrow> (int \<Rightarrow> int \<Rightarrow> string list) \<Rightarrow>
    ProvenanceEntry \<Rightarrow> bool" where
  "authorized shard_lookup total_layers split owners e \<longleftrightarrow>
     (let sid = pe_node_id e; s = fst (shard_lookup sid); t = snd (shard_lookup sid) in
      (is_op OP_EMBED e \<longrightarrow> s = 0) \<and> (is_op OP_FINALIZE e \<longrightarrow> t = total_layers) \<and>
      (\<forall>op. pe_op e = Some op \<longrightarrow>
         (opd_op_type op = OP_EXPERT \<longrightarrow> sid \<in> set (owners (opd_layer_idx op) (opd_expert_id op))) \<and>
         (opd_op_type op \<in> {OP_LAYER_ATOMIC, OP_ATTENTION_ROUTE, OP_SHARED_EXPERT, OP_AGGREGATE} \<longrightarrow>
            s \<le> opd_layer_idx op \<and> opd_layer_idx op < t \<and>
            (opd_layer_idx op \<in> set (split sid) \<longleftrightarrow> opd_op_type op \<noteq> OP_LAYER_ATOMIC))))"

definition chain_valid :: "(string \<Rightarrow> int \<times> int) \<Rightarrow> int \<Rightarrow> (string \<Rightarrow> int list) \<Rightarrow> (int \<Rightarrow> int \<Rightarrow> string list) \<Rightarrow>
    ProvenanceEntry list \<Rightarrow> bool" where
  "chain_valid shard_lookup total_layers split owners chain \<longleftrightarrow>
     chain \<noteq> [] \<and> is_op OP_EMBED (hd chain) \<and> (\<forall>e \<in> set (butlast chain). \<not> is_op OP_FINALIZE e) \<and>
     (if is_op OP_FINALIZE (last chain) then \<forall>l. 0 \<le> l \<longrightarrow> l < total_layers \<longrightarrow> covers chain l
      else \<forall>l k. covers chain l \<longrightarrow> 0 \<le> k \<longrightarrow> k \<le> l \<longrightarrow> covers chain k) \<and>
     (\<forall>l. split_touched chain l \<longrightarrow> split_complete chain l) \<and>
     (\<forall>e \<in> set chain. authorized shard_lookup total_layers split owners e)"

definition tail_authentic :: "(bytes \<Rightarrow> bytes) \<Rightarrow> ProvenanceEntry \<Rightarrow> bytes \<Rightarrow> bool" where
  "tail_authentic blake2b tail raw \<longleftrightarrow> (case pe_op tail of None \<Rightarrow> False
     | Some op \<Rightarrow> compute_hash blake2b (pe_parent_hashes tail) (pe_node_id tail) op raw = Inr (pe_hash tail))"

section \<open>The rules implement the specification\<close>

lemma require_iff [simp]: "require b = Inr u \<longleftrightarrow> b" "require b = Inl x \<longleftrightarrow> \<not> b \<and> x = ProvenanceError"
  by (auto simp: require_def)

lemma require_simps [simp]: "require True = Inr ()" "require False = Inl ProvenanceError"
  by (simp_all add: require_def)

lemma each_simps [simp]: "each f [] = Inr ()" "each f (x # xs) = ebind (f x) (\<lambda>_. each f xs)"
  by (simp_all add: each_def)

lemma each_Inr: "each f xs = Inr () \<longleftrightarrow> (\<forall>x \<in> set xs. f x = Inr ())"
  by (induction xs) (auto simp: ebind_eq_Inr)

lemma each_Inl: "each f xs = Inl x \<Longrightarrow> (\<And>y z. f y = Inl z \<Longrightarrow> z = ProvenanceError) \<Longrightarrow> x = ProvenanceError"
  by (induction xs) (auto simp: ebind_eq_Inl)

lemma rule_1_iff: "chain \<noteq> [] \<Longrightarrow> rule_1 chain = Inr () \<longleftrightarrow>
    is_op OP_EMBED (hd chain) \<and> (\<forall>e \<in> set (butlast chain). \<not> is_op OP_FINALIZE e)"
proof -
  assume ne: "chain \<noteq> []"
  have "(\<forall>p \<in> set (zip [0..<length chain] chain). \<not> (is_op OP_FINALIZE (snd p) \<and> fst p \<noteq> length chain - 1)) \<longleftrightarrow>
      (\<forall>i < length chain - 1. \<not> is_op OP_FINALIZE (chain ! i))"
  proof -
    have "set (zip [0..<length chain] chain) = (\<lambda>i. (i, chain ! i)) ` {..<length chain}" by (force simp: set_zip image_iff)
    moreover have "i < length chain - 1 \<longleftrightarrow> i < length chain \<and> i \<noteq> length chain - 1" for i using ne by (cases chain) auto
    ultimately show ?thesis by auto
  qed
  also have "\<dots> \<longleftrightarrow> (\<forall>e \<in> set (butlast chain). \<not> is_op OP_FINALIZE e)"
    by (simp add: all_set_conv_all_nth nth_butlast)
  finally show ?thesis using ne by (simp add: rule_1_def each_Inr case_prod_beta hd_conv_nth ebind_eq_Inr)
qed

lemma set_layers_covered: "set (layers_covered chain) = {l. covers chain l}"
proof -
  have "set (fold (\<lambda>e ls. case pe_op e of None \<Rightarrow> ls
           | Some op \<Rightarrow> if opd_op_type op = OP_LAYER_ATOMIC \<or> opd_op_type op = OP_AGGREGATE
                        then List.insert (opd_layer_idx op) ls else ls) chain acc) = set acc \<union> {l. covers chain l}" for acc
    by (induction chain arbitrary: acc) (auto simp: covers_def op_at_def split: option.split)
  from this [of "[]"] show ?thesis by (simp add: layers_covered_def)
qed

lemma rule_2_iff:
  assumes "chain \<noteq> []" and "\<forall>e \<in> set (butlast chain). \<not> is_op OP_FINALIZE e"
  shows "rule_2 total_layers chain = Inr () \<longleftrightarrow>
    (if is_op OP_FINALIZE (last chain) then \<forall>l. 0 \<le> l \<longrightarrow> l < total_layers \<longrightarrow> covers chain l
     else \<forall>l k. covers chain l \<longrightarrow> 0 \<le> k \<longrightarrow> k \<le> l \<longrightarrow> covers chain k)"
proof -
  have fin: "(\<exists>e \<in> set chain. is_op OP_FINALIZE e) \<longleftrightarrow> is_op OP_FINALIZE (last chain)"
    using assms by (metis append_butlast_last_id last_in_set Un_iff set_append list.set_intros(1) empty_iff
        list.set(1) set_ConsD)
  let ?C = "set (layers_covered chain)"
  have max: "(\<forall>l \<in> {0..Max ?C}. l \<in> ?C) \<longleftrightarrow> (\<forall>l \<in> ?C. \<forall>k. 0 \<le> k \<longrightarrow> k \<le> l \<longrightarrow> k \<in> ?C)" if "layers_covered chain \<noteq> []"
  proof
    assume "\<forall>l \<in> {0..Max ?C}. l \<in> ?C"
    moreover have "l \<le> Max ?C" if "l \<in> ?C" for l using that by simp
    ultimately show "\<forall>l \<in> ?C. \<forall>k. 0 \<le> k \<longrightarrow> k \<le> l \<longrightarrow> k \<in> ?C" by (meson atLeastAtMost_iff order_trans)
  next
    assume "\<forall>l \<in> ?C. \<forall>k. 0 \<le> k \<longrightarrow> k \<le> l \<longrightarrow> k \<in> ?C"
    moreover have "Max ?C \<in> ?C" using that by (simp add: Max_in)
    ultimately show "\<forall>l \<in> {0..Max ?C}. l \<in> ?C" by auto
  qed
  have c: "l \<in> ?C \<longleftrightarrow> covers chain l" for l by (simp add: set_layers_covered)
  show ?thesis
  proof (cases "is_op OP_FINALIZE (last chain)")
    case True
    then show ?thesis by (auto simp: rule_2_def fin each_Inr c Ball_def)
  next
    case False
    show ?thesis
    proof (cases "layers_covered chain = []")
      case True
      with False c show ?thesis by (auto simp: rule_2_def fin)
    next
      case ne: False
      with False max [OF ne] show ?thesis by (simp add: rule_2_def fin each_Inr c Ball_def) 
    qed
  qed
qed

abbreviation bucket_step :: "ProvenanceEntry \<Rightarrow> (int, (OpType, ProvenanceEntry list) dict) dict \<Rightarrow>
    (int, (OpType, ProvenanceEntry list) dict) dict" where
  "bucket_step e d \<equiv> (case pe_op e of None \<Rightarrow> d | Some op \<Rightarrow>
     if opd_op_type op \<in> {OP_ATTENTION_ROUTE, OP_SHARED_EXPERT, OP_EXPERT, OP_AGGREGATE}
     then dput (opd_layer_idx op) (dappend (opd_op_type op) e (dget_default d (opd_layer_idx op) [])) d else d)"

lemma bucket_get:
  "t \<in> {OP_ATTENTION_ROUTE, OP_SHARED_EXPERT, OP_EXPERT, OP_AGGREGATE} \<Longrightarrow>
    dget_default (dget_default (fold bucket_step chain d) l []) t [] =
      dget_default (dget_default d l []) t [] @ ops_at t l chain"
proof (induction chain arbitrary: d)
  case (Cons e chain)
  have "dget_default (dget_default (bucket_step e d) l []) t [] =
      dget_default (dget_default d l []) t [] @ (if op_at t l e then [e] else [])"
    using Cons.prems
    by (cases "pe_op e") (auto simp: op_at_def dget_default_def dget_dappend split: option.splits)
  with Cons show ?case by simp
qed simp

lemma bucket_keys:
  "set (dkeys (fold bucket_step chain d)) = set (dkeys d) \<union> {l. split_touched chain l}"
proof (induction chain arbitrary: d)
  case (Cons e chain)
  have "set (dkeys (bucket_step e d)) = set (dkeys d) \<union> {l. split_touched [e] l}"
    by (auto simp: split_touched_def op_at_def split: option.splits)
  moreover have "{l. split_touched (e # chain) l} = {l. split_touched [e] l} \<union> {l. split_touched chain l}"
    by (auto simp: split_touched_def)
  ultimately show ?case using Cons by auto
qed (auto simp: split_touched_def)

lemma bucket_distinct: "distinct (dkeys d) \<Longrightarrow> distinct (dkeys (fold bucket_step chain d))"
  by (induction chain arbitrary: d) (auto split: option.split)

lemma seen_ids: "efold (\<lambda>e seen. ebind (require (f e \<notin> set seen)) (\<lambda>_. Inr (f e # seen))) xs acc =
    (if distinct (map f xs) \<and> set acc \<inter> f ` set xs = {} then Inr (rev (map f xs) @ acc) else Inl ProvenanceError)"
proof (induction xs arbitrary: acc)
  case (Cons x xs)
  show ?case
  proof (cases "f x \<in> set acc")
    case True
    then show ?thesis by (auto simp: require_def)
  next
    case False
    then have "require (f x \<notin> set acc) = Inr ()" by simp
    with False show ?thesis by (auto simp: Cons.IH)
  qed
qed simp

lemma rule_3_bucket_iff:
  assumes "\<And>t. t \<in> {OP_ATTENTION_ROUTE, OP_SHARED_EXPERT, OP_EXPERT, OP_AGGREGATE} \<Longrightarrow>
    dget_default bucket t [] = ops_at t l chain"
  shows "rule_3_bucket bucket = Inr () \<longleftrightarrow> split_complete chain l"
proof -
  have "split_complete chain l \<longleftrightarrow> length (ops_at OP_ATTENTION_ROUTE l chain) = 1 \<and>
      (\<exists>s g. ops_at OP_SHARED_EXPERT l chain = [s] \<and> ops_at OP_AGGREGATE l chain = [g] \<and> ops_at OP_EXPERT l chain \<noteq> [] \<and>
       distinct (map expert_id_of (ops_at OP_EXPERT l chain)) \<and> pe_hash s \<in> set (pe_parent_hashes g) \<and>
       (\<forall>e \<in> set (ops_at OP_EXPERT l chain). pe_hash e \<in> set (pe_parent_hashes g)))"
    unfolding split_complete_def One_nat_def length_Suc_conv by (auto simp del: set_filter)
  also have "\<dots> \<longleftrightarrow> rule_3_bucket bucket = Inr ()"
    unfolding rule_3_bucket_def Let_def
    by (simp add: assms ebind_eq_Inr each_Inr seen_ids length_Suc_conv) (auto simp: length_Suc_conv)
  finally show ?thesis by simp
qed

lemma rule_3_iff: "rule_3 chain = Inr () \<longleftrightarrow> (\<forall>l. split_touched chain l \<longrightarrow> split_complete chain l)"
proof -
  let ?d = "split_ops_by_layer chain"
  have b: "dget_default (dget_default ?d l []) t [] = ops_at t l chain"
    if "t \<in> {OP_ATTENTION_ROUTE, OP_SHARED_EXPERT, OP_EXPERT, OP_AGGREGATE}" for t l
    using bucket_get [OF that, of chain "[]" l] by (simp add: split_ops_by_layer_def dget_default_def)
  have k: "set (dkeys ?d) = {l. split_touched chain l}" using bucket_keys [of chain "[]"] by (simp add: split_ops_by_layer_def)
  have "distinct (dkeys ?d)" using bucket_distinct [of "[]" chain] by (simp add: split_ops_by_layer_def)
  then have "(\<forall>p \<in> set ?d. rule_3_bucket (snd p) = Inr ()) \<longleftrightarrow>
      (\<forall>l \<in> set (dkeys ?d). rule_3_bucket (dget_default ?d l []) = Inr ())"
    by (auto simp: dget_default_def)
  also have "\<dots> \<longleftrightarrow> (\<forall>l. split_touched chain l \<longrightarrow> split_complete chain l)"
    using rule_3_bucket_iff [OF b] k by auto
  finally show ?thesis by (simp add: rule_3_def each_Inr case_prod_beta)
qed

lemma authorize_iff:
  "authorize shard_lookup total_layers split owners e = Inr () \<longleftrightarrow> authorized shard_lookup total_layers split owners e"
proof (cases "pe_op e")
  case (Some op)
  then show ?thesis
    by (cases "opd_op_type op")
       (auto simp: authorize_def authorized_def is_op_def Let_def case_prod_beta ebind_eq_Inr)
qed (simp add: authorize_def authorized_def is_op_def Let_def)

lemma rules_only_ProvenanceError:
  "rule_1 chain = Inl x \<Longrightarrow> x = ProvenanceError" "rule_2 total_layers chain = Inl x \<Longrightarrow> x = ProvenanceError"
  "rule_3 chain = Inl x \<Longrightarrow> x = ProvenanceError"
  "each (authorize shard_lookup total_layers split owners) chain = Inl x \<Longrightarrow> x = ProvenanceError"
proof -
  show "rule_1 chain = Inl x \<Longrightarrow> x = ProvenanceError"
    by (auto simp: rule_1_def ebind_eq_Inl dest: each_Inl)
  show "rule_2 total_layers chain = Inl x \<Longrightarrow> x = ProvenanceError"
    by (auto simp: rule_2_def Let_def dest: each_Inl split: if_splits)
  have "rule_3_bucket b = Inl y \<Longrightarrow> y = ProvenanceError" for b y
    by (auto simp: rule_3_bucket_def Let_def ebind_eq_Inl seen_ids dest: each_Inl split: if_splits)
  then show "rule_3 chain = Inl x \<Longrightarrow> x = ProvenanceError"
    unfolding rule_3_def by (elim each_Inl) auto
  have "authorize shard_lookup total_layers split owners e = Inl y \<Longrightarrow> y = ProvenanceError" for e y
    by (auto simp: authorize_def Let_def case_prod_beta ebind_eq_Inl split: option.splits OpType.splits)
  then show "each (authorize shard_lookup total_layers split owners) chain = Inl x \<Longrightarrow> x = ProvenanceError"
    by (elim each_Inl) auto
qed

section \<open>Properties\<close>


text \<open>C20: The tail hash binds the activation.  If two different tensors are accepted with one chain,
  their hash inputs are a collision of BLAKE2b.\<close>

theorem tampered_tail_needs_collision:
  assumes "validate_chain blake2b chain lookup total_layers split owners (Some raw) = Inr ()"
    and "validate_chain blake2b chain lookup' total_layers' split' owners' (Some raw') = Inr ()" and "raw \<noteq> raw'"
  shows "\<exists>pre. blake2b (pre @ raw) = blake2b (pre @ raw') \<and> pre @ raw \<noteq> pre @ raw'"
proof -
  have "tail_authentic blake2b (last chain) raw" "tail_authentic blake2b (last chain) raw'"
    using assms(1,2) by (auto simp: validate_chain_def rule_4_def tail_authentic_def ebind_eq_Inr split: if_splits option.splits)
  then obtain op packed where "pack op = Inr packed" "blake2b (concat (pe_parent_hashes (last chain)) @ utf8 (pe_node_id (last chain)) @ packed @ raw) =
      blake2b (concat (pe_parent_hashes (last chain)) @ utf8 (pe_node_id (last chain)) @ packed @ raw')"
    by (auto simp: tail_authentic_def compute_hash_def ebind_eq_Inr split: option.splits)
  with assms(3) show ?thesis
    by (intro exI [of _ "concat (pe_parent_hashes (last chain)) @ utf8 (pe_node_id (last chain)) @ packed"]) simp
qed

text \<open>A half-done split layer is refused.  A chain with the attention step of a split layer but
  without that layer's aggregation is rejected, whatever else it holds.  That is the chain an
  orchestrator attaches to the expert requests of the layer it is working on.\<close>

theorem open_split_layer_rejected:
  assumes "op_at OP_ATTENTION_ROUTE l e" and "e \<in> set chain" and "\<forall>g \<in> set chain. \<not> op_at OP_AGGREGATE l g"
  shows "validate_chain blake2b chain lookup total_layers split owners None = Inl ProvenanceError"
proof -
  have "split_touched chain l" "\<not> split_complete chain l"
    using assms by (auto simp: split_touched_def split_complete_def filter_empty_conv)
  then have "validate_chain blake2b chain lookup total_layers split owners None \<noteq> Inr ()"
    unfolding validate_chain_def using rule_3_iff [of chain] by (auto simp: ebind_eq_Inr)
  moreover have "validate_chain blake2b chain lookup total_layers split owners None = Inl x \<Longrightarrow> x = ProvenanceError" for x
    by (auto simp: validate_chain_def ebind_eq_Inl split: if_splits dest: rules_only_ProvenanceError)
  ultimately show ?thesis
    by (cases "validate_chain blake2b chain lookup total_layers split owners None") auto
qed

text \<open>Wire round trip of provenance entries.  An entry built by a node, whose layer and expert fit
  32 bits, comes back unchanged; otherwise encoding raises ValueError.\<close>

theorem provenance_wire_roundtrip:
  assumes "pe_shard_id e = pe_node_id e"
  shows "if \<forall>op \<in> set_option (pe_op e). 0 \<le> opd_layer_idx op \<and> opd_layer_idx op < 2 ^ 32 \<and> 0 \<le> opd_expert_id op \<and> opd_expert_id op < 2 ^ 32
    then ebind (entry_to_pb e) entry_from_pb = Inr e else entry_to_pb e = Inl ValueError"
proof -
  have "op_of_int (sint (word_of_int (op_int t) :: 32 word)) = Inr t" for t
    by (cases t) (simp_all add: op_of_int_def)
  with assms show ?thesis
    by (cases "pe_op e") (auto simp: entry_to_pb_def entry_from_pb_def pb_u32_def uint_word_of_int)
qed

section \<open>Witnesses\<close>

definition demo_op :: "OpType \<Rightarrow> int \<Rightarrow> int \<Rightarrow> OpDescriptor" where
  "demo_op t l x = \<lparr>opd_op_type = t, opd_layer_idx = l, opd_expert_id = x\<rparr>"

definition demo_entry :: "OpType \<Rightarrow> int \<Rightarrow> int \<Rightarrow> bytes \<Rightarrow> bytes list \<Rightarrow> ProvenanceEntry" where
  "demo_entry t l x h ps = \<lparr>pe_shard_id = ''n'', pe_node_id = ''n'', pe_timestamp = 5, pe_hash = h,
     pe_parent_hashes = ps, pe_op = Some (demo_op t l x)\<rparr>"

theorem tampered_tail_needs_collision_witness:
  "\<exists>pre. (\<lambda>_. [7 :: byte]) (pre @ [1 :: byte]) = (\<lambda>_. [7]) (pre @ [2 :: byte]) \<and> pre @ [1] \<noteq> pre @ [2]"
proof (rule tampered_tail_needs_collision)
  show "validate_chain (\<lambda>_. [7 :: byte]) [demo_entry OP_EMBED 0 0 [7] []] (\<lambda>_. (0, 2)) 2 (\<lambda>_. []) (\<lambda>_ _. []) (Some [1]) = Inr ()"
    by code_simp
  show "validate_chain (\<lambda>_. [7 :: byte]) [demo_entry OP_EMBED 0 0 [7] []] (\<lambda>_. (0, 2)) 2 (\<lambda>_. []) (\<lambda>_ _. []) (Some [2]) = Inr ()"
    by code_simp
qed simp

theorem open_split_layer_rejected_witness:
  "validate_chain (\<lambda>_. [7 :: byte]) [demo_entry OP_EMBED 0 0 [1] [], demo_entry OP_ATTENTION_ROUTE 0 0 [2] [[1]],
      demo_entry OP_SHARED_EXPERT 0 0 [3] [[2]]] (\<lambda>_. (0, 2)) 2 (\<lambda>_. [0]) (\<lambda>_ _. [''n'']) None = Inl ProvenanceError"
  by (rule open_split_layer_rejected [of 0 "demo_entry OP_ATTENTION_ROUTE 0 0 [2] [[1]]"])
     (simp_all add: op_at_def demo_entry_def demo_op_def)

theorem provenance_wire_roundtrip_witness:
  "ebind (entry_to_pb (demo_entry OP_EXPERT 29 127 [1, 2] [[3]])) entry_from_pb = Inr (demo_entry OP_EXPERT 29 127 [1, 2] [[3]]) \<and>
   entry_to_pb (demo_entry OP_EXPERT (2 ^ 32) 0 [] []) = Inl ValueError"
  using provenance_wire_roundtrip [of "demo_entry OP_EXPERT 29 127 [1, 2] [[3]]"]
    provenance_wire_roundtrip [of "demo_entry OP_EXPERT (2 ^ 32) 0 [] []"]
  by (simp add: demo_entry_def demo_op_def)

text \<open>A complete two-layer run, the second layer split over two experts, is accepted.\<close>

lemma demo_chain_accepted:
  "validate_chain (\<lambda>bs. [word_of_nat (length bs)])
     [demo_entry OP_EMBED 0 0 [1] [], demo_entry OP_LAYER_ATOMIC 0 0 [2] [[1]],
      demo_entry OP_ATTENTION_ROUTE 1 0 [3] [[2]], demo_entry OP_SHARED_EXPERT 1 0 [4] [[3]],
      demo_entry OP_EXPERT 1 5 [6] [[3]], demo_entry OP_EXPERT 1 7 [8] [[3]],
      demo_entry OP_AGGREGATE 1 0 [9] [[4], [6], [8]], demo_entry OP_FINALIZE 2 0 [12] [[9]]]
     (\<lambda>_. (0, 2)) 2 (\<lambda>_. [1]) (\<lambda>_ _. [''n'']) (Some [0]) = Inr ()"
  by code_simp


end
