(* ===== verification/Shard_Map.thy ===== *)
theory Shard_Map
  imports Convergence Floats
begin

text \<open>
  \<^verbatim>\<open>shard_map.py\<close>, \<^verbatim>\<open>shard.py\<close> and \<^verbatim>\<open>node.py\<close>'s \<^verbatim>\<open>_resolve_downstream\<close>:
  the static directory of shards and the pipeline it induces.  \<^verbatim>\<open>yaml\<close> is what
  \<^verbatim>\<open>yaml.safe_load\<close> returns; reading and parsing the file is not modelled.
  \<^verbatim>\<open>str_other\<close> is Python's \<^verbatim>\<open>str\<close> on the values whose text the model does not
  compute (floats, dates, lists, mappings).
\<close>

declare map_of_eq_Some_iff [simp del] Some_eq_map_of_iff [simp del]

section \<open>Layer groups\<close>

record LayerGroupShard =
  lg_start_layer :: int
  lg_end_layer :: int

definition LayerGroupShard_init :: "int \<Rightarrow> int \<Rightarrow> LayerGroupShard result" where
  "LayerGroupShard_init start_layer end_layer =
     (if start_layer < 0 then Inl ValueError
      else if end_layer \<le> start_layer then Inl ValueError
      else Inr \<lparr>lg_start_layer = start_layer, lg_end_layer = end_layer\<rparr>)"

definition lg_id :: "LayerGroupShard \<Rightarrow> string" where
  "lg_id s = ''layer_'' @ show_int (lg_start_layer s) @ ''-'' @ show_int (lg_end_layer s)"

definition layer_count :: "LayerGroupShard \<Rightarrow> int" where
  "layer_count s = lg_end_layer s - lg_start_layer s"

definition lg_contains :: "LayerGroupShard \<Rightarrow> int \<Rightarrow> bool" where
  "lg_contains s layer_idx = (lg_start_layer s \<le> layer_idx \<and> layer_idx < lg_end_layer s)"

section \<open>The shard map\<close>

record NodeAddress =
  na_host :: string
  na_port :: int

record ShardSpec =
  sp_shard_id :: string
  sp_address :: NodeAddress
  sp_start_layer :: int
  sp_end_layer :: int
  sp_moe_experts :: "(int, int list) dict"

definition udp_port :: "ShardSpec \<Rightarrow> int" where
  "udp_port s = na_port (sp_address s) + 1000"

record ShardMap =
  sm_entries :: "(string, ShardSpec) dict"
  sm_model_id :: string

definition lookup :: "ShardMap \<Rightarrow> string \<Rightarrow> ShardSpec result" where
  "lookup m shard_id = dindex (sm_entries m) shard_id"

definition all_shards :: "ShardMap \<Rightarrow> string list" where
  "all_shards m = dkeys (sm_entries m)"

section \<open>Loading\<close>

datatype yaml =
    YNull | YBool bool | YInt int | YStr string | YFloat py_float | YOther nat
  | YList "yaml list" | YMap "(yaml \<times> yaml) list"

definition py_str :: "(yaml \<Rightarrow> string) \<Rightarrow> yaml \<Rightarrow> string" where
  "py_str str_other v =
     (case v of
        YStr s \<Rightarrow> s
      | YInt i \<Rightarrow> show_int i
      | YBool b \<Rightarrow> if b then ''True'' else ''False''
      | YNull \<Rightarrow> ''None''
      | _ \<Rightarrow> str_other v)"

definition as_map :: "yaml \<Rightarrow> (yaml, yaml) dict result" where
  "as_map v = (case v of YMap d \<Rightarrow> Inr d | _ \<Rightarrow> Inl ValueError)"

definition as_int :: "yaml \<Rightarrow> int result" where
  "as_int v = (case v of YInt i \<Rightarrow> Inr i | _ \<Rightarrow> Inl ValueError)"

definition field :: "(yaml, yaml) dict \<Rightarrow> string \<Rightarrow> yaml result" where
  "field d name = (case dget d (YStr name) of None \<Rightarrow> Inl ValueError | Some v \<Rightarrow> Inr v)"

definition parse_moe :: "yaml \<Rightarrow> (int, int list) dict result" where
  "parse_moe moe_raw =
     ebind (as_map moe_raw) (\<lambda>kvs.
       efold (\<lambda>(layer_key, ids) moe_experts.
                ebind (as_int layer_key) (\<lambda>l.
                ebind (case ids of YList vs \<Rightarrow> emap as_int vs | _ \<Rightarrow> Inl ValueError) (\<lambda>is.
                  Inr (dput l is moe_experts)))) kvs [])"

definition parse_shard :: "(yaml \<Rightarrow> string) \<Rightarrow> yaml \<Rightarrow> yaml \<Rightarrow> ShardSpec result" where
  "parse_shard str_other shard_id raw_spec =
     ebind (as_map raw_spec) (\<lambda>spec.
     ebind (field spec ''host'') (\<lambda>host.
     ebind (field spec ''port'') (\<lambda>port_raw.
     ebind (field spec ''start_layer'') (\<lambda>start_raw.
     ebind (field spec ''end_layer'') (\<lambda>end_raw.
     ebind (as_int port_raw) (\<lambda>port.
     ebind (as_int start_raw) (\<lambda>start_layer.
     ebind (as_int end_raw) (\<lambda>end_layer.
       if end_layer \<le> start_layer then Inl ValueError
       else ebind (parse_moe (dget_default spec (YStr ''moe_experts'') (YMap []))) (\<lambda>moe_experts.
         Inr \<lparr>sp_shard_id = py_str str_other shard_id,
              sp_address = \<lparr>na_host = py_str str_other host, na_port = port\<rparr>,
              sp_start_layer = start_layer, sp_end_layer = end_layer,
              sp_moe_experts = moe_experts\<rparr>)))))))))"

definition parse_model_id :: "yaml option \<Rightarrow> string result" where
  "parse_model_id model_id_raw =
     (case model_id_raw of
        None \<Rightarrow> Inl ValueError
      | Some v \<Rightarrow> (case v of YStr s \<Rightarrow> if s = [] then Inl ValueError else Inr s | _ \<Rightarrow> Inl ValueError))"

definition from_yaml :: "(yaml \<Rightarrow> string) \<Rightarrow> yaml \<Rightarrow> ShardMap result" where
  "from_yaml str_other raw0 =
     ebind (as_map raw0) (\<lambda>raw.
     ebind (field raw ''shards'') (\<lambda>shards_raw.
     ebind (as_map shards_raw) (\<lambda>shards_cfg.
     ebind (parse_model_id (dget raw (YStr ''model_id''))) (\<lambda>model_id.
     ebind (efold (\<lambda>(shard_id, spec) entries.
                     ebind (parse_shard str_other shard_id spec) (\<lambda>s.
                       Inr (dput (sp_shard_id s) s entries))) shards_cfg []) (\<lambda>entries.
       Inr \<lparr>sm_entries = entries, sm_model_id = model_id\<rparr>)))))"

section \<open>The pipeline\<close>

fun downstream_loop :: "ShardMap \<Rightarrow> ShardSpec \<Rightarrow> int \<Rightarrow> string list \<Rightarrow> ShardSpec result" where
  "downstream_loop m shard target_start [] = Inl ValueError"
| "downstream_loop m shard target_start (sid # sids) =
     ebind (lookup m sid) (\<lambda>peer.
       if sp_start_layer peer = target_start \<and> sp_shard_id peer \<noteq> sp_shard_id shard then Inr peer
       else downstream_loop m shard target_start sids)"

definition resolve_downstream :: "ShardSpec \<Rightarrow> ShardMap \<Rightarrow> int \<Rightarrow> ShardSpec result" where
  "resolve_downstream shard m total_layers =
     (let is_tail = (sp_end_layer shard = total_layers);
          target_start = (if is_tail then 0 else sp_end_layer shard)
      in downstream_loop m shard target_start (all_shards m))"

section \<open>Well-formed maps\<close>

definition map_wf :: "ShardMap \<Rightarrow> bool" where
  "map_wf m \<longleftrightarrow> distinct (dkeys (sm_entries m)) \<and>
     (\<forall>(k, s) \<in> set (sm_entries m). sp_shard_id s = k \<and> sp_start_layer s < sp_end_layer s \<and>
        distinct (dkeys (sp_moe_experts s)))"

text \<open>Stages of a pipeline in layer order: contiguous ranges from 0 to the number of layers.\<close>

fun stages_from :: "int \<Rightarrow> ShardSpec list \<Rightarrow> int \<Rightarrow> bool" where
  "stages_from l [] total_layers = (l = total_layers)"
| "stages_from l (s # ss) total_layers =
     (sp_start_layer s = l \<and> l < sp_end_layer s \<and> stages_from (sp_end_layer s) ss total_layers)"

definition pipeline :: "ShardMap \<Rightarrow> ShardSpec list \<Rightarrow> int \<Rightarrow> bool" where
  "pipeline m stages total_layers \<longleftrightarrow> map_wf m \<and> set (dvalues (sm_entries m)) = set stages \<and>
     distinct (map sp_shard_id stages) \<and> stages_from 0 stages total_layers \<and> 2 \<le> length stages"

lemma as_Inl [simp]: "as_map v = Inl x \<Longrightarrow> x = ValueError" "as_int v = Inl x \<Longrightarrow> x = ValueError"
    "field d n = Inl x \<Longrightarrow> x = ValueError"
  by (auto simp: as_map_def as_int_def field_def split: yaml.splits option.splits)

lemma parse_model_id_cases: "parse_model_id v = Inl x \<Longrightarrow> x = ValueError" "parse_model_id v = Inr y \<Longrightarrow> y \<noteq> []"
  by (auto simp: parse_model_id_def split: option.splits yaml.splits if_splits)

lemma efold_Inl:
  "efold f xs s = Inl e \<Longrightarrow> (\<And>x s e. f x s = Inl e \<Longrightarrow> P e) \<Longrightarrow> P e"
  by (induction xs arbitrary: s) (auto simp: ebind_eq_Inl)

lemma emap_Inl: "emap f xs = Inl e \<Longrightarrow> (\<And>x e. f x = Inl e \<Longrightarrow> P e) \<Longrightarrow> P e"
  by (induction xs) (auto simp: ebind_eq_Inl)

lemma parse_moe_Inl: "parse_moe v = Inl e \<Longrightarrow> e = ValueError"
proof -
  have "emap as_int vs = Inl e \<Longrightarrow> e = ValueError" for vs e by (erule emap_Inl) simp
  then have "(case ids of YList vs \<Rightarrow> emap as_int vs | _ \<Rightarrow> Inl ValueError) = Inl e \<Longrightarrow> e = ValueError" for ids e
    by (auto split: yaml.splits)
  then show "parse_moe v = Inl e \<Longrightarrow> e = ValueError"
    unfolding parse_moe_def by (auto simp: ebind_eq_Inl elim!: efold_Inl)
qed

lemma parse_shard_Inl: "parse_shard f k v = Inl e \<Longrightarrow> e = ValueError"
  by (auto simp: parse_shard_def ebind_eq_Inl dest: parse_moe_Inl split: if_splits)

lemma parse_moe_distinct: "parse_moe v = Inr d \<Longrightarrow> distinct (dkeys d)"
proof -
  have "efold (\<lambda>(layer_key, ids) moe. ebind (as_int layer_key) (\<lambda>l.
      ebind (case ids of YList vs \<Rightarrow> emap as_int vs | _ \<Rightarrow> Inl ValueError) (\<lambda>is. Inr (dput l is moe)))) kvs d0 = Inr d \<Longrightarrow>
      distinct (dkeys d0) \<Longrightarrow> distinct (dkeys d)" for kvs d0
    by (induction kvs arbitrary: d0) (auto simp: ebind_eq_Inr)
  from this [of _ "[]"] show "parse_moe v = Inr d \<Longrightarrow> distinct (dkeys d)"
    unfolding parse_moe_def by (auto simp: ebind_eq_Inr)
qed

lemma from_yaml_ok:
  "case from_yaml str_other raw of
     Inl e \<Rightarrow> e = ValueError
   | Inr m \<Rightarrow> map_wf m \<and> sm_model_id m \<noteq> [] \<and>
       (\<forall>sid \<in> set (all_shards m). \<exists>s. lookup m sid = Inr s \<and> sp_shard_id s = sid \<and> sp_start_layer s < sp_end_layer s)"
proof (cases "from_yaml str_other raw")
  case (Inl e)
  have "efold (\<lambda>(shard_id, spec) entries. ebind (parse_shard str_other shard_id spec) (\<lambda>s.
      Inr (dput (sp_shard_id s) s entries))) xs d = Inl e \<Longrightarrow> e = ValueError" for xs d e
    by (erule efold_Inl) (auto simp: ebind_eq_Inl dest: parse_shard_Inl)
  with Inl show ?thesis
    by (auto simp: from_yaml_def ebind_eq_Inl dest: parse_model_id_cases(1))
next
  case (Inr m)
  let ?P = "\<lambda>d. distinct (dkeys d) \<and> (\<forall>(k, s) \<in> set d. sp_shard_id s = k \<and> sp_start_layer s < sp_end_layer s \<and>
        distinct (dkeys (sp_moe_experts s)))"
  have step: "sp_start_layer s < sp_end_layer s \<and> distinct (dkeys (sp_moe_experts s))" if "parse_shard str_other k v = Inr s" for k v s
    using that by (auto simp: parse_shard_def ebind_eq_Inr dest: parse_moe_distinct split: if_splits)
  have entries_ok: "?P d'" if "efold (\<lambda>(shard_id, spec) entries. ebind (parse_shard str_other shard_id spec) (\<lambda>s.
      Inr (dput (sp_shard_id s) s entries))) xs d = Inr d'" "?P d" for xs d d'
    using that
  proof (induction xs arbitrary: d)
    case (Cons x xs)
    from Cons.prems(1) obtain k v s where s: "parse_shard str_other k v = Inr s"
      "efold (\<lambda>(shard_id, spec) entries. ebind (parse_shard str_other shard_id spec) (\<lambda>s.
      Inr (dput (sp_shard_id s) s entries))) xs (dput (sp_shard_id s) s d) = Inr d'"
      by (cases x) (auto simp: ebind_eq_Inr)
    have "?P (dput (sp_shard_id s) s d)" using Cons.prems(2) step [OF s(1)] by (auto simp: set_dput)
    from Cons.IH [OF s(2) this] show ?case .
  qed simp
  from Inr obtain cfg where "efold (\<lambda>(shard_id, spec) entries. ebind (parse_shard str_other shard_id spec) (\<lambda>s.
      Inr (dput (sp_shard_id s) s entries))) cfg [] = Inr (sm_entries m)" and id: "sm_model_id m \<noteq> []"
    by (auto simp: from_yaml_def ebind_eq_Inr dest: parse_model_id_cases(2))
  from entries_ok [OF this(1)] id have wf: "map_wf m" "sm_model_id m \<noteq> []" by (simp_all add: map_wf_def)
  then have "\<exists>s. lookup m sid = Inr s \<and> sp_shard_id s = sid \<and> sp_start_layer s < sp_end_layer s"
    if "sid \<in> set (all_shards m)" for sid
    using that dkey_get [of sid "sm_entries m"] map_of_SomeD
    by (fastforce simp: all_shards_def lookup_def map_wf_def)
  with wf Inr show ?thesis by simp
qed

text \<open>C26: Loading a configuration.  Every document either yields a map in which each shard is filed
  under its own id, has a non-empty layer range, integer ports, layers and expert ids, and a
  non-empty model id, or is refused with ValueError; no other exception escapes.\<close>

theorem from_yaml_validates:
  "case from_yaml str_other raw of
     Inl e \<Rightarrow> e = ValueError
   | Inr m \<Rightarrow> map_wf m \<and> sm_model_id m \<noteq> [] \<and>
       (\<forall>sid \<in> set (all_shards m). \<exists>s. lookup m sid = Inr s \<and> sp_shard_id s = sid \<and> sp_start_layer s < sp_end_layer s)"
  by (rule from_yaml_ok)

section \<open>The pipeline is a ring\<close>

lemma downstream_loop_unique:
  assumes "map_wf m" and "\<And>sid. sid \<in> set sids \<Longrightarrow> sid \<in> set (all_shards m)"
    and "peer \<in> set (dvalues (sm_entries m))" and "sp_shard_id peer \<in> set sids"
    and "sp_start_layer peer = t" and "sp_shard_id peer \<noteq> sp_shard_id shard"
    and "\<And>s. s \<in> set (dvalues (sm_entries m)) \<Longrightarrow> sp_start_layer s = t \<Longrightarrow> s = peer"
  shows "downstream_loop m shard t sids = Inr peer"
  using assms(2,4)
proof (induction sids)
  case (Cons sid sids)
  have ent: "dget (sm_entries m) (sp_shard_id s) = Some s" if "s \<in> set (dvalues (sm_entries m))" for s
    using assms(1) that by (auto simp: map_wf_def)
  from Cons.prems(1) [of sid] obtain s where s: "dget (sm_entries m) sid = Some s"
    using dkey_get [of sid "sm_entries m"] by (auto simp: all_shards_def)
  then have sv: "s \<in> set (dvalues (sm_entries m))" using map_of_SomeD [OF s] by force
  have sid: "sp_shard_id s = sid" using assms(1) map_of_SomeD [OF s] by (auto simp: map_wf_def)
  show ?case
  proof (cases "s = peer")
    case True
    with s assms(5,6) show ?thesis by (simp add: lookup_def dindex_def)
  next
    case False
    then have "sid \<noteq> sp_shard_id peer" using ent [OF assms(3)] s by auto
    with Cons assms(7) [OF sv] False s show ?thesis by (auto simp: lookup_def dindex_def)
  qed
qed simp

lemma stages_starts:
  "stages_from l ss t \<Longrightarrow> s \<in> set ss \<Longrightarrow> l \<le> sp_start_layer s \<and> sp_start_layer s < sp_end_layer s \<and> sp_end_layer s \<le> t"
proof (induction ss arbitrary: l)
  case (Cons a ss)
  have le: "stages_from k zs t \<Longrightarrow> k \<le> t" for k zs by (induction zs arbitrary: k) fastforce+
  from Cons.prems(1) have "sp_end_layer a \<le> t" using le by auto
  with Cons show ?case by fastforce
qed simp

lemma stages_start_inj:
  "stages_from l ss t \<Longrightarrow> a \<in> set ss \<Longrightarrow> b \<in> set ss \<Longrightarrow> sp_start_layer a = sp_start_layer b \<Longrightarrow> a = b"
proof (induction ss arbitrary: l)
  case (Cons c ss)
  then have "stages_from (sp_end_layer c) ss t" by simp
  from stages_starts [OF this] Cons show ?case by fastforce
qed simp

lemma stages_links:
  "stages_from l ss t \<Longrightarrow> Suc i < length ss \<Longrightarrow> sp_end_layer (ss ! i) = sp_start_layer (ss ! Suc i)"
  "stages_from l ss t \<Longrightarrow> ss \<noteq> [] \<Longrightarrow> sp_start_layer (hd ss) = l \<and> sp_end_layer (last ss) = t"
proof -
  show "stages_from l ss t \<Longrightarrow> Suc i < length ss \<Longrightarrow> sp_end_layer (ss ! i) = sp_start_layer (ss ! Suc i)"
  proof (induction ss arbitrary: l i)
    case (Cons a ss)
    then show ?case by (cases i; cases ss) auto
  qed simp
  show "stages_from l ss t \<Longrightarrow> ss \<noteq> [] \<Longrightarrow> sp_start_layer (hd ss) = l \<and> sp_end_layer (last ss) = t"
    by (induction ss arbitrary: l) auto
qed

lemma ring_downstream:
  assumes p: "pipeline m stages total_layers" and i: "i < length stages"
  shows "resolve_downstream (stages ! i) m total_layers = Inr (stages ! (Suc i mod length stages))"
proof -
  let ?j = "Suc i mod length stages" and ?s = "stages ! i"
  have st: "stages_from 0 stages total_layers" "map_wf m" "set (dvalues (sm_entries m)) = set stages"
    "distinct (map sp_shard_id stages)" "2 \<le> length stages" using p by (auto simp: pipeline_def)
  have j: "?j < length stages" "?j \<noteq> i" using st(5) i by (auto simp: mod_Suc)
  have ids: "sp_shard_id (stages ! ?j) \<noteq> sp_shard_id ?s"
    using st(4) i j nth_eq_iff_index_eq [OF st(4), of ?j i] by simp
  have ne: "stages \<noteq> []" using st(5) by auto
  have target: "sp_start_layer (stages ! ?j) = (if sp_end_layer ?s = total_layers then 0 else sp_end_layer ?s)"
  proof (cases "Suc i = length stages")
    case True
    then have "sp_end_layer ?s = total_layers" using stages_links(2) [OF st(1) ne] ne by (simp add: last_conv_nth flip: True)
    with True stages_links(2) [OF st(1) ne] ne show ?thesis by (simp add: hd_conv_nth)
  next
    case False
    with i have s: "Suc i < length stages" by simp
    have "sp_start_layer (stages ! Suc i) < total_layers"
      using stages_starts [OF st(1), of "stages ! Suc i"] s by force
    with stages_links(1) [OF st(1) s] s show ?thesis by simp
  qed
  have "downstream_loop m ?s (sp_start_layer (stages ! ?j)) (all_shards m) = Inr (stages ! ?j)"
  proof (rule downstream_loop_unique [OF st(2) _ _ _ refl ids])
    show "stages ! ?j \<in> set (dvalues (sm_entries m))" using st(3) j by simp
    then show "sp_shard_id (stages ! ?j) \<in> set (all_shards m)"
      using st(2) by (auto simp: map_wf_def all_shards_def rev_image_eqI)
    show "s = stages ! ?j" if "s \<in> set (dvalues (sm_entries m))" "sp_start_layer s = sp_start_layer (stages ! ?j)" for s
      using stages_start_inj [OF st(1), of s "stages ! ?j"] that st(3) j by simp
  qed
  with target show ?thesis by (simp add: resolve_downstream_def Let_def)
qed

text \<open>The pipeline is a ring.  When the shards cover the layers in contiguous stages, in whatever
  order the file lists them, every stage resolves to its successor and the last stage to the first,
  so an activation that starts at the head visits every stage in layer order and the sampled token
  returns to the head.\<close>

theorem pipeline_is_ring:
  assumes p: "pipeline m stages total_layers" and i: "i < length stages"
  shows "resolve_downstream (stages ! i) m total_layers = Inr (stages ! (Suc i mod length stages))"
  by (rule ring_downstream [OF assms])

definition demo_spec :: "string \<Rightarrow> int \<Rightarrow> int \<Rightarrow> int \<Rightarrow> ShardSpec" where
  "demo_spec sid port a b = \<lparr>sp_shard_id = sid, sp_address = \<lparr>na_host = ''h'', na_port = port\<rparr>,
     sp_start_layer = a, sp_end_layer = b, sp_moe_experts = []\<rparr>"

definition demo_map :: ShardMap where
  "demo_map = \<lparr>sm_entries = [(''tail'', demo_spec ''tail'' 9003 20 30), (''head'', demo_spec ''head'' 9001 0 10),
     (''mid'', demo_spec ''mid'' 9002 10 20)], sm_model_id = ''gemma''\<rparr>"

theorem pipeline_is_ring_witness:
  "resolve_downstream (demo_spec ''head'' 9001 0 10) demo_map 30 = Inr (demo_spec ''mid'' 9002 10 20) \<and>
   resolve_downstream (demo_spec ''tail'' 9003 20 30) demo_map 30 = Inr (demo_spec ''head'' 9001 0 10)"
proof -
  let ?ss = "[demo_spec ''head'' 9001 0 10, demo_spec ''mid'' 9002 10 20, demo_spec ''tail'' 9003 20 30]"
  have "pipeline demo_map ?ss 30"
    unfolding pipeline_def map_wf_def by (auto simp: demo_map_def demo_spec_def)
  from pipeline_is_ring [OF this, of 0] pipeline_is_ring [OF this, of 2] show ?thesis by simp
qed

theorem from_yaml_validates_witness:
  "\<exists>m. from_yaml (\<lambda>_. []) (YMap [(YStr ''model_id'', YStr ''gemma''), (YStr ''shards'', YMap [(YStr ''head'',
      YMap [(YStr ''host'', YStr ''h''), (YStr ''port'', YInt 9001), (YStr ''start_layer'', YInt 0), (YStr ''end_layer'', YInt 10),
        (YStr ''moe_experts'', YMap [(YInt 3, YList [YInt 0, YInt 2])])])])]) = Inr m \<and> map_wf m \<and>
    lookup m ''head'' = Inr ((demo_spec ''head'' 9001 0 10)\<lparr>sp_moe_experts := [(3, [0, 2])]\<rparr>)"
proof -
  let ?y = "YMap [(YStr ''model_id'', YStr ''gemma''), (YStr ''shards'', YMap [(YStr ''head'',
      YMap [(YStr ''host'', YStr ''h''), (YStr ''port'', YInt 9001), (YStr ''start_layer'', YInt 0), (YStr ''end_layer'', YInt 10),
        (YStr ''moe_experts'', YMap [(YInt 3, YList [YInt 0, YInt 2])])])])]"
  have "from_yaml (\<lambda>_. []) ?y = Inr \<lparr>sm_entries = [(''head'', (demo_spec ''head'' 9001 0 10)\<lparr>sp_moe_experts := [(3, [0, 2])]\<rparr>)],
      sm_model_id = ''gemma''\<rparr>" by code_simp
  with from_yaml_validates [of "\<lambda>_. []" ?y] show ?thesis by (simp add: lookup_def dindex_def)
qed

text \<open>Layer groups.  The constructor accepts exactly the ranges with a non-negative start before
  the end; the layers the group contains are then counted by its layer count.\<close>

theorem layer_group_wf:
  "LayerGroupShard_init a b = (if 0 \<le> a \<and> a < b then Inr \<lparr>lg_start_layer = a, lg_end_layer = b\<rparr> else Inl ValueError) \<and>
   (LayerGroupShard_init a b = Inr s \<longrightarrow> int (card {l. lg_contains s l}) = layer_count s \<and> 0 < layer_count s)"
proof -
  have "{l. lg_contains s l} = {lg_start_layer s..<lg_end_layer s}" by (auto simp: lg_contains_def)
  then show ?thesis by (auto simp: LayerGroupShard_init_def layer_count_def split: if_splits)
qed

theorem layer_group_wf_witness:
  "\<exists>s. LayerGroupShard_init 10 20 = Inr s \<and> int (card {l. lg_contains s l}) = layer_count s \<and> lg_id s = ''layer_10-20''"
proof -
  have "LayerGroupShard_init 10 20 = Inr \<lparr>lg_start_layer = 10, lg_end_layer = 20\<rparr>" by code_simp
  moreover have "lg_id \<lparr>lg_start_layer = 10, lg_end_layer = 20\<rparr> = ''layer_10-20''" by code_simp
  ultimately show ?thesis using layer_group_wf [of 10 20 "\<lparr>lg_start_layer = 10, lg_end_layer = 20\<rparr>"] by auto
qed

end
