(* ===== verification/Expert_Node.thy ===== *)
theory Expert_Node
  imports Runner Load Heat Moe_Routing Provenance Shard_Map
begin

text \<open>
  The part of \<^verbatim>\<open>node.py\<close> that owns experts: the registry of live experts, the
  last-writer-wins ownership view, attaching and evicting migrated experts, and the handlers of
  expert requests and weight requests.  The backend is a parameter of the operations that call it,
  so that both backends fit: its state is a type \<^verbatim>\<open>'b\<close>, its functions are arguments.
  Tensors are a type \<^verbatim>\<open>'t\<close> with the operations \<^verbatim>\<open>TensorOps\<close>.  A handler
  returns the frames it writes to the inbound stream, the node after it, and the exception that
  leaves it, which \<^verbatim>\<open>_handle_connection\<close> logs.  Locks are not modelled: every operation is
  one atomic step.  A set is a list in iteration order.
\<close>

declare map_of_eq_Some_iff [simp del] Some_eq_map_of_iff [simp del]

section \<open>Messages of the TCP plane\<close>

record TensorDescriptor =
  td_shape :: "int list"
  td_dtype :: int
  td_quant :: int
  td_byte_count :: int

datatype ErrorCode = ERR_WRONG_SHARD | ERR_INTERNAL | ERR_SHARD_UNAVAILABLE | ERR_INVALID_PROVENANCE

text \<open>The payloads of the envelope the nodes exchange over TCP; \<^verbatim>\<open>POther\<close> is any other.\<close>

datatype Payload =
    PBegin string "int list" int
  | PActivation string int TensorDescriptor "ProvenanceEntryPb list"
  | PSampledToken string int int bool
  | PEnd string
  | PError string ErrorCode
  | PExpertRequest string int "int list" TensorDescriptor "ProvenanceEntryPb list"
  | PExpertResponse string int "int list" TensorDescriptor "ProvenanceEntryPb list"
  | PExpertWeightRequest string int int
  | PExpertWeightTransfer string int int "TensorDescriptor list" int
  | POther

type_synonym wire_frame = "Payload \<times> bytes"

record 't TensorOps =
  to_bytes :: "'t \<Rightarrow> bytes"
  from_bytes :: "bytes \<Rightarrow> int list \<Rightarrow> int \<Rightarrow> 't result"
  shape_of :: "'t \<Rightarrow> int list"
  dtype_to_wire :: "'t \<Rightarrow> int result"

definition send_error :: "string \<Rightarrow> ErrorCode \<Rightarrow> wire_frame" where
  "send_error request_id code = (PError request_id code, [])"

definition describe :: "'t TensorOps \<Rightarrow> 't \<Rightarrow> TensorDescriptor result" where
  "describe ops t = ebind (dtype_to_wire ops t) (\<lambda>dt.
     Inr \<lparr>td_shape = shape_of ops t, td_dtype = dt, td_quant = 0, td_byte_count = int (length (to_bytes ops t))\<rparr>)"

section \<open>State\<close>

record 'b ExpertNode =
  en_shard :: ShardSpec
  en_shard_map :: ShardMap
  en_total_layers :: int
  en_provenance_enabled :: bool
  en_backend :: 'b
  en_live_experts :: "(int, int list) dict"
  en_ownership_view_internal :: "(owner_key, int \<times> int) dict"
  en_live_experts_attach_ts :: "(int \<times> int, py_float) dict"
  en_heat_tracker :: HeatTracker
  en_load_tracker :: LoadTracker
  en_in_flight :: int
  en_membership :: "unit MembershipRunner option"

definition seed_ownership :: "ShardMap \<Rightarrow> (owner_key, int \<times> int) dict" where
  "seed_ownership m =
     fold (\<lambda>(sid, spec) d.
             fold (\<lambda>(layer, ids) d. fold (\<lambda>eid. dput (sid, layer, eid) (0, 0)) ids d) (sp_moe_experts spec) d)
       (sm_entries m) []"

definition node_init :: "ShardSpec \<Rightarrow> ShardMap \<Rightarrow> int \<Rightarrow> bool \<Rightarrow> bool \<Rightarrow> bool \<Rightarrow> 'b \<Rightarrow> HeatTracker \<Rightarrow> LoadTracker \<Rightarrow>
    unit MembershipRunner option \<Rightarrow> 'b ExpertNode result" where
  "node_init shard m total_layers dynamic_migration partial_load provenance backend heat load membership =
     (if dynamic_migration \<and> \<not> partial_load then Inl ValueError
      else Inr \<lparr>en_shard = shard, en_shard_map = m, en_total_layers = total_layers,
                en_provenance_enabled = provenance, en_backend = backend,
                en_live_experts = map (\<lambda>(layer, ids). (layer, remdups ids)) (sp_moe_experts shard),
                en_ownership_view_internal = seed_ownership m, en_live_experts_attach_ts = [],
                en_heat_tracker = heat, en_load_tracker = load, en_in_flight = 0,
                en_membership = membership\<rparr>)"

abbreviation my_id :: "'b ExpertNode \<Rightarrow> string" where
  "my_id n \<equiv> sp_shard_id (en_shard n)"

abbreviation live_at :: "'b ExpertNode \<Rightarrow> int \<Rightarrow> int list" where
  "live_at n layer \<equiv> dget_default (en_live_experts n) layer []"

section \<open>Ownership\<close>

definition shard_lookup :: "'b ExpertNode \<Rightarrow> string \<Rightarrow> int \<times> int" where
  "shard_lookup n sid = (case lookup (en_shard_map n) sid of
     Inl _ \<Rightarrow> (0, 0) | Inr spec \<Rightarrow> (sp_start_layer spec, sp_end_layer spec))"

definition split_layers_for_shard :: "'b ExpertNode \<Rightarrow> string \<Rightarrow> int list" where
  "split_layers_for_shard n sid = (case lookup (en_shard_map n) sid of
     Inl _ \<Rightarrow> [] | Inr spec \<Rightarrow> dkeys (sp_moe_experts spec))"

definition view_put :: "owner_key \<Rightarrow> int \<Rightarrow> int \<Rightarrow> (owner_key, int \<times> int) dict \<Rightarrow> (owner_key, int \<times> int) dict" where
  "view_put key action ts v =
     (case dget v key of
        None \<Rightarrow> dput key (action, ts) v
      | Some existing \<Rightarrow> if snd existing < ts then dput key (action, ts) v else v)"

definition ownership_view_put :: "string \<Rightarrow> int \<Rightarrow> int \<Rightarrow> int \<Rightarrow> int \<Rightarrow> 'b ExpertNode \<Rightarrow> 'b ExpertNode" where
  "ownership_view_put sid layer_idx expert_id action ts n =
     n\<lparr>en_ownership_view_internal := view_put (sid, layer_idx, expert_id) action ts (en_ownership_view_internal n)\<rparr>"

definition owners_of :: "'b ExpertNode \<Rightarrow> int \<Rightarrow> int \<Rightarrow> string list" where
  "owners_of n layer_idx expert_id =
     map (\<lambda>(k, _). fst k)
       (filter (\<lambda>((sid, l, e), (action, _)). l = layer_idx \<and> e = expert_id \<and> action = 0)
          (en_ownership_view_internal n))"

definition on_gossip_ownership_delta :: "string \<Rightarrow> int \<Rightarrow> int \<Rightarrow> int \<Rightarrow> int \<Rightarrow> 'b ExpertNode \<Rightarrow> 'b ExpertNode" where
  "on_gossip_ownership_delta sid layer_idx expert_id action ts n = ownership_view_put sid layer_idx expert_id action ts n"

definition migration_attach :: "('b \<Rightarrow> int \<Rightarrow> int \<Rightarrow> 'r list \<Rightarrow> 'b result) \<Rightarrow> py_float \<Rightarrow> int \<Rightarrow> int \<Rightarrow> int \<Rightarrow> int \<Rightarrow> 'r list \<Rightarrow>
    'b ExpertNode \<Rightarrow> 'b ExpertNode result" where
  "migration_attach attach now put_ms announce_ms layer_idx expert_id tensors n =
     ebind (attach (en_backend n) layer_idx expert_id tensors) (\<lambda>b'.
       let n1 = n\<lparr>en_backend := b',
                  en_live_experts := dput layer_idx (List.insert expert_id (live_at n layer_idx)) (en_live_experts n),
                  en_live_experts_attach_ts := dput (layer_idx, expert_id) now (en_live_experts_attach_ts n)\<rparr>;
           n2 = ownership_view_put (my_id n) layer_idx expert_id 0 put_ms n1
       in Inr (n2\<lparr>en_membership := map_option (announce_ownership_add layer_idx expert_id DEFAULT_OWNERSHIP_TTL announce_ms)
                                   (en_membership n2)\<rparr>))"

definition migration_detach :: "('b \<Rightarrow> int \<Rightarrow> int \<Rightarrow> 'b result) \<Rightarrow> py_float \<Rightarrow> py_float \<Rightarrow> int \<Rightarrow> int \<Rightarrow> int \<Rightarrow> int \<Rightarrow>
    'b ExpertNode \<Rightarrow> 'b ExpertNode result" where
  "migration_detach detach cooldown_s now put_ms announce_ms layer_idx expert_id n =
     (if expert_id \<in> set (dget_default (sp_moe_experts (en_shard n)) layer_idx []) then Inl ValueError
      else if fsub now (dget_default (en_live_experts_attach_ts n) (layer_idx, expert_id) 0) < cooldown_s then Inl ValueError
      else if filter (\<lambda>s. s \<noteq> my_id n) (owners_of n layer_idx expert_id) = [] then Inl LastReplicaError
      else ebind (detach (en_backend n) layer_idx expert_id) (\<lambda>b'.
        let n1 = n\<lparr>en_backend := b',
                   en_live_experts :=
                     (case dget (en_live_experts n) layer_idx of
                        None \<Rightarrow> en_live_experts n
                      | Some ids \<Rightarrow> dput layer_idx (removeAll expert_id ids) (en_live_experts n)),
                   en_live_experts_attach_ts := dpop (layer_idx, expert_id) (en_live_experts_attach_ts n),
                   en_heat_tracker := heat_reset layer_idx expert_id (en_heat_tracker n)\<rparr>;
            n2 = ownership_view_put (my_id n) layer_idx expert_id 1 put_ms n1
        in Inr (n2\<lparr>en_membership := map_option (announce_ownership_remove layer_idx expert_id DEFAULT_OWNERSHIP_TTL announce_ms)
                                    (en_membership n2)\<rparr>)))"

definition loads_snapshot :: "'b ExpertNode \<Rightarrow> (string, int) dict" where
  "loads_snapshot n =
     (case en_membership n of
        None \<Rightarrow> []
      | Some r \<Rightarrow> map (\<lambda>(sid, lr). (sid, lr_queue_depth_ema lr)) (rn_peer_loads r))"

definition self_load_report :: "int \<Rightarrow> 'b ExpertNode \<Rightarrow> LoadReportRecord \<times> 'b ExpertNode" where
  "self_load_report now_ms n =
     (let (q, lt) = load_report (en_load_tracker n) in
      (\<lparr>lr_shard_id = my_id n, lr_queue_depth_ema = q, lr_ts_unix_ms = now_ms\<rparr>, n\<lparr>en_load_tracker := lt\<rparr>))"

section \<open>Serving experts\<close>

definition enter_request :: "'b ExpertNode \<Rightarrow> 'b ExpertNode" where
  "enter_request n = n\<lparr>en_in_flight := en_in_flight n + 1,
     en_load_tracker := load_observe (en_in_flight n + 1) (en_load_tracker n)\<rparr>"

definition leave_request :: "'b ExpertNode \<Rightarrow> 'b ExpertNode" where
  "leave_request n = n\<lparr>en_in_flight := en_in_flight n - 1,
     en_load_tracker := load_observe (en_in_flight n - 1) (en_load_tracker n)\<rparr>"

definition check_inbound :: "(bytes \<Rightarrow> bytes) \<Rightarrow> 'b ExpertNode \<Rightarrow> ProvenanceEntryPb list \<Rightarrow> bytes \<Rightarrow>
    ProvenanceEntry list result" where
  "check_inbound blake2b n prov tensor_bytes =
     (if en_provenance_enabled n \<and> prov \<noteq> []
      then ebind (emap entry_from_pb prov) (\<lambda>chain.
           ebind (validate_chain blake2b chain (shard_lookup n) (en_total_layers n) (split_layers_for_shard n)
                    (owners_of n) (Some tensor_bytes)) (\<lambda>_. Inr chain))
      else Inr [])"

definition expert_entry :: "(bytes \<Rightarrow> bytes) \<Rightarrow> 't TensorOps \<Rightarrow> py_float \<Rightarrow> string \<Rightarrow> int \<Rightarrow> bytes \<Rightarrow> int \<Rightarrow> 't \<Rightarrow>
    ProvenanceEntry result" where
  "expert_entry blake2b ops now node_id layer_idx ar_hash eid out =
     build_entry blake2b (to_bytes ops) now node_id
       \<lparr>opd_op_type = OP_EXPERT, opd_layer_idx = layer_idx, opd_expert_id = eid\<rparr> out [ar_hash]"

definition serve_experts :: "(bytes \<Rightarrow> bytes) \<Rightarrow> 't TensorOps \<Rightarrow> ('t list \<Rightarrow> 't result) \<Rightarrow>
    ('b \<Rightarrow> int \<Rightarrow> 't \<Rightarrow> int list \<Rightarrow> (int, 't) dict result) \<Rightarrow> py_float \<Rightarrow> 'b ExpertNode \<Rightarrow> string \<Rightarrow> int \<Rightarrow> int list \<Rightarrow>
    ProvenanceEntryPb list \<Rightarrow> bytes \<Rightarrow> 't \<Rightarrow> wire_frame list \<times> py_exn option" where
  "serve_experts blake2b ops stack run now n request_id layer_idx requested prov tensor_bytes h =
     (case check_inbound blake2b n prov tensor_bytes of
        Inl e \<Rightarrow> if e = ProvenanceError then ([send_error request_id ERR_INVALID_PROVENANCE], None) else ([], Some e)
      | Inr chain \<Rightarrow>
          (case ebind (run (en_backend n) layer_idx h requested) (\<lambda>outputs.
                ebind (emap (dindex outputs) requested) (\<lambda>ts.
                ebind (stack ts) (\<lambda>stacked. Inr (outputs, stacked)))) of
             Inl _ \<Rightarrow> ([send_error request_id ERR_SHARD_UNAVAILABLE], None)
           | Inr (outputs, stacked) \<Rightarrow>
               (case ebind (describe ops stacked) (\<lambda>spec.
                     ebind (if chain = [] then Inr []
                            else emap (\<lambda>eid. ebind (dindex outputs eid) (\<lambda>out.
                                   ebind (expert_entry blake2b ops now (my_id n) layer_idx (pe_hash (last chain)) eid out)
                                     entry_to_pb)) requested) (\<lambda>pbs.
                       Inr (PExpertResponse request_id layer_idx requested spec pbs, to_bytes ops stacked))) of
                  Inl e \<Rightarrow> ([], Some e)
                | Inr resp \<Rightarrow> ([resp], None))))"

definition handle_expert_request :: "(bytes \<Rightarrow> bytes) \<Rightarrow> 't TensorOps \<Rightarrow> ('t list \<Rightarrow> 't result) \<Rightarrow>
    ('b \<Rightarrow> int \<Rightarrow> 't \<Rightarrow> int list \<Rightarrow> (int, 't) dict result) \<Rightarrow> py_float \<Rightarrow> 'b ExpertNode \<Rightarrow> string \<Rightarrow> int \<Rightarrow> int list \<Rightarrow>
    TensorDescriptor \<Rightarrow> ProvenanceEntryPb list \<Rightarrow> bytes \<Rightarrow> wire_frame list \<times> 'b ExpertNode \<times> py_exn option" where
  "handle_expert_request blake2b ops stack run now n request_id layer_idx requested h_spec prov tensor_bytes =
     (if requested = [] then ([send_error request_id ERR_INTERNAL], n, None)
      else if \<exists>eid \<in> set requested. eid \<notin> set (live_at n layer_idx)
      then ([send_error request_id ERR_WRONG_SHARD], n, None)
      else if td_byte_count h_spec \<noteq> int (length tensor_bytes)
      then ([send_error request_id ERR_INTERNAL], n, None)
      else
        case from_bytes ops tensor_bytes (td_shape h_spec) (td_dtype h_spec) of
          Inl e \<Rightarrow> ([], n, Some e)
        | Inr h \<Rightarrow>
            let n1 = enter_request n;
                (sent, exn) = serve_experts blake2b ops stack run now n1 request_id layer_idx requested prov tensor_bytes h
            in (sent, leave_request n1, exn))"

definition handle_expert_weight_request :: "'t TensorOps \<Rightarrow> ('b \<Rightarrow> int \<Rightarrow> int \<Rightarrow> 't list result) \<Rightarrow> 'b ExpertNode \<Rightarrow>
    string \<Rightarrow> int \<Rightarrow> int \<Rightarrow> wire_frame list \<times> py_exn option" where
  "handle_expert_weight_request ops slice_fn n request_id layer_idx expert_id =
     (case slice_fn (en_backend n) layer_idx expert_id of
        Inl KeyError \<Rightarrow> ([send_error request_id ERR_SHARD_UNAVAILABLE], None)
      | Inl e \<Rightarrow> ([], Some e)
      | Inr tensors \<Rightarrow>
          (case emap (describe ops) tensors of
             Inl e \<Rightarrow> ([], Some e)
           | Inr ds \<Rightarrow> ([(PExpertWeightTransfer request_id layer_idx expert_id ds 9, concat (map (to_bytes ops) tensors))], None)))"

section \<open>Invariant of an expert-owning node\<close>

text \<open>The registry and the MLX backend agree: the live experts of a layer are those whose weights
  the backend holds.\<close>

definition held_at :: "'r LoadedModel \<Rightarrow> int \<Rightarrow> int list" where
  "held_at lm layer = dget_default (lm_held_ids_per_layer lm) layer []"

definition node_ok :: "'r LoadedModel ExpertNode \<Rightarrow> bool" where
  "node_ok n \<longleftrightarrow> lm_ok (en_backend n) \<and> (\<forall>l. distinct (live_at n l) \<and> set (held_at (en_backend n) l) = set (live_at n l))"

lemma live_at_dput [simp]: "dget_default (dput l v d) k [] = (if k = l then v else dget_default d k [])"
  by (simp add: dget_default_def)

lemma slice_expert_held: "lm_ok lm \<Longrightarrow> e \<in> set (held_at lm l) \<longleftrightarrow> (\<exists>rows. slice_expert lm l e = Inr rows)"
  by (auto simp: slice_expert_eq held_at_def dget_default_def split: option.split)

lemma attach_held:
  assumes "lm_ok lm" and "lm_tracks lm (l, e)" and "attach_expert lm l e ts = Inr lm'"
  shows "e \<notin> set (held_at lm l) \<and> held_at lm' k = (if k = l then held_at lm l @ [e] else held_at lm k)"
proof -
  from assms(2) obtain held where held: "dget (lm_held_ids_per_layer lm) l = Some held"
    using dkey_get [of l "lm_held_ids_per_layer lm"] by (auto simp: lm_tracks_def)
  from attach_expert_eq [OF assms(1) held assms(3)] held show ?thesis by (auto simp: held_at_def)
qed

lemma detach_held:
  assumes "lm_ok lm" and "detach_expert lm l e = Inr lm'"
  shows "held_at lm' k = (if k = l then filter (\<lambda>x. x \<noteq> e) (held_at lm l) else held_at lm k)"
  using detach_expert_eq [OF assms] by (auto simp: held_at_def)

lemma owners_of_set:
  "distinct (dkeys (en_ownership_view_internal n)) \<Longrightarrow>
    s \<in> set (owners_of n l e) \<longleftrightarrow> (\<exists>ts. dget (en_ownership_view_internal n) (s, l, e) = Some (0, ts))"
  by (force simp: owners_of_def image_iff dget_in_set [symmetric])

lemma view_put_get:
  "dget (view_put key a ts v) =
    (if \<exists>x. dget v key = Some x \<and> ts \<le> snd x then dget v else (dget v)(key \<mapsto> (a, ts)))"
  by (auto simp: view_put_def split: option.split)

lemma view_put_distinct: "distinct (dkeys v) \<Longrightarrow> distinct (dkeys (view_put key a ts v))"
  by (auto simp: view_put_def split: option.split)

section \<open>Properties\<close>

text \<open>Receiving a migrated expert.  On a consistent node, attaching an expert to a tracked layer
  either raises and changes nothing, or leaves a consistent node that holds exactly one more expert,
  with the given tensors, every other expert as before.\<close>

theorem migration_attach_consistent:
  assumes ok: "node_ok n" and tr: "lm_tracks (en_backend n) (l, e)"
    and at: "migration_attach attach_expert now pms ams l e ts n = Inr n'"
  shows "node_ok n' \<and> e \<notin> set (live_at n l) \<and> set (live_at n' l) = insert e (set (live_at n l)) \<and>
    (\<forall>k. k \<noteq> l \<longrightarrow> live_at n' k = live_at n k) \<and> slice_expert (en_backend n') l e = Inr ts \<and>
    (\<forall>k x. (k, x) \<noteq> (l, e) \<longrightarrow> slice_expert (en_backend n') k x = slice_expert (en_backend n) k x)"
proof -
  from at obtain b' where b': "attach_expert (en_backend n) l e ts = Inr b'" and bk: "en_backend n' = b'"
    and live: "en_live_experts n' = dput l (List.insert e (live_at n l)) (en_live_experts n)"
    by (auto simp: migration_attach_def ebind_eq_Inr Let_def ownership_view_put_def)
  have lm: "lm_ok (en_backend n)" using ok by (simp add: node_ok_def)
  note laws = mlx_attach_laws [OF lm tr b'] and held = attach_held [OF lm tr b']
  have "node_ok n'" using ok held laws(1) by (auto simp: node_ok_def bk live)
  with held ok laws show ?thesis by (auto simp: bk live node_ok_def)
qed

text \<open>Eviction is safe.  An eviction that succeeds removes an expert that is not part of the boot
  configuration, whose cooldown has passed, and that another node is known to own; the node stays
  consistent, loses exactly that expert and its heat, and with a clock ahead of the recorded
  ownership it stops listing itself as an owner while every other owner remains.\<close>

theorem migration_detach_safe:
  assumes ok: "node_ok n" and dk: "distinct (dkeys (en_ownership_view_internal n))"
    and de: "migration_detach detach_expert cooldown now pms ams l e n = Inr n'"
  shows "node_ok n' \<and> e \<notin> set (dget_default (sp_moe_experts (en_shard n)) l []) \<and>
    cooldown \<le> fsub now (dget_default (en_live_experts_attach_ts n) (l, e) 0) \<and>
    (\<exists>s \<in> set (owners_of n l e). s \<noteq> my_id n) \<and>
    e \<in> set (live_at n l) \<and> set (live_at n' l) = set (live_at n l) - {e} \<and> (\<forall>k. k \<noteq> l \<longrightarrow> live_at n' k = live_at n k) \<and>
    local_heat l e (en_heat_tracker n') = 0 \<and>
    ((\<forall>x. dget (en_ownership_view_internal n) (my_id n, l, e) = Some x \<longrightarrow> snd x < pms) \<longrightarrow>
       set (owners_of n' l e) = set (owners_of n l e) - {my_id n})"
proof -
  from de obtain b' where b': "detach_expert (en_backend n) l e = Inr b'" and bk: "en_backend n' = b'"
    and live: "en_live_experts n' = (case dget (en_live_experts n) l of None \<Rightarrow> en_live_experts n
        | Some ids \<Rightarrow> dput l (removeAll e ids) (en_live_experts n))"
    and guards: "e \<notin> set (dget_default (sp_moe_experts (en_shard n)) l [])"
      "cooldown \<le> fsub now (dget_default (en_live_experts_attach_ts n) (l, e) 0)"
      "\<exists>s \<in> set (owners_of n l e). s \<noteq> my_id n"
    and heat: "en_heat_tracker n' = heat_reset l e (en_heat_tracker n)"
    and own: "en_ownership_view_internal n' = view_put (my_id n, l, e) 1 pms (en_ownership_view_internal n)"
    by (auto simp: migration_detach_def ebind_eq_Inr Let_def filter_empty_conv ownership_view_put_def split: if_splits)
  have lm: "lm_ok (en_backend n)" using ok by (simp add: node_ok_def)
  note laws = mlx_detach_laws [OF lm b'] and held = detach_held [OF lm b']
  have live': "live_at n' k = (if k = l then removeAll e (live_at n l) else live_at n k)" for k
    by (auto simp: live dget_default_def split: option.split)
  have mem: "e \<in> set (live_at n l)"
  proof -
    have "e \<in> set (held_at (en_backend n) l)" using detach_expert_eq [OF lm b'] by (auto simp: held_at_def)
    with ok show ?thesis by (simp add: node_ok_def)
  qed
  have "node_ok n'" using ok held laws(1) by (auto simp: node_ok_def bk live' distinct_removeAll)
  moreover have "local_heat l e (en_heat_tracker n') = 0"
    by (simp add: local_heat_def heat heat_reset_def dget_default_def fmul_def fl64_def)
  moreover have "set (owners_of n' l e) = set (owners_of n l e) - {my_id n}"
    if "\<forall>x. dget (en_ownership_view_internal n) (my_id n, l, e) = Some x \<longrightarrow> snd x < pms"
  proof -
    have d': "distinct (dkeys (en_ownership_view_internal n'))" unfolding own by (rule view_put_distinct [OF dk])
    have "\<not> (\<exists>x. dget (en_ownership_view_internal n) (my_id n, l, e) = Some x \<and> pms \<le> snd x)" using that by auto
    then have "dget (en_ownership_view_internal n') = (dget (en_ownership_view_internal n))((my_id n, l, e) \<mapsto> (1, pms))"
      unfolding own view_put_get by (simp only: if_False)
    then show ?thesis by (auto simp: owners_of_set [OF dk] owners_of_set [OF d'] split: if_splits)
  qed
  ultimately show ?thesis using guards mem live' by auto
qed

text \<open>An eviction under a clock that has stepped back.  The registry drops the expert, but the
  node's own ownership record, which is only replaced by a strictly newer timestamp, still says
  that the node owns it: the node keeps itself among the owners it routes to.\<close>

theorem eviction_with_stale_clock_keeps_owner:
  assumes "distinct (dkeys (en_ownership_view_internal n))"
    and "dget (en_ownership_view_internal n) (my_id n, l, e) = Some (0, ts)" and "pms \<le> ts"
    and "migration_detach detach_fn cooldown now pms ams l e n = Inr n'"
  shows "e \<notin> set (live_at n' l) \<and> my_id n' \<in> set (owners_of n' l e)"
proof -
  have own: "en_ownership_view_internal n' = view_put (my_id n, l, e) 1 pms (en_ownership_view_internal n)"
    and live: "e \<notin> set (live_at n' l)" and sh: "en_shard n' = en_shard n"
    using assms(4) by (auto simp: migration_detach_def ebind_eq_Inr Let_def ownership_view_put_def dget_default_def
        split: if_splits option.splits)
  have "dget (en_ownership_view_internal n') = dget (en_ownership_view_internal n)"
    unfolding own view_put_get using assms(2,3) by simp
  moreover have "distinct (dkeys (en_ownership_view_internal n'))" unfolding own by (rule view_put_distinct [OF assms(1)])
  ultimately have "my_id n' \<in> set (owners_of n' l e)" using assms(2) sh by (simp add: owners_of_set)
  with live show ?thesis by simp
qed

text \<open>Every expert request is answered.  The handler leaves the number of requests in flight as it
  found it on every path, writes at most one frame, and writes exactly one unless an exception
  leaves it; it computes nothing for experts that are not live here, answering
  ERR\_WRONG\_SHARD instead.\<close>

theorem expert_request_one_reply:
  assumes "handle_expert_request blake2b ops stack run now n rid l ids spec prov raw = (sent, n', exn)"
  shows "en_in_flight n' = en_in_flight n \<and> length sent = (if exn = None then 1 else 0) \<and>
    en_live_experts n' = en_live_experts n \<and> en_backend n' = en_backend n \<and>
    (ids \<noteq> [] \<longrightarrow> (\<exists>e \<in> set ids. e \<notin> set (live_at n l)) \<longrightarrow> sent = [send_error rid ERR_WRONG_SHARD])"
proof -
  have "length (fst (serve_experts blake2b ops stack run now n1 rid l ids prov raw h)) =
      (if snd (serve_experts blake2b ops stack run now n1 rid l ids prov raw h) = None then 1 else 0)" for n1 h
    by (auto simp: serve_experts_def split: sum.split)
  then have one: "serve_experts blake2b ops stack run now n1 rid l ids prov raw h = (s, x) \<Longrightarrow>
      length s = (if x = None then 1 else 0)" for n1 h s x
    by (metis fst_conv snd_conv)
  from assms show ?thesis
    by (auto simp: handle_expert_request_def Let_def enter_request_def leave_request_def
        split: if_splits sum.splits prod.splits dest: one)
qed

text \<open>A consistent node serves what it hosts.  A well-formed request for live experts is answered
  with one response that names the requested experts in request order and carries, stacked in that
  order, what each expert's weights compute on the decoded hidden state.\<close>

theorem hosted_experts_are_served:
  assumes ok: "node_ok n" and ids: "ids \<noteq> []" "set ids \<subseteq> set (live_at n l)"
    and raw: "td_byte_count spec = int (length raw)" "from_bytes ops raw (td_shape spec) (td_dtype spec) = Inr h"
    and prov: "\<not> en_provenance_enabled n \<or> prov = []"
    and st: "stack (map (\<lambda>e. ffn (projr (slice_expert (en_backend n) l e)) (pre h)) ids) = Inr stacked"
    and d: "describe ops stacked = Inr d"
  shows "fst (handle_expert_request blake2b ops stack (\<lambda>lm l h ids. run_selected_experts ffn pre lm h l ids) now n rid l ids spec prov raw) =
      [(PExpertResponse rid l ids d [], to_bytes ops stacked)]"
proof -
  have lm: "lm_ok (en_backend n)" using ok by (simp add: node_ok_def)
  have "slice_expert (en_backend n) l e = Inr (projr (slice_expert (en_backend n) l e))" if "e \<in> set ids" for e
    using that ids(2) ok slice_expert_held [OF lm, of e l] by (auto simp: node_ok_def)
  from run_selected_held [OF lm ids(1) this, where ffn = ffn and pre = pre and h = h] obtain outs where
    outs: "run_selected_experts ffn pre (en_backend n) h l ids = Inr outs"
    "\<forall>e. dget outs e = (if e \<in> set ids then Some (ffn (projr (slice_expert (en_backend n) l e)) (pre h)) else None)" by blast
  have "emap (dindex outs) ids = Inr (map (\<lambda>e. ffn (projr (slice_expert (en_backend n) l e)) (pre h)) ids)"
    using outs(2) by (intro emap_all) (simp add: dindex_def)
  moreover have "check_inbound blake2b (enter_request n) prov raw = Inr []"
    using prov by (auto simp: check_inbound_def enter_request_def)
  ultimately have "serve_experts blake2b ops stack (\<lambda>lm l h ids. run_selected_experts ffn pre lm h l ids) now (enter_request n) rid l ids prov raw h =
      ([(PExpertResponse rid l ids d [], to_bytes ops stacked)], None)"
    using outs(1) st d by (simp add: serve_experts_def enter_request_def)
  with ids raw show ?thesis by (auto simp: handle_expert_request_def Let_def)
qed

section \<open>Witnesses\<close>

definition demo_node :: "nat LoadedModel ExpertNode" where
  "demo_node = \<lparr>en_shard = (demo_spec ''head'' 9001 0 10)\<lparr>sp_moe_experts := [(0, [4, 7])]\<rparr>, en_shard_map = demo_map,
     en_total_layers = 30, en_provenance_enabled = False, en_backend = demo_lm, en_live_experts = [(0, [4, 7, 9])],
     en_ownership_view_internal = [((''head'', 0, 4), (0, 0)), ((''head'', 0, 9), (0, 5000)), ((''mid'', 0, 9), (0, 0))],
     en_live_experts_attach_ts = [((0, 9), 5)], en_heat_tracker = demo_heat,
     en_load_tracker = \<lparr>lt_alpha = 1 / 2, lt_jitter_pct = 0, lt_rng = [], lt_ema = 0\<rparr>, en_in_flight = 0, en_membership = None\<rparr>"

definition demo_ops :: "nat TensorOps" where
  "demo_ops = \<lparr>to_bytes = (\<lambda>t. [word_of_nat t]), from_bytes = (\<lambda>bs _ _. Inr (unat (hd bs))), shape_of = (\<lambda>_. [1]),
     dtype_to_wire = (\<lambda>_. Inr 3)\<rparr>"

lemma demo_node_ok: "node_ok demo_node"
  using demo_lm_ok by (auto simp: node_ok_def demo_node_def held_at_def dget_default_def demo_lm_def split: if_splits)

theorem migration_attach_consistent_witness:
  "\<exists>n'. migration_attach attach_expert 40 40000 40001 0 5 [1, 2, 3, 4, 5, 6, 7, 8, 9] demo_node = Inr n' \<and> node_ok n' \<and>
     set (live_at n' 0) = {4, 5, 7, 9}"
proof -
  have s: "returns (migration_attach attach_expert 40 40000 40001 0 5 [1, 2, 3, 4, 5, 6, 7, 8, 9] demo_node)"
    "lm_tracks (en_backend demo_node) (0, 5)" "live_at demo_node 0 = [4, 7, 9]" by code_simp+
  then obtain n' where n': "migration_attach attach_expert 40 40000 40001 0 5 [1, 2, 3, 4, 5, 6, 7, 8, 9] demo_node = Inr n'"
    by (auto simp: returns_iff)
  from migration_attach_consistent [OF demo_node_ok s(2) n'] n' s(3) show ?thesis by auto
qed

theorem migration_detach_safe_witness:
  "\<exists>n'. migration_detach detach_expert 30 40 40000 40001 0 9 demo_node = Inr n' \<and> node_ok n' \<and>
     set (live_at n' 0) = {4, 7} \<and> set (owners_of n' 0 9) = {''mid''}"
proof -
  have s: "returns (migration_detach detach_expert 30 40 40000 40001 0 9 demo_node)"
    "live_at demo_node 0 = [4, 7, 9]" "owners_of demo_node 0 9 = [''head'', ''mid'']" "my_id demo_node = ''head''"
    "dget (en_ownership_view_internal demo_node) (''head'', 0, 9) = Some (0, 5000)" by code_simp+
  then obtain n' where n': "migration_detach detach_expert 30 40 40000 40001 0 9 demo_node = Inr n'" by (auto simp: returns_iff)
  have "distinct (dkeys (en_ownership_view_internal demo_node))" by (simp add: demo_node_def)
  from migration_detach_safe [OF demo_node_ok this n'] n' s show ?thesis by auto
qed

theorem eviction_with_stale_clock_keeps_owner_witness:
  "\<exists>n'. migration_detach detach_expert 30 40 4999 40001 0 9 demo_node = Inr n' \<and> 9 \<notin> set (live_at n' 0) \<and>
     ''head'' \<in> set (owners_of n' 0 9)"
proof -
  have s: "returns (migration_detach detach_expert 30 40 4999 40001 0 9 demo_node)"
    "dget (en_ownership_view_internal demo_node) (my_id demo_node, 0, 9) = Some (0, 5000)"
    "case migration_detach detach_expert 30 40 4999 40001 0 9 demo_node of Inl _ \<Rightarrow> False | Inr n' \<Rightarrow> my_id n' = ''head''"
    by code_simp+
  then obtain n' where n': "migration_detach detach_expert 30 40 4999 40001 0 9 demo_node = Inr n'" by (auto simp: returns_iff)
  have "distinct (dkeys (en_ownership_view_internal demo_node))" by (simp add: demo_node_def)
  from eviction_with_stale_clock_keeps_owner [OF this s(2) _ n'] n' s(3) show ?thesis by auto
qed

theorem expert_request_one_reply_witness:
  "fst (handle_expert_request (\<lambda>_. []) demo_ops (\<lambda>ts. Inr (sum_list ts)) (\<lambda>_ _ _ _. Inr []) 0 demo_node ''r'' 0 [4, 8]
      \<lparr>td_shape = [1], td_dtype = 3, td_quant = 0, td_byte_count = 1\<rparr> [] [7]) = [send_error ''r'' ERR_WRONG_SHARD]"
proof -
  have "8 \<notin> set (live_at demo_node 0)" by code_simp
  moreover obtain sent n' exn where h: "handle_expert_request (\<lambda>_. []) demo_ops (\<lambda>ts. Inr (sum_list ts)) (\<lambda>_ _ _ _. Inr []) 0 demo_node
      ''r'' 0 [4, 8] \<lparr>td_shape = [1], td_dtype = 3, td_quant = 0, td_byte_count = 1\<rparr> [] [7] = (sent, n', exn)"
    by (rule prod_cases3)
  note expert_request_one_reply [OF h]
  ultimately show ?thesis unfolding h by simp
qed

theorem hosted_experts_are_served_witness:
  "fst (handle_expert_request (\<lambda>_. []) demo_ops (\<lambda>ts. Inr (sum_list ts))
      (\<lambda>lm l h ids. run_selected_experts (\<lambda>rows x. hd rows + x) (\<lambda>x. x) lm h l ids) 0 demo_node ''r'' 0 [9, 4]
      \<lparr>td_shape = [1], td_dtype = 3, td_quant = 0, td_byte_count = 1\<rparr> [] [7]) =
    [(PExpertResponse ''r'' 0 [9, 4] \<lparr>td_shape = [1], td_dtype = 3, td_quant = 0, td_byte_count = 1\<rparr> [], [36])]"
proof -
  have "fst (handle_expert_request (\<lambda>_. []) demo_ops (\<lambda>ts. Inr (sum_list ts))
      (\<lambda>lm l h ids. run_selected_experts (\<lambda>rows x. hd rows + x) (\<lambda>x. x) lm h l ids) 0 demo_node ''r'' 0 [9, 4]
      \<lparr>td_shape = [1], td_dtype = 3, td_quant = 0, td_byte_count = 1\<rparr> [] [7]) =
    [(PExpertResponse ''r'' 0 [9, 4] \<lparr>td_shape = [1], td_dtype = 3, td_quant = 0, td_byte_count = 1\<rparr> [], to_bytes demo_ops 36)]"
  proof (rule hosted_experts_are_served [OF demo_node_ok])
    show "set [9, 4] \<subseteq> set (live_at demo_node 0)" by code_simp
    show "from_bytes demo_ops [7] (td_shape \<lparr>td_shape = [1], td_dtype = 3, td_quant = 0, td_byte_count = 1\<rparr>)
        (td_dtype \<lparr>td_shape = [1], td_dtype = 3, td_quant = 0, td_byte_count = 1\<rparr>) = Inr 7" by (simp add: demo_ops_def)
    show "Inr (sum_list (map (\<lambda>e. hd (projr (slice_expert (en_backend demo_node) 0 e)) + 7) [9, 4])) = Inr 36"
    proof -
      have "sum_list (map (\<lambda>e. hd (projr (slice_expert (en_backend demo_node) 0 e)) + 7) [9, 4]) = 36" by code_simp
      then show ?thesis by (rule arg_cong)
    qed
    show "describe demo_ops 36 = Inr \<lparr>td_shape = [1], td_dtype = 3, td_quant = 0, td_byte_count = 1\<rparr>" by (simp add: describe_def demo_ops_def)
  qed simp_all
  then show ?thesis by (simp add: demo_ops_def)
qed

end
