(* ===== verification/Backends.thy ===== *)
theory Backends
  imports Expert_Node
begin

text \<open>
  \<^verbatim>\<open>backends/\<close>, and the parts of \<^verbatim>\<open>moe.py\<close>, \<^verbatim>\<open>pt_moe.py\<close> and
  \<^verbatim>\<open>mlx_engine.py\<close> that run a decoder layer.  The modules of a layer (attention, norms, router,
  MLP) come from mlx-vlm and from Hugging Face; they are the functions of a record, as are the tensor
  operations the source calls.  The KV cache is threaded through.  \<^verbatim>\<open>top_k\<close> keeps the shape of
  the router's id tensor: the MLX router answers per batch row and position, the PyTorch one has rows
  for the flattened positions.  A call of the heat observer is recorded as a value, with the arguments
  the source passes.
\<close>

declare map_of_eq_Some_iff [simp del] Some_eq_map_of_iff [simp del]

section \<open>The interface\<close>

datatype top_k = Grid "int list list list" | Rows "int list list"

definition topk_flat :: "top_k \<Rightarrow> int list" where
  "topk_flat t = (case t of Grid g \<Rightarrow> concat (concat g) | Rows rs \<Rightarrow> concat rs)"

datatype heat_call = ObserveIds int "int list" | ObserveOne int int

record ('t, 'w, 'c, 'm) Backend =
  bk_attention_route :: "int \<Rightarrow> 't \<Rightarrow> 'c \<Rightarrow> 'm \<Rightarrow> (('t \<times> top_k \<times> 'w) \<times> 'c \<times> heat_call list) result"
  bk_shared_expert :: "int \<Rightarrow> 't \<Rightarrow> 't result"
  bk_selected_experts :: "int \<Rightarrow> 't \<Rightarrow> int list \<Rightarrow> (int, 't) dict result"
  bk_aggregate :: "int \<Rightarrow> (int, 't) dict \<Rightarrow> top_k \<Rightarrow> 'w \<Rightarrow> 't \<Rightarrow> 't result"
  bk_outer :: "int \<Rightarrow> 't \<Rightarrow> 't \<Rightarrow> 't result"

text \<open>Tensor operations: sum, scaling by one router weight, the slice of one position, the weight of a
  slot at a position, and concatenation along the sequence and the batch axis.\<close>

record ('t, 'w, 'v) TensorArith =
  ta_add :: "'t \<Rightarrow> 't \<Rightarrow> 't"
  ta_mul :: "'v \<Rightarrow> 't \<Rightarrow> 't"
  ta_cell :: "'t \<Rightarrow> nat \<Rightarrow> nat \<Rightarrow> 't"
  ta_weight :: "'w \<Rightarrow> nat \<Rightarrow> nat \<Rightarrow> nat \<Rightarrow> 'v"
  ta_cat_seq :: "'t list \<Rightarrow> 't"
  ta_cat_batch :: "'t list \<Rightarrow> 't"

text \<open>The loop over positions that both backends write in \<^verbatim>\<open>aggregate_experts\<close>:
  \<^verbatim>\<open>per_pos b l outs ids\<close> aggregates one position.\<close>

definition select_outputs :: "('t, 'w, 'v) TensorArith \<Rightarrow> (int, 't) dict \<Rightarrow> nat \<Rightarrow> nat \<Rightarrow> int list \<Rightarrow> (int, 't) dict result" where
  "select_outputs ta expert_outputs b ll ids_pos =
     efold (\<lambda>eid d. ebind (dindex expert_outputs eid) (\<lambda>t. Inr (dput eid (ta_cell ta t b ll) d))) ids_pos []"

definition aggregate_grid :: "('t, 'w, 'v) TensorArith \<Rightarrow> (nat \<Rightarrow> nat \<Rightarrow> (int, 't) dict \<Rightarrow> int list \<Rightarrow> 't result) \<Rightarrow>
    (int, 't) dict \<Rightarrow> top_k \<Rightarrow> 't result" where
  "aggregate_grid ta per_pos expert_outputs top_k_ids =
     (case top_k_ids of
        Rows _ \<Rightarrow> Inl ValueError
      | Grid g \<Rightarrow>
          ebind (emap (\<lambda>(b, row).
                   ebind (emap (\<lambda>(ll, ids_pos).
                            ebind (select_outputs ta expert_outputs b ll ids_pos) (\<lambda>per. per_pos b ll per ids_pos))
                          (zip [0..<length row] row))
                     (\<lambda>cells. if 1 < length row then Inr (ta_cat_seq ta cells) else py_index cells 0))
                 (zip [0..<length g] g))
            (\<lambda>rows. if 1 < length g then Inr (ta_cat_batch ta rows) else py_index rows 0))"

section \<open>MLX\<close>

record ('t, 'w, 'k, 'a) DecoderLayer =
  dl_full_attention :: bool
  dl_input_layernorm :: "'t \<Rightarrow> 't"
  dl_self_attn :: "'t \<Rightarrow> 'a \<Rightarrow> 'k \<Rightarrow> 't \<times> 'k"
  dl_post_attention_layernorm :: "'t \<Rightarrow> 't"
  dl_router :: "'t \<Rightarrow> int list list list \<times> 'w"
  dl_pre_feedforward_layernorm :: "'t \<Rightarrow> 't"
  dl_mlp :: "'t \<Rightarrow> 't"
  dl_post_feedforward_layernorm_1 :: "'t \<Rightarrow> 't"
  dl_pre_feedforward_layernorm_2 :: "'t \<Rightarrow> 't"
  dl_post_feedforward_layernorm_2 :: "'t \<Rightarrow> 't"
  dl_post_feedforward_layernorm :: "'t \<Rightarrow> 't"
  dl_layer_scalar :: "('t \<Rightarrow> 't) option"
  dl_call :: "'t \<Rightarrow> 'a \<Rightarrow> 'k \<Rightarrow> 't \<times> 'k"

record ('t, 'w, 'k, 'a) TextModel =
  tm_layers :: "('t, 'w, 'k, 'a) DecoderLayer list"
  tm_layer_idx_to_cache_idx :: "int list"

text \<open>Running something on the cache slot of a layer with the layer's mask.\<close>

definition with_layer :: "('t, 'w, 'k, 'a) TextModel \<Rightarrow> int \<Rightarrow> 'k list \<Rightarrow> 'a \<times> 'a \<Rightarrow>
    (('t, 'w, 'k, 'a) DecoderLayer \<Rightarrow> 'a \<Rightarrow> 'k \<Rightarrow> 'r \<times> 'k) \<Rightarrow> ('r \<times> 'k list) result" where
  "with_layer tm layer_idx cache masks f =
     ebind (py_index (tm_layers tm) layer_idx) (\<lambda>layer.
     ebind (py_index (tm_layer_idx_to_cache_idx tm) layer_idx) (\<lambda>ci.
     ebind (py_pos cache ci) (\<lambda>n.
       let (r, c) = f layer (if dl_full_attention layer then fst masks else snd masks) (cache ! n)
       in Inr (r, cache[n := c]))))"

definition run_layer_atomic :: "('t, 'w, 'k, 'a) TextModel \<Rightarrow> int \<Rightarrow> 't \<Rightarrow> 'k list \<Rightarrow> 'a \<times> 'a \<Rightarrow> ('t \<times> 'k list) result" where
  "run_layer_atomic tm layer_idx h cache masks = with_layer tm layer_idx cache masks (\<lambda>layer mask c. dl_call layer h mask c)"

definition run_attention_and_route :: "('t, 'w, 'v) TensorArith \<Rightarrow> ('t, 'w, 'k, 'a) TextModel \<Rightarrow> int \<Rightarrow> 't \<Rightarrow> 'k list \<Rightarrow> 'a \<times> 'a \<Rightarrow>
    (('t \<times> top_k \<times> 'w) \<times> 'k list \<times> heat_call list) result" where
  "run_attention_and_route ta tm layer_idx h cache masks =
     ebind (with_layer tm layer_idx cache masks (\<lambda>layer mask c.
              let (x, c') = dl_self_attn layer (dl_input_layernorm layer h) mask c;
                  post_attn = ta_add ta h (dl_post_attention_layernorm layer x)
              in ((post_attn, dl_router layer post_attn), c')))
       (\<lambda>((post_attn, top_k_ids, top_k_weights), cache').
         Inr ((post_attn, Grid top_k_ids, top_k_weights), cache', [ObserveIds layer_idx (concat (concat top_k_ids))]))"

definition run_shared_expert :: "('t, 'w, 'k, 'a) TextModel \<Rightarrow> int \<Rightarrow> 't \<Rightarrow> 't result" where
  "run_shared_expert tm layer_idx h =
     ebind (py_index (tm_layers tm) layer_idx) (\<lambda>layer.
       Inr (dl_post_feedforward_layernorm_1 layer (dl_mlp layer (dl_pre_feedforward_layernorm layer h))))"

definition mlx_selected_experts :: "('r list \<Rightarrow> 't \<Rightarrow> 't) \<Rightarrow> ('t, 'w, 'k, 'a) TextModel \<Rightarrow> 'r LoadedModel \<Rightarrow> int \<Rightarrow> 't \<Rightarrow>
    int list \<Rightarrow> (int, 't) dict result" where
  "mlx_selected_experts ffn tm lm layer_idx h expert_ids =
     (if expert_ids = [] then Inr []
      else ebind (py_index (tm_layers tm) layer_idx) (\<lambda>layer.
             run_selected_experts ffn (dl_pre_feedforward_layernorm_2 layer) lm h layer_idx expert_ids))"

definition mlx_aggregate_experts :: "('t, 'w, 'v) TensorArith \<Rightarrow> ('t, 'w, 'k, 'a) TextModel \<Rightarrow> int \<Rightarrow> (int, 't) dict \<Rightarrow> top_k \<Rightarrow>
    'w \<Rightarrow> 't \<Rightarrow> 't result" where
  "mlx_aggregate_experts ta tm layer_idx expert_outputs top_k_ids top_k_weights shared_out =
     ebind (py_index (tm_layers tm) layer_idx) (\<lambda>layer.
       aggregate_grid ta (\<lambda>b ll per_pos ids_pos.
           aggregate_experts (ta_mul ta) (ta_add ta) per_pos ids_pos (ta_weight ta top_k_weights b ll)
             (ta_cell ta shared_out b ll) (dl_post_feedforward_layernorm_2 layer))
         expert_outputs top_k_ids)"

definition mlx_apply_outer_decoder_ops :: "('t, 'w, 'v) TensorArith \<Rightarrow> ('t, 'w, 'k, 'a) TextModel \<Rightarrow> int \<Rightarrow> 't \<Rightarrow> 't \<Rightarrow> 't result" where
  "mlx_apply_outer_decoder_ops ta tm layer_idx block_in residual =
     ebind (py_index (tm_layers tm) layer_idx) (\<lambda>layer.
       let out = ta_add ta residual (dl_post_feedforward_layernorm layer block_in)
       in Inr (case dl_layer_scalar layer of None \<Rightarrow> out | Some scale \<Rightarrow> scale out))"

definition MLXBackend :: "('r list \<Rightarrow> 't \<Rightarrow> 't) \<Rightarrow> ('t, 'w, 'v) TensorArith \<Rightarrow> ('t, 'w, 'k, 'a) TextModel \<Rightarrow> 'r LoadedModel \<Rightarrow>
    ('t, 'w, 'k list, 'a \<times> 'a) Backend" where
  "MLXBackend ffn ta tm lm = \<lparr>bk_attention_route = run_attention_and_route ta tm, bk_shared_expert = run_shared_expert tm,
     bk_selected_experts = mlx_selected_experts ffn tm lm, bk_aggregate = mlx_aggregate_experts ta tm,
     bk_outer = mlx_apply_outer_decoder_ops ta tm\<rparr>"

section \<open>PyTorch\<close>

text \<open>\<^verbatim>\<open>weighted_sum\<close> below is \<^verbatim>\<open>(stacked * w).sum(dim=0)\<close>; \<^verbatim>\<open>pl_linear\<close>, \<^verbatim>\<open>pl_chunk\<close>, \<^verbatim>\<open>pl_silu\<close> and
  \<^verbatim>\<open>pl_mul\<close> are the tensor operations of \<^verbatim>\<open>_run_one_expert\<close>.\<close>

record ('t, 'w, 'k, 'p, 'a, 'r) PtLayer =
  pl_layer_type :: string
  pl_input_layernorm :: "'t \<Rightarrow> 't"
  pl_self_attn :: "'t \<Rightarrow> 'p \<Rightarrow> 'a option \<Rightarrow> int list \<Rightarrow> 'k \<Rightarrow> 't \<times> 'k"
  pl_post_attention_layernorm :: "'t \<Rightarrow> 't"
  pl_router :: "'t \<Rightarrow> int list list \<times> 'w"
  pl_pre_feedforward_layernorm :: "'t \<Rightarrow> 't"
  pl_mlp :: "'t \<Rightarrow> 't"
  pl_post_feedforward_layernorm_1 :: "'t \<Rightarrow> 't"
  pl_pre_feedforward_layernorm_2 :: "'t \<Rightarrow> 't"
  pl_post_feedforward_layernorm_2 :: "'t \<Rightarrow> 't"
  pl_post_feedforward_layernorm :: "'t \<Rightarrow> 't"
  pl_layer_scalar :: "('t \<Rightarrow> 't) option"
  pl_linear :: "'t \<Rightarrow> 'r \<Rightarrow> 't"
  pl_chunk :: "'t \<Rightarrow> 't \<times> 't"
  pl_silu :: "'t \<Rightarrow> 't"
  pl_mul :: "'t \<Rightarrow> 't \<Rightarrow> 't"
  pl_experts :: "'r ExpertStacks"

definition pt_run_attention_and_route :: "('t, 'w, 'v) TensorArith \<Rightarrow> ('k \<Rightarrow> int) \<Rightarrow> ('t \<Rightarrow> int) \<Rightarrow>
    ('t, 'w, 'k, 'p, 'a, 'r) PtLayer list \<Rightarrow> int \<Rightarrow> 't \<Rightarrow> 'k \<Rightarrow> (string, 'p) dict \<times> (string, 'a) dict option \<Rightarrow>
    (('t \<times> top_k \<times> 'w) \<times> 'k \<times> heat_call list) result" where
  "pt_run_attention_and_route ta seq_length seq_dim layers layer_idx h cache masks =
     ebind (py_index layers layer_idx) (\<lambda>layer.
     ebind (dindex (fst masks) (pl_layer_type layer)) (\<lambda>cos_sin.
       let attention_mask = (case snd masks of None \<Rightarrow> None | Some d \<Rightarrow> dget d (pl_layer_type layer));
           cache_len = seq_length cache;
           (x, cache') = pl_self_attn layer (pl_input_layernorm layer h) cos_sin attention_mask
                           [cache_len..cache_len + seq_dim h - 1] cache;
           post_attn_residual = ta_add ta h (pl_post_attention_layernorm layer x);
           (top_k_index, top_k_weights) = pl_router layer post_attn_residual
       in Inr ((post_attn_residual, Rows top_k_index, top_k_weights), cache',
               map (ObserveOne layer_idx) (concat top_k_index))))"

definition pt_run_shared_expert :: "('t, 'w, 'k, 'p, 'a, 'r) PtLayer list \<Rightarrow> int \<Rightarrow> 't \<Rightarrow> 't result" where
  "pt_run_shared_expert layers layer_idx h =
     ebind (py_index layers layer_idx) (\<lambda>layer. Inr (pl_mlp layer (pl_pre_feedforward_layernorm layer h)))"

definition run_one_expert :: "('t, 'w, 'k, 'p, 'a, 'r) PtLayer \<Rightarrow> 't \<Rightarrow> 'r \<Rightarrow> 'r \<Rightarrow> 't" where
  "run_one_expert layer h gate_up_k down_k =
     (let gu = pl_linear layer h gate_up_k;
          (g, u) = pl_chunk layer gu;
          mid = pl_mul layer (pl_silu layer g) u
      in pl_linear layer mid down_k)"

definition pt_run_selected_experts :: "('t, 'w, 'k, 'p, 'a, 'r) PtLayer list \<Rightarrow> int \<Rightarrow> 't \<Rightarrow> int list \<Rightarrow> (int, 't) dict result" where
  "pt_run_selected_experts layers layer_idx h expert_ids =
     ebind (py_index layers layer_idx) (\<lambda>layer.
       efold (\<lambda>k out.
                ebind (py_index (gate_up_proj (pl_experts layer)) k) (\<lambda>gu.
                ebind (py_index (down_proj (pl_experts layer)) k) (\<lambda>dn.
                  Inr (dput k (run_one_expert layer (pl_pre_feedforward_layernorm_2 layer h) gu dn) out))))
         expert_ids [])"

definition pt_aggregate_position :: "('t, 'w, 'v) TensorArith \<Rightarrow> ('t list \<Rightarrow> (nat \<Rightarrow> 'v) \<Rightarrow> 't) \<Rightarrow> ('t, 'w, 'k, 'p, 'a, 'r) PtLayer \<Rightarrow>
    (int, 't) dict \<Rightarrow> int list \<Rightarrow> (nat \<Rightarrow> 'v) \<Rightarrow> 't \<Rightarrow> 't result" where
  "pt_aggregate_position ta weighted_sum layer expert_outputs ids_list weights shared_out =
     ebind (emap (dindex expert_outputs) ids_list) (\<lambda>stacked.
       if stacked = [] then Inl RuntimeError
       else Inr (ta_add ta (pl_post_feedforward_layernorm_1 layer shared_out)
                   (pl_post_feedforward_layernorm_2 layer (weighted_sum stacked weights))))"

definition pt_aggregate_experts :: "('t, 'w, 'v) TensorArith \<Rightarrow> ('t list \<Rightarrow> (nat \<Rightarrow> 'v) \<Rightarrow> 't) \<Rightarrow>
    ('t, 'w, 'k, 'p, 'a, 'r) PtLayer list \<Rightarrow> int \<Rightarrow> (int, 't) dict \<Rightarrow> top_k \<Rightarrow> 'w \<Rightarrow> 't \<Rightarrow> 't result" where
  "pt_aggregate_experts ta weighted_sum layers layer_idx expert_outputs top_k_ids top_k_weights shared_out =
     aggregate_grid ta (\<lambda>b ll per_pos ids_pos.
         ebind (py_index layers layer_idx) (\<lambda>layer.
           pt_aggregate_position ta weighted_sum layer per_pos ids_pos (ta_weight ta top_k_weights b ll)
             (ta_cell ta shared_out b ll)))
       expert_outputs top_k_ids"

definition pt_apply_outer_decoder_ops :: "('t, 'w, 'v) TensorArith \<Rightarrow> ('t, 'w, 'k, 'p, 'a, 'r) PtLayer list \<Rightarrow> int \<Rightarrow> 't \<Rightarrow> 't \<Rightarrow>
    't result" where
  "pt_apply_outer_decoder_ops ta layers layer_idx block_in residual =
     ebind (py_index layers layer_idx) (\<lambda>layer.
       let out = ta_add ta residual (pl_post_feedforward_layernorm layer block_in)
       in Inr (case pl_layer_scalar layer of None \<Rightarrow> out | Some scale \<Rightarrow> scale out))"

definition PyTorchBackend :: "('t, 'w, 'v) TensorArith \<Rightarrow> ('t list \<Rightarrow> (nat \<Rightarrow> 'v) \<Rightarrow> 't) \<Rightarrow> ('k \<Rightarrow> int) \<Rightarrow> ('t \<Rightarrow> int) \<Rightarrow>
    ('t, 'w, 'k, 'p, 'a, 'r) PtLayer list \<Rightarrow> ('t, 'w, 'k, (string, 'p) dict \<times> (string, 'a) dict option) Backend" where
  "PyTorchBackend ta weighted_sum seq_length seq_dim layers =
     \<lparr>bk_attention_route = pt_run_attention_and_route ta seq_length seq_dim layers,
      bk_shared_expert = pt_run_shared_expert layers, bk_selected_experts = pt_run_selected_experts layers,
      bk_aggregate = pt_aggregate_experts ta weighted_sum layers, bk_outer = pt_apply_outer_decoder_ops ta layers\<rparr>"

text \<open>The held experts that \<^verbatim>\<open>PyTorchBackend\<close> records beside the model.\<close>

record 'r PtBackendState =
  pb_model :: "'r pt_model"
  pb_held_experts_per_layer :: "(int, int list) dict"

definition pt_held_ids :: "'r PtBackendState \<Rightarrow> int \<Rightarrow> int list" where
  "pt_held_ids st layer_idx = dget_default (pb_held_experts_per_layer st) layer_idx []"

definition pt_backend_attach :: "('r \<Rightarrow> nat list) \<Rightarrow> ('r \<Rightarrow> 'r) \<Rightarrow> 'r PtBackendState \<Rightarrow> int \<Rightarrow> int \<Rightarrow> 'r list \<Rightarrow>
    'r PtBackendState result" where
  "pt_backend_attach shape conv st layer_idx expert_id tensors =
     ebind (pt_attach_expert shape conv (pb_model st) layer_idx expert_id tensors) (\<lambda>model.
       Inr \<lparr>pb_model = model,
            pb_held_experts_per_layer = dput layer_idx (sorted_list_of_set (insert expert_id (set (pt_held_ids st layer_idx))))
              (pb_held_experts_per_layer st)\<rparr>)"

definition pt_backend_detach :: "('r \<Rightarrow> 'r) \<Rightarrow> 'r PtBackendState \<Rightarrow> int \<Rightarrow> int \<Rightarrow> 'r PtBackendState result" where
  "pt_backend_detach zeros_like st layer_idx expert_id =
     ebind (pt_detach_expert zeros_like (pb_model st) layer_idx expert_id) (\<lambda>model.
       Inr \<lparr>pb_model = model,
            pb_held_experts_per_layer = dput layer_idx (sorted_list_of_set (set (pt_held_ids st layer_idx) - {expert_id}))
              (pb_held_experts_per_layer st)\<rparr>)"

end
