(* ===== verification/Pt_Engine.thy ===== *)
theory Pt_Engine
  imports Backends "HOL-Library.Char_ord" "HOL-Library.List_Lexorder"
begin

text \<open>
  \<^verbatim>\<open>pytorch_engine.py\<close>: device choice, unwrapping of the model, masks and the loop over atomic
  layers.  The HuggingFace model, its layers and its cache are parameters: \<^verbatim>\<open>hf_seq_length\<close> is the
  cache's \<^verbatim>\<open>get_seq_length\<close>, \<^verbatim>\<open>hf_seq_dim\<close> the second dimension of a hidden state and
  \<^verbatim>\<open>hf_dynamic_cache\<close> a fresh \<^verbatim>\<open>DynamicCache\<close>.
\<close>

section \<open>The model\<close>

record TextConfig =
  tc_layer_types :: "string list"
  tc_final_logit_softcapping :: "rat option"

record PtConfig = TextConfig +
  cf_get_text_config :: "TextConfig option"

record ('t, 'p, 'a, 'k) HFLayer =
  hl_layer_type :: "string option"
  hl_attn_layer_type :: "string option"
  hl_call :: "'t \<Rightarrow> 'p \<Rightarrow> 'a option \<Rightarrow> int list \<Rightarrow> 'k \<Rightarrow> 't \<times> 'k"

record ('t, 'p, 'a, 'k) HFText =
  ht_layers :: "('t, 'p, 'a, 'k) HFLayer list"
  ht_norm :: "'t \<Rightarrow> 't"
  ht_rotary_emb :: "'t \<Rightarrow> int list \<Rightarrow> string \<Rightarrow> 'p"
  ht_embed_tokens :: "int list \<Rightarrow> 't"

text \<open>\<^verbatim>\<open>model.model\<close> is the text model, or a wrapper that has it as \<^verbatim>\<open>language_model\<close>.\<close>

record ('t, 'p, 'a, 'k) HFModel =
  hf_inner :: "('t, 'p, 'a, 'k) HFText"
  hf_language_model :: "('t, 'p, 'a, 'k) HFText option"
  hf_config :: "PtConfig option"
  hf_lm_head :: "'t \<Rightarrow> 't"
  hf_div :: "'t \<Rightarrow> rat \<Rightarrow> 't"
  hf_tanh :: "'t \<Rightarrow> 't"
  hf_mul :: "'t \<Rightarrow> rat \<Rightarrow> 't"
  hf_seq_length :: "'k \<Rightarrow> int"
  hf_seq_dim :: "'t \<Rightarrow> int"
  hf_dynamic_cache :: 'k

definition text_model :: "('t, 'p, 'a, 'k) HFModel \<Rightarrow> ('t, 'p, 'a, 'k) HFText" where
  "text_model m = (case hf_language_model m of None \<Rightarrow> hf_inner m | Some lm \<Rightarrow> lm)"

definition default_device :: "bool \<Rightarrow> bool \<Rightarrow> string" where
  "default_device cuda_available mps_available = (if cuda_available then ''cuda'' else if mps_available then ''mps'' else ''cpu'')"

text \<open>The element type a model is loaded with.\<close>

definition load_dtype :: "bool \<Rightarrow> bool \<Rightarrow> string option \<Rightarrow> string \<Rightarrow> string \<times> string" where
  "load_dtype cuda_available mps_available device dtype =
     (let device = (case device of Some d \<Rightarrow> if d = [] then default_device cuda_available mps_available else d
                    | None \<Rightarrow> default_device cuda_available mps_available)
      in (device, if device = ''mps'' \<and> dtype = ''bfloat16'' then ''float16'' else dtype))"

definition backend_dtype :: "string \<Rightarrow> string" where
  "backend_dtype device = (if device = ''mps'' then ''float16'' else ''bfloat16'')"

text \<open>\<^verbatim>\<open>load_model\<close>: \<^verbatim>\<open>from_pretrained\<close> of the library is given the id, the element type and the
  device.\<close>

definition pt_load_model :: "(string \<Rightarrow> string \<Rightarrow> string \<Rightarrow> 'm result) \<Rightarrow> bool \<Rightarrow> bool \<Rightarrow> string option \<Rightarrow> string \<Rightarrow> string \<Rightarrow> 'm result" where
  "pt_load_model from_pretrained cuda_available mps_available device dtype hf_id =
     (let (device, dtype) = load_dtype cuda_available mps_available device dtype in from_pretrained hf_id dtype device)"

definition pt_embed_tokens :: "('t, 'p, 'a, 'k) HFModel \<Rightarrow> int list \<Rightarrow> 't" where
  "pt_embed_tokens m token_ids = ht_embed_tokens (text_model m) token_ids"

definition pt_make_cache :: "('t, 'p, 'a, 'k) HFModel \<Rightarrow> 'k" where
  "pt_make_cache m = hf_dynamic_cache m"

definition unwrap_config :: "('t, 'p, 'a, 'k) HFModel \<Rightarrow> TextConfig option" where
  "unwrap_config m = map_option (\<lambda>c. case cf_get_text_config c of None \<Rightarrow> TextConfig.truncate c | Some t \<Rightarrow> t) (hf_config m)"

definition config_layer_types :: "('t, 'p, 'a, 'k) HFModel \<Rightarrow> string list" where
  "config_layer_types m = (case unwrap_config m of None \<Rightarrow> [] | Some c \<Rightarrow> tc_layer_types c)"

definition resolve_layer_type :: "('t, 'p, 'a, 'k) HFModel \<Rightarrow> int \<Rightarrow> string result" where
  "resolve_layer_type m layer_idx =
     ebind (py_index (ht_layers (text_model m)) layer_idx) (\<lambda>layer.
       case hl_layer_type layer of
         Some lt \<Rightarrow> Inr lt
       | None \<Rightarrow>
          (case hl_attn_layer_type layer of
             Some lt \<Rightarrow> Inr lt
           | None \<Rightarrow>
               if 0 \<le> layer_idx \<and> layer_idx < int (length (config_layer_types m)) then Inr (config_layer_types m ! nat layer_idx)
               else Inr ''full_attention''))"

definition position_ids :: "('t, 'p, 'a, 'k) HFModel \<Rightarrow> 't \<Rightarrow> 'k \<Rightarrow> int list" where
  "position_ids m h cache = [hf_seq_length m cache..hf_seq_length m cache + hf_seq_dim m h - 1]"

definition unique_types :: "('t, 'p, 'a, 'k) HFModel \<Rightarrow> string list" where
  "unique_types m = (let types = sorted_list_of_set (set (config_layer_types m)) in if types = [] then [''full_attention''] else types)"

definition pt_make_masks :: "('t, 'p, 'a, 'k) HFModel \<Rightarrow> 't \<Rightarrow> 'k \<Rightarrow> (string, 'p) dict \<times> (string, 'a) dict option" where
  "pt_make_masks m h cache =
     (map (\<lambda>layer_type. (layer_type, ht_rotary_emb (text_model m) h (position_ids m h cache) layer_type)) (unique_types m), None)"

definition pt_run_layer_atomic :: "('t, 'p, 'a, 'k) HFModel \<Rightarrow> (string, 'p) dict \<times> (string, 'a) dict option \<Rightarrow> int \<Rightarrow> 't \<Rightarrow> 'k \<Rightarrow> ('t \<times> 'k) result" where
  "pt_run_layer_atomic m masks layer_idx h cache =
     ebind (py_index (ht_layers (text_model m)) layer_idx) (\<lambda>layer.
     ebind (resolve_layer_type m layer_idx) (\<lambda>layer_type.
     ebind (dindex (fst masks) layer_type) (\<lambda>cos_sin.
       let attention_mask = (case snd masks of None \<Rightarrow> None | Some d \<Rightarrow> dget d layer_type)
       in Inr (hl_call layer h cos_sin attention_mask (position_ids m h cache) cache))))"

fun pt_layer_loop :: "('t, 'p, 'a, 'k) HFModel \<Rightarrow> (string, 'p) dict \<times> (string, 'a) dict option \<Rightarrow> (int \<Rightarrow> bool) \<Rightarrow> int list \<Rightarrow> 't \<Rightarrow> 'k \<Rightarrow> ('t \<times> 'k) result" where
  "pt_layer_loop m masks is_split_layer [] h cache = Inr (h, cache)"
| "pt_layer_loop m masks is_split_layer (i # is) h cache =
     (if is_split_layer i then Inl RuntimeError
      else ebind (pt_run_layer_atomic m masks i h cache) (\<lambda>(h', cache'). pt_layer_loop m masks is_split_layer is h' cache'))"

definition pt_run_layers :: "('t, 'p, 'a, 'k) HFModel \<Rightarrow> int \<Rightarrow> int \<Rightarrow> 't \<Rightarrow> 'k \<Rightarrow> (string, 'p) dict \<times> (string, 'a) dict option \<Rightarrow> (int \<Rightarrow> bool) \<Rightarrow> ('t \<times> 'k) result" where
  "pt_run_layers m start_layer end_layer h cache masks is_split_layer =
     pt_layer_loop m masks is_split_layer [start_layer..end_layer - 1] h cache"

definition pt_finalize :: "('t, 'p, 'a, 'k) HFModel \<Rightarrow> 't \<Rightarrow> 't" where
  "pt_finalize m h =
     (let logits = hf_lm_head m (ht_norm (text_model m) h);
          softcap = (case unwrap_config m of None \<Rightarrow> None | Some c \<Rightarrow> tc_final_logit_softcapping c)
      in case softcap of None \<Rightarrow> logits | Some c \<Rightarrow> hf_mul m (hf_tanh m (hf_div m logits c)) c)"

section \<open>Masks\<close>

text \<open>A configuration that names the type of every layer, and layers that do not contradict it.\<close>

definition config_ok :: "('t, 'p, 'a, 'k) HFModel \<Rightarrow> bool" where
  "config_ok m \<longleftrightarrow>
     length (config_layer_types m) = length (ht_layers (text_model m)) \<and>
     (\<forall>layer \<in> set (ht_layers (text_model m)). \<forall>lt. hl_layer_type layer = Some lt \<or> hl_attn_layer_type layer = Some lt \<longrightarrow> lt \<in> set (config_layer_types m))"

lemma py_index_in: "0 \<le> i \<Longrightarrow> i < int (length xs) \<Longrightarrow> py_index xs i = Inr (xs ! nat i)"
  by (simp add: py_index_def py_pos_def)

lemma masks_get: "lt \<in> set (unique_types m) \<Longrightarrow>
    dindex (fst (pt_make_masks m h cache)) lt = Inr (ht_rotary_emb (text_model m) h (position_ids m h cache) lt)"
  by (simp add: pt_make_masks_def dindex_def map_of_map_restrict)

lemma layer_has_mask:
  assumes "config_ok m" and "0 \<le> i" and "i < int (length (ht_layers (text_model m)))"
  shows "\<exists>lt. resolve_layer_type m i = Inr lt \<and> lt \<in> set (unique_types m)"
proof -
  let ?ly = "ht_layers (text_model m) ! nat i"
  have ne: "config_layer_types m \<noteq> []" and len: "i < int (length (config_layer_types m))" using assms by (auto simp: config_ok_def)
  have mem: "?ly \<in> set (ht_layers (text_model m))" using assms by (simp add: nat_less_iff)
  have "set (unique_types m) = set (config_layer_types m)" using ne by (simp add: unique_types_def Let_def)
  moreover from len assms(2) have "config_layer_types m ! nat i \<in> set (config_layer_types m)" by (simp add: nat_less_iff)
  ultimately show ?thesis using assms(1) mem len assms(2) unfolding resolve_layer_type_def py_index_in [OF assms(2,3)] ebind_Inr
    by (auto simp: config_ok_def split: option.split)
qed

text \<open>Rotary embeddings cover every layer.  For a model whose configuration names the type of each
  layer, a pass over a range of layers within the model finds the embedding of each of them in the masks
  of \<^verbatim>\<open>make_masks\<close> and returns, whatever the hidden state and the cache.\<close>

theorem pt_layers_find_their_rotary:
  assumes "config_ok m" and "0 \<le> a" and "b \<le> int (length (ht_layers (text_model m)))" and "\<forall>i. a \<le> i \<and> i < b \<longrightarrow> \<not> is_split i"
  shows "\<exists>r. pt_run_layers m a b h cache (pt_make_masks m h0 cache0) is_split = Inr r"
proof -
  have "\<exists>r. pt_layer_loop m (pt_make_masks m h0 cache0) is_split is h cache = Inr r" if "set is \<subseteq> {a..<b}" for "is"
    using that
  proof (induction "is" arbitrary: h cache)
    case (Cons i "is")
    then have i: "0 \<le> i" "i < int (length (ht_layers (text_model m)))" "\<not> is_split i" using assms by auto
    from layer_has_mask [OF assms(1) i(1,2)] obtain lt where lt: "resolve_layer_type m i = Inr lt" "lt \<in> set (unique_types m)" by blast
    obtain h' c' where "pt_run_layer_atomic m (pt_make_masks m h0 cache0) i h cache = Inr (h', c')"
      unfolding pt_run_layer_atomic_def py_index_in [OF i(1,2)] lt(1) masks_get [OF lt(2)] ebind_Inr Let_def by (metis surj_pair)
    with Cons.IH [of h' c'] Cons.prems i(3) show ?case by simp
  qed simp
  moreover have "set [a..b - 1] \<subseteq> {a..<b}" by auto
  ultimately show ?thesis unfolding pt_run_layers_def by blast
qed

text \<open>The cache reports the length of its layer 0, the default of HuggingFace's \<^verbatim>\<open>get_seq_length\<close>:
  a call of another layer leaves it as it was.\<close>

definition length_of_layer_0 :: "('t, 'p, 'a, 'k) HFModel \<Rightarrow> bool" where
  "length_of_layer_0 m \<longleftrightarrow> (\<forall>i < length (ht_layers (text_model m)). 0 < i \<longrightarrow>
     (\<forall>h p a ps cache. hf_seq_length m (snd (hl_call (ht_layers (text_model m) ! i) h p a ps cache)) = hf_seq_length m cache))"

text \<open>Positions stand still on a shard without layer 0.  A shard whose layers start above 0 runs its
  layers on a token: the masks it computes for the next token carry the positions of this one, because
  the length it asks the cache for is that of a layer it never runs.\<close>

theorem pt_positions_stuck:
  assumes "length_of_layer_0 m" and "0 < a" and "pt_run_layers m a b h cache masks is_split = Inr (h', cache')"
  shows "pt_make_masks m x cache' = pt_make_masks m x cache"
proof -
  have "hf_seq_length m cache' = hf_seq_length m cache"
    if "pt_layer_loop m masks is_split is h cache = Inr (h', cache')" "set is \<subseteq> {1..}" for "is"
    using that
  proof (induction "is" arbitrary: h cache)
    case (Cons i "is")
    from Cons.prems(1) obtain h1 c1 layer p a ps where ly: "py_index (ht_layers (text_model m)) i = Inr layer"
      and c1: "hl_call layer h p a ps cache = (h1, c1)" and rest: "pt_layer_loop m masks is_split is h1 c1 = Inr (h', cache')"
      by (auto simp: pt_run_layer_atomic_def ebind_eq_Inr Let_def split: if_splits)
    from Cons.prems(2) have "1 \<le> i" by simp
    with ly have "nat i < length (ht_layers (text_model m))" "layer = ht_layers (text_model m) ! nat i" "0 < nat i"
      by (auto simp: py_index_def py_pos_def split: if_splits)
    with assms(1) have "hf_seq_length m (snd (hl_call layer h p a ps cache)) = hf_seq_length m cache" unfolding length_of_layer_0_def by blast
    with c1 have "hf_seq_length m c1 = hf_seq_length m cache" by simp
    with Cons.IH [OF rest] Cons.prems(2) show ?case by simp
  qed simp
  with assms(2,3) have "hf_seq_length m cache' = hf_seq_length m cache" by (simp add: pt_run_layers_def subset_iff)
  then show ?thesis by (simp add: pt_make_masks_def position_ids_def)
qed

text \<open>A split layer in the range stops the loop with an error before the layer runs.\<close>

theorem pt_split_layer_refused:
  assumes "a \<le> i" and "i < b" and "is_split i"
  shows "\<exists>e. pt_run_layers m a b h cache masks is_split = Inl e"
proof -
  have "\<exists>e. pt_layer_loop m masks is_split is h cache = Inl e" if "i \<in> set is" for "is"
    using that
  proof (induction "is" arbitrary: h cache)
    case (Cons j "is")
    show ?case
    proof (cases "is_split j")
      case False
      with Cons.prems assms(3) have "i \<in> set is" by auto
      from Cons.IH [OF this] False show ?thesis
        by (cases "pt_run_layer_atomic m masks j h cache") auto
    qed simp
  qed simp
  from this [of "[a..b - 1]"] assms show ?thesis by (simp add: pt_run_layers_def)
qed

section \<open>A model of three layers\<close>

text \<open>The cache is the list of the lengths of its layers.\<close>

definition demo_hf_layer :: "nat \<Rightarrow> (int list, int list, unit, int list) HFLayer" where
  "demo_hf_layer j = \<lparr>hl_layer_type = None, hl_attn_layer_type = (if j = 1 then Some ''full_attention'' else None),
     hl_call = (\<lambda>h p _ _ cache. (map2 (+) h p, cache[j := cache ! j + int (length h)]))\<rparr>"

definition demo_hf :: "(int list, int list, unit, int list) HFModel" where
  "demo_hf = \<lparr>hf_inner = \<lparr>ht_layers = [], ht_norm = id, ht_rotary_emb = (\<lambda>_ ps _. ps), ht_embed_tokens = id\<rparr>,
     hf_language_model = Some \<lparr>ht_layers = map demo_hf_layer [0, 1, 2], ht_norm = id, ht_rotary_emb = (\<lambda>_ ps _. ps), ht_embed_tokens = id\<rparr>,
     hf_config = Some \<lparr>tc_layer_types = [], tc_final_logit_softcapping = None,
       cf_get_text_config = Some \<lparr>tc_layer_types = [''sliding_attention'', ''full_attention'', ''sliding_attention''], tc_final_logit_softcapping = Some 30\<rparr>\<rparr>,
     hf_lm_head = id, hf_div = (\<lambda>h _. h), hf_tanh = id, hf_mul = (\<lambda>h _. h), hf_seq_length = hd, hf_seq_dim = (\<lambda>h. int (length h)), hf_dynamic_cache = [0, 0, 0]\<rparr>"

lemma demo_hf_text: "text_model demo_hf = \<lparr>ht_layers = [demo_hf_layer 0, demo_hf_layer 1, demo_hf_layer 2], ht_norm = id, ht_rotary_emb = (\<lambda>_ ps _. ps), ht_embed_tokens = id\<rparr>"
  by (simp add: text_model_def demo_hf_def)

lemma demo_hf_types: "config_layer_types demo_hf = [''sliding_attention'', ''full_attention'', ''sliding_attention'']"
  by (simp add: config_layer_types_def unwrap_config_def demo_hf_def)

lemma demo_hf_ok: "config_ok demo_hf"
  unfolding config_ok_def demo_hf_text demo_hf_types by (simp add: demo_hf_layer_def)

theorem pt_layers_find_their_rotary_witness:
  "\<exists>r. pt_run_layers demo_hf 0 3 [5, 6] [0, 0, 0] (pt_make_masks demo_hf [5, 6] [0, 0, 0]) (\<lambda>_. False) = Inr r"
  by (rule pt_layers_find_their_rotary [OF demo_hf_ok]) (simp_all add: demo_hf_text)

lemma demo_hf_length: "length_of_layer_0 demo_hf"
proof -
  have "hd (xs[j := v]) = hd xs" if "0 < j" for xs :: "int list" and j v using that by (cases xs; cases j) auto
  then show ?thesis
    unfolding length_of_layer_0_def demo_hf_text by (auto simp: less_Suc_eq numeral_3_eq_3 demo_hf_layer_def demo_hf_def)
qed

theorem pt_positions_stuck_witness:
  "fst (pt_make_masks demo_hf [9] [0, 2, 2]) = [(''full_attention'', [0]), (''sliding_attention'', [0])]"
proof -
  have "pt_run_layers demo_hf 1 3 [5, 6] [0, 0, 0] (pt_make_masks demo_hf [5, 6] [0, 0, 0]) (\<lambda>_. False) = Inr ([5, 8], [0, 2, 2])" by code_simp
  from pt_positions_stuck [OF demo_hf_length _ this, of "[9]"] have "pt_make_masks demo_hf [9] [0, 2, 2] = pt_make_masks demo_hf [9] [0, 0, 0]" by simp
  moreover have "fst (pt_make_masks demo_hf [9] [0, 0, 0]) = [(''full_attention'', [0]), (''sliding_attention'', [0])]" by code_simp
  ultimately show ?thesis by simp
qed

theorem pt_split_layer_refused_witness:
  "\<exists>e. pt_run_layers demo_hf 0 3 [5, 6] [0, 0, 0] (pt_make_masks demo_hf [5, 6] [0, 0, 0]) (\<lambda>i. i = 2) = Inl e"
  by (rule pt_split_layer_refused [where i = 2]) simp_all

end
