(* ===== verification/Effects.thy ===== *)
theory Effects
  imports Prelude
begin

text \<open>
  Code that mutates a state and raises: a program maps a state to a result and the state after it,
  and an exception keeps the state changes made before it.  \<^verbatim>\<open>valid P m Q E\<close> is its
  Hoare triple: from a state in \<^verbatim>\<open>P\<close>, a return satisfies \<^verbatim>\<open>Q\<close> and an
  exception satisfies \<^verbatim>\<open>E\<close>.
\<close>

type_synonym ('s, 'e, 'a) prog = "'s \<Rightarrow> ('e + 'a) \<times> 's"

definition sret :: "'a \<Rightarrow> ('s, 'e, 'a) prog" where
  "sret x s = (Inr x, s)"

definition sthrow :: "'e \<Rightarrow> ('s, 'e, 'a) prog" where
  "sthrow e s = (Inl e, s)"

definition sbind :: "('s, 'e, 'a) prog \<Rightarrow> ('a \<Rightarrow> ('s, 'e, 'b) prog) \<Rightarrow> ('s, 'e, 'b) prog" where
  "sbind m f s = (case m s of (Inl e, s') \<Rightarrow> (Inl e, s') | (Inr x, s') \<Rightarrow> f x s')"

definition sget :: "('s \<Rightarrow> 'a) \<Rightarrow> ('s, 'e, 'a) prog" where
  "sget f s = (Inr (f s), s)"

definition smod :: "('s \<Rightarrow> 's) \<Rightarrow> ('s, 'e, unit) prog" where
  "smod f s = (Inr (), f s)"

text \<open>A result of pure code, its exception passed through \<^verbatim>\<open>wrap\<close>.\<close>

definition slift :: "('f \<Rightarrow> 'e) \<Rightarrow> 'f + 'a \<Rightarrow> ('s, 'e, 'a) prog" where
  "slift wrap r s = (case r of Inl e \<Rightarrow> (Inl (wrap e), s) | Inr x \<Rightarrow> (Inr x, s))"

primrec sfor :: "('x \<Rightarrow> ('s, 'e, unit) prog) \<Rightarrow> 'x list \<Rightarrow> ('s, 'e, unit) prog" where
  "sfor f [] = sret ()"
| "sfor f (x # xs) = sbind (f x) (\<lambda>_. sfor f xs)"

definition swhen :: "bool \<Rightarrow> ('s, 'e, unit) prog \<Rightarrow> ('s, 'e, unit) prog" where
  "swhen b m = (if b then m else sret ())"

text \<open>\<^verbatim>\<open>try: m finally: c\<close> for a clean-up that does not raise.\<close>

definition sfinally :: "('s, 'e, 'a) prog \<Rightarrow> ('s \<Rightarrow> 's) \<Rightarrow> ('s, 'e, 'a) prog" where
  "sfinally m c s = (case m s of (r, s') \<Rightarrow> (r, c s'))"

definition scatch :: "('s, 'e, 'a) prog \<Rightarrow> ('e \<Rightarrow> ('s, 'e, 'a) prog) \<Rightarrow> ('s, 'e, 'a) prog" where
  "scatch m h s = (case m s of (Inl e, s') \<Rightarrow> h e s' | (Inr x, s') \<Rightarrow> (Inr x, s'))"

lemmas prog_defs = sret_def sthrow_def sbind_def sget_def smod_def slift_def swhen_def

section \<open>Triples\<close>

definition valid :: "('s \<Rightarrow> bool) \<Rightarrow> ('s, 'e, 'a) prog \<Rightarrow> ('a \<Rightarrow> 's \<Rightarrow> bool) \<Rightarrow> ('e \<Rightarrow> 's \<Rightarrow> bool) \<Rightarrow> bool" where
  "valid P m Q E \<longleftrightarrow> (\<forall>s. P s \<longrightarrow> (case m s of (Inl e, s') \<Rightarrow> E e s' | (Inr x, s') \<Rightarrow> Q x s'))"

lemma valid_Inr: "valid P m Q E \<Longrightarrow> P s \<Longrightarrow> m s = (Inr x, s') \<Longrightarrow> Q x s'"
  by (fastforce simp: valid_def)

lemma valid_Inl: "valid P m Q E \<Longrightarrow> P s \<Longrightarrow> m s = (Inl e, s') \<Longrightarrow> E e s'"
  by (fastforce simp: valid_def)

lemma valid_snd: "valid I m (\<lambda>_. J) (\<lambda>_. J) \<Longrightarrow> I s \<Longrightarrow> J (snd (m s))"
  by (cases "m s"; cases "fst (m s)") (auto dest: valid_Inr valid_Inl)

lemma valid_weaken:
  assumes "valid P m Q E" and "\<And>s. P' s \<Longrightarrow> P s" and "\<And>x s. Q x s \<Longrightarrow> Q' x s" and "\<And>e s. E e s \<Longrightarrow> E' e s"
  shows "valid P' m Q' E'"
  using assms by (fastforce simp: valid_def split: prod.splits sum.splits)

lemma valid_pre: "valid P m Q E \<Longrightarrow> (\<And>s. P' s \<Longrightarrow> P s) \<Longrightarrow> valid P' m Q E"
  by (rule valid_weaken)

lemma valid_guard: "(G \<Longrightarrow> valid P m Q E) \<Longrightarrow> valid (\<lambda>s. P s \<and> G) m Q E"
  by (auto simp: valid_def)

lemma valid_ex: "(\<And>y. valid (P y) m Q E) \<Longrightarrow> valid (\<lambda>s. \<exists>y. P y s) m Q E"
  by (simp only: valid_def) metis

lemma valid_sret: "(\<And>s. P s \<Longrightarrow> Q x s) \<Longrightarrow> valid P (sret x) Q E"
  by (simp add: valid_def sret_def)

lemma valid_sthrow: "(\<And>s. P s \<Longrightarrow> E e s) \<Longrightarrow> valid P (sthrow e) Q E"
  by (simp add: valid_def sthrow_def)

lemma valid_sget: "(\<And>s. P s \<Longrightarrow> Q (f s) s) \<Longrightarrow> valid P (sget f) Q E"
  by (simp add: valid_def sget_def)

lemma valid_smod: "(\<And>s. P s \<Longrightarrow> Q () (f s)) \<Longrightarrow> valid P (smod f) Q E"
  by (simp add: valid_def smod_def)

lemma valid_slift:
  "(\<And>x s. r = Inr x \<Longrightarrow> P s \<Longrightarrow> Q x s) \<Longrightarrow> (\<And>e s. r = Inl e \<Longrightarrow> P s \<Longrightarrow> E (w e) s) \<Longrightarrow> valid P (slift w r) Q E"
  by (auto simp: valid_def slift_def split: sum.split)

lemma valid_sbind:
  assumes "valid P m R E" and "\<And>x. valid (R x) (f x) Q E"
  shows "valid P (sbind m f) Q E"
  unfolding valid_def sbind_def
proof (intro allI impI)
  fix s assume P: "P s"
  obtain r s' where m: "m s = (r, s')" by (cases "m s")
  show "case (case m s of (Inl e, s') \<Rightarrow> (Inl e, s') | (Inr x, s') \<Rightarrow> f x s') of (Inl e, s') \<Rightarrow> E e s' | (Inr x, s') \<Rightarrow> Q x s'"
  proof (cases r)
    case (Inl e)
    with valid_Inl [OF assms(1) P] m show ?thesis by simp
  next
    case (Inr x)
    with valid_Inr [OF assms(1) P] m assms(2) [of x] show ?thesis by (simp add: valid_def)
  qed
qed

lemma valid_swhen: "(b \<Longrightarrow> valid P m (\<lambda>_. Q) E) \<Longrightarrow> (\<And>s. \<not> b \<Longrightarrow> P s \<Longrightarrow> Q s) \<Longrightarrow> valid P (swhen b m) (\<lambda>_. Q) E"
  by (auto simp: swhen_def intro: valid_sret)

lemma valid_if: "(b \<Longrightarrow> valid P m Q E) \<Longrightarrow> (\<not> b \<Longrightarrow> valid P m' Q E) \<Longrightarrow> valid P (if b then m else m') Q E"
  by simp

lemma valid_sfor:
  assumes "\<And>x. x \<in> set xs \<Longrightarrow> valid I (f x) (\<lambda>_. I) E"
  shows "valid I (sfor f xs) (\<lambda>_. I) E"
  using assms by (induction xs) (auto intro: valid_sret valid_sbind)

lemma valid_sfinally:
  assumes "valid P m (\<lambda>x s. Q x (c s)) (\<lambda>e s. E e (c s))"
  shows "valid P (sfinally m c) Q E"
  using assms by (auto simp: valid_def sfinally_def split: prod.split)

text \<open>A clean-up that keeps what is claimed can be left out.\<close>

lemma valid_finally_last:
  assumes "valid P (sbind m f) Q E" and "\<And>x s. Q x s \<Longrightarrow> Q x (c s)" and "\<And>e s. E e s \<Longrightarrow> E e (c s)"
  shows "valid P (sbind m (\<lambda>x. sfinally (f x) c)) Q E"
  using assms unfolding valid_def sbind_def sfinally_def
  by (fastforce split: prod.splits sum.splits)

lemma valid_scatch:
  assumes "valid P m Q R" and "\<And>e. valid (R e) (h e) Q E"
  shows "valid P (scatch m h) Q E"
  using assms by (fastforce simp: valid_def scatch_def split: prod.split sum.split)

lemma valid_conj: "valid P m Q E \<Longrightarrow> valid P' m Q' E' \<Longrightarrow> valid (\<lambda>s. P s \<and> P' s) m (\<lambda>x s. Q x s \<and> Q' x s) (\<lambda>e s. E e s \<and> E' e s)"
  by (fastforce simp: valid_def split: prod.split sum.split)

lemma sbind_assoc: "sbind (sbind m f) g = sbind m (\<lambda>x. sbind (f x) g)"
  by (auto simp: sbind_def fun_eq_iff split: prod.split sum.split)

text \<open>Running a program step by step.\<close>

lemma sbind_Inr [simp]: "m s = (Inr x, s') \<Longrightarrow> sbind m f s = f x s'"
  by (simp add: sbind_def)

lemma sbind_Inl [simp]: "m s = (Inl e, s') \<Longrightarrow> sbind m f s = (Inl e, s')"
  by (simp add: sbind_def)

lemma sbind_eq_Inr: "sbind m f s = (Inr y, s'') \<longleftrightarrow> (\<exists>x s'. m s = (Inr x, s') \<and> f x s' = (Inr y, s''))"
  by (auto simp: sbind_def split: prod.splits sum.splits)

lemma sbindE:
  assumes "sbind m f s = (Inr y, s'')"
  obtains x s' where "m s = (Inr x, s')" and "f x s' = (Inr y, s'')"
  using assms by (auto simp: sbind_eq_Inr)

lemma slift_eq_Inr: "slift w r s = (Inr y, s') \<longleftrightarrow> r = Inr y \<and> s' = s"
  by (auto simp: slift_def split: sum.split)

lemma srun_simps:
  "sret x s = (Inr x, s)" "sthrow e s = (Inl e, s)" "sget f s = (Inr (f s), s)" "smod g s = (Inr (), g s)"
  "slift w (Inr x) s = (Inr x, s)" "slift w (Inl f') s = (Inl (w f'), s)"
  by (simp_all add: prog_defs)

end
