(* ===== verification/Orchestrator.thy ===== *)
theory Orchestrator
  imports Backends Effects
begin

text \<open>
  \<^verbatim>\<open>expert_orchestrator.py\<close>: one decoder layer with its experts spread over several nodes.

  The fan-out runs in other threads and against the clock; what they do is an argument.  An attempt of
  the retry loop comes with a list of polls, one per round of the waiting loop of
  \<^verbatim>\<open>_gather_with_abort\<close>: the peers the membership observer reports since the last round, the
  futures that are done and whether the deadline has passed.  It also says which futures are done
  after the back-off and whose response entries are visible then, and what the load and owner providers
  answer.  \<^verbatim>\<open>rpc k\<close> is what the call submitted for attempt \<^verbatim>\<open>k\<close> appends to the
  entries and returns.  A list of polls or attempts that runs out is \<^verbatim>\<open>StillWaiting\<close>: the
  code is still in its loop.  The state keeps the local \<^verbatim>\<open>outputs\<close> of
  \<^verbatim>\<open>_phase_b_with_retry\<close> and the caller's \<^verbatim>\<open>provenance_chain\<close>, which an
  exception leaves partly extended.  The random generator keeps its state when routing raises.
  \<^verbatim>\<open>clock n\<close> is the time stamp of the entry at position \<^verbatim>\<open>n\<close> of the chain.
\<close>

declare map_of_eq_Some_iff [simp del] Some_eq_map_of_iff [simp del]

section \<open>The remote call\<close>

definition dupdate :: "('k, 'v) dict \<Rightarrow> ('k, 'v) dict \<Rightarrow> ('k, 'v) dict" where
  "dupdate new d = fold (\<lambda>(k, v). dput k v) new d"

type_synonym 't rpc_reply = "ProvenanceEntryPb list \<times> (int, 't) dict result"

definition expert_request :: "'t TensorOps \<Rightarrow> string \<Rightarrow> int \<Rightarrow> int list \<Rightarrow> 't \<Rightarrow> ProvenanceEntryPb list \<Rightarrow> wire_frame result" where
  "expert_request ops request_id layer_idx expert_ids h provenance_pb_in =
     ebind (describe ops h) (\<lambda>spec.
       Inr (PExpertRequest request_id layer_idx expert_ids spec provenance_pb_in, to_bytes ops h))"

definition parse_response :: "'t TensorOps \<Rightarrow> ('t \<Rightarrow> nat \<Rightarrow> 't result) \<Rightarrow> wire_frame \<Rightarrow> 't rpc_reply" where
  "parse_response ops pick frame =
     (case frame of
        (PExpertResponse _ _ expert_ids spec provenance, raw) \<Rightarrow>
          (provenance,
           ebind (from_bytes ops raw (td_shape spec) (td_dtype spec)) (\<lambda>stacked.
             efold (\<lambda>(j, eid) d. ebind (pick stacked j) (\<lambda>t. Inr (dput eid t d)))
               (zip [0..<length expert_ids] expert_ids) []))
      | _ \<Rightarrow> ([], Inl RuntimeError))"

definition tcp_peer_call :: "'t TensorOps \<Rightarrow> ('t \<Rightarrow> nat \<Rightarrow> 't result) \<Rightarrow> (string, NodeAddress) dict \<Rightarrow>
    (NodeAddress \<Rightarrow> (wire_frame \<Rightarrow> wire_frame result) result) \<Rightarrow> string \<Rightarrow> string \<Rightarrow> int \<Rightarrow> int list \<Rightarrow> 't \<Rightarrow>
    ProvenanceEntryPb list \<Rightarrow> 't rpc_reply" where
  "tcp_peer_call ops pick addresses connect peer request_id layer_idx expert_ids h provenance_pb_in =
     (case ebind (dindex addresses peer) (\<lambda>addr. ebind (connect addr) (\<lambda>exchange.
           ebind (expert_request ops request_id layer_idx expert_ids h provenance_pb_in) exchange)) of
        Inl e \<Rightarrow> ([], Inl e)
      | Inr frame \<Rightarrow> parse_response ops pick frame)"

section \<open>State of the orchestrator\<close>

datatype orch_exn = ExpertRpcFailure string int | Raised py_exn | StillWaiting

text \<open>The fields of \<^verbatim>\<open>ExpertOrchestrator\<close> that never change, with BLAKE2b, the serialisation
  of tensors and the clock; \<^verbatim>\<open>oc_mx_available\<close> says whether
  \<^verbatim>\<open>import mlx.core as mx\<close> succeeded (otherwise \<^verbatim>\<open>mx\<close> is None).\<close>

record ('t, 'w, 'c, 'm) OrchConfig =
  oc_self_shard_id :: string
  oc_owners :: "(string, int list) dict"
  oc_retry_max_attempts :: int
  oc_retry_backoff_ms :: "int list"
  oc_backend :: "('t, 'w, 'c, 'm) Backend"
  oc_heat_observer :: bool
  oc_mx_available :: bool
  oc_blake2b :: "bytes \<Rightarrow> bytes"
  oc_to_bytes :: "'t \<Rightarrow> bytes"
  oc_clock :: "nat \<Rightarrow> py_float"
  oc_rpc :: "int \<Rightarrow> string \<Rightarrow> string \<Rightarrow> int \<Rightarrow> int list \<Rightarrow> 't \<Rightarrow> ProvenanceEntryPb list \<Rightarrow> 't rpc_reply"

record 't Orch =
  os_in_flight :: "(string, (string, bool) dict) dict"
  os_registered :: bool
  os_rng :: rng
  os_outputs :: "(int, 't) dict"
  os_chain :: "ProvenanceEntry list option"
  os_heat_log :: "(int \<times> int list) list"

record poll =
  pl_left :: "string list"
  pl_done :: "string \<Rightarrow> bool"
  pl_expired :: bool

record routing_inputs =
  ri_loads :: "(string, int) dict"
  ri_self_loads :: "(string, int) dict"
  ri_live :: "(int \<Rightarrow> string list) option"

record attempt =
  at_polls :: "poll list"
  at_drained :: "string \<Rightarrow> bool"
  at_visible :: "string \<Rightarrow> bool"
  at_routing :: routing_inputs

type_synonym ('t, 'a) orch_prog = "('t Orch, orch_exn, 'a) prog"

definition notify_peer_left_alive :: "string \<Rightarrow> 't Orch \<Rightarrow> 't Orch" where
  "notify_peer_left_alive peer s =
     s\<lparr>os_in_flight := map (\<lambda>(rid, peers). (rid, map (\<lambda>(p, ev). (p, ev \<or> p = peer)) peers)) (os_in_flight s)\<rparr>"

section \<open>Waiting for the peers\<close>

type_synonym 't futures = "(string, 't rpc_reply) dict"

definition aborted_peer :: "string \<Rightarrow> 't futures \<Rightarrow> 't Orch \<Rightarrow> string option" where
  "aborted_peer request_id remaining s =
     map_option fst (find (\<lambda>(peer, ev). ev \<and> peer \<in> set (dkeys remaining))
       (dget_default (os_in_flight s) request_id []))"

fun collect_done :: "int \<Rightarrow> (string \<Rightarrow> bool) \<Rightarrow> 't futures \<Rightarrow> ('t, 't futures) orch_prog" where
  "collect_done layer_idx finished [] = sret []"
| "collect_done layer_idx finished ((peer, fut) # rest) =
     (if finished peer
      then case snd fut of
             Inl _ \<Rightarrow> sthrow (ExpertRpcFailure peer layer_idx)
           | Inr outs \<Rightarrow> sbind (smod (os_outputs_update (dupdate outs))) (\<lambda>_. collect_done layer_idx finished rest)
      else sbind (collect_done layer_idx finished rest) (\<lambda>left. sret ((peer, fut) # left)))"

fun gather_with_abort :: "string \<Rightarrow> int \<Rightarrow> 't futures \<Rightarrow> poll list \<Rightarrow> ('t, unit) orch_prog" where
  "gather_with_abort request_id layer_idx [] polls = sret ()"
| "gather_with_abort request_id layer_idx (f # fs) [] = sthrow StillWaiting"
| "gather_with_abort request_id layer_idx (f # fs) (p # ps) =
     sbind (smod (fold notify_peer_left_alive (pl_left p))) (\<lambda>_.
     sbind (sget (aborted_peer request_id (f # fs))) (\<lambda>aborted.
     case aborted of
       Some peer \<Rightarrow> sthrow (ExpertRpcFailure peer layer_idx)
     | None \<Rightarrow>
         sbind (collect_done layer_idx (pl_done p) (f # fs)) (\<lambda>remaining.
         case remaining of
           [] \<Rightarrow> sret ()
         | g # gs \<Rightarrow> if pl_expired p then sthrow (ExpertRpcFailure (fst g) layer_idx)
                     else gather_with_abort request_id layer_idx (g # gs) ps)))"

section \<open>Provenance\<close>

definition append_entry :: "('t, 'w, 'c, 'm) OrchConfig \<Rightarrow> OpType \<Rightarrow> int \<Rightarrow> int \<Rightarrow> 't \<Rightarrow> bytes list \<Rightarrow> ('t, unit) orch_prog" where
  "append_entry oc op layer_idx eid out parents =
     sbind (sget os_chain) (\<lambda>c. case c of
       None \<Rightarrow> sret ()
     | Some chain \<Rightarrow>
         sbind (slift Raised (build_entry (oc_blake2b oc) (oc_to_bytes oc) (oc_clock oc (length chain)) (oc_self_shard_id oc)
                 \<lparr>opd_op_type = op, opd_layer_idx = layer_idx, opd_expert_id = eid\<rparr> out parents)) (\<lambda>e.
           smod (os_chain_update (\<lambda>_. Some (chain @ [e])))))"

definition record_expert :: "('t, 'w, 'c, 'm) OrchConfig \<Rightarrow> int \<Rightarrow> bytes option \<Rightarrow> int \<Rightarrow> 't \<Rightarrow> ('t, unit) orch_prog" where
  "record_expert oc layer_idx ar_hash eid out =
     (case ar_hash of
        None \<Rightarrow> sret ()
      | Some h \<Rightarrow> append_entry oc OP_EXPERT layer_idx eid out [h])"

definition merge_entries :: "ProvenanceEntryPb list \<Rightarrow> ('t, unit) orch_prog" where
  "merge_entries pbs =
     sbind (sget os_chain) (\<lambda>c. case c of
       None \<Rightarrow> sret ()
     | Some _ \<Rightarrow> sfor (\<lambda>pb. sbind (slift Raised (entry_from_pb pb)) (\<lambda>e.
         smod (os_chain_update (map_option (\<lambda>chain. chain @ [e]))))) pbs)"

section \<open>Fan-out with retry\<close>

definition route :: "('t, 'w, 'c, 'm) OrchConfig \<Rightarrow> int list \<Rightarrow> (string, int list) dict \<Rightarrow> routing_inputs \<Rightarrow>
    (int \<Rightarrow> string list) option \<Rightarrow> ('t, (string, int list) dict) orch_prog" where
  "route oc ids owners ri live =
     sbind (sget os_rng) (\<lambda>r.
     sbind (slift Raised (group_expert_ids_by_owner_loaded ids owners (ri_loads ri) (oc_self_shard_id oc)
              (dget_default (ri_self_loads ri) (oc_self_shard_id oc) 0) r live)) (\<lambda>(by_owner, r').
     sbind (smod (os_rng_update (\<lambda>_. r'))) (\<lambda>_. sret by_owner)))"

definition run_local :: "('t, 'w, 'c, 'm) OrchConfig \<Rightarrow> int \<Rightarrow> 't \<Rightarrow> bytes option \<Rightarrow> int list \<Rightarrow> ('t, unit) orch_prog" where
  "run_local oc layer_idx post_attn ar_hash ids =
     (if ids = [] then sret ()
      else sbind (slift Raised (bk_selected_experts (oc_backend oc) layer_idx post_attn ids)) (\<lambda>outs.
           sbind (smod (os_outputs_update (dupdate outs))) (\<lambda>_.
           sbind (sget os_chain) (\<lambda>c.
             swhen (c \<noteq> None \<and> ar_hash \<noteq> None)
               (sfor (\<lambda>eid. sbind (sget (\<lambda>s. dindex (os_outputs s) eid)) (\<lambda>r.
                        sbind (slift Raised r) (record_expert oc layer_idx ar_hash eid))) ids)))))"

text \<open>Submitting the calls of one attempt and registering their abort events.\<close>

definition submit :: "('t, 'w, 'c, 'm) OrchConfig \<Rightarrow> int \<Rightarrow> string \<Rightarrow> int \<Rightarrow> 't \<Rightarrow> ProvenanceEntryPb list \<Rightarrow>
    (string, int list) dict \<Rightarrow> ('t, 't futures) orch_prog" where
  "submit oc attempt_no request_id layer_idx post_attn pb_prefix by_owner =
     sbind (swhen (by_owner \<noteq> []) (smod (\<lambda>s. s\<lparr>os_in_flight := dput request_id (map (\<lambda>(peer, _). (peer, False)) by_owner) (os_in_flight s),
                                               os_registered := True\<rparr>))) (\<lambda>_.
       sret (map (\<lambda>(peer, ids). (peer, oc_rpc oc attempt_no peer request_id layer_idx ids post_attn pb_prefix)) by_owner))"

definition backoff :: "int list \<Rightarrow> int \<Rightarrow> int result" where
  "backoff backoff_ms attempts =
     (if backoff_ms = [] then Inr 0
      else py_index backoff_ms (min (attempts - 1) (max 0 (int (length backoff_ms) - 1))))"

definition drain :: "string \<Rightarrow> (string \<Rightarrow> bool) \<Rightarrow> 't futures \<Rightarrow> ('t, unit) orch_prog" where
  "drain failed finished futures =
     sfor (\<lambda>(peer, fut). case snd fut of
             Inl _ \<Rightarrow> sret ()
           | Inr outs \<Rightarrow> swhen (peer \<noteq> failed \<and> finished peer) (smod (os_outputs_update (dupdate outs)))) futures"

definition merge_responses :: "(string \<Rightarrow> bool) \<Rightarrow> 't futures \<Rightarrow> ('t, unit) orch_prog" where
  "merge_responses shown futures = sfor (\<lambda>(peer, fut). swhen (shown peer) (merge_entries (fst fut))) futures"

definition filtered_live :: "string list \<Rightarrow> (int \<Rightarrow> string list) option \<Rightarrow> int \<Rightarrow> string list" where
  "filtered_live excluded live eid =
     filter (\<lambda>s. s \<notin> set excluded) (case live of None \<Rightarrow> [] | Some provider \<Rightarrow> provider eid)"

definition filtered_owners :: "string list \<Rightarrow> (string, int list) dict \<Rightarrow> (string, int list) dict" where
  "filtered_owners excluded owners = filter (\<lambda>(sid, _). sid \<notin> set excluded) owners"

text \<open>The handler of a failed attempt: the futures of the next one, or None when nothing is missing.\<close>

definition next_attempt :: "('t, 'w, 'c, 'm) OrchConfig \<Rightarrow> string \<Rightarrow> int \<Rightarrow> 't \<Rightarrow> bytes option \<Rightarrow> ProvenanceEntryPb list \<Rightarrow>
    int list \<Rightarrow> int \<Rightarrow> string list \<Rightarrow> 't futures \<Rightarrow> attempt \<Rightarrow> string \<Rightarrow> ('t, 't futures option) orch_prog" where
  "next_attempt oc rid l x ar_hash pb_prefix needed attempts excluded futures a failed =
     (if oc_retry_max_attempts oc \<le> attempts then sthrow (ExpertRpcFailure failed l)
      else
        sbind (slift Raised (backoff (oc_retry_backoff_ms oc) attempts)) (\<lambda>_.
        sbind (drain failed (at_drained a) futures) (\<lambda>_.
        sbind (merge_responses (\<lambda>peer. peer \<noteq> failed \<and> at_visible a peer) futures) (\<lambda>_.
        sbind (sget (\<lambda>s. filter (\<lambda>e. e \<notin> set (dkeys (os_outputs s))) needed)) (\<lambda>missing.
        if missing = [] then sret None
        else
          sbind (scatch (route oc missing (filtered_owners (failed # excluded) (oc_owners oc)) (at_routing a)
                          (Some (filtered_live (failed # excluded) (ri_live (at_routing a)))))
                   (\<lambda>e. sthrow (if e = Raised KeyError then ExpertRpcFailure failed l else e))) (\<lambda>by_owner.
          sbind (run_local oc l x ar_hash (dget_default by_owner (oc_self_shard_id oc) [])) (\<lambda>_.
          sbind (submit oc (attempts + 1) rid l x pb_prefix (dpop (oc_self_shard_id oc) by_owner)) (\<lambda>futures'.
          sret (Some futures')))))))))"

text \<open>The loop; \<^verbatim>\<open>attempts\<close> counts the attempt under way.\<close>

fun phase_b_loop :: "('t, 'w, 'c, 'm) OrchConfig \<Rightarrow> string \<Rightarrow> int \<Rightarrow> 't \<Rightarrow> bytes option \<Rightarrow> ProvenanceEntryPb list \<Rightarrow>
    int list \<Rightarrow> int \<Rightarrow> string list \<Rightarrow> 't futures \<Rightarrow> attempt list \<Rightarrow> ('t, unit) orch_prog" where
  "phase_b_loop oc rid l x ar_hash pb_prefix needed attempts excluded futures [] = sthrow StillWaiting"
| "phase_b_loop oc rid l x ar_hash pb_prefix needed attempts excluded futures (a # as) =
     sbind
       (scatch
          (sbind (gather_with_abort rid l futures (at_polls a)) (\<lambda>_.
           sbind (merge_responses (\<lambda>_. True) futures) (\<lambda>_. sret None)))
          (\<lambda>exc. case exc of
             ExpertRpcFailure failed _ \<Rightarrow>
               sbind (next_attempt oc rid l x ar_hash pb_prefix needed attempts excluded futures a failed) (\<lambda>f.
                 sret (map_option (Pair failed) f))
           | _ \<Rightarrow> sthrow exc))
       (\<lambda>again. case again of
          None \<Rightarrow> sret ()
        | Some (failed, futures') \<Rightarrow>
            phase_b_loop oc rid l x ar_hash pb_prefix needed (attempts + 1) (failed # excluded) futures' as)"

definition phase_b_with_retry :: "('t, 'w, 'c, 'm) OrchConfig \<Rightarrow> string \<Rightarrow> int \<Rightarrow> 't \<Rightarrow> int list \<Rightarrow> int list \<Rightarrow> bytes option \<Rightarrow>
    routing_inputs \<Rightarrow> attempt list \<Rightarrow> ('t, (int, 't) dict) orch_prog" where
  "phase_b_with_retry oc rid l x all_ids initial_local_ids ar_hash ri atts =
     (let needed = filter (\<lambda>e. e \<notin> set initial_local_ids) all_ids in
      sbind (sget os_chain) (\<lambda>c.
      sbind (slift Raised (case c of None \<Rightarrow> Inr [] | Some chain \<Rightarrow> emap entry_to_pb chain)) (\<lambda>pb_prefix.
      sbind (route oc needed (oc_owners oc) ri (ri_live ri)) (\<lambda>by_owner.
      sbind (smod (\<lambda>s. s\<lparr>os_outputs := [], os_registered := False\<rparr>)) (\<lambda>_.
      sbind (run_local oc l x ar_hash (dget_default by_owner (oc_self_shard_id oc) [])) (\<lambda>_.
      sfinally
        (sbind (submit oc 1 rid l x pb_prefix (dpop (oc_self_shard_id oc) by_owner)) (\<lambda>futures.
         sbind (phase_b_loop oc rid l x ar_hash pb_prefix needed 1 [] futures atts) (\<lambda>_.
         sget os_outputs)))
        (\<lambda>s. if os_registered s then s\<lparr>os_in_flight := dpop rid (os_in_flight s)\<rparr> else s)))))))"

section \<open>One split layer\<close>

record layer_env =
  le_routing :: routing_inputs
  le_phase_b :: routing_inputs
  le_attempts :: "attempt list"

definition last_hash :: "ProvenanceEntry list \<Rightarrow> bytes list" where
  "last_hash chain = (if chain = [] \<or> pe_hash (last chain) = [] then [] else [pe_hash (last chain)])"

definition phase_a_entries :: "('t, 'w, 'c, 'm) OrchConfig \<Rightarrow> int \<Rightarrow> 't \<Rightarrow> 't \<Rightarrow> ('t, bytes option) orch_prog" where
  "phase_a_entries oc l post_attn shared_out =
     sbind (sget os_chain) (\<lambda>c. case c of
       None \<Rightarrow> sret None
     | Some chain \<Rightarrow>
         sbind (append_entry oc OP_ATTENTION_ROUTE l 0 post_attn (last_hash chain)) (\<lambda>_.
         sbind (sget (\<lambda>s. pe_hash (last (the (os_chain s))))) (\<lambda>ar.
         sbind (append_entry oc OP_SHARED_EXPERT l 0 shared_out [ar]) (\<lambda>_.
         sret (Some ar)))))"

definition aggregate_entry :: "('t, 'w, 'c, 'm) OrchConfig \<Rightarrow> int \<Rightarrow> 't \<Rightarrow> ('t, unit) orch_prog" where
  "aggregate_entry oc l out =
     sbind (sget os_chain) (\<lambda>c. case c of
       None \<Rightarrow> sret ()
     | Some chain \<Rightarrow> append_entry oc OP_AGGREGATE l 0 out
         (map pe_hash (filter (\<lambda>e. op_at OP_SHARED_EXPERT l e \<or> op_at OP_EXPERT l e) chain)))"

text \<open>The observer a node installs is \<^verbatim>\<open>HeatTracker.observe(layer_idx, expert_ids)\<close>: a call with
  three arguments raises.\<close>

definition observe_heat :: "heat_call \<Rightarrow> ('t, unit) orch_prog" where
  "observe_heat call =
     (case call of
        ObserveIds l ids \<Rightarrow> smod (os_heat_log_update (\<lambda>log. log @ [(l, ids)]))
      | ObserveOne _ _ \<Rightarrow> sthrow (Raised TypeError))"

definition run_split_layer :: "('t, 'w, 'c, 'm) OrchConfig \<Rightarrow> string \<Rightarrow> layer_env \<Rightarrow> int \<Rightarrow> 't \<Rightarrow> 'c \<Rightarrow> 'm \<Rightarrow>
    ('t, 't \<times> 'c) orch_prog" where
  "run_split_layer oc rid env l h cache masks =
     sbind (slift Raised (bk_attention_route (oc_backend oc) l h cache masks)) (\<lambda>((post_attn, top_k_ids, top_k_weights), cache', heat_calls).
     sbind (swhen (oc_heat_observer oc) (sfor observe_heat heat_calls)) (\<lambda>_.
     sbind (swhen (\<not> oc_mx_available oc) (sthrow (Raised AttributeError))) (\<lambda>_.
     let all_ids = sorted_list_of_set (set (topk_flat top_k_ids)) in
     sbind (route oc all_ids (oc_owners oc) (le_routing env) (ri_live (le_routing env))) (\<lambda>by_owner.
     let local_ids = dget_default by_owner (oc_self_shard_id oc) [] in
     sbind (slift Raised (bk_shared_expert (oc_backend oc) l post_attn)) (\<lambda>shared_out.
     sbind (slift Raised (bk_selected_experts (oc_backend oc) l post_attn local_ids)) (\<lambda>local_outputs.
     sbind (phase_a_entries oc l post_attn shared_out) (\<lambda>ar_hash.
     sbind (sfor (\<lambda>(eid, out). record_expert oc l ar_hash eid out) local_outputs) (\<lambda>_.
     sbind (phase_b_with_retry oc rid l post_attn all_ids local_ids ar_hash (le_phase_b env) (le_attempts env)) (\<lambda>remote_outputs.
     sbind (slift Raised (bk_aggregate (oc_backend oc) l (dupdate remote_outputs local_outputs) top_k_ids top_k_weights shared_out)) (\<lambda>h1_plus_h2.
     sbind (slift Raised (bk_outer (oc_backend oc) l h1_plus_h2 post_attn)) (\<lambda>out.
     sbind (aggregate_entry oc l out) (\<lambda>_.
     sret (out, cache')))))))))))))"

end
