(* ===== verification/Orch_Facts.thy ===== *)
theory Orch_Facts
  imports Orchestrator
begin

text \<open>
  What the fan-out of \<^verbatim>\<open>expert_orchestrator.py\<close> guarantees, as triples of its operations.
\<close>

declare map_of_eq_Some_iff [simp del] Some_eq_map_of_iff [simp del]

section \<open>Frames\<close>

text \<open>The part of the state that the provenance bookkeeping does not touch.\<close>

definition oview :: "'t Orch \<Rightarrow> (int, 't) dict \<times> (string, (string, bool) dict) dict \<times> bool \<times> bool" where
  "oview s = (os_outputs s, os_in_flight s, os_registered s, os_chain s = None)"

lemma oview_simps [simp]:
  "oview (s\<lparr>os_rng := r\<rparr>) = oview s" "oview (s\<lparr>os_heat_log := g\<rparr>) = oview s"
  "oview (os_chain_update (map_option f) s) = oview s"
  by (simp_all add: oview_def)

definition keeps_view :: "('t, 'a) orch_prog \<Rightarrow> bool" where
  "keeps_view m \<longleftrightarrow> (\<forall>P. valid (\<lambda>s. P (oview s)) m (\<lambda>_ s. P (oview s)) (\<lambda>e s. P (oview s) \<and> os_chain s \<noteq> None \<and> (\<exists>x. e = Raised x)))"

lemma keeps_viewI:
  "(\<And>P. valid (\<lambda>s. P (oview s)) m (\<lambda>_ s. P (oview s)) (\<lambda>e s. P (oview s) \<and> os_chain s \<noteq> None \<and> (\<exists>x. e = Raised x))) \<Longrightarrow>
    keeps_view m"
  by (simp add: keeps_view_def)

lemma keeps_viewD:
  "keeps_view m \<Longrightarrow> valid (\<lambda>s. P (oview s)) m (\<lambda>_ s. P (oview s)) (\<lambda>e s. P (oview s) \<and> os_chain s \<noteq> None \<and> (\<exists>x. e = Raised x))"
  by (simp add: keeps_view_def)

lemma keeps_view_sbind: "keeps_view m \<Longrightarrow> (\<And>x. keeps_view (f x)) \<Longrightarrow> keeps_view (sbind m f)"
  by (rule keeps_viewI, rule valid_sbind) (erule keeps_viewD, rule keeps_viewD)

lemma keeps_view_sfor: "(\<And>x. x \<in> set xs \<Longrightarrow> keeps_view (f x)) \<Longrightarrow> keeps_view (sfor f xs)"
  by (rule keeps_viewI, rule valid_sfor) (blast intro: keeps_viewD)

lemma keeps_view_sret [simp]: "keeps_view (sret x)"
  by (rule keeps_viewI, rule valid_sret)

lemma keeps_view_swhen [simp]: "(b \<Longrightarrow> keeps_view m) \<Longrightarrow> keeps_view (swhen b m)"
  by (simp add: swhen_def)

lemma append_entry_view [simp]: "keeps_view (append_entry oc op l e out ps)"
  by (rule keeps_viewI) (auto simp: valid_def append_entry_def oview_def prog_defs split: option.splits sum.splits prod.splits)

lemma record_expert_view [simp]: "keeps_view (record_expert oc l ar e out)"
  by (simp add: record_expert_def split: option.split)

lemma merge_entries_view [simp]: "keeps_view (merge_entries pbs)"
proof (rule keeps_viewI)
  fix P :: "(int, 'a) dict \<times> (string, (string, bool) dict) dict \<times> bool \<times> bool \<Rightarrow> bool"
  let ?E = "\<lambda>e s. P (oview s) \<and> os_chain s \<noteq> None \<and> (\<exists>x. e = Raised x)"
  have "valid (\<lambda>s. P (oview s) \<and> os_chain s \<noteq> None) (sbind (slift Raised (entry_from_pb pb)) (\<lambda>e.
      smod (os_chain_update (map_option (\<lambda>chain. chain @ [e]))))) (\<lambda>_ s. P (oview s) \<and> os_chain s \<noteq> None) ?E" for pb
    by (auto simp: valid_def prog_defs oview_def split: sum.splits)
  from valid_sfor [OF this]
  have "valid (\<lambda>s. P (oview s) \<and> Some a = os_chain s) (sfor (\<lambda>pb. sbind (slift Raised (entry_from_pb pb)) (\<lambda>e.
       smod (os_chain_update (map_option (\<lambda>chain. chain @ [e]))))) pbs) (\<lambda>_ s. P (oview s)) ?E" for a
    by (rule valid_weaken) (auto simp: eq_commute [of "Some a"])
  then show "valid (\<lambda>s. P (oview s)) (merge_entries pbs) (\<lambda>_ s. P (oview s)) ?E"
    unfolding merge_entries_def
    by (intro valid_sbind [where R = "\<lambda>c s. P (oview s) \<and> c = os_chain s"] valid_sget)
       (auto intro!: valid_sret split: option.split)
qed

lemma merge_responses_view [simp]: "keeps_view (merge_responses shown futs)"
  unfolding merge_responses_def by (rule keeps_view_sfor) auto

section \<open>Outputs\<close>

definition outs_ok :: "(int \<Rightarrow> 't) \<Rightarrow> (int, 't) dict \<Rightarrow> bool" where
  "outs_ok F d \<longleftrightarrow> (\<forall>(e, v) \<in> set d. v = F e)"

definition computes :: "(int \<Rightarrow> 't) \<Rightarrow> int list \<Rightarrow> (int, 't) dict \<Rightarrow> bool" where
  "computes F ids outs \<longleftrightarrow> set (dkeys outs) = set ids \<and> outs_ok F outs"

lemma computes_self: "outs_ok F d \<Longrightarrow> computes F (dkeys d) d"
  by (simp add: computes_def)

lemma dget_dupdate_computes:
  assumes "computes F ids outs"
  shows "dget (dupdate outs d) e = (if e \<in> set ids then Some (F e) else dget d e)"
proof -
  have "map_of (rev outs) e = (if e \<in> set ids then Some (F e) else None)"
  proof (cases "e \<in> set ids")
    case True
    then have "e \<in> fst ` set (rev outs)" using assms by (simp add: computes_def)
    then obtain v where v: "map_of (rev outs) e = Some v" by (metis map_of_eq_None_iff not_None_eq)
    from map_of_SomeD [OF v] assms have "v = F e" by (auto simp: computes_def outs_ok_def)
    with True v show ?thesis by simp
  next
    case False
    then have "e \<notin> fst ` set (rev outs)" using assms by (simp add: computes_def)
    with False show ?thesis using map_of_eq_None_iff [of "rev outs" e] by simp
  qed
  then show ?thesis unfolding dupdate_def dget_fold_dput by (simp add: map_add_def)
qed

lemma set_dupdate: "set (dupdate new d) \<subseteq> set new \<union> set d"
proof -
  have put: "set (dput k v d) \<subseteq> insert (k, v) (set d)" for k :: 'a and v :: 'b and d by (induction d) auto
  show ?thesis unfolding dupdate_def
  proof (induction new arbitrary: d)
    case (Cons x new)
    from Cons [of "dput (fst x) (snd x) d"] put [of "fst x" "snd x" d] show ?case by (auto simp: case_prod_beta)
  qed simp
qed

lemma outs_ok_dupdate:
  assumes "computes F ids outs" and "outs_ok F d"
  shows "outs_ok F (dupdate outs d) \<and> set (dkeys (dupdate outs d)) = set ids \<union> set (dkeys d)"
proof -
  have "e \<in> set (dkeys (dupdate outs d)) \<longleftrightarrow> e \<in> set ids \<union> set (dkeys d)" for e
    using dget_None_iff [of "dupdate outs d" e] dget_None_iff [of d e] dget_dupdate_computes [OF assms(1), of d e]
    by (auto split: if_splits)
  then have "set (dkeys (dupdate outs d)) = set ids \<union> set (dkeys d)" by (rule set_eqI)
  moreover have "outs_ok F (dupdate outs d)" using assms set_dupdate [of outs d] by (auto simp: outs_ok_def computes_def)
  ultimately show ?thesis by blast
qed

lemma outs_ok_get: "outs_ok F d \<Longrightarrow> e \<in> set (dkeys d) \<Longrightarrow> dget d e = Some (F e)"
  using dkey_get [of e d] map_of_SomeD [of d e] by (auto simp: outs_ok_def)

section \<open>Waiting\<close>

text \<open>\<^verbatim>\<open>idf p\<close> are the experts asked of peer \<^verbatim>\<open>p\<close>; \<^verbatim>\<open>B\<close> are the peers that may
  fail.\<close>

definition futs_ok :: "(int \<Rightarrow> 't) \<Rightarrow> (string \<Rightarrow> int list) \<Rightarrow> 't futures \<Rightarrow> bool" where
  "futs_ok F idf futs \<longleftrightarrow> (\<forall>(p, fut) \<in> set futs. \<forall>outs. snd fut = Inr outs \<longrightarrow> computes F (idf p) outs)"

definition due :: "(string \<Rightarrow> int list) \<Rightarrow> int set \<Rightarrow> 't futures \<Rightarrow> (int, 't) dict \<Rightarrow> bool" where
  "due idf N futs d \<longleftrightarrow> (\<forall>e \<in> N. e \<in> set (dkeys d) \<or> (\<exists>p \<in> set (dkeys futs). e \<in> set (idf p)))"

definition events_ok :: "string set \<Rightarrow> string \<Rightarrow> (string, (string, bool) dict) dict \<Rightarrow> bool" where
  "events_ok B rid m \<longleftrightarrow> (\<forall>(p, ev) \<in> set (dget_default m rid []). ev \<longrightarrow> p \<in> B)"

definition polls_ok :: "string set \<Rightarrow> poll list \<Rightarrow> bool" where
  "polls_ok B polls \<longleftrightarrow>
     (\<forall>q \<in> set polls. set (pl_left q) \<subseteq> B \<and> (pl_expired q \<longrightarrow> (\<forall>p. p \<notin> B \<longrightarrow> pl_done q p))) \<and>
     (\<exists>q \<in> set polls. pl_expired q)"

definition peers_ok :: "string set \<Rightarrow> 't futures \<Rightarrow> bool" where
  "peers_ok B futs \<longleftrightarrow> (\<forall>(p, fut) \<in> set futs. p \<notin> B \<longrightarrow> returns (snd fut))"

lemma due_mono: "due idf M futs d \<Longrightarrow> N \<subseteq> M \<Longrightarrow> due idf N futs d"
  by (auto simp: due_def)

text \<open>What holds while waiting; \<^verbatim>\<open>T\<close> says that the environment is within the faults tolerated.\<close>

definition waiting :: "bool \<Rightarrow> (int \<Rightarrow> 't) \<Rightarrow> string set \<Rightarrow> string \<Rightarrow> 't Orch \<Rightarrow> bool" where
  "waiting T F B rid s \<longleftrightarrow> outs_ok F (os_outputs s) \<and> (T \<longrightarrow> os_chain s = None \<and> events_ok B rid (os_in_flight s))"

lemma waiting_outputs:
  assumes "waiting T F B rid s" and "computes F ids outs"
  shows "waiting T F B rid (os_outputs_update (dupdate outs) s)"
    and "set (dkeys (dupdate outs (os_outputs s))) = set ids \<union> set (dkeys (os_outputs s))"
  using assms outs_ok_dupdate [OF assms(2)] by (auto simp: waiting_def)

lemma collect_done_spec:
  assumes "futs_ok F idf futs"
  shows "valid (\<lambda>s. waiting T F B rid s \<and> due idf N futs (os_outputs s)) (collect_done l fin futs)
    (\<lambda>rem s. waiting T F B rid s \<and> due idf N rem (os_outputs s) \<and> rem = filter (\<lambda>(p, _). \<not> fin p) futs)
    (\<lambda>e s. waiting T F B rid s \<and> (\<exists>p fut. e = ExpertRpcFailure p l \<and> (p, fut) \<in> set futs \<and> \<not> returns (snd fut)))"
  using assms
proof (induction futs arbitrary: N)
  case (Cons x rest)
  obtain p fut where x: "x = (p, fut)" by (cases x)
  have rest: "futs_ok F idf rest" using Cons.prems by (simp add: futs_ok_def)
  show ?case
  proof (cases "fin p")
    case False
    have "valid (\<lambda>s. waiting T F B rid s \<and> due idf N (x # rest) (os_outputs s)) (collect_done l fin rest)
      (\<lambda>rem s. waiting T F B rid s \<and> due idf N (x # rem) (os_outputs s) \<and> rem = filter (\<lambda>(p, _). \<not> fin p) rest)
      (\<lambda>e s. waiting T F B rid s \<and> (\<exists>p fut. e = ExpertRpcFailure p l \<and> (p, fut) \<in> set (x # rest) \<and> \<not> returns (snd fut)))"
      by (rule valid_weaken [OF Cons.IH [OF rest, of "{e \<in> N. e \<notin> set (idf p)}"]]) (auto simp: due_def x)
    then show ?thesis unfolding x collect_done.simps
      by (simp add: False, intro valid_sbind valid_sret) auto
  next
    case True
    show ?thesis
    proof (cases "snd fut")
      case (Inl e)
      then have "\<not> returns (snd fut)" by (simp add: returns_def)
      then have "\<exists>p' fut'. ExpertRpcFailure p l = ExpertRpcFailure p' l \<and> (p', fut') \<in> set ((p, fut) # rest) \<and> \<not> returns (snd fut')"
        by (intro exI [of _ p] exI [of _ fut]) simp
      with Inl True show ?thesis unfolding x collect_done.simps by (simp only: if_True sum.case, intro valid_sthrow) blast
    next
      case (Inr outs)
      then have c: "computes F (idf p) outs" using Cons.prems by (auto simp: futs_ok_def x)
      have IH: "valid (\<lambda>s. waiting T F B rid s \<and> due idf N rest (os_outputs s)) (collect_done l fin rest)
      (\<lambda>rem s. waiting T F B rid s \<and> due idf N rem (os_outputs s) \<and> rem = filter (\<lambda>(p, _). \<not> fin p) (x # rest))
      (\<lambda>e s. waiting T F B rid s \<and> (\<exists>p fut. e = ExpertRpcFailure p l \<and> (p, fut) \<in> set (x # rest) \<and> \<not> returns (snd fut)))"
        by (rule valid_weaken [OF Cons.IH [OF rest]]) (auto simp: True x)
      have up: "due idf N rest (dupdate outs (os_outputs s))" if "waiting T F B rid s" "due idf N (x # rest) (os_outputs s)" for s
        using that waiting_outputs(2) [OF that(1) c] by (auto simp: due_def x)
      show ?thesis unfolding x collect_done.simps Inr
        using IH waiting_outputs(1) [OF _ c] up
        by (simp add: True x, intro valid_sbind valid_smod) auto
    qed
  qed
qed (simp add: valid_sret)

lemma events_notify: "dget_default (os_in_flight (notify_peer_left_alive p s)) rid [] =
    map (\<lambda>(q, ev). (q, ev \<or> q = p)) (dget_default (os_in_flight s) rid [])"
proof -
  have "dget (map (\<lambda>(r, peers). (r, g peers)) m) rid = map_option g (dget m rid)"
    for g and m :: "(string, (string, bool) dict) dict" by (induction m) auto
  from this [of "map (\<lambda>(q, ev). (q, ev \<or> q = p))" "os_in_flight s"] show ?thesis
    by (cases "dget (os_in_flight s) rid") (simp_all add: notify_peer_left_alive_def dget_default_def)
qed

lemma waiting_notify:
  assumes "waiting T F B rid s" and "T \<Longrightarrow> set ps \<subseteq> B"
  shows "waiting T F B rid (fold notify_peer_left_alive ps s) \<and>
    os_outputs (fold notify_peer_left_alive ps s) = os_outputs s"
  using assms
proof (induction ps arbitrary: s)
  case (Cons p ps)
  have same: "os_outputs (notify_peer_left_alive p s) = os_outputs s" "os_chain (notify_peer_left_alive p s) = os_chain s"
    by (simp_all add: notify_peer_left_alive_def)
  have "events_ok B rid (os_in_flight (notify_peer_left_alive p s))" if T
    using Cons.prems that unfolding events_ok_def events_notify waiting_def by auto
  with Cons.prems(1) same have "waiting T F B rid (notify_peer_left_alive p s)" by (simp add: waiting_def)
  with Cons.IH [of "notify_peer_left_alive p s"] Cons.prems(2) same show ?case by simp
qed simp

lemma find_in: "find P xs = Some x \<Longrightarrow> x \<in> set xs \<and> P x"
  by (induction xs) (auto split: if_splits)

lemma aborted_peer_in:
  assumes "aborted_peer rid futs s = Some p"
  shows "p \<in> set (dkeys futs)" and "events_ok B rid (os_in_flight s) \<Longrightarrow> p \<in> B"
  using assms by (auto simp: aborted_peer_def events_ok_def dest!: find_in)

text \<open>The exception that ends the waiting: a failure of one of the awaited peers, and of one that may
  fail when the environment is as tolerated.\<close>

definition blames :: "bool \<Rightarrow> string set \<Rightarrow> int \<Rightarrow> 't futures \<Rightarrow> orch_exn \<Rightarrow> bool" where
  "blames T B l futs e \<longleftrightarrow> (\<exists>p \<in> set (dkeys futs). e = ExpertRpcFailure p l \<and> (T \<longrightarrow> p \<in> B)) \<or> e = StillWaiting \<and> \<not> T"

lemma gather_spec:
  assumes "futs_ok F idf futs" and "T \<Longrightarrow> peers_ok B futs \<and> polls_ok B polls"
  shows "valid (\<lambda>s. waiting T F B rid s \<and> due idf N futs (os_outputs s)) (gather_with_abort rid l futs polls)
    (\<lambda>_ s. waiting T F B rid s \<and> N \<subseteq> set (dkeys (os_outputs s)))
    (\<lambda>e s. waiting T F B rid s \<and> blames T B l futs e)"
  using assms
proof (induction rid l futs polls rule: gather_with_abort.induct)
  case (1 rid l polls)
  then show ?case by (auto simp: due_def intro!: valid_sret)
next
  case (2 rid l f fs)
  then show ?case by (auto simp: blames_def polls_ok_def intro!: valid_sthrow)
next
  case (3 rid l f fs q qs)
  let ?futs = "f # fs"
  let ?P = "\<lambda>s. waiting T F B rid s \<and> due idf N ?futs (os_outputs s)"
  let ?Q = "\<lambda>_ s. waiting T F B rid s \<and> N \<subseteq> set (dkeys (os_outputs s))"
  let ?E = "\<lambda>e s. waiting T F B rid s \<and> blames T B l ?futs e"
  have notify: "valid ?P (smod (fold notify_peer_left_alive (pl_left q))) (\<lambda>_. ?P) ?E"
    using 3(3) waiting_notify [of T F B rid _ "pl_left q"] by (intro valid_smod) (auto simp: polls_ok_def)
  have abort: "valid ?P (sget (aborted_peer rid ?futs)) (\<lambda>a s. ?P s \<and> a = aborted_peer rid ?futs s) ?E"
    by (rule valid_sget) simp
  have throw: "valid (\<lambda>s. ?P s \<and> Some p = aborted_peer rid ?futs s) (sthrow (ExpertRpcFailure p l)) ?Q ?E" for p
  proof (rule valid_sthrow)
    fix s :: "'a Orch"
    assume s: "?P s \<and> Some p = aborted_peer rid ?futs s"
    then have "aborted_peer rid ?futs s = Some p" by simp
    note in_futs = aborted_peer_in [OF this]
    from s have "T \<Longrightarrow> events_ok B rid (os_in_flight s)" by (simp add: waiting_def)
    with in_futs s show "?E (ExpertRpcFailure p l) s" unfolding blames_def by blast
  qed
  have collect: "valid (\<lambda>s. ?P s \<and> None = aborted_peer rid ?futs s) (collect_done l (pl_done q) ?futs)
      (\<lambda>rem s. waiting T F B rid s \<and> due idf N rem (os_outputs s) \<and> rem = filter (\<lambda>(p, _). \<not> pl_done q p) ?futs) ?E"
    using 3(3)
    by (intro valid_weaken [OF collect_done_spec [OF 3(2), where T = T and B = B and rid = rid and N = N]])
       (force simp: blames_def peers_ok_def)+
  have next_round: "valid (\<lambda>s. waiting T F B rid s \<and> due idf N rem (os_outputs s) \<and> rem = filter (\<lambda>(p, _). \<not> pl_done q p) ?futs)
      (case rem of [] \<Rightarrow> sret () | g # gs \<Rightarrow> if pl_expired q then sthrow (ExpertRpcFailure (fst g) l)
        else gather_with_abort rid l (g # gs) qs) ?Q ?E" for rem
  proof (cases "rem = filter (\<lambda>(p, _). \<not> pl_done q p) ?futs")
    case True
    have sub: "set rem \<subseteq> set ?futs" by (auto simp: True)
    show ?thesis
    proof (cases rem)
      case Nil
      then show ?thesis by (auto simp: due_def intro!: valid_sret)
    next
      case (Cons g gs)
      have "g \<in> set (filter (\<lambda>(p, _). \<not> pl_done q p) ?futs)" unfolding True [symmetric] Cons by simp
      then have g: "g \<in> set ?futs" "\<not> pl_done q (fst g)" unfolding set_filter by (auto split: prod.splits)
      show ?thesis
      proof (cases "pl_expired q")
        case True
        have "blames T B l ?futs (ExpertRpcFailure (fst g) l)"
          using g True 3(3) by (auto simp: blames_def polls_ok_def)
        with True Cons show ?thesis by (auto intro!: valid_sthrow)
      next
        case False
        have "futs_ok F idf (g # gs)" using 3(2) sub Cons by (auto simp: futs_ok_def)
        moreover have "T \<Longrightarrow> peers_ok B (g # gs) \<and> polls_ok B qs"
          using 3(3) sub Cons False by (auto simp: peers_ok_def polls_ok_def)
        ultimately have "valid (\<lambda>s. waiting T F B rid s \<and> due idf N (g # gs) (os_outputs s)) (gather_with_abort rid l (g # gs) qs)
          ?Q (\<lambda>e s. waiting T F B rid s \<and> blames T B l (g # gs) e)"
          using 3(1) False Cons by blast
        then have "valid (\<lambda>s. waiting T F B rid s \<and> due idf N rem (os_outputs s) \<and> rem = filter (\<lambda>(p, _). \<not> pl_done q p) ?futs)
            (gather_with_abort rid l (g # gs) qs) ?Q ?E"
          by (rule valid_weaken) (use sub Cons in \<open>auto simp: blames_def\<close>)
        with False Cons show ?thesis by simp
      qed
    qed
  qed (simp add: valid_def)
  have react: "valid (\<lambda>s. ?P s \<and> a = aborted_peer rid ?futs s)
      (case a of Some peer \<Rightarrow> sthrow (ExpertRpcFailure peer l)
       | None \<Rightarrow> sbind (collect_done l (pl_done q) ?futs) (\<lambda>remaining. case remaining of [] \<Rightarrow> sret ()
           | g # gs \<Rightarrow> if pl_expired q then sthrow (ExpertRpcFailure (fst g) l) else gather_with_abort rid l (g # gs) qs)) ?Q ?E" for a
  proof (cases a)
    case None
    show ?thesis unfolding None option.case by (rule valid_sbind [OF collect next_round])
  next
    case (Some p)
    show ?thesis unfolding Some option.case by (rule throw)
  qed
  show ?case unfolding gather_with_abort.simps
    by (rule valid_sbind [OF notify valid_sbind [OF abort react]])
qed

section \<open>Routing and local experts\<close>

lemma route_spec:
  "valid (\<lambda>s. P (oview s)) (route oc ids owners ri live)
     (\<lambda>d s. P (oview s) \<and> groups_ok (\<lambda>e owner. owner \<in> set (candidates owners live e)) ids d)
     (\<lambda>e s. P (oview s) \<and> e = Raised KeyError \<and> (\<exists>i \<in> set ids. candidates owners live i = []))"
  unfolding valid_def
proof (intro allI impI)
  fix s :: "'a Orch" assume P: "P (oview s)"
  let ?r = "group_expert_ids_by_owner_loaded ids owners (ri_loads ri) (oc_self_shard_id oc)
              (dget_default (ri_self_loads ri) (oc_self_shard_id oc) 0) (os_rng s) live"
  have "if \<forall>e \<in> set ids. candidates owners live e \<noteq> [] then \<exists>d r'. ?r = Inr (d, r') \<and>
     groups_ok (\<lambda>e owner. owner \<in> set (candidates owners live e)) ids d else ?r = Inl KeyError"
    by (rule loaded_routing_partitions)
  then show "case route oc ids owners ri live s of
      (Inl e, s') \<Rightarrow> P (oview s') \<and> e = Raised KeyError \<and> (\<exists>i \<in> set ids. candidates owners live i = [])
    | (Inr d, s') \<Rightarrow> P (oview s') \<and> groups_ok (\<lambda>e owner. owner \<in> set (candidates owners live e)) ids d"
    using P by (cases ?r) (auto simp: route_def prog_defs split: if_splits)
qed

lemma groups_split:
  assumes "groups_ok own ids d"
  shows "set (dget_default d self []) \<subseteq> {e \<in> set ids. own e self}"
    and "\<forall>e \<in> set ids. e \<in> set (dget_default d self []) \<or> (\<exists>p \<in> set (dkeys (dpop self d)). e \<in> set (dget_default d p []))"
    and "\<forall>p \<in> set (dkeys (dpop self d)). p \<noteq> self \<and> set (dget_default d p []) \<subseteq> {e \<in> set ids. own e p} \<and> dget_default d p [] \<noteq> []"
    and "\<forall>(p, es) \<in> set (dpop self d). es = dget_default d p []"
proof -
  have dist: "distinct (dkeys d)" using assms by (simp add: groups_ok_def)
  have each: "set (dget_default d p []) \<subseteq> {e \<in> set ids. own e p} \<and> (p \<in> set (dkeys d) \<longrightarrow> dget_default d p [] \<noteq> [])" for p
  proof (cases "dget d p")
    case (Some es)
    with assms have "subseq es ids" "\<forall>e \<in> set es. own e p" "es \<noteq> []" by (auto simp: groups_ok_def)
    with Some show ?thesis by (auto dest: list_emb_set)
  next
    case None
    then show ?thesis by (auto simp: dget_None_iff)
  qed
  then show "set (dget_default d self []) \<subseteq> {e \<in> set ids. own e self}" by blast
  have keys: "p \<in> set (dkeys (dpop self d)) \<longleftrightarrow> p \<noteq> self \<and> p \<in> set (dkeys d)" for p
    by (auto simp: delete_keys)
  with each show "\<forall>p \<in> set (dkeys (dpop self d)). p \<noteq> self \<and> set (dget_default d p []) \<subseteq> {e \<in> set ids. own e p} \<and> dget_default d p [] \<noteq> []"
    by blast
  have "set ids = set (concat (dvalues d))" using assms mset_eq_setD unfolding groups_ok_def by metis
  then have "\<exists>p \<in> set (dkeys d). e \<in> set (dget_default d p [])" if "e \<in> set ids" for e
  proof -
    from that \<open>set ids = _\<close> obtain p es where es: "(p, es) \<in> set d" "e \<in> set es" by auto
    then have get: "dget d p = Some es" using dget_in_set [OF dist] by blast
    show ?thesis by (rule bexI [OF _ dget_key [OF get]]) (simp add: get es)
  qed
  with keys show "\<forall>e \<in> set ids. e \<in> set (dget_default d self []) \<or> (\<exists>p \<in> set (dkeys (dpop self d)). e \<in> set (dget_default d p []))"
    by blast
  have "dget (dpop self d) p = Some es" if "(p, es) \<in> set (dpop self d)" for p es
    using that dget_in_set [OF distinct_dkeys_dpop [OF dist], of p es self] by blast
  then show "\<forall>(p, es) \<in> set (dpop self d). es = dget_default d p []"
    by (force simp: dget_default_def split: if_splits)
qed

lemma waiting_frame:
  assumes "keeps_view m"
  shows "valid (\<lambda>s. waiting T F B rid s \<and> K \<subseteq> set (dkeys (os_outputs s))) m
    (\<lambda>_ s. waiting T F B rid s \<and> K \<subseteq> set (dkeys (os_outputs s)))
    (\<lambda>e s. waiting T F B rid s \<and> \<not> T \<and> (\<exists>x. e = Raised x))"
  using keeps_viewD [OF assms, where P = "\<lambda>(outs, fl, reg, np). outs_ok F outs \<and> (T \<longrightarrow> np \<and> events_ok B rid fl) \<and> K \<subseteq> set (dkeys outs)"]
  by (rule valid_weaken) (auto simp: oview_def waiting_def)

lemma drain_spec:
  assumes "futs_ok F idf futs"
  shows "valid (waiting T F B rid) (drain failed fin futs) (\<lambda>_. waiting T F B rid) (\<lambda>_ _. False)"
  unfolding drain_def
proof (rule valid_sfor)
  fix y assume y: "y \<in> set futs"
  obtain p fut where eq: "y = (p, fut)" by (cases y)
  show "valid (waiting T F B rid) (case y of (peer, fut) \<Rightarrow> case snd fut of Inl _ \<Rightarrow> sret ()
      | Inr outs \<Rightarrow> swhen (peer \<noteq> failed \<and> fin peer) (smod (os_outputs_update (dupdate outs)))) (\<lambda>_. waiting T F B rid) (\<lambda>_ _. False)"
  proof (cases "snd fut")
    case (Inr outs)
    then have "computes F (idf p) outs" using assms y eq by (auto simp: futs_ok_def)
    then have "valid (waiting T F B rid) (smod (os_outputs_update (dupdate outs))) (\<lambda>_. waiting T F B rid) (\<lambda>_ _. False)"
      by (intro valid_smod waiting_outputs(1))
    then show ?thesis unfolding eq prod.case Inr sum.case by (rule valid_swhen) assumption
  qed (simp add: eq valid_sret)
qed

lemma submit_spec:
  "valid (\<lambda>s. waiting T F B rid s \<and> K \<subseteq> set (dkeys (os_outputs s))) (submit oc k rid l x pre by_owner)
     (\<lambda>futs s. waiting T F B rid s \<and> K \<subseteq> set (dkeys (os_outputs s)) \<and>
        futs = map (\<lambda>(peer, ids). (peer, oc_rpc oc k peer rid l ids x pre)) by_owner) (\<lambda>_ _. False)"
  by (auto simp: valid_def submit_def prog_defs waiting_def events_ok_def dget_default_def)

lemma run_local_spec:
  assumes "\<And>outs. bk_selected_experts (oc_backend oc) l x ids = Inr outs \<Longrightarrow> computes F ids outs"
    and "T \<Longrightarrow> returns (bk_selected_experts (oc_backend oc) l x ids)"
  shows "valid (\<lambda>s. waiting T F B rid s \<and> K \<subseteq> set (dkeys (os_outputs s))) (run_local oc l x ar ids)
     (\<lambda>_ s. waiting T F B rid s \<and> K \<union> set ids \<subseteq> set (dkeys (os_outputs s)))
     (\<lambda>e s. waiting T F B rid s \<and> \<not> T \<and> (\<exists>x. e = Raised x))"
proof (cases "ids = []")
  case False
  let ?I = "\<lambda>s. waiting T F B rid s \<and> K \<union> set ids \<subseteq> set (dkeys (os_outputs s))"
  let ?E = "\<lambda>e s. waiting T F B rid s \<and> \<not> T \<and> (\<exists>x. e = Raised x)"
  have run: "valid (\<lambda>s. waiting T F B rid s \<and> K \<subseteq> set (dkeys (os_outputs s)))
      (slift Raised (bk_selected_experts (oc_backend oc) l x ids))
      (\<lambda>outs s. waiting T F B rid s \<and> K \<subseteq> set (dkeys (os_outputs s)) \<and> computes F ids outs) ?E"
    using assms by (intro valid_slift) (auto simp: returns_def)
  have sel: "os_outputs (os_outputs_update g s) = g (os_outputs s)" for g and s :: "'a Orch" by simp
  have up: "valid (\<lambda>s. waiting T F B rid s \<and> K \<subseteq> set (dkeys (os_outputs s)) \<and> computes F ids outs)
      (smod (os_outputs_update (dupdate outs))) (\<lambda>_. ?I) ?E" for outs
  proof (rule valid_smod)
    fix s assume s: "waiting T F B rid s \<and> K \<subseteq> set (dkeys (os_outputs s)) \<and> computes F ids outs"
    then have "set (dkeys (dupdate outs (os_outputs s))) = set ids \<union> set (dkeys (os_outputs s))"
      by (intro waiting_outputs(2)) auto
    with s waiting_outputs(1) [of T F B rid s ids outs] show "?I (os_outputs_update (dupdate outs) s)"
      by (simp only: sel) blast
  qed
  have chain: "valid ?I (sget os_chain) (\<lambda>c s. ?I s \<and> c = os_chain s) ?E" by (rule valid_sget) simp
  have body: "valid (\<lambda>s. ?I s \<and> os_chain s \<noteq> None)
      (sbind (sget (\<lambda>s. dindex (os_outputs s) eid)) (\<lambda>r. sbind (slift Raised r) (record_expert oc l ar eid)))
      (\<lambda>_ s. ?I s \<and> os_chain s \<noteq> None) ?E" for eid
  proof -
    have "valid (\<lambda>s. ?I s \<and> os_chain s \<noteq> None) (record_expert oc l ar eid out) (\<lambda>_ s. ?I s \<and> os_chain s \<noteq> None) ?E" for out
      using keeps_viewD [OF record_expert_view, where P = "\<lambda>(outs, fl, reg, np). (outs_ok F outs \<and> (T \<longrightarrow> np \<and> events_ok B rid fl) \<and>
         K \<union> set ids \<subseteq> set (dkeys outs)) \<and> \<not> np"]
      by (rule valid_weaken) (auto simp: oview_def waiting_def)
    then show ?thesis
      by (intro valid_sbind [where R = "\<lambda>_ s. ?I s \<and> os_chain s \<noteq> None"] valid_sget valid_slift) (auto simp: waiting_def)
  qed
  have entries: "valid (\<lambda>s. ?I s \<and> c = os_chain s) (swhen (c \<noteq> None \<and> ar \<noteq> None)
      (sfor (\<lambda>eid. sbind (sget (\<lambda>s. dindex (os_outputs s) eid)) (\<lambda>r. sbind (slift Raised r) (record_expert oc l ar eid))) ids)) (\<lambda>_. ?I) ?E" for c
    by (rule valid_swhen, rule valid_weaken [OF valid_sfor [OF body]]) auto
  show ?thesis unfolding run_local_def
    by (simp only: False if_False) (rule valid_sbind [OF run valid_sbind [OF up valid_sbind [OF chain entries]]])
qed (simp add: run_local_def valid_sret)

lemma backoff_returns: "1 \<le> attempts \<Longrightarrow> returns (backoff ms attempts)"
  by (cases ms) (auto simp: backoff_def returns_def py_index_def py_pos_def)

section \<open>Retries\<close>

text \<open>Peers and the local backend answer with the outputs of the experts they are asked for.\<close>

definition serves :: "('t, 'w, 'c, 'm) OrchConfig \<Rightarrow> (int \<Rightarrow> 't) \<Rightarrow> string \<Rightarrow> int \<Rightarrow> 't \<Rightarrow> bool" where
  "serves oc F rid l x \<longleftrightarrow>
     (\<forall>k p ids pre outs. snd (oc_rpc oc k p rid l ids x pre) = Inr outs \<longrightarrow> computes F ids outs) \<and>
     (\<forall>ids outs. bk_selected_experts (oc_backend oc) l x ids = Inr outs \<longrightarrow> computes F ids outs)"

text \<open>A routing input under which every needed expert has a candidate outside \<^verbatim>\<open>B\<close>, and every
  candidate can serve it (\<^verbatim>\<open>H c\<close> are the experts that \<^verbatim>\<open>c\<close> can serve).\<close>

definition routable :: "('t, 'w, 'c, 'm) OrchConfig \<Rightarrow> string set \<Rightarrow> (string \<Rightarrow> int set) \<Rightarrow> int list \<Rightarrow> routing_inputs \<Rightarrow> bool" where
  "routable oc B H needed r \<longleftrightarrow>
     (\<forall>e \<in> set needed. (\<exists>c \<in> set (candidates (oc_owners oc) (ri_live r) e). c \<notin> B) \<and>
        (\<forall>c \<in> set (candidates (oc_owners oc) (ri_live r) e). e \<in> H c))"

text \<open>The environment is within the faults the retry loop tolerates: fewer peers may fail than there
  are attempts, the others answer before the deadline and never leave, and every expert stays routable.\<close>

definition tolerable :: "('t, 'w, 'c, 'm) OrchConfig \<Rightarrow> string set \<Rightarrow> (string \<Rightarrow> int set) \<Rightarrow> string \<Rightarrow> int \<Rightarrow> 't \<Rightarrow> int list \<Rightarrow>
    attempt list \<Rightarrow> bool" where
  "tolerable oc B H rid l x needed atts \<longleftrightarrow>
     finite B \<and> int (card B) < oc_retry_max_attempts oc \<and>
     (\<forall>k p ids pre. p \<notin> B \<and> p \<noteq> oc_self_shard_id oc \<and> ids \<noteq> [] \<and> set ids \<subseteq> H p \<longrightarrow> returns (snd (oc_rpc oc k p rid l ids x pre))) \<and>
     (\<forall>ids. set ids \<subseteq> H (oc_self_shard_id oc) \<longrightarrow> returns (bk_selected_experts (oc_backend oc) l x ids)) \<and>
     (\<forall>a \<in> set atts. polls_ok B (at_polls a) \<and> routable oc B H needed (at_routing a))"

lemma candidates_filtered:
  "set (candidates (filtered_owners ex owners) (Some (filtered_live ex live)) e) =
     set (candidates owners live e) - set ex"
proof -
  have "set (candidates (filtered_owners ex owners) (Some (filtered_live ex live)) e) =
      {owner. \<exists>ids. (owner, ids) \<in> set (filtered_owners ex owners) \<and> e \<in> set ids} \<union> set (filtered_live ex live e)"
    using candidates_spec [of "filtered_owners ex owners" "Some (filtered_live ex live)" e] by simp
  moreover have "set (candidates owners live e) = {owner. \<exists>ids. (owner, ids) \<in> set owners \<and> e \<in> set ids} \<union>
     (case live of None \<Rightarrow> {} | Some p \<Rightarrow> set (p e))" using candidates_spec by blast
  ultimately show ?thesis by (auto simp: filtered_owners_def filtered_live_def split: option.splits)
qed

text \<open>The futures of a routing decision.\<close>

lemma submitted_futures:
  assumes "serves oc F rid l x" and g: "groups_ok own ids d"
  shows "futs_ok F (\<lambda>p. dget_default d p []) (map (\<lambda>(p, es). (p, oc_rpc oc k p rid l es x pre)) (dpop self d))"
    and "dkeys (map (\<lambda>(p, es). (p, oc_rpc oc k p rid l es x pre)) (dpop self d)) = dkeys (dpop self d)"
    and "(\<And>p es. p \<notin> B \<Longrightarrow> p \<noteq> self \<Longrightarrow> es \<noteq> [] \<Longrightarrow> (\<forall>e \<in> set es. e \<in> set ids \<and> own e p) \<Longrightarrow> returns (snd (oc_rpc oc k p rid l es x pre))) \<Longrightarrow>
      peers_ok B (map (\<lambda>(p, es). (p, oc_rpc oc k p rid l es x pre)) (dpop self d))"
proof -
  note gs = groups_split [OF g, of self]
  have mem: "es = dget_default d p [] \<and> p \<in> set (dkeys (dpop self d))" if "(p, es) \<in> set (dpop self d)" for p es
    using gs(4) that by force
  show "futs_ok F (\<lambda>p. dget_default d p []) (map (\<lambda>(p, es). (p, oc_rpc oc k p rid l es x pre)) (dpop self d))"
    using assms(1) mem by (fastforce simp: futs_ok_def serves_def)
  show "dkeys (map (\<lambda>(p, es). (p, oc_rpc oc k p rid l es x pre)) (dpop self d)) = dkeys (dpop self d)"
    by (simp add: comp_def case_prod_beta)
  assume R: "\<And>p es. p \<notin> B \<Longrightarrow> p \<noteq> self \<Longrightarrow> es \<noteq> [] \<Longrightarrow> (\<forall>e \<in> set es. e \<in> set ids \<and> own e p) \<Longrightarrow> returns (snd (oc_rpc oc k p rid l es x pre))"
  have "returns (snd (oc_rpc oc k p rid l es x pre))" if "(p, es) \<in> set (dpop self d)" "p \<notin> B" for p es
    using R [OF that(2)] mem [OF that(1)] gs(3) by blast
  then show "peers_ok B (map (\<lambda>(p, es). (p, oc_rpc oc k p rid l es x pre)) (dpop self d))"
    by (auto simp: peers_ok_def)
qed

lemma dispatch_spec:
  assumes sv: "serves oc F rid l x" and g: "groups_ok own ids d"
    and loc: "T \<Longrightarrow> returns (bk_selected_experts (oc_backend oc) l x (dget_default d (oc_self_shard_id oc) []))"
  shows "valid (\<lambda>s. waiting T F B rid s \<and> K \<subseteq> set (dkeys (os_outputs s)))
    (sbind (run_local oc l x ar (dget_default d (oc_self_shard_id oc) []))
       (\<lambda>_. submit oc k rid l x pre (dpop (oc_self_shard_id oc) d)))
    (\<lambda>futs s. (waiting T F B rid s \<and> due (\<lambda>p. dget_default d p []) (K \<union> set ids) futs (os_outputs s)) \<and>
       futs = map (\<lambda>(p, es). (p, oc_rpc oc k p rid l es x pre)) (dpop (oc_self_shard_id oc) d))
    (\<lambda>_ _. \<not> T)"
proof (rule valid_sbind)
  let ?self = "oc_self_shard_id oc"
  let ?loc = "dget_default d ?self []"
  have "valid (\<lambda>s. waiting T F B rid s \<and> K \<subseteq> set (dkeys (os_outputs s))) (run_local oc l x ar ?loc)
     (\<lambda>_ s. waiting T F B rid s \<and> K \<union> set ?loc \<subseteq> set (dkeys (os_outputs s)))
     (\<lambda>e s. waiting T F B rid s \<and> \<not> T \<and> (\<exists>x. e = Raised x))"
    by (rule run_local_spec) (use sv loc in \<open>auto simp: serves_def\<close>)
  then show "valid (\<lambda>s. waiting T F B rid s \<and> K \<subseteq> set (dkeys (os_outputs s))) (run_local oc l x ar ?loc)
     (\<lambda>_ s. waiting T F B rid s \<and> K \<union> set ?loc \<subseteq> set (dkeys (os_outputs s))) (\<lambda>_ _. \<not> T)"
    by (rule valid_weaken) auto
  show "valid (\<lambda>s. waiting T F B rid s \<and> K \<union> set ?loc \<subseteq> set (dkeys (os_outputs s))) (submit oc k rid l x pre (dpop ?self d))
    (\<lambda>futs s. (waiting T F B rid s \<and> due (\<lambda>p. dget_default d p []) (K \<union> set ids) futs (os_outputs s)) \<and>
       futs = map (\<lambda>(p, es). (p, oc_rpc oc k p rid l es x pre)) (dpop ?self d)) (\<lambda>_ _. \<not> T)"
  proof (rule valid_weaken [OF submit_spec], assumption, goal_cases)
    case (1 futs s)
    have "e \<in> set (dkeys (os_outputs s)) \<or> (\<exists>p \<in> set (dkeys (dpop ?self d)). e \<in> set (dget_default d p []))"
      if "e \<in> K \<union> set ids" for e using that 1 groups_split(2) [OF g, of ?self] by blast
    with 1 submitted_futures(2) [OF sv g, of k pre ?self] show ?case unfolding due_def by metis
  qed simp
qed

text \<open>The bookkeeping of the loop in a tolerable environment: every failed peer so far is one that may
  fail, and is not asked again.\<close>

definition retry_state :: "('t, 'w, 'c, 'm) OrchConfig \<Rightarrow> string set \<Rightarrow> int \<Rightarrow> string list \<Rightarrow> 't futures \<Rightarrow> bool" where
  "retry_state oc B attempts excluded futs \<longleftrightarrow>
     attempts = int (length excluded) + 1 \<and> distinct excluded \<and> set excluded \<subseteq> B \<and>
     set excluded \<inter> set (dkeys futs) = {} \<and> peers_ok B futs"

lemma retry_state_attempts:
  assumes "retry_state oc B attempts excluded futs" and "finite B" and "p \<in> B" and "p \<in> set (dkeys futs)"
  shows "attempts \<le> int (card B)" and "p \<notin> set excluded"
proof -
  show p: "p \<notin> set excluded" using assms by (auto simp: retry_state_def)
  have "card (set (p # excluded)) \<le> card B" using assms by (intro card_mono) (auto simp: retry_state_def)
  then show "attempts \<le> int (card B)" using assms(1) p by (auto simp: retry_state_def distinct_card)
qed

lemma tolerableD:
  assumes "tolerable oc B H rid l x needed atts"
  shows "finite B" and "int (card B) < oc_retry_max_attempts oc"
    and "p \<notin> B \<Longrightarrow> p \<noteq> oc_self_shard_id oc \<Longrightarrow> ids \<noteq> [] \<Longrightarrow> set ids \<subseteq> H p \<Longrightarrow> returns (snd (oc_rpc oc k p rid l ids x pre))"
    and "set ids \<subseteq> H (oc_self_shard_id oc) \<Longrightarrow> returns (bk_selected_experts (oc_backend oc) l x ids)"
    and "a \<in> set atts \<Longrightarrow> polls_ok B (at_polls a)" and "a \<in> set atts \<Longrightarrow> routable oc B H needed (at_routing a)"
  using assms by (simp_all add: tolerable_def)

lemma routableD:
  assumes "routable oc B H needed r" and "e \<in> set needed"
  shows "\<exists>c \<in> set (candidates (oc_owners oc) (ri_live r) e). c \<notin> B"
    and "c \<in> set (candidates (oc_owners oc) (ri_live r) e) \<Longrightarrow> e \<in> H c"
  using assms by (simp_all add: routable_def)

text \<open>What a routing decision in a tolerable environment gives: local experts that run, and peers
  that answer unless they may fail.\<close>

lemma routed_peers:
  assumes tol: "tolerable oc B H rid l x needed atts" and r: "routable oc B H needed r"
    and sv: "serves oc F rid l x" and g: "groups_ok own ids d" and sub: "set ids \<subseteq> set needed"
    and own: "\<And>e p. own e p \<Longrightarrow> p \<in> set (candidates (oc_owners oc) (ri_live r) e)"
  shows "returns (bk_selected_experts (oc_backend oc) l x (dget_default d (oc_self_shard_id oc) []))"
    and "peers_ok B (map (\<lambda>(p, es). (p, oc_rpc oc k p rid l es x pre)) (dpop (oc_self_shard_id oc) d))"
proof -
  have can: "e \<in> H p" if "e \<in> set ids" "own e p" for e p
    using that own routableD(2) [OF r] sub by blast
  show "returns (bk_selected_experts (oc_backend oc) l x (dget_default d (oc_self_shard_id oc) []))"
    using groups_split(1) [OF g, of "oc_self_shard_id oc"] can by (intro tolerableD(4) [OF tol]) blast
  show "peers_ok B (map (\<lambda>(p, es). (p, oc_rpc oc k p rid l es x pre)) (dpop (oc_self_shard_id oc) d))"
    using can by (intro submitted_futures(3) [OF sv g] tolerableD(3) [OF tol]) auto
qed

text \<open>How a failed attempt ends: everything needed is there, or new futures are due.\<close>

definition resumed :: "('t, 'w, 'c, 'm) OrchConfig \<Rightarrow> bool \<Rightarrow> (int \<Rightarrow> 't) \<Rightarrow> string set \<Rightarrow> string \<Rightarrow> int list \<Rightarrow> int \<Rightarrow> string list \<Rightarrow>
    't futures option \<Rightarrow> 't Orch \<Rightarrow> bool" where
  "resumed oc T F B rid needed attempts excluded r s \<longleftrightarrow> waiting T F B rid s \<and>
     (case r of
        None \<Rightarrow> set needed \<subseteq> set (dkeys (os_outputs s))
      | Some futs \<Rightarrow> \<exists>idf. due idf (set needed) futs (os_outputs s) \<and> futs_ok F idf futs \<and>
          (T \<longrightarrow> retry_state oc B attempts excluded futs))"

lemma redispatch_spec:
  assumes sv: "serves oc F rid l x" and m: "set missing \<subseteq> set needed" "set needed - set missing \<subseteq> K"
    and tol: "T \<Longrightarrow> tolerable oc B H rid l x needed (a # atts)"
    and ex: "T \<Longrightarrow> int (length ex) + 1 = k \<and> distinct ex \<and> set ex \<subseteq> B"
    and g: "groups_ok (\<lambda>e p. p \<in> set (candidates (filtered_owners ex (oc_owners oc))
        (Some (filtered_live ex (ri_live (at_routing a)))) e)) missing d"
  shows "valid (\<lambda>s. waiting T F B rid s \<and> K \<subseteq> set (dkeys (os_outputs s)))
      (sbind (run_local oc l x ar (dget_default d (oc_self_shard_id oc) [])) (\<lambda>_.
       sbind (submit oc k rid l x pre (dpop (oc_self_shard_id oc) d)) (\<lambda>futures'. sret (Some futures'))))
      (resumed oc T F B rid needed k ex) (\<lambda>_ _. \<not> T)"
proof -
  let ?self = "oc_self_shard_id oc"
  let ?own = "\<lambda>e p. p \<in> set (candidates (filtered_owners ex (oc_owners oc)) (Some (filtered_live ex (ri_live (at_routing a)))) e)"
  let ?futs = "map (\<lambda>(p, es). (p, oc_rpc oc k p rid l es x pre)) (dpop ?self d)"
  have own: "p \<in> set (candidates (oc_owners oc) (ri_live (at_routing a)) e) \<and> p \<notin> set ex" if "?own e p" for e p
    using that candidates_filtered [of ex "oc_owners oc" "ri_live (at_routing a)" e] by blast
  have r: "routable oc B H needed (at_routing a)" if T using tolerableD(6) [OF tol [OF that]] by simp
  have loc: "returns (bk_selected_experts (oc_backend oc) l x (dget_default d ?self []))" and ok: "peers_ok B ?futs" if T
    using routed_peers [OF tol [OF that] r [OF that] sv g m(1)] own by blast+
  note sf = submitted_futures [OF sv g, where k = k and pre = pre and self = ?self]
  have "p \<notin> set ex" if "p \<in> set (dkeys ?futs)" for p
  proof -
    from that have "p \<in> set (dkeys (dpop ?self d))" unfolding sf(2) .
    with groups_split(3) [OF g, of ?self] have "\<exists>e. ?own e p" by (metis (mono_tags, lifting) ex_in_conv mem_Collect_eq set_empty subsetD)
    with own show ?thesis by blast
  qed
  then have "set ex \<inter> set (dkeys ?futs) = {}" by blast
  then have "retry_state oc B k ex ?futs" if T unfolding retry_state_def using ok [OF that] ex [OF that] by blast
  then have fin: "valid (\<lambda>s. (waiting T F B rid s \<and> due (\<lambda>p. dget_default d p []) (K \<union> set missing) futs' (os_outputs s)) \<and> futs' = ?futs)
      (sret (Some futs')) (resumed oc T F B rid needed k ex) (\<lambda>_ _. \<not> T)" for futs'
    using sf(1) m(2) by (intro valid_sret) (unfold resumed_def option.case, blast intro: exI [of _ "\<lambda>p. dget_default d p []"] due_mono)
  show ?thesis by (subst sbind_assoc [symmetric]) (rule valid_sbind [OF dispatch_spec [OF sv g loc] fin])
qed

lemma next_attempt_spec:
  assumes sv: "serves oc F rid l x" and at: "1 \<le> attempts" and fo: "futs_ok F idf futs"
    and tol: "T \<Longrightarrow> tolerable oc B H rid l x needed (a # atts)"
    and rs: "T \<Longrightarrow> retry_state oc B attempts excluded futs"
    and failed: "T \<Longrightarrow> failed \<in> B \<and> failed \<in> set (dkeys futs)"
  shows "valid (waiting T F B rid) (next_attempt oc rid l x ar pre needed attempts excluded futs a failed)
    (resumed oc T F B rid needed (attempts + 1) (failed # excluded)) (\<lambda>_ _. \<not> T)"
proof -
  let ?W = "waiting T F B rid" and ?N = "\<lambda>_ _. \<not> T" and ?ex = "failed # excluded"
  let ?owners = "filtered_owners ?ex (oc_owners oc)" and ?live = "Some (filtered_live ?ex (ri_live (at_routing a)))"
  have last: "\<not> T" if "oc_retry_max_attempts oc \<le> attempts"
    using that tolerableD(1,2) [OF tol] rs failed retry_state_attempts(1) [of oc B attempts excluded futs failed] by force
  have ex: "int (length ?ex) + 1 = attempts + 1 \<and> distinct ?ex \<and> set ?ex \<subseteq> B" if T
    using rs [OF that] failed [OF that] by (auto simp: retry_state_def)
  have bo: "valid ?W (slift Raised (backoff (oc_retry_backoff_ms oc) attempts)) (\<lambda>_. ?W) ?N"
    using backoff_returns [OF at, of "oc_retry_backoff_ms oc"] by (intro valid_slift) (auto simp: returns_def)
  have dr: "valid ?W (drain failed (at_drained a) futs) (\<lambda>_. ?W) ?N"
    by (rule valid_weaken [OF drain_spec [OF fo]]) auto
  have me: "valid ?W (merge_responses shown futs) (\<lambda>_. ?W) ?N" for shown
    by (rule valid_weaken [OF waiting_frame [OF merge_responses_view, where K = "{}"]]) auto
  have mi: "valid ?W (sget (\<lambda>s. filter (\<lambda>e. e \<notin> set (dkeys (os_outputs s))) needed))
     (\<lambda>missing s. (?W s \<and> set needed - set missing \<subseteq> set (dkeys (os_outputs s))) \<and> set missing \<subseteq> set needed) ?N"
    by (rule valid_sget) auto
  have ro: "valid (\<lambda>s. ?W s \<and> K \<subseteq> set (dkeys (os_outputs s)))
      (scatch (route oc missing ?owners (at_routing a) ?live) (\<lambda>e. sthrow (if e = Raised KeyError then ExpertRpcFailure failed l else e)))
      (\<lambda>d s. (?W s \<and> K \<subseteq> set (dkeys (os_outputs s))) \<and> groups_ok (\<lambda>e p. p \<in> set (candidates ?owners ?live e)) missing d) ?N"
    if m: "set missing \<subseteq> set needed" for missing K
  proof (rule valid_scatch)
    have "candidates ?owners ?live i \<noteq> []" if T "i \<in> set missing" for i
      using routableD(1) [OF tolerableD(6) [OF tol [OF that(1)]], of a i] that m ex
        candidates_filtered [of ?ex "oc_owners oc" "ri_live (at_routing a)" i] by fastforce
    then show "valid (\<lambda>s. ?W s \<and> K \<subseteq> set (dkeys (os_outputs s))) (route oc missing ?owners (at_routing a) ?live)
      (\<lambda>d s. (?W s \<and> K \<subseteq> set (dkeys (os_outputs s))) \<and> groups_ok (\<lambda>e p. p \<in> set (candidates ?owners ?live e)) missing d) ?N"
      by (intro valid_weaken [OF route_spec [where P = "\<lambda>(outs, fl, reg, np). outs_ok F outs \<and> (T \<longrightarrow> np \<and> events_ok B rid fl) \<and> K \<subseteq> set (dkeys outs)"]])
         (auto simp: oview_def waiting_def)
  qed (rule valid_sthrow)
  have go: "valid (\<lambda>s. (?W s \<and> set needed - set missing \<subseteq> set (dkeys (os_outputs s))) \<and> groups_ok (\<lambda>e p. p \<in> set (candidates ?owners ?live e)) missing d)
      (sbind (run_local oc l x ar (dget_default d (oc_self_shard_id oc) [])) (\<lambda>_.
       sbind (submit oc (attempts + 1) rid l x pre (dpop (oc_self_shard_id oc) d)) (\<lambda>futures'. sret (Some futures'))))
      (resumed oc T F B rid needed (attempts + 1) ?ex) ?N" if m: "set missing \<subseteq> set needed" for missing d
    by (rule valid_guard, rule redispatch_spec [OF sv m order_refl tol ex])
  have rest: "valid (\<lambda>s. (?W s \<and> set needed - set missing \<subseteq> set (dkeys (os_outputs s))) \<and> set missing \<subseteq> set needed)
      (if missing = [] then sret None
        else
          sbind (scatch (route oc missing ?owners (at_routing a) ?live) (\<lambda>e. sthrow (if e = Raised KeyError then ExpertRpcFailure failed l else e))) (\<lambda>by_owner.
          sbind (run_local oc l x ar (dget_default by_owner (oc_self_shard_id oc) [])) (\<lambda>_.
          sbind (submit oc (attempts + 1) rid l x pre (dpop (oc_self_shard_id oc) by_owner)) (\<lambda>futures'. sret (Some futures')))))
     (resumed oc T F B rid needed (attempts + 1) ?ex) ?N" for missing
    by (rule valid_guard, rule valid_if, rule valid_sret, simp add: resumed_def, rule valid_sbind [OF ro go])
  show ?thesis unfolding next_attempt_def
    by (rule valid_if, rule valid_sthrow, erule last)
       (rule valid_sbind [OF bo valid_sbind [OF dr valid_sbind [OF me valid_sbind [OF mi rest]]]])
qed

lemma phase_b_loop_spec:
  assumes sv: "serves oc F rid l x" and "1 \<le> attempts" and "futs_ok F idf futs"
    and "T \<Longrightarrow> tolerable oc B H rid l x needed atts" and "T \<Longrightarrow> retry_state oc B attempts excluded futs"
    and "T \<Longrightarrow> oc_retry_max_attempts oc < attempts + int (length atts)"
  shows "valid (\<lambda>s. waiting T F B rid s \<and> due idf (set needed) futs (os_outputs s))
    (phase_b_loop oc rid l x ar pre needed attempts excluded futs atts)
    (\<lambda>_ s. waiting T F B rid s \<and> set needed \<subseteq> set (dkeys (os_outputs s))) (\<lambda>_ _. \<not> T)"
  using assms(2-)
proof (induction atts arbitrary: attempts excluded futs idf)
  case Nil
  have "\<not> T"
  proof
    assume T
    with Nil(4) have "length excluded \<le> card B" using tolerableD(1) [OF Nil(3)]
      by (auto simp: retry_state_def intro: card_mono simp flip: distinct_card)
    with Nil(4,5) tolerableD(2) [OF Nil(3)] \<open>T\<close> show False by (auto simp: retry_state_def)
  qed
  then show ?case by (simp add: valid_sthrow)
next
  case (Cons a atts)
  let ?W = "waiting T F B rid" and ?N = "\<lambda>_ _. \<not> T"
  let ?Q = "\<lambda>_ s. ?W s \<and> set needed \<subseteq> set (dkeys (os_outputs s))"
  let ?R = "\<lambda>again s. case again of None \<Rightarrow> ?Q () s
      | Some (failed, futs') \<Rightarrow> resumed oc T F B rid needed (attempts + 1) (failed # excluded) (Some futs') s"
  let ?X = "\<lambda>e s. ?W s \<and> (blames T B l futs e \<or> (\<exists>x. e = Raised x) \<and> \<not> T)"
  have "valid (\<lambda>s. ?W s \<and> due idf (set needed) futs (os_outputs s)) (gather_with_abort rid l futs (at_polls a)) ?Q ?X"
    by (rule valid_weaken [OF gather_spec [where idf = idf and T = T and B = B]])
       (use Cons.prems(2-4) in \<open>auto simp: tolerable_def retry_state_def\<close>)
  moreover have "valid (?Q u) (sbind (merge_responses (\<lambda>_. True) futs) (\<lambda>_. sret None)) ?R ?X" for u
    by (rule valid_sbind [where R = ?Q], rule valid_weaken [OF waiting_frame [OF merge_responses_view]]) (auto intro!: valid_sret)
  ultimately have body: "valid (\<lambda>s. ?W s \<and> due idf (set needed) futs (os_outputs s))
      (sbind (gather_with_abort rid l futs (at_polls a)) (\<lambda>_. sbind (merge_responses (\<lambda>_. True) futs) (\<lambda>_. sret None))) ?R ?X"
    by (rule valid_sbind)
  have handler: "valid (?X exc) (case exc of
        ExpertRpcFailure failed _ \<Rightarrow> sbind (next_attempt oc rid l x ar pre needed attempts excluded futs a failed) (\<lambda>f. sret (map_option (Pair failed) f))
      | _ \<Rightarrow> sthrow exc) ?R ?N" for exc
  proof (cases exc)
    case (ExpertRpcFailure failed k)
    have "valid (\<lambda>s. ?W s \<and> blames T B l futs exc) (sbind (next_attempt oc rid l x ar pre needed attempts excluded futs a failed) (\<lambda>f. sret (map_option (Pair failed) f))) ?R ?N"
    proof (rule valid_guard, rule valid_sbind)
      assume "blames T B l futs exc"
      then have "failed \<in> B \<and> failed \<in> set (dkeys futs)" if T using that ExpertRpcFailure by (auto simp: blames_def)
      then show "valid ?W (next_attempt oc rid l x ar pre needed attempts excluded futs a failed)
          (resumed oc T F B rid needed (attempts + 1) (failed # excluded)) ?N"
        by (intro next_attempt_spec [OF sv Cons.prems(1-4)])
      show "valid (resumed oc T F B rid needed (attempts + 1) (failed # excluded) f) (sret (map_option (Pair failed) f)) ?R ?N" for f
        by (rule valid_sret, cases f) (auto simp: resumed_def)
    qed
    then show ?thesis unfolding ExpertRpcFailure orch_exn.case by (rule valid_pre) auto
  qed (auto simp: blames_def intro!: valid_sthrow)
  have again: "valid (?R again) (case again of None \<Rightarrow> sret () | Some (failed, futs') \<Rightarrow>
      phase_b_loop oc rid l x ar pre needed (attempts + 1) (failed # excluded) futs' atts) ?Q ?N" for again
  proof (cases again)
    case None
    then show ?thesis by (auto intro!: valid_sret)
  next
    case (Some p)
    obtain failed futs' where p: "p = (failed, futs')" by (cases p)
    have "valid (\<lambda>s. \<exists>idf. (?W s \<and> due idf (set needed) futs' (os_outputs s)) \<and> futs_ok F idf futs' \<and>
        (T \<longrightarrow> retry_state oc B (attempts + 1) (failed # excluded) futs'))
      (phase_b_loop oc rid l x ar pre needed (attempts + 1) (failed # excluded) futs' atts) ?Q ?N"
      using Cons.prems(1,3,5)
      by (intro valid_ex valid_guard Cons.IH) (auto simp: tolerable_def)
    then show ?thesis unfolding Some p option.case prod.case by (rule valid_pre) (auto simp: resumed_def)
  qed
  show ?case unfolding phase_b_loop.simps
    by (rule valid_sbind [OF valid_scatch [OF body handler] again])
qed

lemma flight_absent: "rid \<notin> fst ` set m \<Longrightarrow> dget_default m rid [] = []"
  using dget_None_iff [of m rid] by simp

lemma phase_b_spec:
  assumes sv: "serves oc F rid l x" and tol: "T \<Longrightarrow> tolerable oc B H rid l x all_ids atts"
    and r: "T \<Longrightarrow> routable oc B H all_ids ri" and len: "T \<Longrightarrow> oc_retry_max_attempts oc \<le> int (length atts)"
  shows "valid (\<lambda>s. rid \<notin> set (dkeys (os_in_flight s)) \<and> (T \<longrightarrow> os_chain s = None))
    (phase_b_with_retry oc rid l x all_ids loc ar ri atts)
    (\<lambda>outs s. outs_ok F outs \<and> set all_ids - set loc \<subseteq> set (dkeys outs) \<and> (T \<longrightarrow> os_chain s = None)) (\<lambda>_ _. \<not> T)"
proof -
  let ?needed = "filter (\<lambda>e. e \<notin> set loc) all_ids" and ?self = "oc_self_shard_id oc"
  let ?own = "\<lambda>e p. p \<in> set (candidates (oc_owners oc) (ri_live ri) e)" and ?N = "\<lambda>_ _. \<not> T"
  let ?P = "\<lambda>s. rid \<notin> set (dkeys (os_in_flight s)) \<and> (T \<longrightarrow> os_chain s = None)"
  let ?Q = "\<lambda>outs s. outs_ok F outs \<and> set all_ids - set loc \<subseteq> set (dkeys outs) \<and> (T \<longrightarrow> os_chain s = None)"
  have tol': "tolerable oc B H rid l x ?needed atts" if T using tol [OF that] by (auto simp: tolerable_def routable_def)
  have r': "routable oc B H ?needed ri" if T using r [OF that] by (simp add: routable_def)
  have ch: "valid ?P (sget os_chain) (\<lambda>c s. ?P s \<and> (T \<longrightarrow> c = None)) ?N" by (rule valid_sget) simp
  have pb: "valid (\<lambda>s. ?P s \<and> (T \<longrightarrow> c = None)) (slift Raised (case c of None \<Rightarrow> Inr [] | Some chain \<Rightarrow> emap entry_to_pb chain)) (\<lambda>_. ?P) ?N" for c
    by (rule valid_guard, rule valid_slift) auto
  have ro: "valid ?P (route oc ?needed (oc_owners oc) ri (ri_live ri)) (\<lambda>d s. ?P s \<and> groups_ok ?own ?needed d) ?N"
    using routableD(1) [OF r']
    by (intro valid_weaken [OF route_spec [where P = "\<lambda>(outs, fl, reg, np). rid \<notin> set (dkeys fl) \<and> (T \<longrightarrow> np)"]])
       (fastforce simp: oview_def)+
  have reset: "valid (\<lambda>s. ?P s \<and> groups_ok ?own ?needed d) (smod (\<lambda>s. s\<lparr>os_outputs := [], os_registered := False\<rparr>))
     (\<lambda>_ s. (waiting T F B rid s \<and> {} \<subseteq> set (dkeys (os_outputs s))) \<and> groups_ok ?own ?needed d) ?N" for d
    by (rule valid_smod) (auto simp: waiting_def outs_ok_def events_ok_def flight_absent)
  have main: "valid (\<lambda>s. (waiting T F B rid s \<and> {} \<subseteq> set (dkeys (os_outputs s))) \<and> groups_ok ?own ?needed d)
     (sbind (sbind (run_local oc l x ar (dget_default d ?self [])) (\<lambda>_. submit oc 1 rid l x pre (dpop ?self d))) (\<lambda>futs.
      sbind (phase_b_loop oc rid l x ar pre ?needed 1 [] futs atts) (\<lambda>_. sget os_outputs))) ?Q ?N" for d pre
  proof (rule valid_guard)
    assume g: "groups_ok ?own ?needed d"
    let ?futs = "map (\<lambda>(p, es). (p, oc_rpc oc 1 p rid l es x pre)) (dpop ?self d)" and ?idf = "\<lambda>p. dget_default d p []"
    have loc: "returns (bk_selected_experts (oc_backend oc) l x (dget_default d ?self []))" if T
      by (rule routed_peers(1) [OF tol' [OF that] r' [OF that] sv g]) simp_all
    have "retry_state oc B 1 [] ?futs" if T
      using routed_peers(2) [OF tol' [OF that] r' [OF that] sv g] by (simp add: retry_state_def)
    then have loop: "valid (\<lambda>s. waiting T F B rid s \<and> due ?idf (set ?needed) ?futs (os_outputs s))
        (phase_b_loop oc rid l x ar pre ?needed 1 [] ?futs atts)
        (\<lambda>_ s. waiting T F B rid s \<and> set ?needed \<subseteq> set (dkeys (os_outputs s))) ?N"
      using len by (intro phase_b_loop_spec [OF sv _ submitted_futures(1) [OF sv g] tol']) auto
    have "valid (\<lambda>s. (waiting T F B rid s \<and> due ?idf ({} \<union> set ?needed) futs (os_outputs s)) \<and> futs = ?futs)
        (sbind (phase_b_loop oc rid l x ar pre ?needed 1 [] futs atts) (\<lambda>_. sget os_outputs)) ?Q ?N" for futs
      by (rule valid_guard, simp only: Un_empty_left, rule valid_sbind [OF loop], rule valid_sget) (auto simp: waiting_def)
    then show "valid (\<lambda>s. waiting T F B rid s \<and> {} \<subseteq> set (dkeys (os_outputs s)))
      (sbind (sbind (run_local oc l x ar (dget_default d ?self [])) (\<lambda>_. submit oc 1 rid l x pre (dpop ?self d))) (\<lambda>futs.
       sbind (phase_b_loop oc rid l x ar pre ?needed 1 [] futs atts) (\<lambda>_. sget os_outputs))) ?Q ?N"
      by (intro valid_sbind [OF dispatch_spec [OF sv g loc]])
  qed
  have "valid (\<lambda>s. (waiting T F B rid s \<and> {} \<subseteq> set (dkeys (os_outputs s))) \<and> groups_ok ?own ?needed d)
      (sbind (run_local oc l x ar (dget_default d ?self [])) (\<lambda>_.
       sfinally (sbind (submit oc 1 rid l x pre (dpop ?self d)) (\<lambda>futs.
         sbind (phase_b_loop oc rid l x ar pre ?needed 1 [] futs atts) (\<lambda>_. sget os_outputs)))
        (\<lambda>s. if os_registered s then s\<lparr>os_in_flight := dpop rid (os_in_flight s)\<rparr> else s))) ?Q ?N" for d pre
    using main [of d pre] unfolding sbind_assoc by (rule valid_finally_last) auto
  then show ?thesis unfolding phase_b_with_retry_def Let_def
    by (intro valid_sbind [OF ch valid_sbind [OF pb valid_sbind [OF ro valid_sbind [OF reset]]]])
qed

section \<open>Registered requests\<close>

text \<open>While a fan-out runs, the requests in flight are the earlier ones \<^verbatim>\<open>K\<close> and, once calls have
  been submitted, its own.\<close>

definition flight :: "string list \<Rightarrow> string \<Rightarrow> 't Orch \<Rightarrow> bool" where
  "flight K rid s \<longleftrightarrow> dkeys (os_in_flight s) = (if os_registered s then K @ [rid] else K)"

abbreviation keeps :: "('s \<Rightarrow> bool) \<Rightarrow> ('s, 'e, 'a) prog \<Rightarrow> bool" where
  "keeps I m \<equiv> valid I m (\<lambda>_. I) (\<lambda>_. I)"

lemma keeps_flight_view: "keeps_view m \<Longrightarrow> keeps (flight K rid) m"
  by (drule keeps_viewD [where P = "\<lambda>(outs, fl, reg, np). dkeys fl = (if reg then K @ [rid] else K)"], erule valid_weaken)
     (auto simp: oview_def flight_def)

lemma keeps_flight_outputs [simp]: "keeps (flight K rid) (smod (os_outputs_update f))"
  by (rule valid_smod) (simp add: flight_def)

lemma keeps_flight_collect: "keeps (flight K rid) (collect_done l fin futs)"
proof (induction l fin futs rule: collect_done.induct)
  case (2 l fin peer fut rest)
  then show ?case by (cases "snd fut") (auto intro!: valid_sthrow valid_sret valid_sbind [where R = "\<lambda>_. flight K rid"])
qed (simp add: valid_sret)

lemma flight_notify: "flight K rid s \<Longrightarrow> flight K rid (fold notify_peer_left_alive ps s)"
proof (induction ps arbitrary: s)
  case (Cons p ps)
  have "dkeys (os_in_flight (notify_peer_left_alive p s)) = dkeys (os_in_flight s)"
    "os_registered (notify_peer_left_alive p s) = os_registered s"
    by (simp_all add: notify_peer_left_alive_def comp_def case_prod_beta)
  with Cons show ?case by (simp add: flight_def)
qed simp

lemma keeps_flight_gather: "keeps (flight K rid) (gather_with_abort rid' l futs polls)"
proof (induction rid' l futs polls rule: gather_with_abort.induct)
  case (3 rid' l f fs p ps)
  have c: "keeps (flight K rid) (collect_done l (pl_done p) (f # fs))" by (rule keeps_flight_collect)
  have "keeps (flight K rid) (case r of [] \<Rightarrow> sret () | g # gs \<Rightarrow> if pl_expired p then sthrow (ExpertRpcFailure (fst g) l)
      else gather_with_abort rid' l (g # gs) ps)" for r :: "'a futures"
    using 3 by (cases r) (auto intro!: valid_sret valid_sthrow)
  then have "keeps (flight K rid) (case ab of Some peer \<Rightarrow> sthrow (ExpertRpcFailure peer l) | None \<Rightarrow>
      sbind (collect_done l (pl_done p) (f # fs)) (\<lambda>r. case r of [] \<Rightarrow> sret () | g # gs \<Rightarrow>
        if pl_expired p then sthrow (ExpertRpcFailure (fst g) l) else gather_with_abort rid' l (g # gs) ps))" for ab
    by (cases ab) (auto intro!: valid_sthrow valid_sbind [OF c])
  then show ?case unfolding gather_with_abort.simps
    by (intro valid_sbind [where R = "\<lambda>_. flight K rid"] valid_smod valid_sget) (auto intro: flight_notify)
qed (auto intro!: valid_sret valid_sthrow)

lemma keeps_flight_route: "keeps (flight K rid) (route oc ids owners ri live)"
  by (rule valid_weaken [OF route_spec [where P = "\<lambda>(outs, fl, reg, np). dkeys fl = (if reg then K @ [rid] else K)"]])
     (auto simp: oview_def flight_def)

lemma run_local_flight: "keeps (\<lambda>s. P (os_in_flight s) (os_registered s)) (run_local oc l x ar ids)"
proof -
  let ?I = "\<lambda>s. P (os_in_flight s) (os_registered s)"
  have "keeps ?I (record_expert oc l ar e out)" for e out
    by (rule valid_weaken [OF keeps_viewD [OF record_expert_view, where P = "\<lambda>(outs, fl, reg, np). P fl reg"]]) (auto simp: oview_def)
  then show ?thesis unfolding run_local_def
    by (intro valid_if valid_sret valid_sbind [where R = "\<lambda>_. ?I"] valid_swhen valid_sfor valid_slift valid_sget valid_smod) simp_all
qed

lemma keeps_flight_local: "keeps (flight K rid) (run_local oc l x ar ids)"
  unfolding flight_def [abs_def] by (rule run_local_flight [where P = "\<lambda>fl reg. dkeys fl = (if reg then K @ [rid] else K)"])

lemma keeps_flight_drain: "keeps (flight K rid) (drain failed fin futs)"
  unfolding drain_def by (rule valid_sfor) (auto split: prod.split sum.split intro!: valid_sret valid_swhen)

lemma keeps_flight_submit:
  assumes "rid \<notin> set K"
  shows "keeps (flight K rid) (submit oc k rid l x pre by_owner)"
proof -
  have app: "k \<notin> set (dkeys m) \<Longrightarrow> dkeys (dput k v m) = dkeys m @ [k]" for k :: string and v :: "(string, bool) dict" and m by (induction m) auto
  have "dkeys (dput rid v (os_in_flight s)) = K @ [rid]" if "flight K rid s" for s :: "'a Orch" and v
    using that assms app [of rid "os_in_flight s" v] dkeys_dput_present [of rid "os_in_flight s" v]
    by (auto simp: flight_def split: if_splits)
  then show ?thesis unfolding submit_def
    by (intro valid_sbind [where R = "\<lambda>_. flight K rid"] valid_swhen valid_smod valid_sret) (simp_all add: flight_def)
qed

lemma keeps_flight_next:
  assumes "rid \<notin> set K"
  shows "keeps (flight K rid) (next_attempt oc rid l x ar pre needed attempts excluded futs a failed)"
  unfolding next_attempt_def
  by (intro valid_if valid_sthrow valid_sret valid_slift valid_sget valid_sbind [where R = "\<lambda>_. flight K rid"]
      valid_scatch [where R = "\<lambda>_. flight K rid"] keeps_flight_drain keeps_flight_view [OF merge_responses_view]
      keeps_flight_route keeps_flight_local keeps_flight_submit assms)

lemma keeps_flight_loop:
  assumes "rid \<notin> set K"
  shows "keeps (flight K rid) (phase_b_loop oc rid l x ar pre needed attempts excluded futs atts)"
proof (induction atts arbitrary: attempts excluded futs)
  case (Cons a atts)
  have handler: "keeps (flight K rid) (case exc of
        ExpertRpcFailure failed _ \<Rightarrow> sbind (next_attempt oc rid l x ar pre needed attempts excluded futs a failed) (\<lambda>f. sret (map_option (Pair failed) f))
      | _ \<Rightarrow> sthrow exc)" for exc
    by (cases exc) (auto intro!: valid_sthrow valid_sret valid_sbind [OF keeps_flight_next [OF assms]])
  have "keeps (flight K rid) (case again of None \<Rightarrow> sret () | Some (failed, futs') \<Rightarrow>
      phase_b_loop oc rid l x ar pre needed (attempts + 1) (failed # excluded) futs' atts)" for again
    by (cases again) (auto intro!: valid_sret Cons.IH split: prod.split)
  then show ?case unfolding phase_b_loop.simps
    by (intro valid_sbind [where R = "\<lambda>_. flight K rid"] valid_scatch [where R = "\<lambda>_. flight K rid"] valid_sret handler
        keeps_flight_gather keeps_flight_view [OF merge_responses_view])
qed (simp add: valid_sthrow)

end
