(* ===== verification/Split_Layer.thy ===== *)
theory Split_Layer
  imports Orch_Facts
begin

text \<open>
  The properties of a layer whose experts are spread over nodes.  \<^verbatim>\<open>whole_layer\<close> is the
  specification: the same layer computed in one place, every expert by the function
  \<^verbatim>\<open>F\<close>.  \<^verbatim>\<open>expert_aggregator\<close> is what the orchestrator relies on in a backend's
  aggregation, with both backends as interpretations.
\<close>

declare map_of_eq_Some_iff [simp del] Some_eq_map_of_iff [simp del]

section \<open>Aggregation\<close>

locale expert_aggregator =
  fixes agg :: "(int, 't) dict \<Rightarrow> top_k \<Rightarrow> 't result"
  assumes agg_cong: "(\<And>e. e \<in> set (topk_flat t) \<Longrightarrow> dget outs e = dget outs' e) \<Longrightarrow> agg outs t = agg outs' t"
begin

text \<open>Any dictionary with the right output of every selected expert gives the same aggregate.\<close>

lemma agg_covering:
  assumes "outs_ok F outs" and "set (topk_flat t) \<subseteq> set (dkeys outs)"
  shows "agg outs t = agg (map (\<lambda>e. (e, F e)) (sorted_list_of_set (set (topk_flat t)))) t"
proof (rule agg_cong)
  fix e assume e: "e \<in> set (topk_flat t)"
  have "dget (map (\<lambda>e. (e, F e)) xs) e = (if e \<in> set xs then Some (F e) else None)" for xs :: "int list"
    by (induction xs) auto
  with e assms outs_ok_get [OF assms(1), of e]
  show "dget outs e = dget (map (\<lambda>e. (e, F e)) (sorted_list_of_set (set (topk_flat t)))) e" by auto
qed

end

lemma emap_cong: "(\<And>x. x \<in> set xs \<Longrightarrow> f x = g x) \<Longrightarrow> emap f xs = emap g xs"
  by (induction xs) auto

lemma efold_cong: "(\<And>x a. x \<in> set xs \<Longrightarrow> f x a = g x a) \<Longrightarrow> efold f xs a = efold g xs a"
  by (induction xs arbitrary: a) (auto simp: ebind_def split: sum.split)

lemma aggregate_grid_cong:
  assumes "\<And>e. e \<in> set (topk_flat t) \<Longrightarrow> dget outs e = dget outs' e"
  shows "aggregate_grid ta f outs t = aggregate_grid ta f outs' t"
proof (cases t)
  case (Grid g)
  have pos: "select_outputs ta outs b ll ids = select_outputs ta outs' b ll ids" if "set ids \<subseteq> set (topk_flat t)" for b ll ids
    unfolding select_outputs_def using assms that by (intro efold_cong) (auto simp: dindex_def)
  have ids: "set ids \<subseteq> set (topk_flat t)" if "(b, row) \<in> set (zip [0..<length g] g)" "(ll, ids) \<in> set (zip [0..<length row] row)" for b row ll ids
    using set_zip_rightD [OF that(1)] set_zip_rightD [OF that(2)] by (auto simp: Grid topk_flat_def)
  show ?thesis unfolding aggregate_grid_def Grid top_k.case
    by (intro arg_cong [where f = "\<lambda>m. ebind m _"] emap_cong) (auto intro!: arg_cong [where f = "\<lambda>m. ebind m _"] emap_cong simp: pos ids)
qed (simp add: aggregate_grid_def)

interpretation mlx_agg: expert_aggregator "\<lambda>outs t. mlx_aggregate_experts ta tm l outs t w sh"
  by unfold_locales (simp add: mlx_aggregate_experts_def cong: aggregate_grid_cong)

interpretation pt_agg: expert_aggregator "\<lambda>outs t. pt_aggregate_experts ta wsum layers l outs t w sh"
  by unfold_locales (simp add: pt_aggregate_experts_def cong: aggregate_grid_cong)

section \<open>The fan-out\<close>

text \<open>C7: The fan-out tolerates failures.  Fewer peers than attempts may fail, in any way: refuse,
  answer with an error, hang until the deadline or be reported as leaving.  As long as the other peers
  answer in time and every expert keeps a candidate outside of them, the fan-out returns, with the
  right output for every expert it was asked for.\<close>

theorem fan_out_survives_failures:
  assumes "serves oc F rid l x" and "tolerable oc B H rid l x all_ids atts" and "routable oc B H all_ids ri"
    and "oc_retry_max_attempts oc \<le> int (length atts)" and "rid \<notin> set (dkeys (os_in_flight s))" and "os_chain s = None"
  shows "\<exists>outs s'. phase_b_with_retry oc rid l x all_ids loc ar ri atts s = (Inr outs, s') \<and>
    (\<forall>e \<in> set all_ids - set loc. dget outs e = Some (F e))"
proof -
  obtain r s' where run: "phase_b_with_retry oc rid l x all_ids loc ar ri atts s = (r, s')" by (metis surj_pair)
  note spec = phase_b_spec [where T = True, OF assms(1) assms(2) assms(3) assms(4), of loc ar]
  show ?thesis
  proof (cases r)
    case (Inl e)
    with run valid_Inl [OF spec, of s e s'] assms(5,6) show ?thesis by simp
  next
    case (Inr outs)
    with run valid_Inr [OF spec, of s outs s'] assms(5,6)
    have "outs_ok F outs" "set all_ids - set loc \<subseteq> set (dkeys outs)" by simp_all
    with run Inr outs_ok_get show ?thesis by blast
  qed
qed

lemma phase_b_flight:
  assumes "rid \<notin> set (dkeys (os_in_flight s))"
  shows "dkeys (os_in_flight (snd (phase_b_with_retry oc rid l x all_ids loc ar ri atts s))) = dkeys (os_in_flight s)"
proof -
  let ?K = "dkeys (os_in_flight s)" and ?needed = "filter (\<lambda>e. e \<notin> set loc) all_ids"
  let ?I = "\<lambda>s. dkeys (os_in_flight s) = ?K"
  let ?c = "\<lambda>s. if os_registered s then s\<lparr>os_in_flight := dpop rid (os_in_flight s)\<rparr> else s"
  have drop: "?I (?c s')" if "flight ?K rid s'" for s' :: "'a Orch"
    using that assms by (auto simp: flight_def delete_keys)
  have ro: "keeps ?I (route oc ?needed (oc_owners oc) ri (ri_live ri))"
    by (rule valid_weaken [OF route_spec [where P = "\<lambda>(outs, fl, reg, np). dkeys fl = ?K"]]) (auto simp: oview_def)
  let ?J = "\<lambda>s. ?I s \<and> \<not> os_registered s"
  have reset: "valid ?I (smod (\<lambda>s. s\<lparr>os_outputs := [], os_registered := False\<rparr>)) (\<lambda>_. ?J) (\<lambda>_. ?I)"
    by (rule valid_smod) simp
  have local_run: "valid ?J (run_local oc l x ar ids) (\<lambda>_. ?J) (\<lambda>_. ?I)" for ids
    by (rule valid_weaken [OF run_local_flight [where P = "\<lambda>fl reg. dkeys fl = ?K \<and> \<not> reg"]]) auto
  have inner: "keeps (flight ?K rid) (sbind (submit oc 1 rid l x pre d) (\<lambda>futs.
      sbind (phase_b_loop oc rid l x ar pre ?needed 1 [] futs atts) (\<lambda>_. sget os_outputs)))" for pre d
    by (intro valid_sbind [where R = "\<lambda>_. flight ?K rid"] keeps_flight_submit keeps_flight_loop valid_sget assms)
  have body: "valid ?J (sfinally (sbind (submit oc 1 rid l x pre d) (\<lambda>futs.
      sbind (phase_b_loop oc rid l x ar pre ?needed 1 [] futs atts) (\<lambda>_. sget os_outputs))) ?c) (\<lambda>_. ?I) (\<lambda>_. ?I)" for pre d
    by (rule valid_sfinally, rule valid_weaken [OF inner], simp add: flight_def) (erule drop)+
  have ch: "keeps ?I (sget os_chain)" by (rule valid_sget)
  have pb: "keeps ?I (slift Raised r)" for r :: "ProvenanceEntryPb list result" by (rule valid_slift)
  have "valid ?I (phase_b_with_retry oc rid l x all_ids loc ar ri atts) (\<lambda>_. ?I) (\<lambda>_. ?I)"
    unfolding phase_b_with_retry_def Let_def
    by (rule valid_sbind [OF ch valid_sbind [OF pb valid_sbind [OF ro valid_sbind [OF reset valid_sbind [OF local_run body]]]]])
  from valid_snd [OF this, of s] show ?thesis by simp
qed

text \<open>No request stays registered.  Whatever happens in a fan-out, and however it ends, the requests
  registered for abort notifications afterwards are those registered before.\<close>

theorem fan_out_unregisters:
  assumes "rid \<notin> set (dkeys (os_in_flight s))"
  shows "dkeys (os_in_flight (snd (phase_b_with_retry oc rid l x all_ids loc ar ri atts s))) = dkeys (os_in_flight s)"
  using assms by (rule phase_b_flight)

section \<open>One layer\<close>

definition whole_layer :: "('t, 'w, 'c, 'm) Backend \<Rightarrow> ('t \<Rightarrow> int \<Rightarrow> 't) \<Rightarrow> int \<Rightarrow> 't \<Rightarrow> 'c \<Rightarrow> 'm \<Rightarrow> ('t \<times> 'c) result" where
  "whole_layer bk F l h cache masks =
     ebind (bk_attention_route bk l h cache masks) (\<lambda>((post_attn, top_k_ids, top_k_weights), cache', _).
     ebind (bk_shared_expert bk l post_attn) (\<lambda>shared_out.
     ebind (bk_aggregate bk l (map (\<lambda>e. (e, F post_attn e)) (sorted_list_of_set (set (topk_flat top_k_ids))))
              top_k_ids top_k_weights shared_out) (\<lambda>h1_plus_h2.
     ebind (bk_outer bk l h1_plus_h2 post_attn) (\<lambda>out. Inr (out, cache')))))"

lemma outs_ok_merge:
  assumes "outs_ok F new" and "outs_ok F d"
  shows "outs_ok F (dupdate new d) \<and> set (dkeys (dupdate new d)) = set (dkeys new) \<union> set (dkeys d)"
  using outs_ok_dupdate [OF computes_self [OF assms(1)] assms(2)] by blast

text \<open>The bookkeeping before the fan-out leaves the registered requests alone.\<close>

lemma keeps_view_sget [simp]: "keeps_view (sget f)"
  by (rule keeps_viewI, rule valid_sget)

lemma phase_a_view [simp]: "keeps_view (phase_a_entries oc l x sh)"
  unfolding phase_a_entries_def by (intro keeps_view_sbind) (auto split: option.split intro!: keeps_view_sbind)

lemma aggregate_entry_view [simp]: "keeps_view (aggregate_entry oc l out)"
  unfolding aggregate_entry_def by (intro keeps_view_sbind) (auto split: option.split)

lemma keeps_view_in_flight: "keeps_view m \<Longrightarrow> m s = (Inr y, s') \<Longrightarrow> os_in_flight s' = os_in_flight s"
  using valid_Inr [OF keeps_viewD [where P = "\<lambda>v. v = oview s"], of m s y s'] by (simp add: oview_def)

lemma route_in_flight: "route oc ids owners ri live s = (Inr y, s') \<Longrightarrow> os_in_flight s' = os_in_flight s"
  by (drule valid_Inr [OF route_spec [where P = "\<lambda>v. v = oview s"], rotated]) (simp_all add: oview_def)

lemma heat_in_flight: "swhen b (sfor observe_heat calls) s = (Inr y, s') \<Longrightarrow> os_in_flight s' = os_in_flight s"
proof -
  have "keeps (\<lambda>s'. os_in_flight s' = os_in_flight s) (swhen b (sfor observe_heat calls))"
    by (intro valid_swhen valid_sfor) (auto simp: observe_heat_def split: heat_call.split intro!: valid_smod valid_sthrow)
  then show "swhen b (sfor observe_heat calls) s = (Inr y, s') \<Longrightarrow> os_in_flight s' = os_in_flight s" by (rule valid_Inr) simp
qed

text \<open>What a layer that returns has done, step by step.\<close>

lemma split_layer_runs:
  assumes "run_split_layer oc rid env l h cache masks s = (Inr (out, cache'), s')"
  shows "\<exists>x ids w calls sh locals loc remote hh ar s1 s2.
    bk_attention_route (oc_backend oc) l h cache masks = Inr ((x, ids, w), cache', calls) \<and>
    bk_shared_expert (oc_backend oc) l x = Inr sh \<and> bk_selected_experts (oc_backend oc) l x loc = Inr locals \<and>
    os_in_flight s1 = os_in_flight s \<and>
    phase_b_with_retry oc rid l x (sorted_list_of_set (set (topk_flat ids))) loc ar (le_phase_b env) (le_attempts env) s1 = (Inr remote, s2) \<and>
    bk_aggregate (oc_backend oc) l (dupdate remote locals) ids w sh = Inr hh \<and>
    bk_outer (oc_backend oc) l hh x = Inr out \<and> os_in_flight s' = os_in_flight s2"
proof -
  from assms [unfolded run_split_layer_def]
  obtain r where at: "bk_attention_route (oc_backend oc) l h cache masks = Inr r" by (auto elim!: sbindE simp: slift_eq_Inr)
  obtain x ids w cc calls where r: "r = ((x, ids, w), cc, calls)" by (metis surj_pair)
  let ?ids = "sorted_list_of_set (set (topk_flat ids))"
  from assms [unfolded run_split_layer_def at r Let_def]
  obtain s1 s2 s3 s4 s5 s6 u1 u2 by_owner sh locals ar u3 remote hh u4 where
    heat: "swhen (oc_heat_observer oc) (sfor observe_heat calls) s = (Inr u1, s1)"
    and mx: "swhen (\<not> oc_mx_available oc) (sthrow (Raised AttributeError)) s1 = (Inr u2, s2)"
    and ro: "route oc ?ids (oc_owners oc) (le_routing env) (ri_live (le_routing env)) s2 = (Inr by_owner, s3)"
    and sh: "bk_shared_expert (oc_backend oc) l x = Inr sh"
    and loc: "bk_selected_experts (oc_backend oc) l x (dget_default by_owner (oc_self_shard_id oc) []) = Inr locals"
    and pa: "phase_a_entries oc l x sh s3 = (Inr ar, s4)"
    and ex: "sfor (\<lambda>(eid, out). record_expert oc l ar eid out) locals s4 = (Inr u3, s5)"
    and pb: "phase_b_with_retry oc rid l x ?ids (dget_default by_owner (oc_self_shard_id oc) []) ar (le_phase_b env) (le_attempts env) s5 = (Inr remote, s6)"
    and ag: "bk_aggregate (oc_backend oc) l (dupdate remote locals) ids w sh = Inr hh"
    and ou: "bk_outer (oc_backend oc) l hh x = Inr out" and cc: "cc = cache'"
    and ae: "aggregate_entry oc l out s6 = (Inr u4, s')"
    by (auto elim!: sbindE simp: slift_eq_Inr sret_def)
  have "keeps_view (sfor (\<lambda>(eid, out). record_expert oc l ar eid out) locals)" by (rule keeps_view_sfor) auto
  from keeps_view_in_flight [OF this ex] keeps_view_in_flight [OF phase_a_view pa] route_in_flight [OF ro] heat_in_flight [OF heat] mx
  have "os_in_flight s5 = os_in_flight s" by (auto simp: swhen_def sret_def sthrow_def split: if_splits)
  moreover from keeps_view_in_flight [OF aggregate_entry_view ae] have "os_in_flight s' = os_in_flight s6" .
  ultimately show ?thesis using at r sh loc pb ag ou cc by blast
qed

text \<open>Split equals whole.  A layer that returns, with its experts computed by whichever nodes, after
  whichever failures and retries, returns exactly what the layer computed in one place returns, the cache
  included.\<close>

lemma split_layer_equals_whole:
  assumes sv: "\<And>x. serves oc (F x) rid l x" and agg: "\<And>w sh. expert_aggregator (\<lambda>outs t. bk_aggregate (oc_backend oc) l outs t w sh)"
    and fresh: "rid \<notin> set (dkeys (os_in_flight s))"
    and run: "run_split_layer oc rid env l h cache masks s = (Inr (out, cache'), s')"
  shows "whole_layer (oc_backend oc) F l h cache masks = Inr (out, cache')"
proof -
  from split_layer_runs [OF run] obtain x ids w calls sh locals loc remote hh ar s1 s2 where
    at: "bk_attention_route (oc_backend oc) l h cache masks = Inr ((x, ids, w), cache', calls)"
    and sh: "bk_shared_expert (oc_backend oc) l x = Inr sh" and loc: "bk_selected_experts (oc_backend oc) l x loc = Inr locals"
    and fl: "os_in_flight s1 = os_in_flight s"
    and pb: "phase_b_with_retry oc rid l x (sorted_list_of_set (set (topk_flat ids))) loc ar (le_phase_b env) (le_attempts env) s1 = (Inr remote, s2)"
    and ag: "bk_aggregate (oc_backend oc) l (dupdate remote locals) ids w sh = Inr hh"
    and ou: "bk_outer (oc_backend oc) l hh x = Inr out" by blast
  have "computes (F x) loc locals" using sv loc by (auto simp: serves_def)
  then have locals: "outs_ok (F x) locals" "set (dkeys locals) = set loc" by (simp_all add: computes_def)
  from valid_Inr [OF phase_b_spec [where T = False and B = "{}" and H = "\<lambda>_. {}", OF sv] _ pb] fresh fl
  have remote: "outs_ok (F x) remote" "set (topk_flat ids) - set loc \<subseteq> set (dkeys remote)" by simp_all
  note merged = outs_ok_merge [OF remote(1) locals(1)]
  have "set (topk_flat ids) \<subseteq> set (dkeys (dupdate remote locals))" using merged remote(2) locals(2) by blast
  with expert_aggregator.agg_covering [OF agg conjunct1 [OF merged]] ag
  have "bk_aggregate (oc_backend oc) l (map (\<lambda>e. (e, F x e)) (sorted_list_of_set (set (topk_flat ids)))) ids w sh = Inr hh" by metis
  with at sh ou show ?thesis by (simp add: whole_layer_def)
qed

lemma split_layer_flight:
  assumes "run_split_layer oc rid env l h cache masks s = (Inr r, s')" and "rid \<notin> set (dkeys (os_in_flight s))"
  shows "dkeys (os_in_flight s') = dkeys (os_in_flight s)"
proof -
  obtain out cache' where r: "r = (out, cache')" by (cases r)
  from split_layer_runs [OF assms(1) [unfolded r]] obtain x ids loc ar remote s1 s2 where fl: "os_in_flight s1 = os_in_flight s"
    and pb: "phase_b_with_retry oc rid l x ids loc ar (le_phase_b env) (le_attempts env) s1 = (Inr remote, s2)"
    and fin: "os_in_flight s' = os_in_flight s2" by blast
  from phase_b_flight [of rid s1 oc l x ids loc ar "le_phase_b env" "le_attempts env"] assms(2) show ?thesis by (simp add: fl pb fin)
qed

text \<open>Without MLX no split layer runs.  On a platform where \<^verbatim>\<open>mx\<close> is None every split layer
  raises, whichever backend the node has.\<close>

theorem split_layer_needs_mlx:
  assumes "\<not> oc_mx_available oc"
  shows "fst (run_split_layer oc rid env l h cache masks s) \<noteq> Inr r"
proof
  assume "fst (run_split_layer oc rid env l h cache masks s) = Inr r"
  then obtain s' where "run_split_layer oc rid env l h cache masks s = (Inr r, s')" by (metis prod.collapse)
  then show False using assms
    by (auto simp: run_split_layer_def swhen_def sthrow_def split: prod.splits elim!: sbindE)
qed

lemma pt_router_rows:
  assumes "pt_run_attention_and_route ta sl sd layers l h cache masks = Inr ((x, ids, w), c, calls)"
  shows "\<exists>rs. ids = Rows rs"
  using assms by (auto simp: pt_run_attention_and_route_def ebind_eq_Inr Let_def case_prod_beta)

text \<open>The PyTorch backend runs no split layer.  Its router answers with one row per flattened
  position, and its aggregation unpacks three dimensions.\<close>

theorem pytorch_split_layer_fails:
  assumes "oc_backend oc = PyTorchBackend ta wsum seq_length seq_dim layers"
  shows "fst (run_split_layer oc rid env l h cache masks s) \<noteq> Inr r"
proof
  assume "fst (run_split_layer oc rid env l h cache masks s) = Inr r"
  then obtain out cache' s' where "run_split_layer oc rid env l h cache masks s = (Inr (out, cache'), s')" by (metis prod.collapse)
  from split_layer_runs [OF this] assms obtain x ids w calls outs sh hh where
    "pt_run_attention_and_route ta seq_length seq_dim layers l h cache masks = Inr ((x, ids, w), cache', calls)"
    "pt_aggregate_experts ta wsum layers l outs ids w sh = Inr hh" by (auto simp: PyTorchBackend_def)
  with pt_router_rows show False by (fastforce simp: pt_aggregate_experts_def aggregate_grid_def)
qed

text \<open>An expert without an owner.  If a selected expert has no candidate when the layer is first
  routed, the layer raises KeyError, not \<^verbatim>\<open>ExpertRpcFailure\<close>.\<close>

theorem unowned_expert_raises_key_error:
  assumes "bk_attention_route (oc_backend oc) l h cache masks = Inr ((x, ids, w), cache', calls)"
    and "\<not> oc_heat_observer oc" and "oc_mx_available oc"
    and "e \<in> set (topk_flat ids)" and "candidates (oc_owners oc) (ri_live (le_routing env)) e = []"
  shows "run_split_layer oc rid env l h cache masks s = (Inl (Raised KeyError), s)"
proof -
  let ?ids = "sorted_list_of_set (set (topk_flat ids))"
  have "\<not> (\<forall>e \<in> set ?ids. candidates (oc_owners oc) (ri_live (le_routing env)) e \<noteq> [])" using assms(4,5) by auto
  then have "group_expert_ids_by_owner_loaded ?ids (oc_owners oc) loads self sl r (ri_live (le_routing env)) = Inl KeyError" for loads self sl r
    using loaded_routing_partitions [of ?ids "oc_owners oc" "ri_live (le_routing env)" loads self sl r] by meson
  then show ?thesis using assms(1-3) by (simp add: run_split_layer_def route_def prog_defs Let_def)
qed

end
