(* ===== verification/Cluster.thy ===== *)
theory Cluster
  imports Split_Layer
begin

text \<open>
  The expert call end to end: the orchestrator's request over TCP, the serving node's handler and the
  reply; and with it the split layer on a cluster of MLX nodes against the same layer on one node
  that holds every expert.  The wire codec and the stacking of tensors are parameters;
  \<^verbatim>\<open>tensor_laws\<close> is what the code relies on: a tensor survives serialisation with its
  descriptor, and a stacked tensor can be taken apart.
\<close>

declare map_of_eq_Some_iff [simp del] Some_eq_map_of_iff [simp del]

definition tensor_laws :: "'t TensorOps \<Rightarrow> ('t list \<Rightarrow> 't result) \<Rightarrow> ('t \<Rightarrow> nat \<Rightarrow> 't result) \<Rightarrow> bool" where
  "tensor_laws ops stack pick \<longleftrightarrow>
     (\<forall>t dt. dtype_to_wire ops t = Inr dt \<longrightarrow> from_bytes ops (to_bytes ops t) (shape_of ops t) dt = Inr t) \<and>
     (\<forall>ts st j. stack ts = Inr st \<longrightarrow> j < length ts \<longrightarrow> pick st j = Inr (ts ! j))"

text \<open>What a connection to a node answers: the first frame its handler writes, or end of file.\<close>

definition node_exchange :: "(bytes \<Rightarrow> bytes) \<Rightarrow> 't TensorOps \<Rightarrow> ('t list \<Rightarrow> 't result) \<Rightarrow>
    ('b \<Rightarrow> int \<Rightarrow> 't \<Rightarrow> int list \<Rightarrow> (int, 't) dict result) \<Rightarrow> py_float \<Rightarrow> 'b ExpertNode \<Rightarrow> wire_frame \<Rightarrow> wire_frame result" where
  "node_exchange blake2b ops stack run now n frame =
     (case frame of
        (PExpertRequest rid l ids spec prov, raw) \<Rightarrow>
          (case handle_expert_request blake2b ops stack run now n rid l ids spec prov raw of
             (reply # _, _, _) \<Rightarrow> Inr reply
           | ([], _, _) \<Rightarrow> Inl EOFError)
      | _ \<Rightarrow> Inl EOFError)"

section \<open>Dictionaries of outputs\<close>

lemma efold_computes:
  assumes "efold (\<lambda>x d. ebind (g x) (\<lambda>t. Inr (dput (key x) (v x t) d))) xs d0 = Inr d"
    and "\<And>x t. x \<in> set xs \<Longrightarrow> g x = Inr t \<Longrightarrow> v x t = F (key x)" and "outs_ok F d0"
  shows "outs_ok F d \<and> set (dkeys d) = key ` set xs \<union> set (dkeys d0)"
  using assms
proof (induction xs arbitrary: d0)
  case (Cons x xs)
  from Cons.prems(1) obtain t where t: "g x = Inr t"
    "efold (\<lambda>x d. ebind (g x) (\<lambda>t. Inr (dput (key x) (v x t) d))) xs (dput (key x) (v x t) d0) = Inr d"
    by (auto simp: ebind_eq_Inr)
  have "outs_ok F (dput (key x) (v x t) d0)"
    using set_dupdate [of "[(key x, v x t)]" d0] Cons.prems(2) [OF _ t(1)] Cons.prems(3) by (auto simp: dupdate_def outs_ok_def)
  from Cons.IH [OF t(2) _ this] Cons.prems(2) show ?case by auto
qed simp

lemma emap_dindex:
  assumes "emap (dindex outs) ids = Inr ts" and "outs_ok F outs"
  shows "ts = map F ids \<and> set ids \<subseteq> set (dkeys outs)"
  using assms
proof (induction ids arbitrary: ts)
  case (Cons e ids)
  then obtain v ts' where "dget outs e = Some v" "emap (dindex outs) ids = Inr ts'" "ts = v # ts'" by (auto simp: ebind_eq_Inr)
  with Cons map_of_SomeD [of outs e v] show ?case by (auto simp: outs_ok_def dest: dget_key)
qed simp

section \<open>Weights\<close>

text \<open>Whatever slot a node maps an expert id to holds the weights \<^verbatim>\<open>W e\<close> of that expert.\<close>

definition weights_ok :: "(int \<Rightarrow> 'r list) \<Rightarrow> 'r LoadedModel \<Rightarrow> int \<Rightarrow> bool" where
  "weights_ok W lm l \<longleftrightarrow> 0 \<le> l \<and> l < int (length (lm_layers lm)) \<and>
     (\<forall>e slot. expert_slot (dget (lm_held_ids_per_layer lm) l) e = Inr slot \<longrightarrow> rows_at (lm_layers lm ! nat l) slot = W e)"

lemma weights_ok_held:
  assumes "lm_ok lm" and "dget (lm_held_ids_per_layer lm) l = Some held" and "held \<noteq> []"
    and "\<And>e. e \<in> set held \<Longrightarrow> slice_expert lm l e = Inr (W e)"
  shows "weights_ok W lm l"
  using assms lm_okD(1,2,3) [OF assms(1,2)]
  by (auto simp: weights_ok_def expert_slot_def global_to_local_get slice_expert_eq split: if_splits)

definition expert_fun :: "('r list \<Rightarrow> 't \<Rightarrow> 't) \<Rightarrow> (int \<Rightarrow> 'r list) \<Rightarrow> ('t, 'w, 'k, 'a) TextModel \<Rightarrow> int \<Rightarrow> 't \<Rightarrow> int \<Rightarrow> 't" where
  "expert_fun ffn W tm l x e = ffn (W e) (case py_index (tm_layers tm) l of Inl _ \<Rightarrow> x | Inr ly \<Rightarrow> dl_pre_feedforward_layernorm_2 ly x)"

lemma selected_computes:
  assumes "weights_ok W lm l" and "mlx_selected_experts ffn tm lm l x ids = Inr outs"
  shows "computes (expert_fun ffn W tm l x) ids outs"
proof (cases "ids = []")
  case True
  with assms(2) show ?thesis by (simp add: mlx_selected_experts_def computes_def outs_ok_def)
next
  case False
  have py: "py_index (lm_layers lm) l = Inr (lm_layers lm ! nat l)" using assms(1) by (simp add: weights_ok_def py_index_def py_pos_def)
  from assms(2) False obtain ly where ly: "py_index (tm_layers tm) l = Inr ly"
    and run: "efold (\<lambda>eid d. ebind (expert_slot (dget (lm_held_ids_per_layer lm) l) eid) (\<lambda>slot.
      Inr (dput eid (ffn (rows_at (lm_layers lm ! nat l) slot) (dl_pre_feedforward_layernorm_2 ly x)) d))) ids [] = Inr outs"
    by (auto simp: mlx_selected_experts_def run_selected_experts_def ebind_eq_Inr py)
  have "v = expert_fun ffn W tm l x e" if "expert_slot (dget (lm_held_ids_per_layer lm) l) e = Inr slot"
    "v = ffn (rows_at (lm_layers lm ! nat l) slot) (dl_pre_feedforward_layernorm_2 ly x)" for e slot v
    using that assms(1) by (simp add: expert_fun_def ly weights_ok_def)
  with efold_computes [where key = "\<lambda>e. e" and F = "expert_fun ffn W tm l x", OF run] show ?thesis by (simp add: computes_def outs_ok_def)
qed

lemma selected_returns:
  assumes "weights_ok W lm l" and "py_index (tm_layers tm) l = Inr ly"
    and "\<And>e. e \<in> set ids \<Longrightarrow> expert_slot (dget (lm_held_ids_per_layer lm) l) e = Inr (g e)"
  shows "returns (mlx_selected_experts ffn tm lm l x ids)"
proof -
  have py: "py_index (lm_layers lm) l = Inr (lm_layers lm ! nat l)" using assms(1) by (simp add: weights_ok_def py_index_def py_pos_def)
  from efold_outputs [where g = g and slot = "expert_slot (dget (lm_held_ids_per_layer lm) l)" and ids = ids and d = "[]"
      and f = "\<lambda>s. ffn (rows_at (lm_layers lm ! nat l) s) (dl_pre_feedforward_layernorm_2 ly x)", OF assms(3)]
  obtain d where "efold (\<lambda>e d. ebind (expert_slot (dget (lm_held_ids_per_layer lm) l) e) (\<lambda>s.
      Inr (dput e (ffn (rows_at (lm_layers lm ! nat l) s) (dl_pre_feedforward_layernorm_2 ly x)) d))) ids [] = Inr d" by blast
  then show ?thesis by (simp add: mlx_selected_experts_def run_selected_experts_def assms(2) py returns_def)
qed

section \<open>The call\<close>

abbreviation mlx_run :: "('r list \<Rightarrow> 't \<Rightarrow> 't) \<Rightarrow> ('t, 'w, 'k, 'a) TextModel \<Rightarrow> 'r LoadedModel \<Rightarrow> int \<Rightarrow> 't \<Rightarrow> int list \<Rightarrow>
    (int, 't) dict result" where
  "mlx_run ffn tm lm l h ids \<equiv> mlx_selected_experts ffn tm lm l h ids"

lemma parse_response_computes:
  assumes "tensor_laws ops stack pick" and "stack (map F ids) = Inr st" and "describe ops st = Inr spec"
  shows "\<exists>d. parse_response ops pick (PExpertResponse rid l ids spec pbs, to_bytes ops st) = (pbs, Inr d) \<and> computes F ids d"
proof -
  let ?f = "\<lambda>x d. ebind (pick st (fst x)) (\<lambda>t. Inr (dput (snd x) t d))"
  have st: "from_bytes ops (to_bytes ops st) (td_shape spec) (td_dtype spec) = Inr st"
    using assms(1,3) by (auto simp: tensor_laws_def describe_def ebind_eq_Inr)
  have pick: "pick st j = Inr (F (ids ! j))" if "j < length ids" for j using assms(1,2) that by (force simp: tensor_laws_def)
  have "\<exists>d. efold ?f xs d0 = Inr d" if "\<forall>x \<in> set xs. fst x < length ids" for xs d0
    using that by (induction xs arbitrary: d0) (auto simp: pick)
  then obtain d where d: "efold ?f (zip [0..<length ids] ids) [] = Inr d" by (force dest: set_zip_leftD)
  have "outs_ok F d \<and> set (dkeys d) = snd ` set (zip [0..<length ids] ids) \<union> set (dkeys ([] :: (int, 'a) dict))"
    by (rule efold_computes [where v = "\<lambda>_ t. t", OF d]) (auto simp: set_zip pick outs_ok_def)
  moreover have "snd ` set (zip [0..<length ids] ids) = set ids" by (simp flip: set_map)
  ultimately show ?thesis using d by (simp add: parse_response_def st computes_def case_prod_beta')
qed

lemma serve_experts_response:
  assumes "fst (serve_experts blake2b ops stack run now n rid l ids prov raw h) = (PExpertResponse rid' l' ids' spec' prov', raw') # rest"
  shows "\<exists>outputs ts stacked. run (en_backend n) l h ids = Inr outputs \<and> emap (dindex outputs) ids = Inr ts \<and>
    stack ts = Inr stacked \<and> describe ops stacked = Inr spec' \<and> ids' = ids \<and> raw' = to_bytes ops stacked"
  using assms by (auto simp: serve_experts_def send_error_def ebind_eq_Inr split: sum.splits if_splits prod.splits)

text \<open>Whatever a serving node replies to a request, the caller reads it as the outputs of the experts
  asked for, or as an error.\<close>

lemma exchange_computes:
  assumes laws: "tensor_laws ops stack pick" and w: "weights_ok W (en_backend n) l"
    and req: "expert_request ops rid l ids h pre = Inr frame"
    and ans: "node_exchange blake2b ops stack (mlx_run ffn tm) now n frame = Inr reply"
    and got: "parse_response ops pick reply = (pbs, Inr outs)"
  shows "computes (expert_fun ffn W tm l h) ids outs"
proof -
  from req obtain spec where spec: "describe ops h = Inr spec" and frame: "frame = (PExpertRequest rid l ids spec pre, to_bytes ops h)"
    by (auto simp: expert_request_def ebind_eq_Inr)
  have h: "from_bytes ops (to_bytes ops h) (td_shape spec) (td_dtype spec) = Inr h"
    using laws spec by (auto simp: tensor_laws_def describe_def ebind_eq_Inr)
  from got obtain rid' l' ids' spec' prov' raw' where resp: "reply = (PExpertResponse rid' l' ids' spec' prov', raw')"
    by (auto simp: parse_response_def split: Payload.splits prod.splits)
  from ans resp frame h obtain rest where "fst (serve_experts blake2b ops stack (mlx_run ffn tm) now (enter_request n) rid l ids pre (to_bytes ops h) h) = reply # rest"
    by (auto simp: node_exchange_def handle_expert_request_def send_error_def Let_def split: if_splits list.splits prod.splits)
  from serve_experts_response [OF this [unfolded resp]] obtain outputs ts stacked where
    run: "mlx_run ffn tm (en_backend n) l h ids = Inr outputs" and ts: "emap (dindex outputs) ids = Inr ts"
    and st: "stack ts = Inr stacked" "describe ops stacked = Inr spec'" "ids' = ids" "raw' = to_bytes ops stacked"
    by (auto simp: enter_request_def)
  from selected_computes [OF w run] have "outs_ok (expert_fun ffn W tm l h) outputs" by (simp add: computes_def)
  with emap_dindex [OF ts] st(1) have "stack (map (expert_fun ffn W tm l h) ids) = Inr stacked" by blast
  from parse_response_computes [OF laws this st(2), of rid' l' prov'] got show ?thesis unfolding resp st(3,4) by auto
qed

lemma call_answers:
  assumes laws: "tensor_laws ops stack pick" and ok: "node_ok n" and ids: "ids \<noteq> []" "set ids \<subseteq> set (live_at n l)"
    and prov: "\<not> en_provenance_enabled n \<or> pre = []" and ly: "py_index (tm_layers tm) l = Inr ly"
    and addr: "dget addresses peer = Some addr" "connect addr = Inr (node_exchange blake2b ops stack (mlx_run ffn tm) now n)"
    and h: "describe ops h = Inr spec"
    and st: "stack (map (expert_fun ffn (\<lambda>e. projr (slice_expert (en_backend n) l e)) tm l h) ids) = Inr stacked"
    and d: "describe ops stacked = Inr dsc"
  shows "\<exists>outs. tcp_peer_call ops pick addresses connect peer rid l ids h pre = ([], Inr outs) \<and>
    computes (expert_fun ffn (\<lambda>e. projr (slice_expert (en_backend n) l e)) tm l h) ids outs"
proof -
  let ?F = "expert_fun ffn (\<lambda>e. projr (slice_expert (en_backend n) l e)) tm l h"
  have dec: "from_bytes ops (to_bytes ops h) (td_shape spec) (td_dtype spec) = Inr h" "td_byte_count spec = int (length (to_bytes ops h))"
    using laws h by (auto simp: tensor_laws_def describe_def ebind_eq_Inr)
  have "fst (handle_expert_request blake2b ops stack (\<lambda>lm l h ids. run_selected_experts ffn (dl_pre_feedforward_layernorm_2 ly) lm h l ids)
      now n rid l ids spec pre (to_bytes ops h)) = [(PExpertResponse rid l ids dsc [], to_bytes ops stacked)]"
    using st by (intro hosted_experts_are_served [OF ok ids dec(2,1) prov _ d]) (simp add: expert_fun_def [abs_def] ly)
  moreover have "handle_expert_request blake2b ops stack (mlx_run ffn tm) now n rid l ids spec pre (to_bytes ops h) =
      handle_expert_request blake2b ops stack (\<lambda>lm l h ids. run_selected_experts ffn (dl_pre_feedforward_layernorm_2 ly) lm h l ids)
        now n rid l ids spec pre (to_bytes ops h)"
    unfolding handle_expert_request_def serve_experts_def mlx_selected_experts_def ly ebind_Inr using ids dec by (simp add: Let_def)
  ultimately have "node_exchange blake2b ops stack (mlx_run ffn tm) now n (PExpertRequest rid l ids spec pre, to_bytes ops h) =
      Inr (PExpertResponse rid l ids dsc [], to_bytes ops stacked)"
    by (auto simp: node_exchange_def split: prod.splits list.splits)
  with addr h have "tcp_peer_call ops pick addresses connect peer rid l ids h pre =
      parse_response ops pick (PExpertResponse rid l ids dsc [], to_bytes ops stacked)"
    by (simp add: tcp_peer_call_def expert_request_def dindex_def)
  with parse_response_computes [OF laws st d, of rid l "[]"] show ?thesis by auto
qed


section \<open>A cluster and one node\<close>

text \<open>The layer on one node whose model holds every expert.\<close>

definition single_node_layer :: "('r list \<Rightarrow> 't \<Rightarrow> 't) \<Rightarrow> ('t, 'w, 'v) TensorArith \<Rightarrow> ('t, 'w, 'k, 'a) TextModel \<Rightarrow> 'r LoadedModel \<Rightarrow>
    int \<Rightarrow> 't \<Rightarrow> 'k list \<Rightarrow> 'a \<times> 'a \<Rightarrow> ('t \<times> 'k list) result" where
  "single_node_layer ffn ta tm lm l h cache masks =
     ebind (run_attention_and_route ta tm l h cache masks) (\<lambda>((post_attn, top_k_ids, top_k_weights), cache', _).
     ebind (run_shared_expert tm l post_attn) (\<lambda>shared_out.
     ebind (mlx_selected_experts ffn tm lm l post_attn (sorted_list_of_set (set (topk_flat top_k_ids)))) (\<lambda>outs.
     ebind (mlx_aggregate_experts ta tm l outs top_k_ids top_k_weights shared_out) (\<lambda>hh.
     ebind (mlx_apply_outer_decoder_ops ta tm l hh post_attn) (\<lambda>out. Inr (out, cache'))))))"

text \<open>A node of the cluster answers a connection, or fails in some way; \<^verbatim>\<open>connect k\<close> is the network
  during attempt \<^verbatim>\<open>k\<close>.\<close>

definition cluster_ok :: "(int \<Rightarrow> 'r list) \<Rightarrow> ('r list \<Rightarrow> 't \<Rightarrow> 't) \<Rightarrow> ('t, 'w, 'k, 'a) TextModel \<Rightarrow> int \<Rightarrow> (bytes \<Rightarrow> bytes) \<Rightarrow> 't TensorOps \<Rightarrow>
    ('t list \<Rightarrow> 't result) \<Rightarrow> (NodeAddress \<Rightarrow> (wire_frame \<Rightarrow> wire_frame result) result) \<Rightarrow> bool" where
  "cluster_ok W ffn tm l blake2b ops stack connect \<longleftrightarrow>
     (\<forall>addr exchange. connect addr = Inr exchange \<longrightarrow>
        (\<forall>frame reply. exchange frame = Inr reply \<longrightarrow>
           (\<exists>n now. weights_ok W (en_backend n) l \<and> node_exchange blake2b ops stack (mlx_run ffn tm) now n frame = Inr reply)))"

lemma cluster_serves:
  assumes laws: "tensor_laws ops stack pick" and bk: "oc_backend oc = MLXBackend ffn ta tm lm" and w: "weights_ok W lm l"
    and rpc: "\<And>k. oc_rpc oc k = tcp_peer_call ops pick addresses (connect k)"
    and cl: "\<And>k. cluster_ok W ffn tm l blake2b ops stack (connect k)"
  shows "serves oc (expert_fun ffn W tm l x) rid l x"
  unfolding serves_def
proof (intro conjI allI impI)
  fix k p ids pre outs assume "snd (oc_rpc oc k p rid l ids x pre) = Inr outs"
  then obtain addr exchange frame reply pbs where "connect k addr = Inr exchange" "expert_request ops rid l ids x pre = Inr frame"
    "exchange frame = Inr reply" "parse_response ops pick reply = (pbs, Inr outs)"
    by (auto simp: rpc tcp_peer_call_def ebind_eq_Inr split: sum.splits) (metis prod.collapse)
  with cl [of k] exchange_computes [OF laws] show "computes (expert_fun ffn W tm l x) ids outs" unfolding cluster_ok_def by metis
next
  fix ids outs assume "bk_selected_experts (oc_backend oc) l x ids = Inr outs"
  with selected_computes [OF w] show "computes (expert_fun ffn W tm l x) ids outs" by (simp add: bk MLXBackend_def)
qed

lemma cluster_layer:
  assumes laws: "tensor_laws ops stack pick" and bk: "oc_backend oc = MLXBackend ffn ta tm lm" and w: "weights_ok W lm l"
    and rpc: "\<And>k. oc_rpc oc k = tcp_peer_call ops pick addresses (connect k)"
    and cl: "\<And>k. cluster_ok W ffn tm l blake2b ops stack (connect k)"
    and full: "weights_ok W lm' l" "dget_default (lm_held_ids_per_layer lm') l [] = []"
    and fresh: "rid \<notin> set (dkeys (os_in_flight s))"
    and run: "run_split_layer oc rid env l h cache masks s = (Inr (out, cache'), s')"
  shows "single_node_layer ffn ta tm lm' l h cache masks = Inr (out, cache')"
proof -
  have agg: "expert_aggregator (\<lambda>outs t. bk_aggregate (oc_backend oc) l outs t w sh)" for w sh
    using mlx_agg.expert_aggregator_axioms by (simp add: bk MLXBackend_def)
  note sv = cluster_serves [OF laws bk w rpc cl]
  from split_layer_equals_whole [where F = "expert_fun ffn W tm l", OF sv agg fresh run]
  have whole: "whole_layer (MLXBackend ffn ta tm lm) (expert_fun ffn W tm l) l h cache masks = Inr (out, cache')" by (simp add: bk)
  then obtain x ids w' calls sh hh where at: "run_attention_and_route ta tm l h cache masks = Inr ((x, ids, w'), cache', calls)"
    and sh: "run_shared_expert tm l x = Inr sh"
    and ag: "mlx_aggregate_experts ta tm l (map (\<lambda>e. (e, expert_fun ffn W tm l x e)) (sorted_list_of_set (set (topk_flat ids)))) ids w' sh = Inr hh"
    and ou: "mlx_apply_outer_decoder_ops ta tm l hh x = Inr out"
    by (auto simp: whole_layer_def MLXBackend_def ebind_eq_Inr)
  let ?ids = "sorted_list_of_set (set (topk_flat ids))"
  from sh obtain ly where ly: "py_index (tm_layers tm) l = Inr ly" by (auto simp: run_shared_expert_def ebind_eq_Inr)
  have "\<exists>outs. mlx_selected_experts ffn tm lm' l x ?ids = Inr outs"
    using run_selected_full [of l lm' ?ids ffn "dl_pre_feedforward_layernorm_2 ly" x] full
    by (auto simp: mlx_selected_experts_def ly weights_ok_def)
  then obtain outs where outs: "mlx_selected_experts ffn tm lm' l x ?ids = Inr outs" by blast
  from selected_computes [OF full(1) outs] have "outs_ok (expert_fun ffn W tm l x) outs" "set (dkeys outs) = set ?ids"
    by (simp_all add: computes_def)
  with mlx_agg.agg_covering [of "expert_fun ffn W tm l x" outs ids ta tm l w' sh] ag
  have "mlx_aggregate_experts ta tm l outs ids w' sh = Inr hh" by simp
  with at sh outs ou show ?thesis by (simp add: single_node_layer_def)
qed

text \<open>A cluster computes what one node computes.  The experts of a layer are spread over MLX nodes
  that hold the weights of the model, local ones included; peers may fail and be replaced.  If the layer
  returns, its output and cache are those of a single node that holds every expert.\<close>

theorem cluster_layer_equals_single_node:
  assumes laws: "tensor_laws ops stack pick" and bk: "oc_backend oc = MLXBackend ffn ta tm lm" and w: "weights_ok W lm l"
    and rpc: "\<And>k. oc_rpc oc k = tcp_peer_call ops pick addresses (connect k)"
    and cl: "\<And>k. cluster_ok W ffn tm l blake2b ops stack (connect k)"
    and full: "weights_ok W lm' l" "dget_default (lm_held_ids_per_layer lm') l [] = []"
    and fresh: "rid \<notin> set (dkeys (os_in_flight s))"
    and run: "run_split_layer oc rid env l h cache masks s = (Inr (out, cache'), s')"
  shows "single_node_layer ffn ta tm lm' l h cache masks = Inr (out, cache')"
  using assms by (rule cluster_layer)

section \<open>A small cluster\<close>

text \<open>One layer of four experts: node \<^verbatim>\<open>a\<close> holds the first two, node \<^verbatim>\<open>b\<close> the
  others, and the router picks experts 1 and 2.  Tensors are lists of numbers below 256.\<close>

definition demo_tensor_ops :: "int list TensorOps" where
  "demo_tensor_ops = \<lparr>to_bytes = map word_of_int, from_bytes = (\<lambda>bs _ _. Inr (map uint bs)), shape_of = (\<lambda>t. [int (length t)]),
     dtype_to_wire = (\<lambda>t. if \<forall>x \<in> set t. 0 \<le> x \<and> x < 256 then Inr 3 else Inl ValueError)\<rparr>"

definition demo_stack :: "int list list \<Rightarrow> int list result" where
  "demo_stack ts = (if \<forall>t \<in> set ts. length t = 1 then Inr (map hd ts) else Inl ValueError)"

definition demo_pick :: "int list \<Rightarrow> nat \<Rightarrow> int list result" where
  "demo_pick t j = (if j < length t then Inr [t ! j] else Inl IndexError)"

lemma demo_tensor_laws: "tensor_laws demo_tensor_ops demo_stack demo_pick"
proof -
  have id: "map (uint \<circ> (word_of_int :: int \<Rightarrow> 8 word)) t = t" if "\<forall>x \<in> set t. 0 \<le> x \<and> x < 256" for t
    using that by (induction t) (auto simp: uint_word_of_int)
  have "[hd t] = t" if "length t = 1" for t :: "int list" using that by (cases t) auto
  with id show ?thesis by (auto simp: tensor_laws_def demo_tensor_ops_def demo_stack_def demo_pick_def split: if_splits)
qed

definition demo_arith :: "(int list, int list list list, int) TensorArith" where
  "demo_arith = \<lparr>ta_add = map2 (+), ta_mul = (\<lambda>v. map ((*) v)), ta_cell = (\<lambda>t _ _. t), ta_weight = (\<lambda>w b l j. w ! b ! l ! j),
     ta_cat_seq = concat, ta_cat_batch = concat\<rparr>"

definition demo_layer :: "(int list, int list list list, nat, unit) DecoderLayer" where
  "demo_layer = \<lparr>dl_full_attention = True, dl_input_layernorm = id, dl_self_attn = (\<lambda>x _ c. (x, c + 1)),
     dl_post_attention_layernorm = id, dl_router = (\<lambda>_. ([[[2, 1]]], [[[3, 2]]])), dl_pre_feedforward_layernorm = id, dl_mlp = id,
     dl_post_feedforward_layernorm_1 = id, dl_pre_feedforward_layernorm_2 = map ((+) 1), dl_post_feedforward_layernorm_2 = id,
     dl_post_feedforward_layernorm = id, dl_layer_scalar = None, dl_call = (\<lambda>x _ c. (map (\<lambda>v. 14 * v + 135) x, c + 1))\<rparr>"

definition demo_tm :: "(int list, int list list list, nat, unit) TextModel" where
  "demo_tm = \<lparr>tm_layers = [demo_layer], tm_layer_idx_to_cache_idx = [0]\<rparr>"

definition demo_ffn :: "nat list \<Rightarrow> int list \<Rightarrow> int list" where
  "demo_ffn rows = map ((+) (int (hd rows)))"

definition demo_full :: "nat LoadedModel" where
  "demo_full = \<lparr>lm_layers = [map (\<lambda>pa. (pa, [10, 20, 30, 40])) PROJ_ATTR_ORDER], lm_held_ids_per_layer = []\<rparr>"

definition demo_part :: "int list \<Rightarrow> nat list \<Rightarrow> nat LoadedModel" where
  "demo_part held rows = \<lparr>lm_layers = [map (\<lambda>pa. (pa, rows)) PROJ_ATTR_ORDER], lm_held_ids_per_layer = [(0, held)]\<rparr>"

definition demo_W :: "int \<Rightarrow> nat list" where
  "demo_W e = rows_at (lm_layers demo_full ! 0) (nat e)"

definition demo_b :: "nat LoadedModel ExpertNode" where
  "demo_b = demo_node\<lparr>en_backend := demo_part [2, 3] [30, 40], en_live_experts := [(0, [2, 3])]\<rparr>"

definition demo_connect :: "int \<Rightarrow> NodeAddress \<Rightarrow> (wire_frame \<Rightarrow> wire_frame result) result" where
  "demo_connect k addr = (if k = 1 then Inl OSError
     else Inr (node_exchange (\<lambda>_. []) demo_tensor_ops demo_stack (mlx_run demo_ffn demo_tm) 0 demo_b))"

definition demo_addresses :: "(string, NodeAddress) dict" where
  "demo_addresses = [(''b'', \<lparr>na_host = ''b'', na_port = 9001\<rparr>), (''c'', \<lparr>na_host = ''c'', na_port = 9001\<rparr>)]"

definition demo_oc :: "(int list, int list list list, nat list, unit \<times> unit) OrchConfig" where
  "demo_oc = \<lparr>oc_self_shard_id = ''a'', oc_owners = [(''a'', [0, 1]), (''b'', [2, 3]), (''c'', [2, 3])], oc_retry_max_attempts = 3,
     oc_retry_backoff_ms = [100, 500], oc_backend = MLXBackend demo_ffn demo_arith demo_tm (demo_part [0, 1] [10, 20]),
     oc_heat_observer = True, oc_mx_available = True, oc_blake2b = (\<lambda>_. []), oc_to_bytes = to_bytes demo_tensor_ops, oc_clock = (\<lambda>_. 0),
     oc_rpc = (\<lambda>k. tcp_peer_call demo_tensor_ops demo_pick demo_addresses (demo_connect k))\<rparr>"

definition demo_attempt :: attempt where
  "demo_attempt = \<lparr>at_polls = [\<lparr>pl_left = [], pl_done = (\<lambda>_. True), pl_expired = False\<rparr>], at_drained = (\<lambda>_. True), at_visible = (\<lambda>_. True),
     at_routing = \<lparr>ri_loads = [], ri_self_loads = [], ri_live = None\<rparr>\<rparr>"

definition demo_env :: layer_env where
  "demo_env = \<lparr>le_routing = \<lparr>ri_loads = [], ri_self_loads = [], ri_live = None\<rparr>, le_phase_b = \<lparr>ri_loads = [], ri_self_loads = [], ri_live = None\<rparr>,
     le_attempts = [demo_attempt, demo_attempt]\<rparr>"

definition demo_orch :: "int list Orch" where
  "demo_orch = \<lparr>os_in_flight = [(''other'', [(''b'', False)])], os_registered = False, os_rng = [], os_outputs = [], os_chain = None, os_heat_log = []\<rparr>"

lemma demo_cluster_run: "case run_split_layer demo_oc ''r'' demo_env 0 [5] [7] ((), ()) demo_orch of
    (Inl _, _) \<Rightarrow> False | (Inr r, s') \<Rightarrow> r = ([205], [8])"
  by code_simp

lemma demo_weights: "weights_ok demo_W (demo_part [0, 1] [10, 20]) 0" "weights_ok demo_W (demo_part [2, 3] [30, 40]) 0" "weights_ok demo_W demo_full 0"
proof -
  have rows: "demo_W 0 = replicate 9 10" "demo_W 1 = replicate 9 20" "demo_W 2 = replicate 9 30" "demo_W 3 = replicate 9 40"
    "rows_at (lm_layers (demo_part hs [x, y]) ! 0) 0 = replicate 9 x" "rows_at (lm_layers (demo_part hs [x, y]) ! 0) 1 = replicate 9 y" for hs x y
    by (simp_all add: demo_W_def demo_full_def demo_part_def rows_at_def PROJ_ATTR_ORDER_def numeral_eq_Suc)
  have slots: "expert_slot (Some [a, b]) e = (if e = a then Inr 0 else if e = b then Inr 1 else Inl KeyError)" if "a \<noteq> b" for a b e
    using that by (simp add: expert_slot_def global_to_local_get dindex_def)
  show "weights_ok demo_W (demo_part [0, 1] [10, 20]) 0" "weights_ok demo_W (demo_part [2, 3] [30, 40]) 0"
    using rows by (auto simp: weights_ok_def demo_part_def slots split: if_splits)
  show "weights_ok demo_W demo_full 0" by (auto simp: weights_ok_def expert_slot_def demo_W_def) (simp_all add: demo_full_def)
qed

lemma demo_cluster_ok: "cluster_ok demo_W demo_ffn demo_tm 0 (\<lambda>_. []) demo_tensor_ops demo_stack (demo_connect k)"
proof -
  have "weights_ok demo_W (en_backend demo_b) 0" using demo_weights(2) by (simp add: demo_b_def)
  then show ?thesis unfolding cluster_ok_def demo_connect_def by (auto split: if_splits)
qed

theorem cluster_layer_equals_single_node_witness:
  "single_node_layer demo_ffn demo_arith demo_tm demo_full 0 [5] [7] ((), ()) = Inr ([205], [8])"
proof -
  from demo_cluster_run obtain s' where run: "run_split_layer demo_oc ''r'' demo_env 0 [5] [7] ((), ()) demo_orch = (Inr ([205], [8]), s')"
    by (auto split: prod.splits sum.splits)
  show ?thesis
    by (rule cluster_layer_equals_single_node [OF demo_tensor_laws _ demo_weights(1) _ demo_cluster_ok demo_weights(3) _ _ run])
       (simp_all add: demo_oc_def demo_full_def demo_orch_def)
qed

lemma demo_b_ok: "node_ok demo_b"
proof -
  have len: "\<exists>full. dget (map (\<lambda>pa. (pa, [30, 40 :: nat])) PROJ_ATTR_ORDER) pa = Some full \<and> length full = Suc (Suc 0)" if "pa \<in> set PROJ_ATTR_ORDER" for pa
    using that by (auto simp: map_of_map_restrict)
  then show ?thesis
    by (auto simp: node_ok_def demo_b_def lm_ok_def held_at_def dget_default_def demo_part_def split: if_splits)
qed


text \<open>A network on which \<^verbatim>\<open>b\<close> refuses every connection; \<^verbatim>\<open>c\<close> serves the same experts.\<close>

definition refusing_connect :: "NodeAddress \<Rightarrow> (wire_frame \<Rightarrow> wire_frame result) result" where
  "refusing_connect addr = (if na_host addr = ''b'' then Inl OSError
     else Inr (node_exchange (\<lambda>_. []) demo_tensor_ops demo_stack (mlx_run demo_ffn demo_tm) 0 demo_b))"

definition refusing_oc :: "(int list, int list list list, nat list, unit \<times> unit) OrchConfig" where
  "refusing_oc = demo_oc\<lparr>oc_rpc := (\<lambda>_. tcp_peer_call demo_tensor_ops demo_pick demo_addresses refusing_connect)\<rparr>"

definition expiring_attempt :: attempt where
  "expiring_attempt = demo_attempt\<lparr>at_polls := [\<lparr>pl_left = [''b''], pl_done = (\<lambda>_. True), pl_expired = True\<rparr>]\<rparr>"

definition demo_hosts :: "string \<Rightarrow> int set" where
  "demo_hosts p = (if p = ''a'' then {0, 1} else if p = ''c'' \<or> p = ''b'' then {2, 3} else {})"

lemma refusing_serves: "serves refusing_oc (expert_fun demo_ffn demo_W demo_tm 0 [10]) ''r'' 0 [10]"
proof (rule cluster_serves [OF demo_tensor_laws _ demo_weights(1)])
  have "weights_ok demo_W (en_backend demo_b) 0" using demo_weights(2) by (simp add: demo_b_def)
  then show "cluster_ok demo_W demo_ffn demo_tm 0 (\<lambda>_. []) demo_tensor_ops demo_stack refusing_connect"
    unfolding cluster_ok_def refusing_connect_def by (auto split: if_splits)
qed (simp_all add: refusing_oc_def demo_oc_def)

lemma refusing_c_answers:
  assumes "ids \<noteq> []" and "set ids \<subseteq> {2, 3}"
  shows "returns (snd (tcp_peer_call demo_tensor_ops demo_pick demo_addresses refusing_connect ''c'' ''r'' 0 ids [10] pre))"
proof -
  let ?F = "expert_fun demo_ffn (\<lambda>e. projr (slice_expert (en_backend demo_b) 0 e)) demo_tm 0 [10]"
  have "?F 3 = [51]" "?F 2 = [41]" by code_simp+
  then have F: "?F e = [if e = 3 then 51 else 41]" if "e \<in> set ids" for e using that assms(2) by auto
  let ?st = "map (\<lambda>e. if e = 3 then 51 else 41 :: int) ids"
  have "\<exists>outs. tcp_peer_call demo_tensor_ops demo_pick demo_addresses refusing_connect ''c'' ''r'' 0 ids [10] pre = ([], Inr outs) \<and> computes ?F ids outs"
  proof (rule call_answers [OF demo_tensor_laws demo_b_ok assms(1)])
    have "live_at demo_b 0 = [2, 3]" by code_simp
    with assms(2) show "set ids \<subseteq> set (live_at demo_b 0)" by auto
    show "py_index (tm_layers demo_tm) 0 = Inr demo_layer" by (simp add: demo_tm_def py_index_def py_pos_def)
    show "dget demo_addresses ''c'' = Some \<lparr>na_host = ''c'', na_port = 9001\<rparr>" by (simp add: demo_addresses_def)
    show "refusing_connect \<lparr>na_host = ''c'', na_port = 9001\<rparr> = Inr (node_exchange (\<lambda>_. []) demo_tensor_ops demo_stack (mlx_run demo_ffn demo_tm) 0 demo_b)"
      by (simp add: refusing_connect_def)
    have "map (hd \<circ> ?F) ids = ?st" "\<forall>t \<in> ?F ` set ids. length t = 1" using F by auto
    then show "demo_stack (map ?F ids) = Inr ?st" by (simp add: demo_stack_def)
    show "describe demo_tensor_ops [10] = Inr \<lparr>td_shape = [1], td_dtype = 3, td_quant = 0, td_byte_count = 1\<rparr>"
      by (simp add: describe_def demo_tensor_ops_def)
    show "describe demo_tensor_ops ?st = Inr \<lparr>td_shape = [int (length ids)], td_dtype = 3, td_quant = 0, td_byte_count = int (length ids)\<rparr>"
      by (auto simp: describe_def demo_tensor_ops_def)
    show "\<not> en_provenance_enabled demo_b \<or> pre = []" by (simp add: demo_b_def demo_node_def)
  qed
  then show ?thesis by (auto simp: returns_def)
qed

lemma refusing_candidates:
  "candidates (oc_owners refusing_oc) None 1 = [''a'']" "candidates (oc_owners refusing_oc) None 2 = [''b'', ''c'']"
  by code_simp+

lemma refusing_routable: "ri_live r = None \<Longrightarrow> routable refusing_oc {''b''} demo_hosts [1, 2] r"
  by (simp add: routable_def refusing_candidates demo_hosts_def)

lemma refusing_tolerable: "tolerable refusing_oc {''b''} demo_hosts ''r'' 0 [10] [1, 2] [expiring_attempt, expiring_attempt, expiring_attempt]"
proof -
  have self: "oc_self_shard_id refusing_oc = ''a''" by (simp add: refusing_oc_def demo_oc_def)
  have rpc: "returns (snd (oc_rpc refusing_oc k p ''r'' 0 ids [10] pre))" if "p \<notin> {''b''}" "p \<noteq> ''a''" "ids \<noteq> []" "set ids \<subseteq> demo_hosts p" for k p ids pre
  proof -
    have "p = ''c''" using that by (auto simp: demo_hosts_def split: if_splits)
    with that refusing_c_answers [of ids pre] show ?thesis by (simp add: refusing_oc_def demo_hosts_def)
  qed
  have loc: "returns (bk_selected_experts (oc_backend refusing_oc) 0 [10] ids)" if "set ids \<subseteq> demo_hosts ''a''" for ids
  proof -
    have "expert_slot (dget (lm_held_ids_per_layer (demo_part [0, 1] [10, 20])) 0) e = Inr (if e = 0 then 0 else 1)" if "e \<in> set ids" for e
      using that \<open>set ids \<subseteq> _\<close> by (auto simp: demo_part_def expert_slot_def global_to_local_get dindex_def demo_hosts_def)
    note slots = this
    have "py_index (tm_layers demo_tm) 0 = Inr demo_layer" by (simp add: demo_tm_def py_index_def py_pos_def)
    from selected_returns [OF demo_weights(1) this slots, of ids demo_ffn "[10]"] show ?thesis by (simp add: refusing_oc_def demo_oc_def MLXBackend_def)
  qed
  have "polls_ok {''b''} (at_polls expiring_attempt)" "ri_live (at_routing expiring_attempt) = None"
    by (simp_all add: polls_ok_def expiring_attempt_def demo_attempt_def)
  with rpc loc refusing_routable show ?thesis unfolding tolerable_def self by (simp add: refusing_oc_def demo_oc_def)
qed

theorem fan_out_survives_failures_witness:
  "\<exists>outs s'. phase_b_with_retry refusing_oc ''r'' 0 [10] [1, 2] [1] None \<lparr>ri_loads = [], ri_self_loads = [], ri_live = None\<rparr>
      [expiring_attempt, expiring_attempt, expiring_attempt] demo_orch = (Inr outs, s') \<and> dget outs 2 = Some [41]"
proof -
  have F: "expert_fun demo_ffn demo_W demo_tm 0 [10] 2 = [41]" by code_simp
  have "\<exists>outs s'. phase_b_with_retry refusing_oc ''r'' 0 [10] [1, 2] [1] None \<lparr>ri_loads = [], ri_self_loads = [], ri_live = None\<rparr>
      [expiring_attempt, expiring_attempt, expiring_attempt] demo_orch = (Inr outs, s') \<and>
      (\<forall>e \<in> set [1, 2] - set [1]. dget outs e = Some (expert_fun demo_ffn demo_W demo_tm 0 [10] e))"
    by (rule fan_out_survives_failures [OF refusing_serves refusing_tolerable refusing_routable])
       (simp_all add: refusing_oc_def demo_oc_def demo_orch_def)
  with F show ?thesis by force
qed

theorem fan_out_unregisters_witness:
  "dkeys (os_in_flight (snd (phase_b_with_retry demo_oc ''r'' 0 [10] [1, 2] [1] None \<lparr>ri_loads = [], ri_self_loads = [], ri_live = None\<rparr>
      [demo_attempt] demo_orch))) = [''other'']"
  using fan_out_unregisters [of "''r''" demo_orch demo_oc 0 "[10]" "[1, 2]" "[1]" None "\<lparr>ri_loads = [], ri_self_loads = [], ri_live = None\<rparr>" "[demo_attempt]"]
  by (simp add: demo_orch_def)

theorem unowned_expert_raises_key_error_witness:
  "run_split_layer (demo_oc\<lparr>oc_owners := [(''a'', [0, 1])], oc_heat_observer := False\<rparr>) ''r'' demo_env 0 [5] [7] ((), ()) demo_orch =
    (Inl (Raised KeyError), demo_orch)"
proof -
  have "bk_attention_route (oc_backend demo_oc) 0 [5] [7] ((), ()) = Inr (([10], Grid [[[2, 1]]], [[[3, 2]]]), [8], [ObserveIds 0 [2, 1]])"
    by (simp add: demo_oc_def MLXBackend_def run_attention_and_route_def with_layer_def demo_tm_def demo_layer_def py_index_def py_pos_def demo_arith_def)
  moreover have "candidates [(''a'', [0, 1])] None 2 = []" by code_simp
  ultimately show ?thesis
    by (intro unowned_expert_raises_key_error [where e = 2]) (simp_all add: topk_flat_def demo_env_def, simp_all add: demo_oc_def)
qed

theorem split_layer_needs_mlx_witness:
  "fst (run_split_layer (demo_oc\<lparr>oc_mx_available := False\<rparr>) ''r'' demo_env 0 [5] [7] ((), ()) demo_orch) \<noteq> Inr ([205], [8])"
  by (rule split_layer_needs_mlx) simp

end
