(* ===== verification/Engine.thy ===== *)
theory Engine
  imports Cluster
begin

text \<open>
  \<^verbatim>\<open>mlx_engine.py\<close>, \<^verbatim>\<open>pytorch_engine.py\<close> and \<^verbatim>\<open>reference.py\<close>: running a range of
  layers, some of them split over nodes, and the single-process oracle the pipeline is compared with.
  Embedding, masks, the final projection and the sampling of the most likely token are parameters.  An
  exception loses the cache updates made before it in this model; the node drops the cache of a failed
  request.
\<close>

declare map_of_eq_Some_iff [simp del] Some_eq_map_of_iff [simp del]

section \<open>Layers\<close>

definition atomic_entry :: "('t, 'w, 'c, 'm) OrchConfig \<Rightarrow> int \<Rightarrow> 't \<Rightarrow> ('t, unit) orch_prog" where
  "atomic_entry oc i h =
     sbind (sget os_chain) (\<lambda>c. case c of
       None \<Rightarrow> sret ()
     | Some chain \<Rightarrow> append_entry oc OP_LAYER_ATOMIC i 0 h (last_hash chain))"

fun run_layer_list :: "('t, 'w, 'k list, 'a \<times> 'a) OrchConfig \<Rightarrow> ('t, 'w, 'k, 'a) TextModel \<Rightarrow> int list \<Rightarrow> bool \<Rightarrow> string \<Rightarrow>
    (int \<Rightarrow> layer_env) \<Rightarrow> 'a \<times> 'a \<Rightarrow> int list \<Rightarrow> 't \<Rightarrow> 'k list \<Rightarrow> ('t, 't \<times> 'k list) orch_prog" where
  "run_layer_list oc tm split orchestrator rid env masks [] h cache = sret (h, cache)"
| "run_layer_list oc tm split orchestrator rid env masks (i # is) h cache =
     sbind
       (if i \<in> set split
        then if \<not> orchestrator then sthrow (Raised ValueError) else run_split_layer oc rid (env i) i h cache masks
        else sbind (slift Raised (run_layer_atomic tm i h cache masks)) (\<lambda>(h', cache').
             sbind (atomic_entry oc i h') (\<lambda>_. sret (h', cache'))))
       (\<lambda>(h', cache'). run_layer_list oc tm split orchestrator rid env masks is h' cache')"

definition run_layers :: "('t, 'w, 'k list, 'a \<times> 'a) OrchConfig \<Rightarrow> ('t, 'w, 'k, 'a) TextModel \<Rightarrow> 't \<Rightarrow> int \<Rightarrow> int \<Rightarrow> 'k list \<Rightarrow> 'a \<times> 'a \<Rightarrow>
    int list \<Rightarrow> bool \<Rightarrow> string \<Rightarrow> (int \<Rightarrow> layer_env) \<Rightarrow> ('t, 't \<times> 'k list) orch_prog" where
  "run_layers oc tm h start_layer end_layer cache masks split orchestrator rid env =
     run_layer_list oc tm split orchestrator rid env masks [start_layer..end_layer - 1] h cache"

text \<open>\<^verbatim>\<open>run_layers\<close> with no split layer and no provenance, as the oracle calls it.\<close>

definition run_atomic :: "('t, 'w, 'k, 'a) TextModel \<Rightarrow> 'a \<times> 'a \<Rightarrow> int list \<Rightarrow> 't \<Rightarrow> 'k list \<Rightarrow> ('t \<times> 'k list) result" where
  "run_atomic tm masks is h cache = efold (\<lambda>i (h, cache). run_layer_atomic tm i h cache masks) is (h, cache)"

section \<open>The oracle\<close>

record ('t, 'w, 'k, 'a) ReferenceModel =
  rm_text_model :: "('t, 'w, 'k, 'a) TextModel"
  rm_make_cache :: "'k list"
  rm_embed_lookup :: "int list \<Rightarrow> 't"
  rm_embed_scale :: "'t \<Rightarrow> 't"
  rm_first_full_cache_idx :: nat
  rm_first_sliding_cache_idx :: nat
  rm_window_size :: int
  rm_create_attention_mask :: "'t \<Rightarrow> 'k option \<Rightarrow> int option \<Rightarrow> 'a"
  rm_norm :: "'t \<Rightarrow> 't"
  rm_as_linear :: "'t \<Rightarrow> 't"
  rm_final_logit_softcapping :: "rat option"
  rm_softcap :: "rat \<Rightarrow> 't \<Rightarrow> 't"
  rm_argmax_last :: "'t \<Rightarrow> int"

definition num_layers :: "('t, 'w, 'k, 'a) ReferenceModel \<Rightarrow> int" where
  "num_layers rm = int (length (tm_layers (rm_text_model rm)))"

definition embed_tokens :: "('t, 'w, 'k, 'a) ReferenceModel \<Rightarrow> int list \<Rightarrow> 't" where
  "embed_tokens rm token_ids = rm_embed_scale rm (rm_embed_lookup rm token_ids)"

definition make_masks :: "('t, 'w, 'k, 'a) ReferenceModel \<Rightarrow> 't \<Rightarrow> 'k list \<Rightarrow> 'a \<times> 'a" where
  "make_masks rm h cache =
     (let first_full = rm_first_full_cache_idx rm; first_sliding = rm_first_sliding_cache_idx rm in
      (rm_create_attention_mask rm h (if first_full < length cache then Some (cache ! first_full) else None) None,
       rm_create_attention_mask rm h (if first_sliding < length cache then Some (cache ! first_sliding) else None) (Some (rm_window_size rm))))"

definition finalize :: "('t, 'w, 'k, 'a) ReferenceModel \<Rightarrow> 't \<Rightarrow> 't" where
  "finalize rm h =
     (let logits = rm_as_linear rm (rm_norm rm h)
      in case rm_final_logit_softcapping rm of None \<Rightarrow> logits | Some softcap \<Rightarrow> rm_softcap rm softcap logits)"

definition forward_step :: "('t, 'w, 'k, 'a) ReferenceModel \<Rightarrow> int list \<Rightarrow> 'k list \<Rightarrow> (int \<times> 'k list) result" where
  "forward_step rm tokens cache =
     (let h = embed_tokens rm tokens; masks = make_masks rm h cache in
      ebind (run_atomic (rm_text_model rm) masks [0..num_layers rm - 1] h cache) (\<lambda>(h', cache').
        Inr (rm_argmax_last rm (finalize rm h'), cache')))"

fun greedy_loop :: "('t, 'w, 'k, 'a) ReferenceModel \<Rightarrow> nat \<Rightarrow> int \<Rightarrow> 'k list \<Rightarrow> int list result" where
  "greedy_loop rm 0 next_token cache = Inr []"
| "greedy_loop rm (Suc n) next_token cache =
     ebind (forward_step rm [next_token] cache) (\<lambda>(t, cache').
       ebind (greedy_loop rm n t cache') (\<lambda>ts. Inr (t # ts)))"

definition generate_greedy :: "('t, 'w, 'k, 'a) ReferenceModel \<Rightarrow> int list \<Rightarrow> int \<Rightarrow> int list result" where
  "generate_greedy rm prompt_tokens max_new_tokens =
     ebind (forward_step rm prompt_tokens (rm_make_cache rm)) (\<lambda>(t, cache).
       ebind (greedy_loop rm (nat (max_new_tokens - 1)) t cache) (\<lambda>ts. Inr (t # ts)))"

record 't PrefillTrace =
  pt_prompt_token_ids :: "int list"
  pt_layer_inputs :: "'t list"
  pt_final_hidden :: 't
  pt_logits :: 't

definition prefill_trace :: "('t, 'w, 'k, 'a) ReferenceModel \<Rightarrow> int list \<Rightarrow> 't PrefillTrace result" where
  "prefill_trace rm prompt_tokens =
     (let cache = rm_make_cache rm; h = embed_tokens rm prompt_tokens; masks = make_masks rm h cache in
      ebind (efold (\<lambda>i (layer_inputs, h, cache).
               ebind (run_atomic (rm_text_model rm) masks [i..i] h cache) (\<lambda>(h', cache').
                 Inr (layer_inputs @ [h], h', cache'))) [0..num_layers rm - 1] ([], h, cache))
        (\<lambda>(layer_inputs, h, _). Inr \<lparr>pt_prompt_token_ids = prompt_tokens, pt_layer_inputs = layer_inputs, pt_final_hidden = rm_norm rm h, pt_logits = finalize rm h\<rparr>))"

section \<open>Tensors on the wire\<close>

text \<open>An array as the wire sees it: its bytes in row-major order, its shape and its element type.
  \<^verbatim>\<open>_DTYPE_MAP\<close> gives for a wire code the MLX type, the numpy type used for staging and the bytes per
  element.\<close>

record WireTensor =
  wt_bytes :: bytes
  wt_shape :: "int list"
  wt_dtype :: string

definition DTYPE_MAP :: "(int, string \<times> string \<times> nat) dict" where
  "DTYPE_MAP = [(1, (''float32'', ''float32'', 4)), (2, (''float16'', ''float16'', 2)), (3, (''bfloat16'', ''uint16'', 2)),
     (4, (''int32'', ''int32'', 4)), (5, (''int8'', ''int8'', 1)), (6, (''uint8'', ''uint8'', 1)), (7, (''uint32'', ''uint32'', 4))]"

definition mx_to_wire_dtype :: "string \<Rightarrow> int result" where
  "mx_to_wire_dtype dtype = (case find (\<lambda>(_, mxt, _, _). mxt = dtype) DTYPE_MAP of None \<Rightarrow> Inl ValueError | Some (wire, _) \<Rightarrow> Inr wire)"

definition tensor_to_bytes :: "WireTensor \<Rightarrow> bytes" where
  "tensor_to_bytes arr = wt_bytes arr"

text \<open>\<^verbatim>\<open>view_as n sz shape\<close> is numpy's \<^verbatim>\<open>frombuffer(raw, dtype).reshape(shape)\<close> on
  \<^verbatim>\<open>n\<close> bytes and elements of \<^verbatim>\<open>sz\<close> bytes: the shape it gives, or an exception.\<close>

definition bytes_to_tensor :: "(nat \<Rightarrow> nat \<Rightarrow> int list \<Rightarrow> int list result) \<Rightarrow> bytes \<Rightarrow> int list \<Rightarrow> int \<Rightarrow> WireTensor result" where
  "bytes_to_tensor view_as raw shape dtype =
     (case dget DTYPE_MAP dtype of
        None \<Rightarrow> Inl ValueError
      | Some (mx_dtype, _, sz) \<Rightarrow>
          ebind (view_as (length raw) sz shape) (\<lambda>shape'. Inr \<lparr>wt_bytes = raw, wt_shape = shape', wt_dtype = mx_dtype\<rparr>))"

definition TORCH_TO_WIRE :: "(string, int) dict" where
  "TORCH_TO_WIRE = [(''bfloat16'', 3), (''float16'', 2), (''float32'', 1)]"

definition torch_to_wire_dtype :: "string \<Rightarrow> int result" where
  "torch_to_wire_dtype dtype = (case dget TORCH_TO_WIRE dtype of None \<Rightarrow> Inl ValueError | Some w \<Rightarrow> Inr w)"

definition wire_to_torch_dtype :: "int \<Rightarrow> string result" where
  "wire_to_torch_dtype wire = (case dget (map (\<lambda>(k, v). (v, k)) TORCH_TO_WIRE) wire of None \<Rightarrow> Inl ValueError | Some k \<Rightarrow> Inr k)"

definition pt_bytes_to_tensor :: "(nat \<Rightarrow> nat \<Rightarrow> int list \<Rightarrow> int list result) \<Rightarrow> (string \<Rightarrow> nat) \<Rightarrow> bytes \<Rightarrow> int list \<Rightarrow> int \<Rightarrow> WireTensor result" where
  "pt_bytes_to_tensor view_as itemsize raw shape dtype =
     ebind (wire_to_torch_dtype dtype) (\<lambda>torch_dt.
     ebind (view_as (length raw) (itemsize torch_dt) shape) (\<lambda>shape'.
       Inr \<lparr>wt_bytes = raw, wt_shape = shape', wt_dtype = torch_dt\<rparr>))"

text \<open>\<^verbatim>\<open>_resolve_local_for_mlx\<close>: the environment variable, the directory test and the cache root are
  parameters.\<close>

definition ascii_lower :: "char \<Rightarrow> char" where
  "ascii_lower c = (let n = of_char c :: nat in if 65 \<le> n \<and> n \<le> 90 then char_of (n + 32) else c)"

definition basename :: "string \<Rightarrow> string" where
  "basename s = rev (takeWhile (\<lambda>c. c \<noteq> CHR ''/'') (rev s))"

definition resolve_local_for_mlx :: "string option \<Rightarrow> (string \<Rightarrow> bool) \<Rightarrow> string \<Rightarrow> string \<Rightarrow> string" where
  "resolve_local_for_mlx override is_dir cache_root model_id =
     (if override \<noteq> None \<and> override \<noteq> Some [] then the override
      else if is_dir model_id then model_id
      else let cache_dir = cache_root @ ''/'' @ map ascii_lower (basename model_id) @ ''-bf16''
           in if is_dir cache_dir then cache_dir else model_id)"

section \<open>Properties of ranges of layers\<close>

lemma run_layer_list_append:
  "run_layer_list oc tm split orch rid env masks (is @ js) h cache =
     sbind (run_layer_list oc tm split orch rid env masks is h cache) (\<lambda>(h', cache'). run_layer_list oc tm split orch rid env masks js h' cache')"
proof (induction "is" arbitrary: h cache)
  case Nil
  show ?case by (auto simp: sret_def sbind_def)
next
  case (Cons i "is")
  show ?case by (simp add: Cons.IH sbind_assoc case_prod_beta')
qed

lemma upto_split: "a \<le> b \<Longrightarrow> b \<le> c \<Longrightarrow> [a..c - 1] = [a..b - 1] @ [b..c - 1]" for a b c :: int
  using upto_split1 [of a b "c - 1"] by (cases "b = c") simp_all

lemma run_atomic_append:
  "run_atomic tm masks (is @ js) h cache = ebind (run_atomic tm masks is h cache) (\<lambda>(h', cache'). run_atomic tm masks js h' cache')"
  by (simp add: run_atomic_def efold_append case_prod_beta')

text \<open>Splitting a range of layers.  Running two adjacent ranges one after the other, on two nodes, is
  running the whole range: same hidden state, caches, provenance entries and failures.\<close>

theorem ranges_compose:
  assumes "a \<le> b" and "b \<le> c"
  shows "run_layers oc tm h a c cache masks split orch rid env =
    sbind (run_layers oc tm h a b cache masks split orch rid env) (\<lambda>(h', cache').
      run_layers oc tm h' b c cache' masks split orch rid env)"
  unfolding run_layers_def upto_split [OF assms] run_layer_list_append ..

lemma run_layer_list_atomic:
  assumes "os_chain s = None"
  shows "run_layer_list oc tm [] orch rid env masks is h cache s = slift Raised (run_atomic tm masks is h cache) s"
proof (induction "is" arbitrary: h cache)
  case (Cons i "is")
  show ?case
  proof (cases "run_layer_atomic tm i h cache masks")
    case (Inr r)
    then show ?thesis using assms Cons.IH [of "fst r" "snd r"]
      by (simp add: run_atomic_def sbind_def slift_def atomic_entry_def sget_def sret_def case_prod_beta)
  qed (simp add: run_atomic_def sbind_def slift_def)
qed (simp add: run_atomic_def sret_def slift_def)

text \<open>What makes a layer's split run agree with its atomic run: the layer's experts are where
  \<^verbatim>\<open>W l\<close> says, and the layer of the library computes the composition the split run assembles.\<close>

definition layer_served :: "(int \<Rightarrow> int \<Rightarrow> 'r list) \<Rightarrow> ('r list \<Rightarrow> 't \<Rightarrow> 't) \<Rightarrow> ('t, 'w, 'v) TensorArith \<Rightarrow> ('t, 'w, 'k, 'a) TextModel \<Rightarrow> 'r LoadedModel \<Rightarrow>
    'r LoadedModel \<Rightarrow> (bytes \<Rightarrow> bytes) \<Rightarrow> 't TensorOps \<Rightarrow> ('t list \<Rightarrow> 't result) \<Rightarrow>
    (int \<Rightarrow> NodeAddress \<Rightarrow> (wire_frame \<Rightarrow> wire_frame result) result) \<Rightarrow> int \<Rightarrow> bool" where
  "layer_served W ffn ta tm lm lm' blake2b ops stack connect i \<longleftrightarrow>
     weights_ok (W i) lm i \<and> (\<forall>k. cluster_ok (W i) ffn tm i blake2b ops stack (connect k)) \<and>
     weights_ok (W i) lm' i \<and> dget_default (lm_held_ids_per_layer lm') i [] = [] \<and>
     (\<forall>h cache masks. single_node_layer ffn ta tm lm' i h cache masks = run_layer_atomic tm i h cache masks)"


text \<open>The trace of the oracle.  The hidden state recorded before layer \<^verbatim>\<open>i\<close> is the one after running
  the layers below it, which is what the shard that ends there sends on; the logits are those of the
  whole forward pass.\<close>

theorem prefill_trace_boundaries:
  assumes "prefill_trace rm prompt = Inr tr"
  defines "h0 \<equiv> embed_tokens rm prompt" and "masks \<equiv> make_masks rm (embed_tokens rm prompt) (rm_make_cache rm)"
  shows "length (pt_layer_inputs tr) = length (tm_layers (rm_text_model rm)) \<and>
    (\<forall>i < length (pt_layer_inputs tr). \<exists>c. run_atomic (rm_text_model rm) masks [0..int i - 1] h0 (rm_make_cache rm) = Inr (pt_layer_inputs tr ! i, c)) \<and>
    (\<exists>h c. run_atomic (rm_text_model rm) masks [0..num_layers rm - 1] h0 (rm_make_cache rm) = Inr (h, c) \<and> pt_logits tr = finalize rm h)"
proof -
  let ?run = "\<lambda>n. run_atomic (rm_text_model rm) masks [0..int n - 1] h0 (rm_make_cache rm)"
  let ?f = "\<lambda>i (layer_inputs, h, cache). ebind (run_atomic (rm_text_model rm) masks [i..i] h cache) (\<lambda>(h', cache'). Inr (layer_inputs @ [h], h', cache'))"
  have step: "length ins = n \<and> (\<forall>i < n. \<exists>c. ?run i = Inr (ins ! i, c)) \<and> ?run n = Inr (h, c)"
    if "efold ?f [0..int n - 1] ([], h0, rm_make_cache rm) = Inr (ins, h, c)" for n ins h c
    using that
  proof (induction n arbitrary: ins h c)
    case (Suc n)
    have up: "[0..int (Suc n) - 1] = [0..int n - 1] @ [int n]" by (simp add: upto_rec2)
    from Suc.prems [unfolded up efold_append] obtain ins0 h0' c0 where "efold ?f [0..int n - 1] ([], h0, rm_make_cache rm) = Inr (ins0, h0', c0)"
      and r: "run_atomic (rm_text_model rm) masks [int n..int n] h0' c0 = Inr (h, c)" and ins: "ins = ins0 @ [h0']"
      by (auto simp: ebind_eq_Inr)
    from Suc.IH [OF this(1)] r show ?case unfolding up run_atomic_append ins by (auto simp: nth_append less_Suc_eq)
  qed (simp add: run_atomic_def)
  from assms(1) obtain ins h c where "efold ?f [0..num_layers rm - 1] ([], h0, rm_make_cache rm) = Inr (ins, h, c)"
    and tr: "tr = \<lparr>pt_prompt_token_ids = prompt, pt_layer_inputs = ins, pt_final_hidden = rm_norm rm h, pt_logits = finalize rm h\<rparr>"
    by (auto simp: prefill_trace_def Let_def ebind_eq_Inr h0_def masks_def)
  from step [OF this(1) [unfolded num_layers_def]] show ?thesis by (auto simp: tr num_layers_def)
qed

text \<open>What numpy and torch document of \<^verbatim>\<open>frombuffer\<close> and \<^verbatim>\<open>reshape\<close>: the bytes of a
  non-empty array are viewed at its shape.\<close>

definition views_arrays :: "(nat \<Rightarrow> nat \<Rightarrow> int list \<Rightarrow> int list result) \<Rightarrow> bool" where
  "views_arrays view_as \<longleftrightarrow> (\<forall>n sz shape. 0 < n \<and> (\<forall>d \<in> set shape. 0 \<le> d) \<and> int n = int sz * prod_list shape \<longrightarrow> view_as n sz shape = Inr shape)"

definition tensor_wf :: "WireTensor \<Rightarrow> bool" where
  "tensor_wf t \<longleftrightarrow> wt_bytes t \<noteq> [] \<and> (\<forall>d \<in> set (wt_shape t). 0 \<le> d) \<and>
     (\<forall>w np sz. (w, wt_dtype t, np, sz) \<in> set DTYPE_MAP \<longrightarrow> int (length (wt_bytes t)) = int sz * prod_list (wt_shape t))"


section \<open>A small model\<close>

text \<open>The cluster of \<^verbatim>\<open>Cluster\<close> with its one layer, and a model of two such layers.\<close>

definition demo_two :: "(int list, int list list list, nat, unit) TextModel" where
  "demo_two = \<lparr>tm_layers = [demo_layer, demo_layer], tm_layer_idx_to_cache_idx = [0, 1]\<rparr>"

definition demo_rm :: "(int list, int list list list, nat, unit) ReferenceModel" where
  "demo_rm = \<lparr>rm_text_model = demo_two, rm_make_cache = [0, 0], rm_embed_lookup = id, rm_embed_scale = id, rm_first_full_cache_idx = 0,
     rm_first_sliding_cache_idx = 1, rm_window_size = 1024, rm_create_attention_mask = (\<lambda>_ _ _. ()), rm_norm = id, rm_as_linear = id,
     rm_final_logit_softcapping = Some 30, rm_softcap = (\<lambda>c. map (\<lambda>v. v mod \<lfloor>c\<rfloor>)), rm_argmax_last = (\<lambda>t. last t)\<rparr>"

lemma demo_selected:
  "mlx_selected_experts demo_ffn demo_tm demo_full 0 x [1, 2] = Inr [(1, map ((+) 21) x), (2, map ((+) 31) x)]"
proof -
  have "demo_ffn (rows_at (map (\<lambda>pa. (pa, [10, 20, 30, 40])) PROJ_ATTR_ORDER) 1) (map ((+) 1) x) = map ((+) 21) x"
    "demo_ffn (rows_at (map (\<lambda>pa. (pa, [10, 20, 30, 40])) PROJ_ATTR_ORDER) 2) (map ((+) 1) x) = map ((+) 31) x"
    by (simp_all add: demo_ffn_def rows_at_def PROJ_ATTR_ORDER_def)
  then show ?thesis
    by (simp add: mlx_selected_experts_def demo_tm_def demo_layer_def demo_full_def run_selected_experts_def py_index_def py_pos_def
        expert_slot_def)
qed

lemma demo_tm_layer: "py_index (tm_layers demo_tm) 0 = Inr demo_layer" "py_index (tm_layer_idx_to_cache_idx demo_tm) 0 = Inr 0"
  by (simp_all add: demo_tm_def py_index_def py_pos_def)

lemma demo_layer_atomic: "single_node_layer demo_ffn demo_arith demo_tm demo_full 0 h cache masks = run_layer_atomic demo_tm 0 h cache masks"
proof (cases cache)
  case Nil
  then show ?thesis by (simp add: single_node_layer_def run_attention_and_route_def run_layer_atomic_def with_layer_def demo_tm_layer py_pos_def)
next
  case (Cons c cs)
  let ?x = "map2 (+) h h"
  have route: "run_attention_and_route demo_arith demo_tm 0 h cache masks = Inr ((?x, Grid [[[2, 1]]], [[[3, 2]]]), (c + 1) # cs, [ObserveIds 0 [2, 1]])"
    by (simp add: run_attention_and_route_def with_layer_def demo_tm_layer Cons py_pos_def) (simp add: demo_layer_def demo_arith_def)
  have agg: "mlx_aggregate_experts demo_arith demo_tm 0 [(1, map ((+) 21) ?x), (2, map ((+) 31) ?x)] (Grid [[[2, 1]]]) [[[3, 2]]] ?x =
      Inr (map (\<lambda>v. 6 * v + 135) ?x)"
    by (simp add: mlx_aggregate_experts_def demo_tm_layer aggregate_grid_def select_outputs_def aggregate_experts_def demo_arith_def dindex_def)
       (simp add: py_index_def py_pos_def demo_layer_def zip_map_map zip_same_conv_map comp_def algebra_simps)
  have "sorted_list_of_set (set (topk_flat (Grid [[[2, 1]]]))) = [1, 2]" by (simp add: topk_flat_def)
  with route agg show ?thesis
    by (simp add: single_node_layer_def run_shared_expert_def demo_tm_layer demo_selected mlx_apply_outer_decoder_ops_def run_layer_atomic_def with_layer_def Cons py_pos_def)
       (simp add: demo_layer_def demo_arith_def zip_map_map zip_same_conv_map comp_def algebra_simps)
qed

theorem ranges_compose_witness:
  "fst (sbind (run_layers demo_oc demo_two [5] 0 1 [7, 9] ((), ()) [] False ''r'' (\<lambda>_. demo_env)) (\<lambda>(h', cache').
      run_layers demo_oc demo_two h' 1 2 cache' ((), ()) [] False ''r'' (\<lambda>_. demo_env)) demo_orch) = Inr ([3005], [8, 10])"
proof -
  have "case run_layers demo_oc demo_two [5] 0 2 [7, 9] ((), ()) [] False ''r'' (\<lambda>_. demo_env) demo_orch of
      (Inl _, _) \<Rightarrow> False | (Inr r, s') \<Rightarrow> r = ([3005], [8, 10])"
    by code_simp
  with ranges_compose [of 0 1 2 demo_oc demo_two "[5]" "[7, 9]" "((), ())" "[]" False "''r''" "\<lambda>_. demo_env"]
  show ?thesis by (auto split: prod.splits sum.splits)
qed


theorem prefill_trace_boundaries_witness:
  "\<exists>c. run_atomic demo_two (make_masks demo_rm (embed_tokens demo_rm [5]) [0, 0]) [0] (embed_tokens demo_rm [5]) [0, 0] = Inr ([205], c)"
proof -
  let ?tr = "\<lparr>pt_prompt_token_ids = [5], pt_layer_inputs = [[5], [205]], pt_final_hidden = [3005], pt_logits = [5]\<rparr>"
  have tr: "prefill_trace demo_rm [5] = Inr ?tr" by code_simp
  have rm: "rm_text_model demo_rm = demo_two" "rm_make_cache demo_rm = [0, 0]" by (simp_all add: demo_rm_def)
  have "(1::nat) < length (pt_layer_inputs ?tr)" by simp
  with prefill_trace_boundaries [OF tr, unfolded rm] have "\<exists>c. run_atomic demo_two (make_masks demo_rm (embed_tokens demo_rm [5]) [0, 0]) [0..int 1 - 1]
      (embed_tokens demo_rm [5]) [0, 0] = Inr (pt_layer_inputs ?tr ! 1, c)" by blast
  then show ?thesis by simp
qed

text \<open>The view on shapes without unknown dimensions.\<close>

definition demo_view :: "nat \<Rightarrow> nat \<Rightarrow> int list \<Rightarrow> int list result" where
  "demo_view n sz shape = (if n = 0 \<or> sz = 0 \<or> (\<exists>d \<in> set shape. d < 0) \<or> int n \<noteq> int sz * prod_list shape then Inl ValueError else Inr shape)"

lemma demo_view_ok: "views_arrays demo_view"
  by (force simp: views_arrays_def demo_view_def)


end
