(* ===== verification/Node.thy ===== *)
theory Node
  imports Engine Pt_Engine
begin

text \<open>
  The request plane of \<^verbatim>\<open>node.py\<close>: what a node does with the frames it receives over TCP, the
  decode loop of the head, and its reaction to membership changes.  The state extends the expert-owning
  node of \<^verbatim>\<open>Expert_Node\<close>.

  A handler is one atomic step; \<^verbatim>\<open>_handle_begin\<close> blocks on its token queue, so it ends where the
  loop starts, and \<^verbatim>\<open>decode_round\<close> is the code from one \<^verbatim>\<open>token_queue.get()\<close> to the
  next.  Streams are numbers.  Writes and connects succeed or raise \<^verbatim>\<open>OSError\<close> as the list
  \<^verbatim>\<open>pn_faults\<close> says (when it is used up, they succeed); what was written is in \<^verbatim>\<open>pn_log\<close>.
  The text of an \<^verbatim>\<open>Error\<close> and the position in the log are left out.
\<close>

declare map_of_eq_Some_iff [simp del] Some_eq_map_of_iff [simp del]

section \<open>State\<close>

definition POISON_TOKEN :: int where
  "POISON_TOKEN = - 1"

datatype node_exn = NOrch orch_exn | NPeerLeftAlive

abbreviation NPy :: "py_exn \<Rightarrow> node_exn" where
  "NPy e \<equiv> NOrch (Raised e)"

record HeadRequestState =
  hs_request_id :: string
  hs_client_stream :: nat
  hs_max_new_tokens :: int
  hs_generated :: int
  hs_token_queue :: "int list"
  hs_running :: bool

datatype out_event = ToPeer wire_frame | ToStream nat wire_frame | CloseOut | CloseStream nat

text \<open>The objects of type \<^verbatim>\<open>_HeadRequestState\<close> live in \<^verbatim>\<open>pn_states\<close>;
  \<^verbatim>\<open>_head_states\<close> holds references to them, and so does the thread of the loop.\<close>

record ('b, 't, 'c, 'o) PNode =
  pn_expert :: "'b ExpertNode"
  pn_downstream :: ShardSpec
  pn_split_layers :: "int list"
  pn_has_orchestrator :: bool
  pn_orch :: 'o
  pn_kv_caches :: "(string, 'c) dict"
  pn_states :: "HeadRequestState list"
  pn_head_states :: "(string, nat) dict"
  pn_pending_finalize :: "(string, ProvenanceEntry) dict"
  pn_debug_captures :: "(string, (int \<times> 't) list) dict"
  pn_out_open :: bool
  pn_faults :: "bool list"
  pn_log :: "out_event list"

type_synonym ('b, 't, 'c, 'o, 'a) node_prog = "(('b, 't, 'c, 'o) PNode, node_exn, 'a) prog"

text \<open>The backend of the node, the hash and the clock.\<close>

record ('b, 't, 'c, 'o) NodeEngine =
  ne_make_cache :: 'c
  ne_embed :: "int list \<Rightarrow> 't result"
  ne_run_my_layers :: "string \<Rightarrow> 't \<Rightarrow> 'c \<Rightarrow> ProvenanceEntry list option \<Rightarrow> ('o, orch_exn, ('t \<times> 'c) \<times> ProvenanceEntry list option) prog"
  ne_finalize :: "'t \<Rightarrow> 't"
  ne_argmax_last :: "'t \<Rightarrow> int"
  ne_ops :: "'t TensorOps"
  ne_stack :: "'t list \<Rightarrow> 't result"
  ne_run_experts :: "'b \<Rightarrow> int \<Rightarrow> 't \<Rightarrow> int list \<Rightarrow> (int, 't) dict result"
  ne_slice :: "'b \<Rightarrow> int \<Rightarrow> int \<Rightarrow> 't list result"
  ne_notify :: "string \<Rightarrow> 'o \<Rightarrow> 'o"
  ne_blake2b :: "bytes \<Rightarrow> bytes"
  ne_clock :: "nat \<Rightarrow> py_float"

abbreviation pn_shard :: "('b, 't, 'c, 'o) PNode \<Rightarrow> ShardSpec" where
  "pn_shard n \<equiv> en_shard (pn_expert n)"

definition is_head :: "('b, 't, 'c, 'o) PNode \<Rightarrow> bool" where
  "is_head n \<longleftrightarrow> sp_start_layer (pn_shard n) = 0"

definition is_tail :: "('b, 't, 'c, 'o) PNode \<Rightarrow> bool" where
  "is_tail n \<longleftrightarrow> sp_end_layer (pn_shard n) = en_total_layers (pn_expert n)"

section \<open>Streams\<close>

definition io_op :: "('b, 't, 'c, 'o, unit) node_prog" where
  "io_op = sbind (sget pn_faults) (\<lambda>fs. case fs of
     [] \<Rightarrow> sret ()
   | f # fs' \<Rightarrow> sbind (smod (pn_faults_update (\<lambda>_. fs'))) (\<lambda>_. if f then sthrow (NPy OSError) else sret ()))"

definition emit :: "out_event \<Rightarrow> ('b, 't, 'c, 'o, unit) node_prog" where
  "emit ev = smod (pn_log_update (\<lambda>l. l @ [ev]))"

definition write_stream :: "nat \<Rightarrow> wire_frame \<Rightarrow> ('b, 't, 'c, 'o, unit) node_prog" where
  "write_stream stream frame = sbind io_op (\<lambda>_. emit (ToStream stream frame))"

definition suppress_os_error :: "('b, 't, 'c, 'o, unit) node_prog \<Rightarrow> ('b, 't, 'c, 'o, unit) node_prog" where
  "suppress_os_error m = scatch m (\<lambda>e. if e = NPy OSError then sret () else sthrow e)"

definition ensure_out_stream :: "('b, 't, 'c, 'o, unit) node_prog" where
  "ensure_out_stream = sbind (sget pn_out_open) (\<lambda>b. if b then sret () else sbind io_op (\<lambda>_. smod (pn_out_open_update (\<lambda>_. True))))"

definition write_out :: "wire_frame \<Rightarrow> ('b, 't, 'c, 'o, unit) node_prog" where
  "write_out frame = sbind ensure_out_stream (\<lambda>_. sbind io_op (\<lambda>_. emit (ToPeer frame)))"

definition close_outbound :: "('b, 't, 'c, 'o, unit) node_prog" where
  "close_outbound = sbind (sget pn_out_open) (\<lambda>b. if b then sbind (smod (pn_out_open_update (\<lambda>_. False))) (\<lambda>_. emit CloseOut) else sret ())"

definition send_sampled_token_to :: "nat \<Rightarrow> string \<Rightarrow> int \<Rightarrow> int \<Rightarrow> bool \<Rightarrow> ('b, 't, 'c, 'o, unit) node_prog" where
  "send_sampled_token_to stream request_id token_id pos is_final =
     write_stream stream (PSampledToken request_id token_id pos is_final, [])"

section \<open>Sending along the pipeline\<close>

definition activation_envelope :: "'t TensorOps \<Rightarrow> string \<Rightarrow> int \<Rightarrow> 't \<Rightarrow> ProvenanceEntryPb list \<Rightarrow> wire_frame result" where
  "activation_envelope ops request_id next_layer h prov =
     ebind (describe ops h) (\<lambda>d. Inr (PActivation request_id next_layer d prov, to_bytes ops h))"

definition forward_activation :: "('b, 't, 'c, 'o) NodeEngine \<Rightarrow> string \<Rightarrow> 't \<Rightarrow> ProvenanceEntry list option \<Rightarrow> ('b, 't, 'c, 'o, unit) node_prog" where
  "forward_activation eng request_id h chain =
     sbind (sget id) (\<lambda>n.
     if is_tail n then sthrow (NPy AssertionError)
     else
       sbind (smod (pn_debug_captures_update (dappend request_id (sp_end_layer (pn_shard n), h)))) (\<lambda>_.
       sbind (slift NPy (emap entry_to_pb (if en_provenance_enabled (pn_expert n) then (case chain of None \<Rightarrow> [] | Some c \<Rightarrow> c) else []))) (\<lambda>prov.
       sbind (slift NPy (activation_envelope (ne_ops eng) request_id (sp_end_layer (pn_shard n)) h prov)) write_out)))"

definition send_sampled_token :: "string \<Rightarrow> int \<Rightarrow> int \<Rightarrow> ('b, 't, 'c, 'o, unit) node_prog" where
  "send_sampled_token request_id token_id pos = write_out (PSampledToken request_id token_id pos False, [])"

definition drop_cache :: "string \<Rightarrow> ('b, 't, 'c, 'o, unit) node_prog" where
  "drop_cache request_id = smod (pn_kv_caches_update (dpop request_id))"

definition drop_state :: "string \<Rightarrow> ('b, 't, 'c, 'o, unit) node_prog" where
  "drop_state request_id = smod (pn_head_states_update (dpop request_id))"

definition broadcast_end :: "string \<Rightarrow> ('b, 't, 'c, 'o, unit) node_prog" where
  "broadcast_end request_id = sbind (suppress_os_error (write_out (PEnd request_id, []))) (\<lambda>_. drop_cache request_id)"

section \<open>Running the layers of the node\<close>

text \<open>\<^verbatim>\<open>_run_my_layers\<close> of an MLX node: a pass over its range with masks built from its own
  hidden state and cache; \<^verbatim>\<open>envs k\<close> is the environment of pass \<^verbatim>\<open>k\<close>.\<close>

definition mlx_run_my_layers :: "('t, 'w, 'k list, 'a \<times> 'a) OrchConfig \<Rightarrow> ('t, 'w, 'k, 'a) ReferenceModel \<Rightarrow> ShardSpec \<Rightarrow> int list \<Rightarrow> bool \<Rightarrow>
    (nat \<Rightarrow> int \<Rightarrow> layer_env) \<Rightarrow> string \<Rightarrow> 't \<Rightarrow> 'k list \<Rightarrow> ProvenanceEntry list option \<Rightarrow>
    ('t Orch \<times> nat, orch_exn, ('t \<times> 'k list) \<times> ProvenanceEntry list option) prog" where
  "mlx_run_my_layers oc rm shard split has_orchestrator envs request_id h cache chain st =
     (case st of (s, k) \<Rightarrow>
        (case run_layers oc (rm_text_model rm) h (sp_start_layer shard) (sp_end_layer shard) cache (make_masks rm h cache) split
                has_orchestrator request_id (envs k) (s\<lparr>os_chain := chain\<rparr>) of
           (Inl e, s') \<Rightarrow> (Inl e, (s', k + 1))
         | (Inr r, s') \<Rightarrow> (Inr (r, os_chain s'), (s', k + 1))))"

text \<open>Of a PyTorch node: no entry is added to the chain.\<close>

definition pt_run_my_layers :: "('t, 'p, 'a, 'k) HFModel \<Rightarrow> ShardSpec \<Rightarrow> int list \<Rightarrow> string \<Rightarrow> 't \<Rightarrow> 'k \<Rightarrow> ProvenanceEntry list option \<Rightarrow>
    ('o, orch_exn, ('t \<times> 'k) \<times> ProvenanceEntry list option) prog" where
  "pt_run_my_layers m shard split request_id h cache chain =
     sbind (slift Raised (pt_run_layers m (sp_start_layer shard) (sp_end_layer shard) h cache (pt_make_masks m h cache) (\<lambda>i. i \<in> set split))) (\<lambda>r.
       sret (r, chain))"

text \<open>Running them on the node's orchestrator; the cache object is updated in place.\<close>

definition run_my_layers :: "('b, 't, 'c, 'o) NodeEngine \<Rightarrow> string \<Rightarrow> 't \<Rightarrow> 'c \<Rightarrow> ProvenanceEntry list option \<Rightarrow>
    ('b, 't, 'c, 'o, 't \<times> ProvenanceEntry list option) node_prog" where
  "run_my_layers eng request_id h cache chain n =
     (case ne_run_my_layers eng request_id h cache chain (pn_orch n) of
        (Inl e, o') \<Rightarrow> (Inl (NOrch e), n\<lparr>pn_orch := o'\<rparr>)
      | (Inr ((h', cache'), chain'), o') \<Rightarrow> (Inr (h', chain'), n\<lparr>pn_orch := o', pn_kv_caches := dput request_id cache' (pn_kv_caches n)\<rparr>))"

definition node_entry :: "('b, 't, 'c, 'o) NodeEngine \<Rightarrow> OpType \<Rightarrow> 't \<Rightarrow> bytes list \<Rightarrow> ('b, 't, 'c, 'o, ProvenanceEntry) node_prog" where
  "node_entry eng op out parents =
     sbind (sget id) (\<lambda>n. slift NPy (build_entry (ne_blake2b eng) (to_bytes (ne_ops eng)) (ne_clock eng (length (pn_log n))) (my_id (pn_expert n))
       \<lparr>opd_op_type = op, opd_layer_idx = 0, opd_expert_id = 0\<rparr> out parents))"

section \<open>Requests at the head\<close>

definition unavailable_peer :: "('b, 't, 'c, 'o) PNode \<Rightarrow> string option" where
  "unavailable_peer n =
     (case en_membership (pn_expert n) of
        None \<Rightarrow> None
      | Some r \<Rightarrow> find (\<lambda>sid. case dget (view (rn_state r)) sid of None \<Rightarrow> True | Some rec \<Rightarrow> mr_state rec \<noteq> ALIVE)
                    (all_shards (en_shard_map (pn_expert n))))"

definition is_rpc_failure :: "node_exn \<Rightarrow> bool" where
  "is_rpc_failure e = (case e of NOrch (ExpertRpcFailure _ _) \<Rightarrow> True | _ \<Rightarrow> False)"

text \<open>Embedding tokens and opening the chain of a pass.\<close>

definition embed_pass :: "('b, 't, 'c, 'o) NodeEngine \<Rightarrow> int list \<Rightarrow> ('b, 't, 'c, 'o, 't \<times> ProvenanceEntry list option) node_prog" where
  "embed_pass eng tokens =
     sbind (slift NPy (ne_embed eng tokens)) (\<lambda>h.
     sbind (sget (\<lambda>n. en_provenance_enabled (pn_expert n))) (\<lambda>prov.
     if prov then sbind (node_entry eng OP_EMBED h []) (\<lambda>e. sret (h, Some [e])) else sret (h, None)))"

definition set_state :: "nat \<Rightarrow> (HeadRequestState \<Rightarrow> HeadRequestState) \<Rightarrow> ('b, 't, 'c, 'o, unit) node_prog" where
  "set_state sid f = smod (pn_states_update (\<lambda>sts. sts[sid := f (sts ! sid)]))"

definition handle_begin :: "('b, 't, 'c, 'o) NodeEngine \<Rightarrow> string \<Rightarrow> int list \<Rightarrow> int \<Rightarrow> nat \<Rightarrow> ('b, 't, 'c, 'o, unit) node_prog" where
  "handle_begin eng request_id prompt_tokens max_new_tokens client_stream =
     sbind (sget id) (\<lambda>n.
     if \<not> is_head n then write_stream client_stream (send_error request_id ERR_WRONG_SHARD)
     else if unavailable_peer n \<noteq> None then write_stream client_stream (send_error request_id ERR_SHARD_UNAVAILABLE)
     else
       let sid = length (pn_states n);
           state = \<lparr>hs_request_id = request_id, hs_client_stream = client_stream,
                    hs_max_new_tokens = (if max_new_tokens = 0 then 1 else max_new_tokens), hs_generated = 0, hs_token_queue = [], hs_running = False\<rparr>
       in
         sbind (smod (\<lambda>n. n\<lparr>pn_kv_caches := dput request_id (ne_make_cache eng) (pn_kv_caches n), pn_states := pn_states n @ [state],
                            pn_head_states := dput request_id sid (pn_head_states n)\<rparr>)) (\<lambda>_.
         sbind (embed_pass eng prompt_tokens) (\<lambda>(h, chain).
         sbind (scatch (sbind (run_my_layers eng request_id h (ne_make_cache eng) chain) (\<lambda>r. sret (Some r)))
                  (\<lambda>e. if is_rpc_failure e
                       then sbind (suppress_os_error (write_stream client_stream (send_error request_id ERR_SHARD_UNAVAILABLE))) (\<lambda>_.
                            sbind (drop_cache request_id) (\<lambda>_.
                            sbind (drop_state request_id) (\<lambda>_. sret None)))
                       else sthrow e)) (\<lambda>r.
         case r of
           None \<Rightarrow> sret ()
         | Some (h', chain') \<Rightarrow>
             sbind (forward_activation eng request_id h' chain') (\<lambda>_. set_state sid (hs_running_update (\<lambda>_. True)))))))"

text \<open>One turn of the loop after a token was taken from the queue: True when the request is complete.\<close>

definition decode_turn :: "('b, 't, 'c, 'o) NodeEngine \<Rightarrow> nat \<Rightarrow> string \<Rightarrow> int \<Rightarrow> ('b, 't, 'c, 'o, bool) node_prog" where
  "decode_turn eng sid request_id token_id =
     (if token_id = POISON_TOKEN then sthrow NPeerLeftAlive
      else
        sbind (set_state sid (hs_generated_update (\<lambda>g. g + 1))) (\<lambda>_.
        sbind (sget (\<lambda>n. pn_states n ! sid)) (\<lambda>state.
        let is_final = (hs_max_new_tokens state \<le> hs_generated state) in
        sbind (send_sampled_token_to (hs_client_stream state) request_id token_id (hs_generated state - 1) is_final) (\<lambda>_.
        if is_final then sret True
        else
          sbind (sget (\<lambda>n. dindex (pn_kv_caches n) request_id)) (\<lambda>c.
          sbind (slift NPy c) (\<lambda>cache.
          sbind (embed_pass eng [token_id]) (\<lambda>(h, chain).
          sbind (run_my_layers eng request_id h cache chain) (\<lambda>(h', chain').
          sbind (forward_activation eng request_id h' chain') (\<lambda>_. sret False)))))))))"

definition end_request :: "string \<Rightarrow> ('b, 't, 'c, 'o, unit) node_prog" where
  "end_request request_id = sbind (broadcast_end request_id) (\<lambda>_. sbind (drop_state request_id) (\<lambda>_. close_outbound))"

definition abort_request :: "nat \<Rightarrow> string \<Rightarrow> ('b, 't, 'c, 'o, unit) node_prog" where
  "abort_request client_stream request_id =
     sbind (suppress_os_error (write_stream client_stream (send_error request_id ERR_SHARD_UNAVAILABLE))) (\<lambda>_.
     sbind (drop_cache request_id) (\<lambda>_.
     sbind (drop_state request_id) (\<lambda>_.
     sbind close_outbound (\<lambda>_. suppress_os_error (broadcast_end request_id)))))"

definition caught_by_loop :: "node_exn \<Rightarrow> bool" where
  "caught_by_loop e \<longleftrightarrow> e = NPy OSError \<or> is_rpc_failure e \<or> e = NPeerLeftAlive"

text \<open>From one \<^verbatim>\<open>get\<close> to the next, or to the end of \<^verbatim>\<open>_drive_decode_loop\<close>.\<close>

definition decode_round :: "('b, 't, 'c, 'o) NodeEngine \<Rightarrow> nat \<Rightarrow> ('b, 't, 'c, 'o, unit) node_prog" where
  "decode_round eng sid =
     sbind (sget (\<lambda>n. pn_states n ! sid)) (\<lambda>state.
     let request_id = hs_request_id state in
     sbind (set_state sid (hs_token_queue_update tl)) (\<lambda>_.
     sbind (set_state sid (hs_running_update (\<lambda>_. False))) (\<lambda>_.
     scatch
       (sbind (decode_turn eng sid request_id (hd (hs_token_queue state))) (\<lambda>finished.
          if finished then end_request request_id else set_state sid (hs_running_update (\<lambda>_. True))))
       (\<lambda>e. if caught_by_loop e then abort_request (hs_client_stream state) request_id else sthrow e))))"

definition decode_ready :: "('b, 't, 'c, 'o) PNode \<Rightarrow> nat \<Rightarrow> bool" where
  "decode_ready n sid \<longleftrightarrow> sid < length (pn_states n) \<and> hs_running (pn_states n ! sid) \<and> hs_token_queue (pn_states n ! sid) \<noteq> []"

section \<open>Frames from other nodes\<close>

definition reject_activation :: "string \<Rightarrow> nat \<Rightarrow> ('b, 't, 'c, 'o, unit) node_prog" where
  "reject_activation request_id inbound =
     sbind (suppress_os_error (write_stream inbound (send_error request_id ERR_INVALID_PROVENANCE))) (\<lambda>_.
     sbind (sget is_tail) (\<lambda>tail.
     if \<not> tail then close_outbound else suppress_os_error (write_out (send_error request_id ERR_INVALID_PROVENANCE))))"

definition handle_activation :: "('b, 't, 'c, 'o) NodeEngine \<Rightarrow> string \<Rightarrow> int \<Rightarrow> TensorDescriptor \<Rightarrow> ProvenanceEntryPb list \<Rightarrow> bytes \<Rightarrow> nat \<Rightarrow>
    ('b, 't, 'c, 'o, unit) node_prog" where
  "handle_activation eng request_id next_layer_idx desc prov tensor_bytes inbound =
     sbind (sget id) (\<lambda>n.
     if next_layer_idx \<noteq> sp_start_layer (pn_shard n) then sret ()
     else case check_inbound (ne_blake2b eng) (pn_expert n) prov tensor_bytes of
       Inl e \<Rightarrow> if e = ProvenanceError then reject_activation request_id inbound else sthrow (NPy e)
     | Inr inbound_chain \<Rightarrow>
         let cache = dget_default (pn_kv_caches n) request_id (ne_make_cache eng) in
         sbind (smod (pn_kv_caches_update (dput request_id cache))) (\<lambda>_.
         sbind (slift NPy (from_bytes (ne_ops eng) tensor_bytes (td_shape desc) (td_dtype desc))) (\<lambda>h.
         let local_chain = (if en_provenance_enabled (pn_expert n) then Some inbound_chain else None) in
         sbind (scatch (sbind (run_my_layers eng request_id h cache local_chain) (\<lambda>r. sret (Some r)))
                  (\<lambda>e. if is_rpc_failure e
                       then sbind (suppress_os_error (write_stream inbound (send_error request_id ERR_SHARD_UNAVAILABLE))) (\<lambda>_.
                            sbind (emit (CloseStream inbound)) (\<lambda>_.
                            sbind close_outbound (\<lambda>_.
                            sbind (drop_cache request_id) (\<lambda>_. sret None))))
                       else sthrow e)) (\<lambda>r.
         case r of
           None \<Rightarrow> sret ()
         | Some (h', chain') \<Rightarrow>
             if is_tail n then
               let logits = ne_finalize eng h' in
               sbind (swhen (en_provenance_enabled (pn_expert n))
                        (sbind (node_entry eng OP_FINALIZE logits (case chain' of None \<Rightarrow> [] | Some c \<Rightarrow> if c = [] then [] else [pe_hash (last c)])) (\<lambda>e.
                           smod (pn_pending_finalize_update (dput request_id e))))) (\<lambda>_.
               send_sampled_token request_id (ne_argmax_last eng logits) 0)
             else forward_activation eng request_id h' chain'))))"

definition handle_sampled_token :: "string \<Rightarrow> int \<Rightarrow> ('b, 't, 'c, 'o, unit) node_prog" where
  "handle_sampled_token request_id token_id =
     sbind (sget id) (\<lambda>n.
     if \<not> is_head n then sret ()
     else case dget (pn_head_states n) request_id of
       None \<Rightarrow> sret ()
     | Some sid \<Rightarrow> set_state sid (hs_token_queue_update (\<lambda>q. q @ [token_id])))"

definition handle_upstream_error :: "string \<Rightarrow> ErrorCode \<Rightarrow> ('b, 't, 'c, 'o, unit) node_prog" where
  "handle_upstream_error request_id code =
     sbind (sget id) (\<lambda>n.
     if \<not> is_head n then sret ()
     else case dget (pn_head_states n) request_id of
       None \<Rightarrow> sret ()
     | Some sid \<Rightarrow>
         sbind (suppress_os_error (write_stream (hs_client_stream (pn_states n ! sid)) (send_error request_id code))) (\<lambda>_.
         sbind (set_state sid (hs_token_queue_update (\<lambda>q. q @ [POISON_TOKEN]))) (\<lambda>_.
         sbind (drop_cache request_id) (\<lambda>_. drop_state request_id))))"

definition handle_end :: "string \<Rightarrow> ('b, 't, 'c, 'o, unit) node_prog" where
  "handle_end request_id =
     sbind (smod (\<lambda>n. n\<lparr>pn_kv_caches := dpop request_id (pn_kv_caches n), pn_head_states := dpop request_id (pn_head_states n),
                        pn_pending_finalize := dpop request_id (pn_pending_finalize n)\<rparr>)) (\<lambda>_.
     sbind (sget is_tail) (\<lambda>tail.
     sbind (swhen (\<not> tail) (suppress_os_error (broadcast_end request_id))) (\<lambda>_. close_outbound)))"

text \<open>The expert handlers of \<^verbatim>\<open>Expert_Node\<close>, their frames written to the inbound stream.\<close>

definition reply :: "nat \<Rightarrow> wire_frame list \<Rightarrow> py_exn option \<Rightarrow> ('b, 't, 'c, 'o, unit) node_prog" where
  "reply inbound frames exn =
     sbind (sfor (write_stream inbound) frames) (\<lambda>_. case exn of None \<Rightarrow> sret () | Some e \<Rightarrow> sthrow (NPy e))"

definition dispatch :: "('b, 't, 'c, 'o) NodeEngine \<Rightarrow> wire_frame \<Rightarrow> nat \<Rightarrow> ('b, 't, 'c, 'o, unit) node_prog" where
  "dispatch eng frame inbound =
     (case frame of
        (PBegin rid prompt mx, _) \<Rightarrow> handle_begin eng rid prompt mx inbound
      | (PActivation rid nl d prov, bs) \<Rightarrow> handle_activation eng rid nl d prov bs inbound
      | (PSampledToken rid tok _ _, _) \<Rightarrow> handle_sampled_token rid tok
      | (PError rid code, _) \<Rightarrow> handle_upstream_error rid code
      | (PEnd rid, _) \<Rightarrow> handle_end rid
      | (PExpertRequest rid l ids d prov, bs) \<Rightarrow>
          sbind (sget id) (\<lambda>n.
          case handle_expert_request (ne_blake2b eng) (ne_ops eng) (ne_stack eng) (ne_run_experts eng) (ne_clock eng (length (pn_log n)))
                 (pn_expert n) rid l ids d prov bs of
            (frames, en, exn) \<Rightarrow> sbind (smod (pn_expert_update (\<lambda>_. en))) (\<lambda>_. reply inbound frames exn))
      | (PExpertWeightRequest rid l e, _) \<Rightarrow>
          sbind (sget id) (\<lambda>n.
          case handle_expert_weight_request (ne_ops eng) (ne_slice eng) (pn_expert n) rid l e of (frames, exn) \<Rightarrow> reply inbound frames exn)
      | _ \<Rightarrow> sret ())"

text \<open>One turn of \<^verbatim>\<open>_handle_connection\<close>: an exception of the dispatch is logged.\<close>

definition serve_frame :: "('b, 't, 'c, 'o) NodeEngine \<Rightarrow> nat \<Rightarrow> wire_frame \<Rightarrow> ('b, 't, 'c, 'o) PNode \<Rightarrow> ('b, 't, 'c, 'o) PNode" where
  "serve_frame eng inbound frame n = snd (dispatch eng frame inbound n)"

section \<open>Membership\<close>

definition left_alive :: "StateTransition \<Rightarrow> bool" where
  "left_alive tr \<longleftrightarrow> st_old_state tr = Some ALIVE \<and> mr_state (st_new_record tr) \<in> {SUSPECT, DEAD}"

definition on_membership_change :: "('b, 't, 'c, 'o) NodeEngine \<Rightarrow> StateTransition \<Rightarrow> ('b, 't, 'c, 'o, unit) node_prog" where
  "on_membership_change eng tr =
     sbind (sget id) (\<lambda>n.
     sbind (swhen (st_shard_id tr = sp_shard_id (pn_downstream n) \<and> mr_state (st_new_record tr) \<in> {SUSPECT, DEAD}) close_outbound) (\<lambda>_.
     sbind (swhen (left_alive tr \<and> pn_has_orchestrator n) (smod (pn_orch_update (ne_notify eng (st_shard_id tr))))) (\<lambda>_.
     swhen (left_alive tr) (sfor (\<lambda>sid. set_state sid (hs_token_queue_update (\<lambda>q. q @ [POISON_TOKEN]))) (dvalues (pn_head_states n))))))"

definition debug_captures_for :: "('b, 't, 'c, 'o) PNode \<Rightarrow> string \<Rightarrow> (int \<times> 't) list" where
  "debug_captures_for n request_id = dget_default (pn_debug_captures n) request_id []"

definition clear_debug_captures :: "('b, 't, 'c, 'o) PNode \<Rightarrow> ('b, 't, 'c, 'o) PNode" where
  "clear_debug_captures n = n\<lparr>pn_debug_captures := []\<rparr>"

section \<open>Construction\<close>

definition my_split_layers :: "bool \<Rightarrow> ShardSpec \<Rightarrow> int list" where
  "my_split_layers expert_shard_enabled shard =
     (if expert_shard_enabled then filter (\<lambda>l. sp_start_layer shard \<le> l \<and> l < sp_end_layer shard) (dkeys (sp_moe_experts shard)) else [])"

text \<open>\<^verbatim>\<open>Node.__init__\<close> with an explicit backend: \<^verbatim>\<open>orch\<close> is the orchestrator it builds when it has split layers.\<close>

definition pnode_init :: "'b ExpertNode \<Rightarrow> bool \<Rightarrow> 'o \<Rightarrow> bool list \<Rightarrow> ('b, 't, 'c, 'o) PNode result" where
  "pnode_init en expert_shard_enabled orch faults =
     ebind (resolve_downstream (en_shard en) (en_shard_map en) (en_total_layers en)) (\<lambda>downstream.
       let split = my_split_layers expert_shard_enabled (en_shard en) in
       Inr \<lparr>pn_expert = en, pn_downstream = downstream, pn_split_layers = split, pn_has_orchestrator = (split \<noteq> []),
            pn_orch = orch, pn_kv_caches = [], pn_states = [], pn_head_states = [], pn_pending_finalize = [], pn_debug_captures = [],
            pn_out_open = False, pn_faults = faults, pn_log = []\<rparr>)"

definition orchestrator_owners :: "ShardMap \<Rightarrow> int list \<Rightarrow> (string, int list) dict" where
  "orchestrator_owners m split_layers =
     map (\<lambda>(sid, spec). (sid, remdups (concat (map (\<lambda>l. dget_default (sp_moe_experts spec) l []) split_layers)))) (sm_entries m)"

definition peer_addresses :: "ShardMap \<Rightarrow> string \<Rightarrow> (string, NodeAddress) dict" where
  "peer_addresses m me = map (\<lambda>(sid, spec). (sid, sp_address spec)) (filter (\<lambda>(sid, _). sid \<noteq> me) (sm_entries m))"

definition live_owners_for_expert :: "'b ExpertNode \<Rightarrow> int list \<Rightarrow> int \<Rightarrow> string list" where
  "live_owners_for_expert n split_layers eid = remdups (concat (map (\<lambda>lyr. owners_of n lyr eid) split_layers))"

definition membership_peers :: "ShardMap \<Rightarrow> string \<Rightarrow> PeerSpec list" where
  "membership_peers m me =
     map (\<lambda>(sid, spec). \<lparr>ps_shard_id = sid, ps_host = na_host (sp_address spec), ps_udp_port = udp_port spec\<rparr>)
       (filter (\<lambda>(sid, _). sid \<noteq> me) (sm_entries m))"

end
