(* ===== verification/Migration.thy ===== *)
theory Migration
  imports Expert_Node
begin

text \<open>
  \<^verbatim>\<open>migration.py\<close>: the client side of a weight transfer and the scanner that pulls hot
  experts to this node and evicts cold ones.  The scanner's callbacks are the node's operations, as
  \<^verbatim>\<open>Node.__init__\<close> wires them.  The TCP exchange of a pull is a parameter: it yields the
  reply frame or raises.  The non-blocking in-flight lock is the argument \<^verbatim>\<open>busy\<close>; the
  thread and its jittered waiting are not modelled.
\<close>

declare map_of_eq_Some_iff [simp del] Some_eq_map_of_iff [simp del]

section \<open>Pulling weights\<close>

fun split_blobs :: "'t TensorOps \<Rightarrow> bytes \<Rightarrow> nat \<Rightarrow> TensorDescriptor list \<Rightarrow> 't list \<Rightarrow> (nat \<times> 't list) result" where
  "split_blobs ops tensor_bytes offset [] acc = Inr (offset, acc)"
| "split_blobs ops tensor_bytes offset (d # ds) acc =
     (let nbytes = nat (td_byte_count d);
          blob = take nbytes (drop offset tensor_bytes)
      in if length blob \<noteq> nbytes then Inl RuntimeError
         else ebind (from_bytes ops blob (td_shape d) (td_dtype d)) (\<lambda>arr.
                split_blobs ops tensor_bytes (offset + nbytes) ds (acc @ [arr])))"

definition pull_parse :: "'t TensorOps \<Rightarrow> wire_frame \<Rightarrow> 't list result" where
  "pull_parse ops reply =
     (case reply of (env, tensor_bytes) \<Rightarrow>
        (case env of
           PExpertWeightTransfer _ _ _ tensors tensor_count \<Rightarrow>
             if tensor_count \<noteq> 9 \<or> length tensors \<noteq> 9 then Inl RuntimeError
             else ebind (split_blobs ops tensor_bytes 0 tensors []) (\<lambda>(offset, out).
               if offset \<noteq> length tensor_bytes then Inl RuntimeError else Inr out)
         | _ \<Rightarrow> Inl RuntimeError))"

text \<open>\<^verbatim>\<open>exchange (host, port) frame\<close> connects, sends the frame and reads one back.\<close>

definition pull :: "'t TensorOps \<Rightarrow> (string \<times> int \<Rightarrow> wire_frame \<Rightarrow> wire_frame result) \<Rightarrow> (string, string \<times> int) dict \<Rightarrow>
    string \<Rightarrow> string \<Rightarrow> int \<Rightarrow> int \<Rightarrow> 't list result" where
  "pull ops exchange addresses request_id source_shard_id layer_idx expert_id =
     ebind (dindex addresses source_shard_id) (\<lambda>a.
     ebind (pb_u32 layer_idx) (\<lambda>_. ebind (pb_u32 expert_id) (\<lambda>_.
     ebind (exchange a (PExpertWeightRequest request_id layer_idx expert_id, [])) (pull_parse ops))))"

section \<open>The scanner\<close>

record MigrationPolicy =
  mp_scan_interval_s :: py_float
  mp_heat_threshold :: int
  mp_max_experts_per_layer :: int
  mp_evict_cooldown_s :: py_float
  mp_eviction_enabled :: bool

definition source_load :: "(string, int) dict \<Rightarrow> string \<Rightarrow> int" where
  "source_load loads s = dget_default loads s (2 ^ 31 - 1)"

fun select_from :: "MigrationPolicy \<Rightarrow> 'b ExpertNode \<Rightarrow> (int \<times> int \<times> int) list \<Rightarrow> (int \<times> int \<times> string) option" where
  "select_from p n [] = None"
| "select_from p n ((layer_idx, expert_id, _) # rest) =
     (let held = live_at n layer_idx;
          owners = filter (\<lambda>s. s \<noteq> my_id n) (owners_of n layer_idx expert_id)
      in if expert_id \<in> set held then select_from p n rest
         else if mp_max_experts_per_layer p \<le> int (length held) then select_from p n rest
         else if local_heat layer_idx expert_id (en_heat_tracker n) < mp_heat_threshold p then select_from p n rest
         else (case min_by (source_load (loads_snapshot n)) owners of
                 Inl _ \<Rightarrow> select_from p n rest
               | Inr source \<Rightarrow> Some (layer_idx, expert_id, source)))"

definition select_candidate :: "MigrationPolicy \<Rightarrow> 'b ExpertNode \<Rightarrow> (int \<times> int \<times> string) option" where
  "select_candidate p n = select_from p n (sort_key (\<lambda>t. - snd (snd t)) (heat_report (en_heat_tracker n)))"

text \<open>Clock readings of one scan.\<close>

record scan_clock =
  sc_attach_now :: py_float
  sc_attach_put_ms :: int
  sc_attach_announce_ms :: int
  sc_second_announce_ms :: int
  sc_evict_now :: py_float
  sc_detach_now :: py_float
  sc_detach_put_ms :: int
  sc_detach_announce_ms :: int

definition maybe_pull_one :: "('b \<Rightarrow> int \<Rightarrow> int \<Rightarrow> 'r list \<Rightarrow> 'b result) \<Rightarrow> (string \<Rightarrow> int \<Rightarrow> int \<Rightarrow> 'r list result) \<Rightarrow>
    scan_clock \<Rightarrow> MigrationPolicy \<Rightarrow> 'b ExpertNode \<Rightarrow> 'b ExpertNode" where
  "maybe_pull_one attach pull_fn clk p n =
     (case select_candidate p n of
        None \<Rightarrow> n
      | Some (layer_idx, expert_id, source) \<Rightarrow>
          (case pull_fn source layer_idx expert_id of
             Inl _ \<Rightarrow> n
           | Inr tensors \<Rightarrow>
               (case migration_attach attach (sc_attach_now clk) (sc_attach_put_ms clk) (sc_attach_announce_ms clk)
                       layer_idx expert_id tensors n of
                  Inl _ \<Rightarrow> n
                | Inr n' \<Rightarrow> n'\<lparr>en_membership := map_option
                    (announce_ownership_add layer_idx expert_id DEFAULT_OWNERSHIP_TTL (sc_second_announce_ms clk))
                    (en_membership n')\<rparr>)))"

definition eligible :: "scan_clock \<Rightarrow> MigrationPolicy \<Rightarrow> 'b ExpertNode \<Rightarrow> int \<Rightarrow> int list" where
  "eligible clk p n layer_idx =
     filter (\<lambda>e. e \<notin> set (dget_default (sp_moe_experts (en_shard n)) layer_idx []) \<and>
       mp_evict_cooldown_s p \<le> fsub (sc_evict_now clk) (dget_default (en_live_experts_attach_ts n) (layer_idx, e) 0))
       (live_at n layer_idx)"

fun evict_from :: "('b \<Rightarrow> int \<Rightarrow> int \<Rightarrow> 'b result) \<Rightarrow> py_float \<Rightarrow> scan_clock \<Rightarrow> MigrationPolicy \<Rightarrow> int list \<Rightarrow>
    'b ExpertNode \<Rightarrow> 'b ExpertNode" where
  "evict_from detach cooldown_s clk p [] n = n"
| "evict_from detach cooldown_s clk p (layer_idx # layers) n =
     (if int (length (live_at n layer_idx)) < mp_max_experts_per_layer p
      then evict_from detach cooldown_s clk p layers n
      else case min_by (\<lambda>e. local_heat layer_idx e (en_heat_tracker n)) (eligible clk p n layer_idx) of
             Inl _ \<Rightarrow> evict_from detach cooldown_s clk p layers n
           | Inr victim \<Rightarrow>
               (case migration_detach detach cooldown_s (sc_detach_now clk) (sc_detach_put_ms clk)
                       (sc_detach_announce_ms clk) layer_idx victim n of
                  Inl _ \<Rightarrow> evict_from detach cooldown_s clk p layers n
                | Inr n' \<Rightarrow> n'))"

definition maybe_evict_one :: "('b \<Rightarrow> int \<Rightarrow> int \<Rightarrow> 'b result) \<Rightarrow> py_float \<Rightarrow> scan_clock \<Rightarrow> MigrationPolicy \<Rightarrow>
    'b ExpertNode \<Rightarrow> 'b ExpertNode" where
  "maybe_evict_one detach cooldown_s clk p n =
     (if \<not> mp_eviction_enabled p then n
      else evict_from detach cooldown_s clk p (dkeys (en_live_experts n)) n)"

definition scan_once :: "('b \<Rightarrow> int \<Rightarrow> int \<Rightarrow> 'r list \<Rightarrow> 'b result) \<Rightarrow> ('b \<Rightarrow> int \<Rightarrow> int \<Rightarrow> 'b result) \<Rightarrow>
    (string \<Rightarrow> int \<Rightarrow> int \<Rightarrow> 'r list result) \<Rightarrow> py_float \<Rightarrow> scan_clock \<Rightarrow> MigrationPolicy \<Rightarrow> bool \<Rightarrow>
    'b ExpertNode \<Rightarrow> 'b ExpertNode" where
  "scan_once attach detach pull_fn cooldown_s clk p busy n =
     (if busy then n else maybe_evict_one detach cooldown_s clk p (maybe_pull_one attach pull_fn clk p n))"

section \<open>Transfers\<close>

lemma split_blobs_concat:
  assumes "\<And>t. t \<in> set ts \<Longrightarrow> from_bytes ops (to_bytes ops t) (shape_of ops t) (dt t) = Inr t"
    and "ds = map (\<lambda>t. \<lparr>td_shape = shape_of ops t, td_dtype = dt t, td_quant = 0, td_byte_count = int (length (to_bytes ops t))\<rparr>) ts"
  shows "split_blobs ops (pre @ concat (map (to_bytes ops) ts)) (length pre) ds acc =
    Inr (length pre + length (concat (map (to_bytes ops) ts)), acc @ ts)"
  using assms
proof (induction ts arbitrary: pre acc ds)
  case (Cons t ts)
  have "split_blobs ops ((pre @ to_bytes ops t) @ concat (map (to_bytes ops) ts)) (length (pre @ to_bytes ops t))
      (map (\<lambda>t. \<lparr>td_shape = shape_of ops t, td_dtype = dt t, td_quant = 0, td_byte_count = int (length (to_bytes ops t))\<rparr>) ts) (acc @ [t]) =
    Inr (length (pre @ to_bytes ops t) + length (concat (map (to_bytes ops) ts)), (acc @ [t]) @ ts)"
    using Cons.prems(1) by (intro Cons.IH) simp_all
  with Cons.prems show ?case by (simp add: Let_def)
qed simp

text \<open>C18: Weight transfer.  When tensor serialisation is byte-exact, what the target of a pull obtains
  from the reply of the source's handler is exactly what the source's backend holds, provided that
  is nine tensors; a miss at the source and any other tensor count make the pull raise.\<close>

theorem weight_transfer_roundtrip:
  assumes exact: "\<And>t d. dtype_to_wire ops t = Inr d \<Longrightarrow> from_bytes ops (to_bytes ops t) (shape_of ops t) d = Inr t"
    and "\<And>t. \<exists>d. dtype_to_wire ops t = Inr d"
    and slice: "slice_fn (en_backend n) l e = Inl KeyError \<or> (\<exists>ts. slice_fn (en_backend n) l e = Inr ts)"
  shows "\<exists>reply. handle_expert_weight_request ops slice_fn n rid l e = ([reply], None) \<and>
    pull_parse ops reply = (case slice_fn (en_backend n) l e of
      Inl _ \<Rightarrow> Inl RuntimeError | Inr ts \<Rightarrow> if length ts = 9 then Inr ts else Inl RuntimeError)"
proof -
  obtain dt where dt: "\<And>t. dtype_to_wire ops t = Inr (dt t)" using assms(2) by metis
  let ?d = "\<lambda>t. \<lparr>td_shape = shape_of ops t, td_dtype = dt t, td_quant = 0, td_byte_count = int (length (to_bytes ops t))\<rparr>"
  have des: "emap (describe ops) ts = Inr (map ?d ts)" for ts by (rule emap_all) (simp add: describe_def dt)
  have sp: "split_blobs ops (concat (map (to_bytes ops) ts)) 0 (map ?d ts) [] = Inr (length (concat (map (to_bytes ops) ts)), ts)" for ts
    using split_blobs_concat [of ts ops dt "map ?d ts" "[]" "[]"] exact dt by simp
  from slice show ?thesis
  proof
    assume "slice_fn (en_backend n) l e = Inl KeyError"
    then show ?thesis by (simp add: handle_expert_weight_request_def pull_parse_def send_error_def)
  next
    assume "\<exists>ts. slice_fn (en_backend n) l e = Inr ts"
    with des sp show ?thesis by (auto simp: handle_expert_weight_request_def pull_parse_def)
  qed
qed

section \<open>Choosing what to pull\<close>

definition pullable :: "MigrationPolicy \<Rightarrow> 'b ExpertNode \<Rightarrow> int \<Rightarrow> int \<Rightarrow> bool" where
  "pullable p n l e \<longleftrightarrow> e \<notin> set (live_at n l) \<and> int (length (live_at n l)) < mp_max_experts_per_layer p \<and>
     mp_heat_threshold p \<le> local_heat l e (en_heat_tracker n) \<and> (\<exists>s \<in> set (owners_of n l e). s \<noteq> my_id n)"

lemma select_from_spec:
  "case select_from p n report of
     None \<Rightarrow> \<forall>(l, e, h) \<in> set report. \<not> pullable p n l e
   | Some (l, e, s) \<Rightarrow> pullable p n l e \<and> s \<in> set (owners_of n l e) \<and> s \<noteq> my_id n \<and>
       (\<forall>s' \<in> set (owners_of n l e). s' \<noteq> my_id n \<longrightarrow> source_load (loads_snapshot n) s \<le> source_load (loads_snapshot n) s') \<and>
       (\<exists>pre h post. report = pre @ (l, e, h) # post \<and> (\<forall>(l', e', h') \<in> set pre. \<not> pullable p n l' e'))"
proof (induction report)
  case (Cons x rest)
  obtain l e h where x: "x = (l, e, h)" by (cases x)
  let ?own = "filter (\<lambda>s. s \<noteq> my_id n) (owners_of n l e)"
  show ?case
  proof (cases "pullable p n l e")
    case True
    then have ne: "?own \<noteq> []" by (auto simp: pullable_def filter_empty_conv)
    from min_by_spec [OF ne, of "source_load (loads_snapshot n)"] obtain s where
      s: "min_by (source_load (loads_snapshot n)) ?own = Inr s" "s \<in> set ?own"
      "\<forall>y \<in> set ?own. source_load (loads_snapshot n) s \<le> source_load (loads_snapshot n) y" by blast
    have "select_from p n (x # rest) = Some (l, e, s)" using True s(1) by (simp add: x pullable_def Let_def)
    with True s x show ?thesis by (auto intro!: exI [of _ "[]"])
  next
    case False
    have skip: "select_from p n (x # rest) = select_from p n rest"
    proof (cases "?own = []")
      case True
      then show ?thesis by (simp add: x Let_def)
    next
      case ne: False
      then have "\<exists>s \<in> set (owners_of n l e). s \<noteq> my_id n" by (auto simp: filter_empty_conv)
      with False show ?thesis by (auto simp: x pullable_def Let_def)
    qed
    show ?thesis
    proof (cases "select_from p n rest")
      case None
      with Cons skip False x show ?thesis by simp
    next
      case (Some c)
      obtain l' e' s where c: "c = (l', e', s)" by (cases c)
      from Cons Some c have own: "pullable p n l' e'" "s \<in> set (owners_of n l' e')" "s \<noteq> my_id n"
        "\<forall>s' \<in> set (owners_of n l' e'). s' \<noteq> my_id n \<longrightarrow>
           source_load (loads_snapshot n) s \<le> source_load (loads_snapshot n) s'" by simp_all
      from Cons Some c obtain pre h' post where rest: "rest = pre @ (l', e', h') # post"
        "\<forall>(l', e', h') \<in> set pre. \<not> pullable p n l' e'" by auto
      then have "x # rest = (x # pre) @ (l', e', h') # post \<and> (\<forall>(l', e', h') \<in> set (x # pre). \<not> pullable p n l' e')"
        using False x by simp
      then have "\<exists>pre h post. x # rest = pre @ (l', e', h) # post \<and> (\<forall>(l', e', h') \<in> set pre. \<not> pullable p n l' e')"
        by (intro exI)
      with own show ?thesis unfolding skip Some c option.case prod.case by (intro conjI)
    qed
  qed
qed simp

text \<open>The scanner pulls the hottest expert worth pulling.  The candidate is not held, its layer has
  room, its heat reaches the threshold, its source is the least loaded of the other owners, and no
  hotter reported expert qualifies; there is no candidate exactly when no reported expert
  qualifies.\<close>

theorem candidate_is_hottest:
  "case select_candidate p n of
     None \<Rightarrow> \<forall>(l, e, h) \<in> set (heat_report (en_heat_tracker n)). \<not> pullable p n l e
   | Some (l, e, s) \<Rightarrow> pullable p n l e \<and> s \<in> set (owners_of n l e) \<and> s \<noteq> my_id n \<and>
       (\<forall>s' \<in> set (owners_of n l e). s' \<noteq> my_id n \<longrightarrow> source_load (loads_snapshot n) s \<le> source_load (loads_snapshot n) s') \<and>
       (\<exists>h. (l, e, h) \<in> set (heat_report (en_heat_tracker n)) \<and>
          (\<forall>(l', e', h') \<in> set (heat_report (en_heat_tracker n)). h < h' \<longrightarrow> \<not> pullable p n l' e'))"
proof -
  let ?r = "sort_key (\<lambda>t. - snd (snd t)) (heat_report (en_heat_tracker n))"
  show ?thesis
  proof (cases "select_from p n ?r")
    case None
    with select_from_spec [where p = p and n = n and report = ?r] show ?thesis by (simp add: select_candidate_def)
  next
    case (Some c)
    obtain l e s where c: "c = (l, e, s)" by (cases c)
    from select_from_spec [where p = p and n = n and report = ?r] Some c obtain pre h post where r: "?r = pre @ (l, e, h) # post"
      "\<forall>(l', e', h') \<in> set pre. \<not> pullable p n l' e'" by auto
    have sorted: "sorted (map (\<lambda>t. - snd (snd t)) ?r)" by simp
    have "\<not> pullable p n l' e'" if "(l', e', h') \<in> set ?r" "h < h'" for l' e' h'
    proof -
      have "(l', e', h') \<in> set pre"
        using that sorted unfolding r(1) by (fastforce simp: sorted_append)
      with r(2) show ?thesis by auto
    qed
    moreover have "(l, e, h) \<in> set ?r" using r(1) by simp
    ultimately have "\<exists>h. (l, e, h) \<in> set (heat_report (en_heat_tracker n)) \<and>
        (\<forall>(l', e', h') \<in> set (heat_report (en_heat_tracker n)). h < h' \<longrightarrow> \<not> pullable p n l' e')" by fastforce
    with select_from_spec [where p = p and n = n and report = ?r] show ?thesis
      unfolding select_candidate_def Some c option.case prod.case by blast
  qed
qed

section \<open>A scan keeps the node safe\<close>

text \<open>What a scan may do to a node: it gains at most what \<^verbatim>\<open>pullable\<close> allows, and loses only
  migrated experts that another node owns.\<close>

definition loses_safely :: "'b ExpertNode \<Rightarrow> 'b ExpertNode \<Rightarrow> bool" where
  "loses_safely n n' \<longleftrightarrow> (\<forall>l e. e \<in> set (live_at n l) \<longrightarrow> e \<notin> set (live_at n' l) \<longrightarrow>
     e \<notin> set (dget_default (sp_moe_experts (en_shard n)) l []) \<and> (\<exists>s \<in> set (owners_of n l e). s \<noteq> my_id n))"

abbreviation view_ok :: "'b ExpertNode \<Rightarrow> bool" where
  "view_ok n \<equiv> distinct (dkeys (en_ownership_view_internal n))"

definition within_capacity :: "MigrationPolicy \<Rightarrow> 'b ExpertNode \<Rightarrow> bool" where
  "within_capacity p n \<longleftrightarrow> (\<forall>l. int (length (live_at n l)) \<le> mp_max_experts_per_layer p)"

lemma migration_attach_view:
  assumes "migration_attach attach now pms ams l e ts n = Inr n'"
  shows "en_ownership_view_internal n' = view_put (my_id n, l, e) 0 pms (en_ownership_view_internal n)"
    and "en_shard n' = en_shard n"
    and "en_live_experts n' = dput l (List.insert e (live_at n l)) (en_live_experts n)"
  using assms by (auto simp: migration_attach_def ebind_eq_Inr Let_def ownership_view_put_def)

lemma pull_one_cases:
  "maybe_pull_one attach pull_fn clk p n = n \<or>
   (\<exists>l e s ts n1 m. select_candidate p n = Some (l, e, s) \<and> pull_fn s l e = Inr ts \<and>
      migration_attach attach (sc_attach_now clk) (sc_attach_put_ms clk) (sc_attach_announce_ms clk) l e ts n = Inr n1 \<and>
      maybe_pull_one attach pull_fn clk p n = n1\<lparr>en_membership := m\<rparr>)"
  by (fastforce simp: maybe_pull_one_def split: option.split sum.split)

lemma evict_from_cases:
  "evict_from detach cooldown clk p layers n = n \<or>
   (\<exists>l e now pms ams. migration_detach detach cooldown now pms ams l e n = Inr (evict_from detach cooldown clk p layers n))"
  by (induction layers) (auto split: sum.split)

lemma node_ok_membership [simp]: "node_ok (n\<lparr>en_membership := m\<rparr>) = node_ok n"
  by (simp add: node_ok_def)

lemma pull_one_safe:
  assumes ok: "node_ok n" and v: "view_ok n" and cap: "within_capacity p n"
    and tr: "\<forall>(l, e, h) \<in> set (heat_report (en_heat_tracker n)). lm_tracks (en_backend n) (l, e)"
    and n': "maybe_pull_one attach_expert pull_fn clk p n = n'"
  shows "node_ok n' \<and> view_ok n' \<and> within_capacity p n' \<and> en_shard n' = en_shard n \<and>
    (\<forall>l. set (live_at n l) \<subseteq> set (live_at n' l)) \<and>
    (\<forall>l e s. s \<noteq> my_id n \<longrightarrow> s \<in> set (owners_of n' l e) \<longrightarrow> s \<in> set (owners_of n l e)) \<and>
    (\<forall>l e. e \<in> set (live_at n' l) \<longrightarrow> e \<notin> set (live_at n l) \<longrightarrow>
       pullable p n l e \<and> (\<exists>s. s \<noteq> my_id n \<and> s \<in> set (owners_of n l e) \<and> slice_expert (en_backend n') l e = pull_fn s l e))"
proof (cases "n' = n")
  case False
  with pull_one_cases [of attach_expert pull_fn clk p n] obtain l e s ts n1 m where
    2: "select_candidate p n = Some (l, e, s)" "pull_fn s l e = Inr ts"
      "migration_attach attach_expert (sc_attach_now clk) (sc_attach_put_ms clk) (sc_attach_announce_ms clk) l e ts n = Inr n1"
    and m: "n' = n1\<lparr>en_membership := m\<rparr>" unfolding n' by blast
  from candidate_is_hottest [where p = p and n = n] 2(1) have c: "pullable p n l e" "s \<in> set (owners_of n l e)" "s \<noteq> my_id n"
    and "\<exists>h. (l, e, h) \<in> set (heat_report (en_heat_tracker n))" by auto
  then have "lm_tracks (en_backend n) (l, e)" using tr by auto
  note at = migration_attach_consistent [OF ok this 2(3)] and view = migration_attach_view [OF 2(3)]
  have live: "live_at n1 k = (if k = l then e # live_at n l else live_at n k)" for k
    using at by (simp add: view(3) List.insert_def)
  have v1: "view_ok n1" unfolding view(1) by (rule view_put_distinct [OF v])
  have own: "x \<in> set (owners_of n k j)" if "x \<noteq> my_id n" "x \<in> set (owners_of n1 k j)" for x k j
    using that unfolding owners_of_set [OF v1] owners_of_set [OF v] view(1) view_put_get by (auto split: if_splits)
  have [simp]: "owners_of (n1\<lparr>en_membership := m\<rparr>) = owners_of n1" by (simp add: owners_of_def fun_eq_iff)
  have "within_capacity p n'" using cap c(1) by (auto simp: within_capacity_def m live pullable_def)
  with at v1 own c 2(2) view(2) show ?thesis by (auto simp: m live)
qed (use assms in auto)

text \<open>A scan is safe.  On a consistent node within its capacity, a scan leaves a consistent node
  within its capacity.  What it gains was pullable and has exactly the weights the source sent; what
  it loses was not part of the boot configuration and is still owned by another node as far as this
  node knows.\<close>

theorem scan_once_safe:
  assumes ok: "node_ok n" and v: "view_ok n" and cap: "within_capacity p n"
    and tr: "\<forall>(l, e, h) \<in> set (heat_report (en_heat_tracker n)). lm_tracks (en_backend n) (l, e)"
  shows "node_ok (scan_once attach_expert detach_expert pull_fn cooldown clk p busy n) \<and>
    within_capacity p (scan_once attach_expert detach_expert pull_fn cooldown clk p busy n) \<and>
    loses_safely n (scan_once attach_expert detach_expert pull_fn cooldown clk p busy n) \<and>
    (\<forall>l e. e \<in> set (live_at (scan_once attach_expert detach_expert pull_fn cooldown clk p busy n) l) \<longrightarrow>
       e \<notin> set (live_at n l) \<longrightarrow> pullable p n l e \<and> (\<exists>s. s \<noteq> my_id n \<and> s \<in> set (owners_of n l e) \<and>
         slice_expert (en_backend (scan_once attach_expert detach_expert pull_fn cooldown clk p busy n)) l e = pull_fn s l e))"
proof (cases busy)
  case True
  then show ?thesis using ok cap by (simp add: scan_once_def loses_safely_def)
next
  case False
  define n1 where "n1 = maybe_pull_one attach_expert pull_fn clk p n"
  define n2 where "n2 = maybe_evict_one detach_expert cooldown clk p n1"
  note p1 = pull_one_safe [OF ok v cap tr n1_def [symmetric]]
  from p1 have n1: "node_ok n1" "view_ok n1" "within_capacity p n1" "en_shard n1 = en_shard n"
    and grow: "\<And>l. set (live_at n l) \<subseteq> set (live_at n1 l)"
    and own: "\<And>l e s. s \<noteq> my_id n \<Longrightarrow> s \<in> set (owners_of n1 l e) \<Longrightarrow> s \<in> set (owners_of n l e)"
    and gain: "\<And>l e. e \<in> set (live_at n1 l) \<Longrightarrow> e \<notin> set (live_at n l) \<Longrightarrow>
       pullable p n l e \<and> (\<exists>s. s \<noteq> my_id n \<and> s \<in> set (owners_of n l e) \<and> slice_expert (en_backend n1) l e = pull_fn s l e)"
    by blast+
  have scan: "scan_once attach_expert detach_expert pull_fn cooldown clk p busy n = n2"
    using False by (simp add: scan_once_def n1_def n2_def)
  have "n2 = n1 \<or> (\<exists>l e now pms ams. migration_detach detach_expert cooldown now pms ams l e n1 = Inr n2)"
    unfolding n2_def maybe_evict_one_def using evict_from_cases [of detach_expert cooldown clk p _ n1] by auto
  then show ?thesis
  proof
    assume "n2 = n1"
    with n1 grow gain show ?thesis unfolding scan loses_safely_def by blast
  next
    assume "\<exists>l e now pms ams. migration_detach detach_expert cooldown now pms ams l e n1 = Inr n2"
    then obtain l e now pms ams where de: "migration_detach detach_expert cooldown now pms ams l e n1 = Inr n2" by blast
    note d = migration_detach_safe [OF n1(1,2) de]
    obtain b' where b': "detach_expert (en_backend n1) l e = Inr b'" "en_backend n2 = b'"
      using de by (auto simp: migration_detach_def ebind_eq_Inr Let_def ownership_view_put_def split: if_splits)
    have "lm_ok (en_backend n1)" using n1(1) by (simp add: node_ok_def)
    note sl = mlx_detach_laws [OF this b'(1)]
    have n2: "node_ok n2" using d by blast
    have dist: "distinct (live_at n1 k)" "distinct (live_at n2 k)" for k using n1(1) n2 by (auto simp: node_ok_def)
    have sub: "set (live_at n2 k) = (if k = l then set (live_at n1 l) - {e} else set (live_at n1 k))" for k using d by simp
    have "length (live_at n2 k) \<le> length (live_at n1 k)" for k
    proof -
      have "card (set (live_at n2 k)) \<le> card (set (live_at n1 k))" unfolding sub [of k] by (intro card_mono) auto
      then show ?thesis by (simp only: distinct_card [OF dist(1)] distinct_card [OF dist(2)])
    qed
    then have "within_capacity p n2"
      using n1(3) unfolding within_capacity_def by (meson of_nat_mono order_trans)
    moreover have "loses_safely n n2"
      unfolding loses_safely_def
    proof (intro allI impI)
      fix k x assume x: "x \<in> set (live_at n k)" "x \<notin> set (live_at n2 k)"
      with grow [of k] sub [of k] have kx: "k = l" "x = e" by (auto split: if_splits)
      from d have "e \<notin> set (dget_default (sp_moe_experts (en_shard n1)) l [])" "\<exists>s \<in> set (owners_of n1 l e). s \<noteq> my_id n1" by blast+
      with own n1(4) kx show "x \<notin> set (dget_default (sp_moe_experts (en_shard n)) k []) \<and> (\<exists>s \<in> set (owners_of n k x). s \<noteq> my_id n)"
        by auto
    qed
    moreover have "pullable p n k x \<and> (\<exists>s. s \<noteq> my_id n \<and> s \<in> set (owners_of n k x) \<and> slice_expert (en_backend n2) k x = pull_fn s k x)"
      if x: "x \<in> set (live_at n2 k)" "x \<notin> set (live_at n k)" for k x
    proof -
      have "x \<in> set (live_at n1 k)" "(k, x) \<noteq> (l, e)" using x(1) sub [of k] by (auto split: if_splits)
      with gain [OF this(1) x(2)] sl(2) [of k x] b'(2) show ?thesis by simp
    qed
    ultimately show ?thesis unfolding scan using n2 by blast
  qed
qed

section \<open>Witnesses\<close>

definition byte_ops :: "bytes TensorOps" where
  "byte_ops = \<lparr>to_bytes = (\<lambda>t. t), from_bytes = (\<lambda>bs _ _. Inr bs), shape_of = (\<lambda>t. [int (length t)]), dtype_to_wire = (\<lambda>_. Inr 6)\<rparr>"

theorem weight_transfer_roundtrip_witness:
  "\<exists>reply. handle_expert_weight_request byte_ops (\<lambda>_ _ _. Inr (map (\<lambda>i. replicate i 7) [0..<9])) demo_node ''r'' 0 4 = ([reply], None) \<and>
    pull_parse byte_ops reply = Inr (map (\<lambda>i. replicate i 7) [0..<9])"
  using weight_transfer_roundtrip [of byte_ops "\<lambda>_ _ _. Inr (map (\<lambda>i. replicate i 7) [0..<9])" demo_node 0 4 "''r''"]
  by (simp add: byte_ops_def)

text \<open>A PyTorch backend slices two tensors, which no pull accepts.\<close>

lemma pytorch_transfer_refused:
  "\<exists>reply. handle_expert_weight_request byte_ops (\<lambda>_ _ _. Inr [[1], [2]]) demo_node ''r'' 0 4 = ([reply], None) \<and>
    pull_parse byte_ops reply = Inl RuntimeError"
  by (simp add: byte_ops_def handle_expert_weight_request_def describe_def pull_parse_def)

definition demo_hot_node :: "nat LoadedModel ExpertNode" where
  "demo_hot_node = demo_node\<lparr>en_heat_tracker := \<lparr>ht_alpha = 1 / 2, ht_top_n = 4, ht_ema = [((0, 9), 8), ((0, 3), 2), ((0, 5), 1)]\<rparr>,
     en_ownership_view_internal := [((''mid'', 0, 3), (0, 0)), ((''head'', 0, 9), (0, 5000)), ((''mid'', 0, 9), (0, 0)), ((''tail'', 0, 5), (0, 0))]\<rparr>"

definition demo_policy :: MigrationPolicy where
  "demo_policy = \<lparr>mp_scan_interval_s = 10, mp_heat_threshold = 50, mp_max_experts_per_layer = 4, mp_evict_cooldown_s = 30, mp_eviction_enabled = True\<rparr>"

definition demo_clock :: scan_clock where
  "demo_clock = \<lparr>sc_attach_now = 60, sc_attach_put_ms = 60000, sc_attach_announce_ms = 60001, sc_second_announce_ms = 60002,
     sc_evict_now = 61, sc_detach_now = 61, sc_detach_put_ms = 61000, sc_detach_announce_ms = 61001\<rparr>"

theorem candidate_is_hottest_witness:
  "select_candidate demo_policy demo_hot_node = Some (0, 3, ''mid'') \<and> pullable demo_policy demo_hot_node 0 3"
proof -
  have "select_candidate demo_policy demo_hot_node = Some (0, 3, ''mid'')" by code_simp
  with candidate_is_hottest [where p = demo_policy and n = demo_hot_node] show ?thesis by simp
qed

theorem scan_once_safe_witness:
  "node_ok (scan_once attach_expert detach_expert (\<lambda>s l e. Inr [1, 2, 3, 4, 5, 6, 7, 8, 9]) 30 demo_clock demo_policy False demo_hot_node) \<and>
   within_capacity demo_policy (scan_once attach_expert detach_expert (\<lambda>s l e. Inr [1, 2, 3, 4, 5, 6, 7, 8, 9]) 30 demo_clock demo_policy
     False demo_hot_node)"
proof -
  have live: "en_live_experts demo_hot_node = [(0, [4, 7, 9])]" "en_backend demo_hot_node = demo_lm" by code_simp+
  have ok: "node_ok demo_hot_node" using demo_node_ok by (simp add: node_ok_def demo_hot_node_def)
  have v: "view_ok demo_hot_node" by (simp add: demo_hot_node_def)
  have cap: "within_capacity demo_policy demo_hot_node"
    by (auto simp: within_capacity_def live demo_policy_def dget_default_def split: option.split if_splits)
  have "heat_report (en_heat_tracker demo_hot_node) = [(0, 9, 800), (0, 3, 200), (0, 5, 100)]" by code_simp
  then have "\<forall>(l, e, h) \<in> set (heat_report (en_heat_tracker demo_hot_node)). lm_tracks (en_backend demo_hot_node) (l, e)"
    by (simp add: live lm_tracks_def demo_lm_def)
  from scan_once_safe [OF ok v cap this, of "\<lambda>s l e. Inr [1, 2, 3, 4, 5, 6, 7, 8, 9]" 30 demo_clock False] show ?thesis by blast
qed

end
