(* ===== verification/Startup.thy ===== *)
theory Startup
  imports Node Migration
begin

text \<open>
  How a node comes up: the environment variables of \<^verbatim>\<open>node.py\<close>, the choice of a backend
  (\<^verbatim>\<open>_default_backend\<close> and the stand-ins of \<^verbatim>\<open>backends/__init__.py\<close>), the start of
  \<^verbatim>\<open>Node.__init__\<close> and \<^verbatim>\<open>scripts/run_node.py\<close> with its debug endpoint.  The
  environment is a dictionary; which packages are installed is a record.  Python's \<^verbatim>\<open>float\<close> of a
  string is a parameter.
\<close>

declare map_of_eq_Some_iff [simp del] Some_eq_map_of_iff [simp del]

section \<open>Strings\<close>

definition py_space :: "char \<Rightarrow> bool" where
  "py_space c = (let n = of_char c :: nat in 9 \<le> n \<and> n \<le> 13 \<or> 28 \<le> n \<and> n \<le> 32 \<or> n = 133 \<or> n = 160)"

definition py_strip :: "string \<Rightarrow> string" where
  "py_strip s = rev (dropWhile py_space (rev (dropWhile py_space s)))"

text \<open>\<^verbatim>\<open>str.lower\<close>; only the ASCII letters matter for the comparisons below.\<close>

definition py_lower :: "string \<Rightarrow> string" where
  "py_lower s = map ascii_lower s"

fun py_split :: "char \<Rightarrow> string \<Rightarrow> string list" where
  "py_split sep [] = [[]]"
| "py_split sep (c # cs) =
     (if c = sep then [] # py_split sep cs else case py_split sep cs of [] \<Rightarrow> [[c]] | p # ps \<Rightarrow> (c # p) # ps)"

text \<open>\<^verbatim>\<open>int\<close> of a string: decimal digits, single underscores between them allowed.\<close>

definition digit :: "char \<Rightarrow> int option" where
  "digit c = (let n = of_char c :: nat in if 48 \<le> n \<and> n \<le> 57 then Some (int n - 48) else None)"

fun int_digits :: "bool \<Rightarrow> int \<Rightarrow> string \<Rightarrow> int option" where
  "int_digits after_digit acc [] = (if after_digit then Some acc else None)"
| "int_digits after_digit acc (c # cs) =
     (case digit c of
        Some d \<Rightarrow> int_digits True (10 * acc + d) cs
      | None \<Rightarrow> if c = CHR ''_'' \<and> after_digit then int_digits False acc cs else None)"

definition py_int :: "string \<Rightarrow> int result" where
  "py_int s =
     (let t = py_strip s;
          v = (case t of
                 [] \<Rightarrow> None
               | c # cs \<Rightarrow> if c = CHR ''-'' then map_option uminus (int_digits False 0 cs)
                           else if c = CHR ''+'' then int_digits False 0 cs else int_digits False 0 t)
      in case v of None \<Rightarrow> Inl ValueError | Some i \<Rightarrow> Inr i)"

section \<open>The environment\<close>

type_synonym environ = "(string, string) dict"

definition flag_on :: "environ \<Rightarrow> string \<Rightarrow> string \<Rightarrow> bool" where
  "flag_on env name dflt \<longleftrightarrow> py_lower (dget_default env name dflt) \<in> {''1'', ''true'', ''yes''}"

definition gossip_enabled :: "environ \<Rightarrow> bool" where
  "gossip_enabled env \<longleftrightarrow> py_lower (dget_default env ''ENABLE_GOSSIP'' ''true'') \<notin> {''0'', ''false'', ''no''}"

definition expert_shard_enabled :: "environ \<Rightarrow> bool" where
  "expert_shard_enabled env = flag_on env ''ENABLE_EXPERT_SHARD'' ''false''"

definition partial_load_enabled :: "environ \<Rightarrow> bool" where
  "partial_load_enabled env = flag_on env ''ENABLE_PARTIAL_LOAD'' ''false''"

definition dynamic_migration_enabled :: "environ \<Rightarrow> bool" where
  "dynamic_migration_enabled env = flag_on env ''ENABLE_DYNAMIC_MIGRATION'' ''false''"

definition expert_retry_enabled :: "environ \<Rightarrow> bool" where
  "expert_retry_enabled env = flag_on env ''ENABLE_EXPERT_RETRY'' ''true''"

definition provenance_enabled :: "environ \<Rightarrow> bool" where
  "provenance_enabled env = flag_on env ''ENABLE_PROVENANCE'' ''false''"

definition eviction_enabled :: "environ \<Rightarrow> bool" where
  "eviction_enabled env = flag_on env ''ENABLE_EVICTION'' ''true''"

definition expert_retry_max_attempts :: "environ \<Rightarrow> int result" where
  "expert_retry_max_attempts env =
     (if \<not> expert_retry_enabled env then Inr 1 else py_int (dget_default env ''EXPERT_RETRY_MAX_ATTEMPTS'' ''3''))"

definition expert_retry_backoff_ms :: "environ \<Rightarrow> int list result" where
  "expert_retry_backoff_ms env =
     emap (\<lambda>x. py_int (py_strip x)) (filter (\<lambda>x. py_strip x \<noteq> []) (py_split CHR '','' (dget_default env ''EXPERT_RETRY_BACKOFF_MS'' ''100,500'')))"

definition migration_heat_threshold :: "environ \<Rightarrow> int result" where
  "migration_heat_threshold env = py_int (dget_default env ''MIGRATION_HEAT_THRESHOLD'' ''50'')"

definition migration_max_experts_per_layer :: "environ \<Rightarrow> int result" where
  "migration_max_experts_per_layer env = py_int (dget_default env ''MIGRATION_MAX_EXPERTS_PER_LAYER'' ''128'')"

definition migration_policy :: "(string \<Rightarrow> py_float result) \<Rightarrow> environ \<Rightarrow> MigrationPolicy result" where
  "migration_policy py_float_of env =
     ebind (py_float_of (dget_default env ''MIGRATION_SCAN_INTERVAL_SECONDS'' ''10.0'')) (\<lambda>interval.
     ebind (migration_heat_threshold env) (\<lambda>threshold.
     ebind (migration_max_experts_per_layer env) (\<lambda>max_experts.
     ebind (py_float_of (dget_default env ''MIGRATION_EVICT_COOLDOWN_SECONDS'' ''30.0'')) (\<lambda>cooldown.
       Inr \<lparr>mp_scan_interval_s = interval, mp_heat_threshold = threshold, mp_max_experts_per_layer = max_experts,
            mp_evict_cooldown_s = cooldown, mp_eviction_enabled = eviction_enabled env\<rparr>))))"

section \<open>The backend\<close>

datatype backend_kind = MLX_Backend | PyTorch_Backend

record Platform =
  pf_mlx_installed :: bool
  pf_metal_available :: bool
  pf_torch_installed :: bool

text \<open>Without its package a backend is a stand-in whose constructor raises.\<close>

definition construct_backend :: "Platform \<Rightarrow> backend_kind \<Rightarrow> backend_kind result" where
  "construct_backend pf k =
     (if (case k of MLX_Backend \<Rightarrow> pf_mlx_installed pf | PyTorch_Backend \<Rightarrow> pf_torch_installed pf) then Inr k else Inl ImportError)"

definition default_backend :: "environ \<Rightarrow> Platform \<Rightarrow> backend_kind result" where
  "default_backend env pf =
     (let v = py_lower (dget_default env ''MODEL_SHARD_BACKEND'' []) in
      if v = ''pytorch'' then construct_backend pf PyTorch_Backend
      else if v = ''mlx'' then construct_backend pf MLX_Backend
      else if pf_mlx_installed pf \<and> pf_metal_available pf then construct_backend pf MLX_Backend
      else construct_backend pf PyTorch_Backend)"

datatype model_source = GivenBackend | GivenModel | FullLoad backend_kind string | PartialLoad backend_kind string "(int, int list) dict"

text \<open>The stand-in for MLX has no \<^verbatim>\<open>from_loaded_model\<close>.\<close>

definition node_backend :: "environ \<Rightarrow> Platform \<Rightarrow> bool \<Rightarrow> bool \<Rightarrow> ShardMap \<Rightarrow> ShardSpec \<Rightarrow> model_source result" where
  "node_backend env pf backend_given model_given m shard =
     (if backend_given then Inr GivenBackend
      else if model_given then if pf_mlx_installed pf then Inr GivenModel else Inl AttributeError
      else ebind (default_backend env pf) (\<lambda>b.
        if sm_model_id m = [] then Inl RuntimeError
        else if partial_load_enabled env \<and> sp_moe_experts shard \<noteq> [] then Inr (PartialLoad b (sm_model_id m) (sp_moe_experts shard))
        else Inr (FullLoad b (sm_model_id m))))"

text \<open>What \<^verbatim>\<open>Node.__init__\<close> has decided when it returns: the downstream peer, the backend, the
  split layers, and whether a scanner, gossip and provenance are on.\<close>

record NodeSetup =
  su_downstream :: ShardSpec
  su_source :: model_source
  su_provenance :: bool
  su_gossip :: bool
  su_policy :: "MigrationPolicy option"
  su_split_layers :: "int list"
  su_retry :: "(int \<times> int list) option"

definition node_setup :: "(string \<Rightarrow> py_float result) \<Rightarrow> environ \<Rightarrow> Platform \<Rightarrow> bool \<Rightarrow> bool \<Rightarrow> ShardMap \<Rightarrow> ShardSpec \<Rightarrow> int \<Rightarrow> NodeSetup result" where
  "node_setup py_float_of env pf backend_given model_given m shard total_layers =
     (if dynamic_migration_enabled env \<and> \<not> partial_load_enabled env then Inl ValueError
      else
        ebind (resolve_downstream shard m total_layers) (\<lambda>downstream.
        ebind (node_backend env pf backend_given model_given m shard) (\<lambda>source.
        ebind (if dynamic_migration_enabled env then ebind (migration_policy py_float_of env) (\<lambda>p. Inr (Some p)) else Inr None) (\<lambda>policy.
        let split = my_split_layers (expert_shard_enabled env) shard in
        ebind (if split = [] then Inr None
               else ebind (expert_retry_max_attempts env) (\<lambda>attempts. ebind (expert_retry_backoff_ms env) (\<lambda>ms. Inr (Some (attempts, ms))))) (\<lambda>retry.
          Inr \<lparr>su_downstream = downstream, su_source = source, su_provenance = provenance_enabled env, su_gossip = gossip_enabled env,
               su_policy = policy, su_split_layers = split, su_retry = retry\<rparr>)))))"

section \<open>The process\<close>

text \<open>\<^verbatim>\<open>scripts/run_node.py\<close> up to the construction of the node, with the arguments \<^verbatim>\<open>--model\<close>
  and \<^verbatim>\<open>--shard\<close>.\<close>

definition node_main :: "(string \<Rightarrow> py_float result) \<Rightarrow> (yaml \<Rightarrow> string) \<Rightarrow> environ \<Rightarrow> Platform \<Rightarrow> yaml \<Rightarrow> string option \<Rightarrow> string \<Rightarrow> NodeSetup result" where
  "node_main py_float_of str_other env pf config model shard_id =
     ebind (from_yaml str_other config) (\<lambda>m.
       let model_id = (case model of None \<Rightarrow> sm_model_id m | Some a \<Rightarrow> if a = [] then sm_model_id m else a) in
       if model_id = [] then Inl SystemExit
       else
         ebind (lookup m shard_id) (\<lambda>shard.
         ebind (emap (lookup m) (all_shards m)) (\<lambda>shards.
         ebind (if shards = [] then Inl ValueError else Inr (Max (set (map sp_end_layer shards)))) (\<lambda>total_layers.
         node_setup py_float_of env pf False (dget env ''SHARD_DRY_RUN'' = Some ''true'') m shard total_layers))))"

text \<open>The debug endpoint: a status and the JSON object of the reply.\<close>

datatype debug_reply = Members "(string, MemberState \<times> int) dict" | Loads "(string, int \<times> int) dict" | NotFound

definition do_GET :: "int \<Rightarrow> string \<Rightarrow> 'b ExpertNode \<Rightarrow> debug_reply \<times> 'b ExpertNode" where
  "do_GET now_ms path n =
     (if path = ''/membership'' then
        (Members (case en_membership n of
           None \<Rightarrow> []
         | Some r \<Rightarrow> map (\<lambda>(sid, rec). (sid, (mr_state rec, mr_incarnation rec))) (view (rn_state r))), n)
      else if path = ''/loads'' then
        (case en_membership n of
           None \<Rightarrow> (Loads [], n)
         | Some r \<Rightarrow>
             let (self_lr, n') = self_load_report now_ms n in
             (Loads (dput (lr_shard_id self_lr) (lr_queue_depth_ema self_lr, lr_ts_unix_ms self_lr)
                (map (\<lambda>(sid, lr). (sid, (lr_queue_depth_ema lr, lr_ts_unix_ms lr))) (rn_peer_loads r))), n'))
      else (NotFound, n))"

section \<open>Parsing integers\<close>

lemma digit_char: "n < 10 \<Longrightarrow> digit (char_of (48 + n)) = Some (int n)"
  by (simp add: digit_def)

lemma int_digits_append: "int_digits True acc (xs @ [c]) = (case int_digits True acc xs of None \<Rightarrow> None | Some i \<Rightarrow> int_digits True i [c])"
  if "set xs \<subseteq> {c. digit c \<noteq> None}"
  using that by (induction xs arbitrary: acc) auto

lemma show_nat_digits: "set (show_nat n) \<subseteq> {c. digit c \<noteq> None} \<and> show_nat n \<noteq> [] \<and> (\<forall>b. int_digits b 0 (show_nat n) = Some (int n))"
proof (induction n rule: show_nat.induct)
  case (1 n)
  show ?case
  proof (cases "n < 10")
    case True
    then show ?thesis using digit_char [of n] by (simp add: show_nat_less_10)
  next
    case False
    with 1 have IH: "set (show_nat (n div 10)) \<subseteq> {c. digit c \<noteq> None}" "show_nat (n div 10) \<noteq> []" "\<And>b. int_digits b 0 (show_nat (n div 10)) = Some (int (n div 10))"
      by auto
    have d: "digit (char_of (48 + n mod 10)) = Some (int (n mod 10))" by (rule digit_char) simp
    have "int_digits b 0 (show_nat (n div 10) @ [char_of (48 + n mod 10)]) = Some (int n)" for b
    proof -
      have first: "int_digits b 0 (show_nat (n div 10) @ ys) = int_digits True 0 (show_nat (n div 10) @ ys)" for ys
        using IH(1,2) by (cases "show_nat (n div 10)") (auto split: option.splits)
      have "10 * int (n div 10) + int (n mod 10) = int n" by presburger
      then show ?thesis unfolding first int_digits_append [OF IH(1)] IH(3) using d by simp
    qed
    then show ?thesis using IH(1) d by (simp add: show_nat_ge_10 [OF False])
  qed
qed

lemma digit_not_space: "digit c \<noteq> None \<Longrightarrow> \<not> py_space c \<and> c \<noteq> CHR ''-'' \<and> c \<noteq> CHR ''+''"
  by (auto simp: digit_def py_space_def Let_def split: if_splits)

lemma strip_id: "s \<noteq> [] \<Longrightarrow> \<not> py_space (hd s) \<Longrightarrow> \<not> py_space (last s) \<Longrightarrow> py_strip s = s"
proof -
  assume s: "s \<noteq> []" "\<not> py_space (hd s)" "\<not> py_space (last s)"
  then have "dropWhile py_space s = s" by (cases s) auto
  moreover have "dropWhile py_space (rev s) = rev s" using s by (cases s rule: rev_cases) auto
  ultimately show ?thesis by (simp add: py_strip_def)
qed

text \<open>Integers survive the environment: what Python prints for an integer is read back as that integer.\<close>

theorem py_int_roundtrip: "py_int (show_int i) = Inr i"
proof -
  have n: "set (show_nat k) \<subseteq> {c. digit c \<noteq> None}" "show_nat k \<noteq> []" "\<And>b. int_digits b 0 (show_nat k) = Some (int k)" for k
    using show_nat_digits by auto
  have ends: "hd (show_nat k) \<in> set (show_nat k)" "last (show_nat k) \<in> set (show_nat k)" for k using n(2) by auto
  have fin: "digit (last (show_nat k)) \<noteq> None" for k using n(1) [of k] ends(2) [of k] by blast
  show ?thesis
  proof (cases "i < 0")
    case True
    have "py_strip (CHR ''-'' # show_nat (nat (- i))) = CHR ''-'' # show_nat (nat (- i))"
    proof (rule strip_id)
      show "\<not> py_space (last (CHR ''-'' # show_nat (nat (- i))))" using digit_not_space [OF fin [of "nat (- i)"]] n(2) by simp
    qed (simp_all add: py_space_def)
    with True n(3) show ?thesis by (simp add: py_int_def show_int_def)
  next
    case False
    have "py_strip (show_nat (nat i)) = show_nat (nat i)" using n ends digit_not_space by (intro strip_id) blast+
    moreover obtain c cs where c: "show_nat (nat i) = c # cs" using n(2) by (cases "show_nat (nat i)") auto
    moreover have "c \<noteq> CHR ''-''" "c \<noteq> CHR ''+''" using n(1) [of "nat i"] digit_not_space unfolding c by auto
    ultimately show ?thesis using False n(3) [of False "nat i"] by (simp add: py_int_def show_int_def)
  qed
qed

section \<open>Starting a node\<close>

lemma from_yaml_map: "from_yaml str_other config = Inr m \<Longrightarrow> map_wf m \<and> sm_model_id m \<noteq> []"
  using from_yaml_ok [of str_other config] by simp

text \<open>The option \<^verbatim>\<open>--model\<close> has no effect.  Whatever model is given on the command line, the node that
  comes up loads the one of the configuration file, and the process ends in the same way.\<close>

theorem model_option_ignored:
  "node_main py_float_of str_other env pf config (Some model) shard_id = node_main py_float_of str_other env pf config None shard_id"
proof (cases "from_yaml str_other config")
  case (Inr m)
  with from_yaml_map [OF Inr] show ?thesis by (simp add: node_main_def)
qed (simp add: node_main_def)

text \<open>A dry run needs MLX.  With \<^verbatim>\<open>SHARD_DRY_RUN=true\<close> the node is given a mock model, which only the
  MLX backend can wrap: on a machine without MLX no configuration starts.\<close>

theorem dry_run_needs_mlx:
  assumes "dget env ''SHARD_DRY_RUN'' = Some ''true''" and "\<not> pf_mlx_installed pf"
  shows "\<exists>e. node_main py_float_of str_other env pf config model shard_id = Inl e"
proof -
  have "\<nexists>su. node_main py_float_of str_other env pf config model shard_id = Inr su"
    using assms by (auto simp: node_main_def node_setup_def node_backend_def ebind_eq_Inr Let_def)
  then show ?thesis by (cases "node_main py_float_of str_other env pf config model shard_id") auto
qed

lemma wf_lookups:
  assumes "map_wf m"
  shows "emap (lookup m) (all_shards m) = Inr (dvalues (sm_entries m))"
    and "s \<in> set (dvalues (sm_entries m)) \<Longrightarrow> lookup m (sp_shard_id s) = Inr s"
proof -
  have get: "lookup m k = Inr v" if "(k, v) \<in> set (sm_entries m)" for k v
    using assms that map_of_is_SomeI [of "sm_entries m" k v] by (simp add: map_wf_def lookup_def dindex_def)
  have "emap (lookup m) (map fst d) = Inr (map snd d)" if "set d \<subseteq> set (sm_entries m)" for d
    using that get by (induction d) auto
  then show "emap (lookup m) (all_shards m) = Inr (dvalues (sm_entries m))" by (simp add: all_shards_def)
  show "lookup m (sp_shard_id s) = Inr s" if "s \<in> set (dvalues (sm_entries m))"
    using that get assms by (fastforce simp: map_wf_def)
qed

lemma stages_max:
  assumes "stages_from 0 stages t" and "2 \<le> length stages"
  shows "Max (sp_end_layer ` set stages) = t"
proof (rule Max_eqI)
  have "last stages \<in> set stages" "stages \<noteq> []" using assms(2) by (cases stages; simp)+
  with stages_links(2) [OF assms(1)] show "t \<in> sp_end_layer ` set stages" by force
  show "y \<le> t" if "y \<in> sp_end_layer ` set stages" for y using that stages_starts [OF assms(1)] by auto
qed simp


text \<open>The debug endpoint reports every member that gossip knows and, for the loads, the node itself.\<close>

theorem debug_endpoint_complete:
  assumes "en_membership n = Some r"
  shows "(\<exists>ms. fst (do_GET now ''/membership'' n) = Members ms \<and> dkeys ms = dkeys (view (rn_state r)) \<and> snd (do_GET now ''/membership'' n) = n) \<and>
    (\<exists>ls. fst (do_GET now ''/loads'' n) = Loads ls \<and> set (dkeys ls) = insert (my_id n) (set (dkeys (rn_peer_loads r))) \<and>
       (\<exists>load. dget ls (my_id n) = Some (load, now)))"
  using assms by (auto simp: do_GET_def self_load_report_def case_prod_beta' comp_def image_image Let_def update_conv' dom_update)

section \<open>Witnesses\<close>

definition demo_config :: yaml where
  "demo_config = YMap [(YStr ''model_id'', YStr ''gemma''), (YStr ''shards'', YMap [
     (YStr ''tail'', YMap [(YStr ''host'', YStr ''h''), (YStr ''port'', YInt 9003), (YStr ''start_layer'', YInt 10), (YStr ''end_layer'', YInt 30)]),
     (YStr ''head'', YMap [(YStr ''host'', YStr ''h''), (YStr ''port'', YInt 9001), (YStr ''start_layer'', YInt 0), (YStr ''end_layer'', YInt 10)])])]"

definition demo_unit_runner :: "unit MembershipRunner" where
  "demo_unit_runner = runner_init (demo_peer ''head'') [demo_peer ''tail''] default_config [] ''gemma'' 0"

definition linux_box :: Platform where
  "linux_box = \<lparr>pf_mlx_installed = False, pf_metal_available = False, pf_torch_installed = True\<rparr>"

theorem dry_run_needs_mlx_witness:
  "\<exists>e. node_main (\<lambda>_. Inr 10) (\<lambda>_. []) [(''SHARD_DRY_RUN'', ''true'')] linux_box demo_config None ''head'' = Inl e"
  by (rule dry_run_needs_mlx) (simp_all add: linux_box_def)


theorem debug_endpoint_complete_witness:
  "\<exists>ls load. fst (do_GET 7 ''/loads'' (demo_node\<lparr>en_membership := Some demo_unit_runner\<rparr>)) = Loads ls \<and> dget ls ''head'' = Some (load, 7)"
proof -
  let ?n = "demo_node\<lparr>en_membership := Some demo_unit_runner\<rparr>"
  have "my_id ?n = ''head''" by (simp add: demo_node_def demo_spec_def)
  with debug_endpoint_complete [of ?n demo_unit_runner 7] show ?thesis by auto
qed

end
