(* ===== verification/Pt_Load.thy ===== *)
theory Pt_Load
  imports Pt_Engine Startup
begin

text \<open>
  \<^verbatim>\<open>pt_partial_load.load_model_partial\<close>: the streaming loader of a PyTorch shard.  A model is a tree
  of modules with parameters and buffers; a slot whose tensor has not been materialised (a meta tensor) is
  \<^verbatim>\<open>None\<close>.  The weight files, the move to the device with its change of type and the re-linking of
  tied weights are parameters.
\<close>

declare map_of_eq_Some_iff [simp del] Some_eq_map_of_iff [simp del]

section \<open>Modules\<close>

datatype 't Module = Module (parameters: "(string, 't option) dict") (buffers: "(string, 't option) dict") (submodules: "(string, 't Module) dict")

text \<open>The slot of a name; a parameter hides a buffer.\<close>

definition leaf_slot :: "'t Module \<Rightarrow> string \<Rightarrow> 't option option" where
  "leaf_slot m leaf = (case dget (parameters m) leaf of Some v \<Rightarrow> Some v | None \<Rightarrow> dget (buffers m) leaf)"

fun slot_at :: "'t Module \<Rightarrow> string list \<Rightarrow> 't option option" where
  "slot_at m [] = None"
| "slot_at m [leaf] = leaf_slot m leaf"
| "slot_at m (p # q # ps) = (case dget (submodules m) p of None \<Rightarrow> None | Some c \<Rightarrow> slot_at c (q # ps))"

text \<open>\<^verbatim>\<open>_set_module_attr\<close> on the parts of the dotted name.\<close>

fun set_parts :: "'t Module \<Rightarrow> string list \<Rightarrow> 't \<Rightarrow> 't Module result" where
  "set_parts m [] t = Inl ValueError"
| "set_parts m [leaf] t =
     (case dget (parameters m) leaf of
        Some _ \<Rightarrow> Inr (Module (dput leaf (Some t) (parameters m)) (buffers m) (submodules m))
      | None \<Rightarrow>
          (case dget (buffers m) leaf of
             Some _ \<Rightarrow> Inr (Module (parameters m) (dput leaf (Some t) (buffers m)) (submodules m))
           | None \<Rightarrow> Inl ValueError))"
| "set_parts m (p # q # ps) t =
     (case dget (submodules m) p of
        None \<Rightarrow> Inl AttributeError
      | Some c \<Rightarrow> ebind (set_parts c (q # ps) t) (\<lambda>c'. Inr (Module (parameters m) (buffers m) (dput p c' (submodules m)))))"

definition set_module_attr :: "'t Module \<Rightarrow> string \<Rightarrow> 't \<Rightarrow> 't Module result" where
  "set_module_attr m dotted_name t = set_parts m (py_split CHR ''.'' dotted_name) t"

abbreviation slot_of :: "'t Module \<Rightarrow> string \<Rightarrow> 't option option" where
  "slot_of m name \<equiv> slot_at m (py_split CHR ''.'' name)"

section \<open>The loader\<close>

text \<open>The layer of a weight, as the regular expression of the source reads it.\<close>

definition LAYER_PREFIX :: string where
  "LAYER_PREFIX = ''model.language_model.layers.''"

definition layer_of_name :: "string \<Rightarrow> int option" where
  "layer_of_name name =
     (if take (length LAYER_PREFIX) name \<noteq> LAYER_PREFIX then None
      else let rest = drop (length LAYER_PREFIX) name;
               ds = takeWhile (\<lambda>c. digit c \<noteq> None) rest
           in if ds = [] \<or> \<not> (case drop (length ds) rest of [] \<Rightarrow> False | c # _ \<Rightarrow> c = CHR ''.'') then None
              else int_digits False 0 ds)"

definition skipped :: "(int, int list) dict \<Rightarrow> string \<Rightarrow> bool" where
  "skipped held name \<longleftrightarrow> held \<noteq> [] \<and> (case layer_of_name name of None \<Rightarrow> False | Some l \<Rightarrow> l \<notin> set (dkeys held))"

definition load_weights :: "(string \<Rightarrow> string \<Rightarrow> 't result) \<Rightarrow> ('t \<Rightarrow> 't) \<Rightarrow> (int, int list) dict \<Rightarrow> (string, string) dict \<Rightarrow> 't Module \<Rightarrow>
    't Module result" where
  "load_weights get_tensor to_device held weight_map m =
     efold (\<lambda>(tensor_name, shard_file) m.
              if skipped held tensor_name then Inr m
              else ebind (get_tensor shard_file tensor_name) (\<lambda>t. set_module_attr m tensor_name (to_device t))) weight_map m"

definition pt_load_model_partial :: "(string \<Rightarrow> string \<Rightarrow> 't result) \<Rightarrow> ('t \<Rightarrow> 't) \<Rightarrow> ('t Module \<Rightarrow> 't Module) \<Rightarrow> (string, string) dict \<Rightarrow> 't Module \<Rightarrow>
    (int, int list) dict \<Rightarrow> 't Module result" where
  "pt_load_model_partial get_tensor to_device tie_weights weight_map empty_model held =
     ebind (load_weights get_tensor to_device held weight_map empty_model) (\<lambda>m. Inr (tie_weights m))"

section \<open>Writing one slot\<close>

lemma leaf_slot_put:
  "leaf_slot (Module (dput a v ps) bs cs) b = (if b = a then Some v else leaf_slot (Module ps bs cs) b)"
  "dget ps a = None \<Longrightarrow> leaf_slot (Module ps (dput a v bs) cs) b = (if b = a then Some v else leaf_slot (Module ps bs cs) b)"
  by (auto simp: leaf_slot_def split: option.split)

lemma set_parts_slots:
  assumes "slot_at m ps = Some v"
  shows "\<exists>m'. set_parts m ps t = Inr m' \<and> slot_at m' ps = Some (Some t) \<and> (\<forall>qs. qs \<noteq> ps \<longrightarrow> slot_at m' qs = slot_at m qs)"
  using assms
proof (induction m ps t arbitrary: v rule: set_parts.induct)
  case (2 m leaf t)
  obtain ps bs cs where m: "m = Module ps bs cs" by (cases m)
  from 2 have "dget ps leaf \<noteq> None \<or> dget ps leaf = None \<and> dget bs leaf \<noteq> None" by (auto simp: m leaf_slot_def split: option.splits)
  then show ?case
  proof
    assume "dget ps leaf \<noteq> None"
    moreover have "slot_at (Module (dput leaf (Some t) ps) bs cs) qs = slot_at m qs" if "qs \<noteq> [leaf]" for qs
      using that by (cases "(m, qs)" rule: slot_at.cases) (auto simp: m leaf_slot_put)
    ultimately show ?thesis by (auto simp: m leaf_slot_put)
  next
    assume *: "dget ps leaf = None \<and> dget bs leaf \<noteq> None"
    moreover have "slot_at (Module ps (dput leaf (Some t) bs) cs) qs = slot_at m qs" if "qs \<noteq> [leaf]" for qs
      using that * by (cases "(m, qs)" rule: slot_at.cases) (auto simp: m leaf_slot_put)
    ultimately show ?thesis by (auto simp: m leaf_slot_put)
  qed
next
  case (3 m p q ps t)
  obtain pp bs cs where m: "m = Module pp bs cs" by (cases m)
  from 3(2) obtain c where c: "dget cs p = Some c" "slot_at c (q # ps) = Some v" by (auto simp: m split: option.splits)
  with 3(1) [of c v] obtain c' where c': "set_parts c (q # ps) t = Inr c'" "slot_at c' (q # ps) = Some (Some t)"
    "\<And>qs. qs \<noteq> q # ps \<Longrightarrow> slot_at c' qs = slot_at c qs" by (auto simp: m)
  have "slot_at (Module pp bs (dput p c' cs)) qs = slot_at m qs" if "qs \<noteq> p # q # ps" for qs
    using that c(1) c'(3) by (cases "(m, qs)" rule: slot_at.cases) (auto simp: m leaf_slot_def split: option.split)
  with c c' show ?case by (auto simp: m)
qed simp

section \<open>Dotted names\<close>

fun py_join :: "char \<Rightarrow> string list \<Rightarrow> string" where
  "py_join sep [] = []"
| "py_join sep [p] = p"
| "py_join sep (p # ps) = p @ sep # py_join sep ps"

lemma py_split_nonempty: "py_split sep s \<noteq> []"
  by (induction s) (auto split: list.splits)

lemma py_join_split: "py_join sep (py_split sep s) = s"
proof (induction s)
  case (Cons c cs)
  then show ?case using py_split_nonempty [of sep cs] by (cases "py_split sep cs"; cases "tl (py_split sep cs)") auto
qed simp

lemma py_split_inj: "py_split sep s = py_split sep t \<longleftrightarrow> s = t"
  by (metis py_join_split)

section \<open>What the loader fills\<close>

lemma load_weights_slots:
  assumes "distinct (dkeys weight_map)" and "\<forall>(name, fl) \<in> set weight_map. slot_of m name \<noteq> None \<and> (skipped held name \<or> (\<exists>t. get_tensor fl name = Inr t))"
  shows "\<exists>m'. load_weights get_tensor to_device held weight_map m = Inr m' \<and>
    (\<forall>name. slot_of m' name = (case dget weight_map name of
       Some fl \<Rightarrow> if skipped held name then slot_of m name else Some (Some (to_device (projr (get_tensor fl name))))
     | None \<Rightarrow> slot_of m name))"
  using assms
proof (induction weight_map arbitrary: m)
  case (Cons e weight_map)
  obtain name fl where e: "e = (name, fl)" by (cases e)
  show ?case
  proof (cases "skipped held name")
    case True
    from Cons.IH [of m] Cons.prems obtain m' where "load_weights get_tensor to_device held weight_map m = Inr m'"
      "\<forall>n. slot_of m' n = (case dget weight_map n of Some fl \<Rightarrow> if skipped held n then slot_of m n else Some (Some (to_device (projr (get_tensor fl n)))) | None \<Rightarrow> slot_of m n)"
      by (auto simp: e)
    moreover have "dget weight_map name = None" using Cons.prems(1) by (simp add: e map_of_eq_None_iff)
    ultimately show ?thesis using True by (auto simp: load_weights_def e)
  next
    case False
    from Cons.prems False obtain v t where v: "slot_of m name = Some v" "get_tensor fl name = Inr t" by (auto simp: e)
    from set_parts_slots [OF v(1), of "to_device t"] obtain m1 where m1: "set_module_attr m name (to_device t) = Inr m1" "slot_of m1 name = Some (Some (to_device t))"
      and other: "\<forall>qs. qs \<noteq> py_split CHR ''.'' name \<longrightarrow> slot_at m1 qs = slot_at m qs" unfolding set_module_attr_def by blast
    have m1_other: "slot_of m1 n = slot_of m n" if "n \<noteq> name" for n using other that by (simp add: py_split_inj)
    have none: "dget weight_map name = None" using Cons.prems(1) by (simp add: e map_of_eq_None_iff)
    have "slot_of m1 n \<noteq> None \<and> (skipped held n \<or> (\<exists>t. get_tensor f n = Inr t))" if nf: "(n, f) \<in> set weight_map" for n f
    proof -
      have "n \<noteq> name" using nf none by (force simp: map_of_eq_None_iff)
      moreover have "slot_of m n \<noteq> None \<and> (skipped held n \<or> (\<exists>t. get_tensor f n = Inr t))" using bspec [OF Cons.prems(2), of "(n, f)"] nf by simp
      ultimately show ?thesis using m1_other by simp
    qed
    then have "\<forall>(n, f) \<in> set weight_map. slot_of m1 n \<noteq> None \<and> (skipped held n \<or> (\<exists>t. get_tensor f n = Inr t))" by blast
    with Cons.IH [of m1] Cons.prems(1) obtain m' where m': "load_weights get_tensor to_device held weight_map m1 = Inr m'"
      "\<forall>n. slot_of m' n = (case dget weight_map n of Some fl \<Rightarrow> if skipped held n then slot_of m1 n else Some (Some (to_device (projr (get_tensor fl n)))) | None \<Rightarrow> slot_of m1 n)"
      by (auto simp: e)
    have "load_weights get_tensor to_device held (e # weight_map) m = Inr m'" using False v(2) m1(1) m'(1) by (simp add: load_weights_def e)
    moreover have "slot_of m' n = (case dget (e # weight_map) n of Some fl \<Rightarrow> if skipped held n then slot_of m n else Some (Some (to_device (projr (get_tensor fl n)))) | None \<Rightarrow> slot_of m n)" for n
      using m'(2) none False v(2) m1(2) m1_other by (cases "n = name") (auto simp: e split: option.split)
    ultimately show ?thesis by blast
  qed
qed (simp add: load_weights_def)


section \<open>Witness\<close>

definition demo_weights_map :: "(string, string) dict" where
  "demo_weights_map = [(''model.embed'', ''a''), (''model.language_model.layers.20.w'', ''a''), (''model.language_model.layers.21.w'', ''b'')]"

definition demo_empty_model :: "int Module" where
  "demo_empty_model = Module [] [] [(''model'', Module [(''embed'', None)] [] [(''language_model'', Module [] [] [(''layers'', Module [] []
     [(''20'', Module [(''w'', None)] [] []), (''21'', Module [] [(''w'', None)] [])])])])]"


end
