(* ===== verification/Node_Facts.thy ===== *)
theory Node_Facts
  imports Node
begin

text \<open>
  What the handlers of one node guarantee: admission, the clean-up of a request on every way out of the
  decode loop, errors reported to the client, and the cases in which state is left behind.
\<close>

declare map_of_eq_Some_iff [simp del] Some_eq_map_of_iff [simp del]

section \<open>Running without faults\<close>

lemma io_calm [simp]: "pn_faults n = [] \<Longrightarrow> io_op n = (Inr (), n)"
  by (simp add: io_op_def prog_defs)

lemma write_stream_calm [simp]:
  "pn_faults n = [] \<Longrightarrow> write_stream st f n = (Inr (), n\<lparr>pn_log := pn_log n @ [ToStream st f]\<rparr>)"
  by (simp add: write_stream_def emit_def smod_def)

lemma write_out_calm [simp]:
  "pn_faults n = [] \<Longrightarrow> write_out f n = (Inr (), n\<lparr>pn_out_open := True, pn_log := pn_log n @ [ToPeer f]\<rparr>)"
  by (cases "pn_out_open n") (simp_all add: write_out_def ensure_out_stream_def emit_def sbind_def sget_def smod_def sret_def)

lemma close_outbound_run [simp]:
  "close_outbound n = (Inr (), if pn_out_open n then n\<lparr>pn_out_open := False, pn_log := pn_log n @ [CloseOut]\<rparr> else n)"
  by (simp add: close_outbound_def emit_def prog_defs)

lemma suppress_Inr: "m n = (Inr u, n') \<Longrightarrow> suppress_os_error m n = (Inr u, n')"
  by (simp add: suppress_os_error_def scatch_def)

lemma broadcast_end_calm [simp]:
  "pn_faults n = [] \<Longrightarrow> broadcast_end rid n =
     (Inr (), n\<lparr>pn_kv_caches := dpop rid (pn_kv_caches n), pn_out_open := True, pn_log := pn_log n @ [ToPeer (PEnd rid, [])]\<rparr>)"
  by (simp add: broadcast_end_def suppress_Inr drop_cache_def smod_def)

lemma end_request_calm:
  "pn_faults n = [] \<Longrightarrow> end_request rid n =
     (Inr (), n\<lparr>pn_kv_caches := dpop rid (pn_kv_caches n), pn_head_states := dpop rid (pn_head_states n), pn_out_open := False,
                pn_log := pn_log n @ [ToPeer (PEnd rid, []), CloseOut]\<rparr>)"
  by (simp add: end_request_def drop_state_def smod_def)

section \<open>Clean-up\<close>

text \<open>Predicates on the node that the streams do not touch.\<close>

definition off_stream :: "(('b, 't, 'c, 'o) PNode \<Rightarrow> bool) \<Rightarrow> bool" where
  "off_stream P \<longleftrightarrow> (\<forall>n f. P (pn_faults_update f n) = P n) \<and> (\<forall>n f. P (pn_out_open_update f n) = P n) \<and> (\<forall>n f. P (pn_log_update f n) = P n)"

abbreviation os_only :: "(('b, 't, 'c, 'o) PNode \<Rightarrow> bool) \<Rightarrow> node_exn \<Rightarrow> ('b, 't, 'c, 'o) PNode \<Rightarrow> bool" where
  "os_only P \<equiv> (\<lambda>e n. e = NPy OSError \<and> P n)"

lemma valid_emit: "off_stream P \<Longrightarrow> valid P (emit ev) (\<lambda>_. P) E"
  by (simp add: emit_def valid_smod off_stream_def)

lemma valid_io: "off_stream P \<Longrightarrow> valid P io_op (\<lambda>_. P) (os_only P)"
  unfolding io_op_def
  by (rule valid_sbind [OF valid_sget [where Q = "\<lambda>_. P"]]) (auto split: list.split simp: off_stream_def intro!: valid_sret valid_sbind [where R = "\<lambda>_. P"] valid_smod valid_sthrow)

lemma valid_write_stream: "off_stream P \<Longrightarrow> valid P (write_stream st f) (\<lambda>_. P) (os_only P)"
  unfolding write_stream_def by (intro valid_sbind [OF valid_io] valid_emit)

lemma valid_write_out: "off_stream P \<Longrightarrow> valid P (write_out f) (\<lambda>_. P) (os_only P)"
  unfolding write_out_def ensure_out_stream_def
  by (intro valid_sbind [where R = "\<lambda>_. P"] valid_sget valid_if valid_sret valid_io valid_smod valid_emit) (simp_all add: off_stream_def)

lemma valid_suppress: "valid P m (\<lambda>_. Q) (os_only Q) \<Longrightarrow> valid P (suppress_os_error m) (\<lambda>_. Q) (\<lambda>_ _. False)"
  unfolding suppress_os_error_def
  by (rule valid_scatch) (auto simp: valid_def sret_def sthrow_def)

lemma valid_close: "off_stream P \<Longrightarrow> valid P close_outbound (\<lambda>_. P) (\<lambda>_ _. False)"
  by (auto simp: valid_def off_stream_def)

definition gone :: "string \<Rightarrow> ('b, 't, 'c, 'o) PNode \<Rightarrow> bool" where
  "gone rid n \<longleftrightarrow> dget (pn_kv_caches n) rid = None \<and> dget (pn_head_states n) rid = None"

lemma off_stream_gone: "off_stream (\<lambda>n. gone rid n \<and> P (pn_states n))"
  by (simp add: off_stream_def gone_def)

lemma off_stream_states: "off_stream (\<lambda>n. P (pn_states n) (pn_kv_caches n))"
  by (simp add: off_stream_def)

lemma valid_broadcast:
  "valid (\<lambda>n. dget (pn_head_states n) rid = None \<and> P (pn_states n)) (broadcast_end rid) (\<lambda>_ n. gone rid n \<and> P (pn_states n)) (\<lambda>_ _. False)"
proof -
  let ?P = "\<lambda>n. dget (pn_head_states n) rid = None \<and> P (pn_states n)"
  have "off_stream ?P" by (simp add: off_stream_def)
  from valid_suppress [OF valid_write_out [OF this]] show ?thesis
    unfolding broadcast_end_def drop_cache_def by (rule valid_sbind) (rule valid_smod, simp add: gone_def)
qed

lemma abort_cleans:
  "valid (\<lambda>n. P (pn_states n)) (abort_request st rid) (\<lambda>_ n. gone rid n \<and> P (pn_states n)) (\<lambda>_ _. False)"
  unfolding abort_request_def drop_cache_def drop_state_def
proof (rule valid_sbind [OF valid_suppress [OF valid_write_stream]], goal_cases)
  case 1
  show ?case by (simp add: off_stream_def)
next
  case 2
  let ?D = "\<lambda>n. dget (pn_head_states n) rid = None \<and> P (pn_states n)"
  have "off_stream ?D" by (simp add: off_stream_def)
  then have tail: "valid ?D (sbind close_outbound (\<lambda>_. suppress_os_error (broadcast_end rid))) (\<lambda>_ n. gone rid n \<and> P (pn_states n)) (\<lambda>_ _. False)"
    by (intro valid_sbind [OF valid_close] valid_suppress valid_weaken [OF valid_broadcast]) auto
  show ?case
    by (rule valid_sbind [OF valid_smod [where Q = "\<lambda>_ n. P (pn_states n)"]], simp) (rule valid_sbind [OF valid_smod tail], simp)
qed

lemma end_cleans:
  "valid (\<lambda>n. P (pn_states n)) (end_request rid) (\<lambda>_ n. gone rid n \<and> P (pn_states n)) (\<lambda>_ _. False)"
proof -
  let ?P = "\<lambda>n. P (pn_states n)" and ?K = "\<lambda>n. dget (pn_kv_caches n) rid = None \<and> P (pn_states n)"
  have "valid ?P (broadcast_end rid) (\<lambda>_. ?K) (\<lambda>_ _. False)"
    unfolding broadcast_end_def drop_cache_def
    by (rule valid_sbind [OF valid_suppress [OF valid_write_out]]) (auto simp: off_stream_def intro!: valid_smod)
  then show ?thesis unfolding end_request_def drop_state_def
    by (rule valid_sbind) (rule valid_sbind [OF valid_smod valid_close [OF off_stream_gone]], simp add: gone_def)
qed

text \<open>Operations that leave the request states alone, whatever they raise.\<close>

definition keeps_states :: "('b, 't, 'c, 'o, 'a) node_prog \<Rightarrow> bool" where
  "keeps_states m \<longleftrightarrow> (\<forall>P. keeps (\<lambda>n. P (pn_states n)) m)"

lemma keeps_statesD: "keeps_states m \<Longrightarrow> keeps (\<lambda>n. P (pn_states n)) m"
  by (simp add: keeps_states_def)

lemma keeps_states_sbind: "keeps_states m \<Longrightarrow> (\<And>x. keeps_states (f x)) \<Longrightarrow> keeps_states (sbind m f)"
  unfolding keeps_states_def by (blast intro: valid_sbind)

lemma keeps_states_if: "(b \<Longrightarrow> keeps_states m) \<Longrightarrow> (\<not> b \<Longrightarrow> keeps_states m') \<Longrightarrow> keeps_states (if b then m else m')"
  by simp

lemma keeps_states_simple:
  "keeps_states (sret x)" "keeps_states (sthrow e)" "keeps_states (sget g)" "keeps_states (slift w r)"
  by (auto simp: keeps_states_def intro: valid_sret valid_sthrow valid_sget valid_slift)

lemma keeps_states_write_stream: "keeps_states (write_stream st f)"
  unfolding keeps_states_def by (intro allI valid_weaken [OF valid_write_stream]) (auto simp: off_stream_def)

lemma keeps_states_write_out: "keeps_states (write_out f)"
  unfolding keeps_states_def by (intro allI valid_weaken [OF valid_write_out]) (auto simp: off_stream_def)

lemma keeps_states_smod: "(\<And>n. pn_states (f n) = pn_states n) \<Longrightarrow> keeps_states (smod f)"
  by (simp add: keeps_states_def valid_smod)

lemma keeps_states_run: "keeps_states (run_my_layers eng rid h c ch)"
  by (auto simp: keeps_states_def valid_def run_my_layers_def split: prod.split sum.split)

lemmas keeps_states_rules = keeps_states_sbind keeps_states_if keeps_states_simple keeps_states_write_stream keeps_states_write_out
  keeps_states_run

lemma keeps_states_embed: "keeps_states (embed_pass eng toks)"
  unfolding embed_pass_def node_entry_def by (intro keeps_states_rules)

lemma keeps_states_forward: "keeps_states (forward_activation eng rid h ch)"
  unfolding forward_activation_def by (intro keeps_states_rules keeps_states_smod) simp

lemma decode_turn_states:
  assumes "\<And>sts. P sts \<Longrightarrow> P (sts[sid := hs_generated_update (\<lambda>g. g + 1) (sts ! sid)])"
  shows "valid (\<lambda>n. P (pn_states n)) (decode_turn eng sid rid tok) (\<lambda>_ n. P (pn_states n)) (\<lambda>_ n. P (pn_states n))"
proof -
  let ?V = "\<lambda>m. valid (\<lambda>n. P (pn_states n)) m (\<lambda>_ n. P (pn_states n)) (\<lambda>_ n. P (pn_states n))"
  have pass: "keeps_states (sbind (embed_pass eng [tok]) (\<lambda>(h, chain). sbind (run_my_layers eng rid h cache chain) (\<lambda>(h', chain').
      sbind (forward_activation eng rid h' chain') (\<lambda>_. sret False))))" for cache
    unfolding case_prod_beta by (intro keeps_states_sbind keeps_states_embed keeps_states_run keeps_states_forward keeps_states_simple)
  have rest: "keeps_states (if fin then sret True else sbind (sget (\<lambda>n. dindex (pn_kv_caches n) rid)) (\<lambda>c. sbind (slift NPy c) (\<lambda>cache.
      sbind (embed_pass eng [tok]) (\<lambda>(h, chain). sbind (run_my_layers eng rid h cache chain) (\<lambda>(h', chain').
      sbind (forward_activation eng rid h' chain') (\<lambda>_. sret False))))))" for fin
    by (intro keeps_states_if keeps_states_sbind keeps_states_simple pass)
  show ?thesis
  proof (cases "tok = POISON_TOKEN")
    case False
    have "?V (set_state sid (hs_generated_update (\<lambda>g. g + 1)) :: ('a, 'b, 'c, 'd, unit) node_prog)"
      unfolding set_state_def by (rule valid_smod) (use assms in simp)
    then show ?thesis unfolding decode_turn_def Let_def if_not_P [OF False]
      unfolding send_sampled_token_to_def
      by (rule valid_sbind) (intro keeps_statesD keeps_states_sbind keeps_states_simple keeps_states_write_stream rest)
  qed (simp add: decode_turn_def valid_sthrow)
qed

text \<open>C21: Every way out of the loop cleans up.  A turn of the decode loop, whatever fails on the way, leaves
  the loop waiting for the next token, or ends it with the request's cache and state dropped; only an
  exception the loop does not catch can end it otherwise.\<close>

theorem decode_round_cleans_up:
  assumes "decode_ready n sid" and "decode_round eng sid n = (r, n')"
  shows "case r of
      Inr _ \<Rightarrow> hs_running (pn_states n' ! sid) \<or> gone (hs_request_id (pn_states n ! sid)) n' \<and> \<not> hs_running (pn_states n' ! sid)
    | Inl e \<Rightarrow> \<not> caught_by_loop e \<and> \<not> hs_running (pn_states n' ! sid)"
proof -
  let ?rid = "hs_request_id (pn_states n ! sid)" and ?st = "pn_states n ! sid"
  let ?P = "\<lambda>sts. sid < length sts \<and> \<not> hs_running (sts ! sid)"
  let ?Q = "\<lambda>(_ :: unit) m. hs_running (pn_states m ! sid) \<or> gone ?rid m \<and> ?P (pn_states m)"
  let ?E = "\<lambda>e m. \<not> caught_by_loop e \<and> ?P (pn_states m)"
  define n1 where "n1 = snd (set_state sid (hs_running_update (\<lambda>_. False)) (snd (set_state sid (hs_token_queue_update tl) n)))"
  have sid: "sid < length (pn_states n)" using assms(1) by (simp add: decode_ready_def)
  then have P: "?P (pn_states n1)" by (simp add: n1_def set_state_def smod_def)
  have turn: "valid (\<lambda>m. ?P (pn_states m)) (decode_turn eng sid ?rid (hd (hs_token_queue ?st))) (\<lambda>_ m. ?P (pn_states m)) (\<lambda>_ m. ?P (pn_states m))"
    by (rule decode_turn_states) simp
  have body: "valid (\<lambda>m. ?P (pn_states m)) (sbind (decode_turn eng sid ?rid (hd (hs_token_queue ?st))) (\<lambda>finished.
      if finished then end_request ?rid else set_state sid (hs_running_update (\<lambda>_. True)))) ?Q (\<lambda>_ m. ?P (pn_states m))"
    by (rule valid_sbind [OF turn], rule valid_if, rule valid_weaken [OF end_cleans [where P = ?P]])
       (auto simp: set_state_def intro!: valid_smod)
  have "valid (\<lambda>m. ?P (pn_states m)) (scatch (sbind (decode_turn eng sid ?rid (hd (hs_token_queue ?st))) (\<lambda>finished.
      if finished then end_request ?rid else set_state sid (hs_running_update (\<lambda>_. True))))
      (\<lambda>e. if caught_by_loop e then abort_request (hs_client_stream ?st) ?rid else sthrow e)) ?Q ?E"
    by (rule valid_scatch [OF body]) (auto intro!: valid_if valid_sthrow valid_weaken [OF abort_cleans [where P = ?P]])
  note v = this
  have "decode_round eng sid n = scatch (sbind (decode_turn eng sid ?rid (hd (hs_token_queue ?st))) (\<lambda>finished.
      if finished then end_request ?rid else set_state sid (hs_running_update (\<lambda>_. True))))
      (\<lambda>e. if caught_by_loop e then abort_request (hs_client_stream ?st) ?rid else sthrow e) n1"
    using sid by (simp add: decode_round_def set_state_def sbind_def sget_def smod_def Let_def n1_def)
  with v P assms(2) show ?thesis by (auto simp: valid_def split: sum.split)
qed

text \<open>An \<^verbatim>\<open>EndRequest\<close> always clears the node: no cache, no head state, no pending entry of the
  request is left and the outbound connection is closed, whatever fails while it is relayed.\<close>

theorem end_clears_request:
  shows "\<exists>n'. handle_end rid n = (Inr (), n') \<and> gone rid n' \<and> dget (pn_pending_finalize n') rid = None \<and> \<not> pn_out_open n'"
proof -
  let ?n1 = "n\<lparr>pn_kv_caches := dpop rid (pn_kv_caches n), pn_head_states := dpop rid (pn_head_states n), pn_pending_finalize := dpop rid (pn_pending_finalize n)\<rparr>"
  let ?P = "\<lambda>m. gone rid m \<and> dget (pn_pending_finalize m) rid = None"
  have "valid ?P (broadcast_end rid) (\<lambda>_. ?P) (\<lambda>_ _. False)"
    unfolding broadcast_end_def drop_cache_def
    by (rule valid_sbind [OF valid_suppress [OF valid_write_out]]) (auto simp: off_stream_def gone_def intro!: valid_smod)
  then have "valid ?P (swhen b (suppress_os_error (broadcast_end rid))) (\<lambda>_. ?P) (\<lambda>_ _. False)" for b
    by (intro valid_swhen valid_suppress) (auto intro: valid_weaken)
  then have "case swhen (\<not> is_tail n) (suppress_os_error (broadcast_end rid)) ?n1 of (Inl _, _) \<Rightarrow> False | (Inr _, m) \<Rightarrow> ?P m"
    by (rule valid_def [THEN iffD1, rule_format]) (simp add: gone_def)
  then obtain m where m: "swhen (\<not> is_tail n) (suppress_os_error (broadcast_end rid)) ?n1 = (Inr (), m)" "?P m"
    by (auto split: prod.splits sum.splits)
  then have "handle_end rid n = (Inr (), if pn_out_open m then m\<lparr>pn_out_open := False, pn_log := pn_log m @ [CloseOut]\<rparr> else m)"
    by (simp add: handle_end_def sbind_def sget_def smod_def is_tail_def)
  with m(2) show ?thesis by (auto simp: gone_def)
qed

section \<open>Admission\<close>

text \<open>C23: A request is refused unless the whole pipeline is up.  A node that is not the head, or a head that
  does not see every shard of the map \<^verbatim>\<open>ALIVE\<close>, answers a \<^verbatim>\<open>BeginRequest\<close> with one error and
  changes nothing else.\<close>

theorem begin_refused:
  assumes "\<not> is_head n \<or> (\<exists>r sid. en_membership (pn_expert n) = Some r \<and> sid \<in> set (all_shards (en_shard_map (pn_expert n))) \<and>
      (\<forall>rec. dget (view (rn_state r)) sid = Some rec \<longrightarrow> mr_state rec \<noteq> ALIVE))" and "pn_faults n = []"
  shows "\<exists>code. code \<in> {ERR_WRONG_SHARD, ERR_SHARD_UNAVAILABLE} \<and>
    handle_begin eng rid prompt mx st n = (Inr (), n\<lparr>pn_log := pn_log n @ [ToStream st (send_error rid code)]\<rparr>)"
proof (cases "is_head n")
  case True
  with assms(1) obtain r sid where r: "en_membership (pn_expert n) = Some r" "sid \<in> set (all_shards (en_shard_map (pn_expert n)))"
    "\<forall>rec. dget (view (rn_state r)) sid = Some rec \<longrightarrow> mr_state rec \<noteq> ALIVE" by auto
  then have "unavailable_peer n \<noteq> None" by (auto simp: unavailable_peer_def find_None_iff split: option.split)
  with True assms(2) show ?thesis by (auto simp: handle_begin_def sbind_def sget_def)
qed (use assms(2) in \<open>auto simp: handle_begin_def sbind_def sget_def\<close>)

section \<open>Errors during a request\<close>

text \<open>A request whose loop waits for a token.\<close>

definition waiting_for_token :: "('b, 't, 'c, 'o) PNode \<Rightarrow> string \<Rightarrow> nat \<Rightarrow> bool" where
  "waiting_for_token n rid sid \<longleftrightarrow> pn_faults n = [] \<and> is_head n \<and> dget (pn_head_states n) rid = Some sid \<and> sid < length (pn_states n) \<and>
     hs_request_id (pn_states n ! sid) = rid \<and> hs_running (pn_states n ! sid) \<and> hs_token_queue (pn_states n ! sid) = []"

lemma abort_calm:
  "pn_faults n = [] \<Longrightarrow> abort_request st rid n =
     (Inr (), n\<lparr>pn_kv_caches := dpop rid (dpop rid (pn_kv_caches n)), pn_head_states := dpop rid (pn_head_states n), pn_out_open := True,
        pn_log := pn_log n @ [ToStream st (send_error rid ERR_SHARD_UNAVAILABLE)] @ (if pn_out_open n then [CloseOut] else []) @ [ToPeer (PEnd rid, [])]\<rparr>)"
  by (simp add: abort_request_def suppress_Inr drop_cache_def drop_state_def smod_def)

lemma poison_round:
  assumes "pn_faults n = []" and "sid < length (pn_states n)" and "hs_token_queue (pn_states n ! sid) = POISON_TOKEN # q"
  shows "\<exists>n'. decode_round eng sid n = (Inr (), n') \<and> gone (hs_request_id (pn_states n ! sid)) n' \<and> \<not> hs_running (pn_states n' ! sid) \<and> pn_out_open n' \<and>
    pn_log n' = pn_log n @ [ToStream (hs_client_stream (pn_states n ! sid)) (send_error (hs_request_id (pn_states n ! sid)) ERR_SHARD_UNAVAILABLE)] @
      (if pn_out_open n then [CloseOut] else []) @ [ToPeer (PEnd (hs_request_id (pn_states n ! sid)), [])]"
  using assms
  by (simp add: decode_round_def decode_turn_def set_state_def Let_def sbind_def sget_def smod_def scatch_def sthrow_def caught_by_loop_def abort_calm gone_def)

lemma poison_all:
  "sfor (\<lambda>sid. set_state sid (hs_token_queue_update (\<lambda>q. q @ [POISON_TOKEN]))) sids n =
     (Inr (), pn_states_update (fold (\<lambda>sid sts. sts[sid := hs_token_queue_update (\<lambda>q. q @ [POISON_TOKEN]) (sts ! sid)]) sids) n)"
  by (induction sids arbitrary: n) (simp_all add: sret_def sbind_def set_state_def smod_def comp_def)

lemma poison_at:
  "sid < length sts \<Longrightarrow> fold (\<lambda>sid sts. sts[sid := hs_token_queue_update (\<lambda>q. q @ [POISON_TOKEN]) (sts ! sid)]) sids sts ! sid =
     hs_token_queue_update (\<lambda>q. q @ replicate (count_list sids sid) POISON_TOKEN) (sts ! sid)"
proof (induction sids arbitrary: sts)
  case (Cons j sids)
  show ?case using Cons.IH [of "sts[j := hs_token_queue_update (\<lambda>q. q @ [POISON_TOKEN]) (sts ! j)]"] Cons.prems
    by (auto simp: nth_list_update comp_def)
qed simp

text \<open>C22: Losing a peer ends the requests.  When a peer leaves \<^verbatim>\<open>ALIVE\<close>, every loop that waits for a token
  is woken; its next turn tells the client that a shard is unavailable and drops the request.\<close>

theorem peer_loss_aborts_request:
  assumes "waiting_for_token n rid sid" and "left_alive tr" and n1: "on_membership_change eng tr n = (r, n1)"
  shows "decode_ready n1 sid \<and> (\<exists>n2. decode_round eng sid n1 = (Inr (), n2) \<and> gone rid n2 \<and> \<not> hs_running (pn_states n2 ! sid) \<and>
    ToStream (hs_client_stream (pn_states n ! sid)) (send_error rid ERR_SHARD_UNAVAILABLE) \<in> set (pn_log n2))"
proof -
  have w: "pn_faults n = []" "dget (pn_head_states n) rid = Some sid" "sid < length (pn_states n)" "hs_request_id (pn_states n ! sid) = rid"
    "hs_running (pn_states n ! sid)" "hs_token_queue (pn_states n ! sid) = []"
    using assms(1) by (simp_all add: waiting_for_token_def)
  let ?sids = "dvalues (pn_head_states n)"
  let ?poison = "fold (\<lambda>sid sts. sts[sid := hs_token_queue_update (\<lambda>q. q @ [POISON_TOKEN]) (sts ! sid)]) ?sids"
  have "sid \<in> set ?sids" using w(2) map_of_SomeD by force
  then obtain k where k: "count_list ?sids sid = Suc k" using count_list_0_iff [of ?sids sid] not0_implies_Suc by metis
  have st: "pn_states n1 = ?poison (pn_states n)" and f: "pn_faults n1 = []"
    using assms(2) w(1) n1 by (auto simp: on_membership_change_def sbind_def sget_def swhen_def smod_def sret_def poison_all split: if_splits)
  have at: "pn_states n1 ! sid = hs_token_queue_update (\<lambda>q. q @ replicate (Suc k) POISON_TOKEN) (pn_states n ! sid)"
    unfolding st using poison_at [OF w(3), of ?sids] k by simp
  have len: "length (fold (\<lambda>sid sts. sts[sid := hs_token_queue_update (\<lambda>q. q @ [POISON_TOKEN]) (sts ! sid)]) js sts) = length sts" for js sts
    by (induction js arbitrary: sts) simp_all
  have "sid < length (pn_states n1)" using w(3) by (simp add: st len)
  moreover have "hs_token_queue (pn_states n1 ! sid) = POISON_TOKEN # replicate k POISON_TOKEN" using at w(6) by simp
  ultimately show ?thesis
    using poison_round [OF f, of sid "replicate k POISON_TOKEN" eng] at w by (auto simp: decode_ready_def)
qed

text \<open>An error from downstream is reported twice.  The head passes an \<^verbatim>\<open>Error\<close> of the tail on to the
  client and wakes the loop, whose own error follows on the same stream.\<close>

theorem upstream_error_reported_twice:
  assumes "waiting_for_token n rid sid"
  defines "st \<equiv> hs_client_stream (pn_states n ! sid)"
  shows "\<exists>n1 n2. handle_upstream_error rid code n = (Inr (), n1) \<and> decode_ready n1 sid \<and> decode_round eng sid n1 = (Inr (), n2) \<and>
    filter (\<lambda>ev. \<exists>f. ev = ToStream st f) (pn_log n2) =
      filter (\<lambda>ev. \<exists>f. ev = ToStream st f) (pn_log n) @ [ToStream st (send_error rid code), ToStream st (send_error rid ERR_SHARD_UNAVAILABLE)]"
proof -
  let ?n1 = "n\<lparr>pn_kv_caches := dpop rid (pn_kv_caches n), pn_states := (pn_states n)[sid := hs_token_queue_update (\<lambda>q. q @ [POISON_TOKEN]) (pn_states n ! sid)],
    pn_head_states := dpop rid (pn_head_states n), pn_log := pn_log n @ [ToStream st (send_error rid code)]\<rparr>"
  have w: "pn_faults n = []" "is_head n" "dget (pn_head_states n) rid = Some sid" "sid < length (pn_states n)" "hs_request_id (pn_states n ! sid) = rid"
    "hs_running (pn_states n ! sid)" "hs_token_queue (pn_states n ! sid) = []"
    using assms(1) by (simp_all add: waiting_for_token_def)
  have "handle_upstream_error rid code n = (Inr (), ?n1)"
    using w by (simp add: handle_upstream_error_def sbind_def sget_def suppress_Inr set_state_def drop_cache_def drop_state_def smod_def st_def)
  moreover have "decode_ready ?n1 sid" using w by (simp add: decode_ready_def)
  moreover obtain n2 where "decode_round eng sid ?n1 = (Inr (), n2)"
    "pn_log n2 = pn_log ?n1 @ [ToStream st (send_error rid ERR_SHARD_UNAVAILABLE)] @ (if pn_out_open ?n1 then [CloseOut] else []) @ [ToPeer (PEnd rid, [])]"
    using poison_round [of ?n1 sid "[]" eng] w by (auto simp: st_def)
  ultimately show ?thesis by fastforce
qed

text \<open>A failed hand-over of the prefill leaks the request.  When the head cannot reach the next node
  after the prefill, the exception leaves the handler: the client gets no answer and the cache and the
  state of the request stay registered, with no loop that would ever drop them.\<close>

theorem prefill_send_failure_leaks:
  assumes "is_head n" and "\<not> is_tail n" and "unavailable_peer n = None" and "\<not> en_provenance_enabled (pn_expert n)"
    and "\<not> pn_out_open n" and "pn_faults n = True # fs" and "ne_embed eng prompt = Inr h"
    and "ne_run_my_layers eng rid h (ne_make_cache eng) None (pn_orch n) = (Inr ((h', c'), None), s')" and "describe (ne_ops eng) h' = Inr d"
  shows "\<exists>n'. handle_begin eng rid prompt mx st n = (Inl (NPy OSError), n') \<and> pn_log n' = pn_log n \<and>
    dget (pn_kv_caches n') rid = Some c' \<and> dget (pn_head_states n') rid = Some (length (pn_states n)) \<and> \<not> hs_running (pn_states n' ! length (pn_states n))"
  using assms
  by (simp add: handle_begin_def embed_pass_def forward_activation_def run_my_layers_def write_out_def ensure_out_stream_def io_op_def
      activation_envelope_def Let_def sbind_def sget_def smod_def sret_def sthrow_def slift_def scatch_def is_head_def is_tail_def nth_append)

text \<open>An aborted request leaves a connection open.  The loop closes the outbound connection, so that the
  next request starts on a fresh one, and then sends \<^verbatim>\<open>EndRequest\<close>, which opens it again.\<close>

theorem abort_leaves_connection_open:
  assumes "pn_faults n = []"
  shows "\<exists>n'. abort_request st rid n = (Inr (), n') \<and> pn_out_open n'"
  using assms by (simp add: abort_calm)

section \<open>Rejected activations\<close>

lemma reject_calm:
  assumes "pn_faults n = []"
  shows "reject_activation rid st n = (Inr (), n\<lparr>pn_out_open := is_tail n,
     pn_log := pn_log n @ [ToStream st (send_error rid ERR_INVALID_PROVENANCE)] @
       (if is_tail n then [ToPeer (send_error rid ERR_INVALID_PROVENANCE)] else if pn_out_open n then [CloseOut] else [])\<rparr>)"
  using assms by (simp add: reject_activation_def sbind_def sget_def suppress_Inr is_tail_def)

text \<open>C24: What becomes of an activation whose provenance is rejected.  No layer runs and nothing is forwarded.
  The tail sends the error on to the head; a node in the middle only writes it back on the connection it
  came from, on which nobody reads, and closes its own outbound connection: no frame goes towards the head,
  whose loop waits on.\<close>

theorem rejected_activation:
  assumes "pn_faults n = []" and "nl = sp_start_layer (pn_shard n)" and "check_inbound (ne_blake2b eng) (pn_expert n) prov bs = Inl ProvenanceError"
  shows "\<exists>n'. handle_activation eng rid nl d prov bs st n = (Inr (), n') \<and> pn_kv_caches n' = pn_kv_caches n \<and>
    filter (\<lambda>ev. \<exists>f. ev = ToPeer f) (pn_log n') =
      filter (\<lambda>ev. \<exists>f. ev = ToPeer f) (pn_log n) @ (if is_tail n then [ToPeer (send_error rid ERR_INVALID_PROVENANCE)] else [])"
  using assms by (simp add: handle_activation_def sbind_def sget_def reject_calm)

text \<open>A stripped chain is accepted.  With provenance on, an activation that carries no chain at all is
  processed like one whose chain was validated: the frame it causes is the same as with provenance off,
  whatever the tensor.\<close>

theorem stripped_chain_accepted:
  assumes "en_provenance_enabled (pn_expert n)" and "nl = sp_start_layer (pn_shard n)" and "pn_faults n = []" and "\<not> is_tail n"
    and "from_bytes (ne_ops eng) bs (td_shape d) (td_dtype d) = Inr h"
    and "ne_run_my_layers eng rid h (dget_default (pn_kv_caches n) rid (ne_make_cache eng)) (Some []) (pn_orch n) = (Inr ((h', c'), Some []), o')"
    and "describe (ne_ops eng) h' = Inr d'"
  shows "\<exists>n'. handle_activation eng rid nl d [] bs st n = (Inr (), n') \<and>
    pn_log n' = pn_log n @ [ToPeer (PActivation rid (sp_end_layer (pn_shard n)) d' [], to_bytes (ne_ops eng) h')]"
  using assms
  by (simp add: handle_activation_def check_inbound_def forward_activation_def activation_envelope_def run_my_layers_def Let_def sbind_def sget_def smod_def
      sret_def scatch_def slift_def is_tail_def)

end
