(* ===== verification/Ring_Steps.thy ===== *)
theory Ring_Steps
  imports Node_Facts
begin

text \<open>
  What one step of a node does to a request when no write fails and provenance is off: the effect of each
  handler on the caches, the request states and the frames sent, as the proof about the whole pipeline uses it.
\<close>

declare map_of_eq_Some_iff [simp del] Some_eq_map_of_iff [simp del]

definition plain :: "'b ExpertNode \<Rightarrow> ('b, 't, 'c, 'o) PNode \<Rightarrow> bool" where
  "plain ex n \<longleftrightarrow> pn_faults n = [] \<and> pn_expert n = ex \<and> \<not> en_provenance_enabled ex"

lemma embed_pass_plain:
  "plain ex n \<Longrightarrow> ne_embed eng toks = Inr h \<Longrightarrow> embed_pass eng toks n = (Inr (h, None), n)"
  by (auto simp: plain_def embed_pass_def sbind_def slift_def sget_def sret_def)

lemma forward_plain:
  assumes "plain ex n" and "\<not> is_tail n" and "describe (ne_ops eng) h = Inr d"
  shows "forward_activation eng rid h ch n =
    (Inr (), n\<lparr>pn_debug_captures := dappend rid (sp_end_layer (en_shard ex), h) (pn_debug_captures n), pn_out_open := True,
       pn_log := pn_log n @ [ToPeer (PActivation rid (sp_end_layer (en_shard ex)) d [], to_bytes (ne_ops eng) h)]\<rparr>)"
  using assms by (auto simp: plain_def forward_activation_def activation_envelope_def sbind_def sget_def smod_def slift_def)

lemma run_plain:
  assumes "fst (ne_run_my_layers eng rid h c None (pn_orch n)) = Inr ((h', c'), None)"
  shows "run_my_layers eng rid h c None n =
    (Inr (h', None), n\<lparr>pn_orch := snd (ne_run_my_layers eng rid h c None (pn_orch n)), pn_kv_caches := dput rid c' (pn_kv_caches n)\<rparr>)"
  using assms by (auto simp: run_my_layers_def split: prod.split)

text \<open>The request state of node \<^verbatim>\<open>n'\<close> against that of \<^verbatim>\<open>n\<close>, with the events in between.\<close>

definition step_to :: "('b, 't, 'c, 'o) PNode \<Rightarrow> ('b, 't, 'c, 'o) PNode \<Rightarrow> HeadRequestState list \<Rightarrow> string \<Rightarrow> nat option \<Rightarrow> 'c option \<Rightarrow> out_event list \<Rightarrow> bool" where
  "step_to n n' sts rid hs c evs \<longleftrightarrow> pn_faults n' = [] \<and> pn_expert n' = pn_expert n \<and> pn_states n' = sts \<and> dget (pn_head_states n') rid = hs \<and>
     dget (pn_kv_caches n') rid = c \<and> pn_log n' = pn_log n @ evs \<and> (\<forall>r. r \<noteq> rid \<longrightarrow> dget (pn_kv_caches n') r = dget (pn_kv_caches n) r \<and> dget (pn_head_states n') r = dget (pn_head_states n) r)"

lemma begin_step:
  assumes "plain ex n" and "is_head n" and "\<not> is_tail n" and "unavailable_peer n = None"
    and "ne_embed eng prompt = Inr h" and run: "fst (ne_run_my_layers eng rid h (ne_make_cache eng) None (pn_orch n)) = Inr ((h', c'), None)"
    and d: "describe (ne_ops eng) h' = Inr d"
  shows "step_to n (serve_frame eng st (PBegin rid prompt mx, []) n)
    (pn_states n @ [\<lparr>hs_request_id = rid, hs_client_stream = st, hs_max_new_tokens = (if mx = 0 then 1 else mx), hs_generated = 0, hs_token_queue = [], hs_running = True\<rparr>])
    rid (Some (length (pn_states n))) (Some c') [ToPeer (PActivation rid (sp_end_layer (en_shard ex)) d [], to_bytes (ne_ops eng) h')]"
proof -
  let ?n1 = "n\<lparr>pn_kv_caches := dput rid (ne_make_cache eng) (pn_kv_caches n), pn_states := pn_states n @ [\<lparr>hs_request_id = rid, hs_client_stream = st,
    hs_max_new_tokens = (if mx = 0 then 1 else mx), hs_generated = 0, hs_token_queue = [], hs_running = False\<rparr>],
    pn_head_states := dput rid (length (pn_states n)) (pn_head_states n)\<rparr>"
  have p1: "plain ex ?n1" using assms(1) by (simp add: plain_def)
  have "run_my_layers eng rid h (ne_make_cache eng) None ?n1 = (Inr (h', None), ?n1\<lparr>pn_orch := snd (ne_run_my_layers eng rid h (ne_make_cache eng) None (pn_orch n)),
      pn_kv_caches := dput rid c' (pn_kv_caches ?n1)\<rparr>)" (is "_ = (_, ?n2)")
    using run_plain [of eng rid h "ne_make_cache eng" ?n1] run by simp
  moreover have "plain ex ?n2" "\<not> is_tail ?n2" using assms(1,3) by (simp_all add: plain_def is_tail_def)
  note fwd = forward_plain [OF this d, of rid None]
  ultimately show ?thesis using assms(1-4) embed_pass_plain [OF p1 assms(5)]
    by (simp add: step_to_def serve_frame_def dispatch_def handle_begin_def sbind_def sget_def smod_def scatch_def sret_def fwd set_state_def plain_def Let_def)
qed

lemma activation_pass:
  assumes "plain ex n" and "l = sp_start_layer (en_shard ex)" and "dget_default (pn_kv_caches n) rid (ne_make_cache eng) = c"
    and "from_bytes (ne_ops eng) bs (td_shape d0) (td_dtype d0) = Inr h" and run: "fst (ne_run_my_layers eng rid h c None (pn_orch n)) = Inr ((h', c'), None)"
  defines "n2 \<equiv> n\<lparr>pn_orch := snd (ne_run_my_layers eng rid h c None (pn_orch n)), pn_kv_caches := dput rid c' (dput rid c (pn_kv_caches n))\<rparr>"
  shows "dispatch eng (PActivation rid l d0 [], bs) inb n =
    (if is_tail n then send_sampled_token rid (ne_argmax_last eng (ne_finalize eng h')) 0 else forward_activation eng rid h' None) n2"
proof -
  let ?n1 = "pn_kv_caches_update (dput rid c) n"
  have "run_my_layers eng rid h c None ?n1 = (Inr (h', None), n2)"
    using run_plain [of eng rid h c ?n1] run by (simp add: n2_def)
  then show ?thesis using assms(1-4)
    by (simp add: dispatch_def handle_activation_def check_inbound_def plain_def sbind_def sget_def smod_def scatch_def sret_def slift_def swhen_def Let_def)
qed

lemma activation_step:
  assumes p: "plain ex n" and "l = sp_start_layer (en_shard ex)" and "\<not> is_tail n" and "dget_default (pn_kv_caches n) rid (ne_make_cache eng) = c"
    and "from_bytes (ne_ops eng) bs (td_shape d0) (td_dtype d0) = Inr h" and run: "fst (ne_run_my_layers eng rid h c None (pn_orch n)) = Inr ((h', c'), None)"
    and d: "describe (ne_ops eng) h' = Inr d"
  shows "step_to n (serve_frame eng inb (PActivation rid l d0 [], bs) n) (pn_states n) rid (dget (pn_head_states n) rid) (Some c')
    [ToPeer (PActivation rid (sp_end_layer (en_shard ex)) d [], to_bytes (ne_ops eng) h')]"
proof -
  let ?n2 = "n\<lparr>pn_orch := snd (ne_run_my_layers eng rid h c None (pn_orch n)), pn_kv_caches := dput rid c' (dput rid c (pn_kv_caches n))\<rparr>"
  have "plain ex ?n2" "\<not> is_tail ?n2" using p assms(3) by (simp_all add: plain_def is_tail_def)
  note fwd = forward_plain [OF this d, of rid None]
  show ?thesis using p assms(3) activation_pass [OF p assms(2,4,5) run, of inb] fwd
    by (simp add: step_to_def serve_frame_def plain_def)
qed

lemma activation_step_tail:
  assumes p: "plain ex n" and "l = sp_start_layer (en_shard ex)" and "is_tail n" and "dget_default (pn_kv_caches n) rid (ne_make_cache eng) = c"
    and "from_bytes (ne_ops eng) bs (td_shape d0) (td_dtype d0) = Inr h" and run: "fst (ne_run_my_layers eng rid h c None (pn_orch n)) = Inr ((h', c'), None)"
  shows "step_to n (serve_frame eng inb (PActivation rid l d0 [], bs) n) (pn_states n) rid (dget (pn_head_states n) rid) (Some c')
    [ToPeer (PSampledToken rid (ne_argmax_last eng (ne_finalize eng h')) 0 False, [])]"
  using p assms(3) activation_pass [OF p assms(2,4,5) run, of inb] by (simp add: step_to_def serve_frame_def plain_def send_sampled_token_def)

lemma token_step:
  assumes "plain ex n" and "is_head n" and "dget (pn_head_states n) rid = Some (length old)" and "pn_states n = old @ st # new"
  shows "step_to n (serve_frame eng inb (PSampledToken rid tok po fin, []) n) (old @ hs_token_queue_update (\<lambda>q. q @ [tok]) st # new) rid (Some (length old)) (dget (pn_kv_caches n) rid) []"
  using assms by (simp add: step_to_def serve_frame_def dispatch_def handle_sampled_token_def plain_def sbind_def sget_def set_state_def smod_def)

lemma end_step:
  assumes "plain ex n"
  shows "\<exists>evs. step_to n (serve_frame eng inb (PEnd rid, []) n) (pn_states n) rid None None ((if is_tail n then [] else [ToPeer (PEnd rid, [])]) @ evs) \<and> set evs \<subseteq> {CloseOut}"
  using assms
  by (cases "is_tail n"; cases "pn_out_open n") (auto simp: step_to_def serve_frame_def dispatch_def handle_end_def plain_def sbind_def sget_def smod_def swhen_def sret_def suppress_Inr is_tail_def)

text \<open>One turn of the loop of a request: it waits, or it is finished.\<close>

lemma set_state_at: "pn_states n = old @ st # new \<Longrightarrow> set_state (length old) f n = (Inr (), n\<lparr>pn_states := old @ f st # new\<rparr>)"
  by (cases n) (simp add: set_state_def smod_def)

lemma round_common:
  assumes p: "plain ex n" and st: "pn_states n = old @ st # new" and q: "hs_token_queue st = [tok]" and tok: "tok \<noteq> POISON_TOKEN"
  defines "st1 \<equiv> st\<lparr>hs_token_queue := [], hs_running := False, hs_generated := hs_generated st + 1\<rparr>"
  defines "fin \<equiv> hs_max_new_tokens st \<le> hs_generated st + 1"
  defines "n1 \<equiv> n\<lparr>pn_states := old @ st1 # new, pn_log := pn_log n @ [ToStream (hs_client_stream st) (PSampledToken (hs_request_id st) tok (hs_generated st) fin, [])]\<rparr>"
  shows "decode_round eng (length old) n = scatch
     (sbind (if fin then sret True
        else sbind (sget (\<lambda>n. dindex (pn_kv_caches n) (hs_request_id st))) (\<lambda>c. sbind (slift NPy c) (\<lambda>cache.
          sbind (embed_pass eng [tok]) (\<lambda>(h, chain). sbind (run_my_layers eng (hs_request_id st) h cache chain) (\<lambda>(h', chain').
          sbind (forward_activation eng (hs_request_id st) h' chain') (\<lambda>_. sret False))))))
       (\<lambda>finished. if finished then end_request (hs_request_id st) else set_state (length old) (hs_running_update (\<lambda>_. True))))
     (\<lambda>e. if caught_by_loop e then abort_request (hs_client_stream st) (hs_request_id st) else sthrow e) n1"
proof -
  have "hs_generated_update (\<lambda>g. g + 1) (hs_token_queue_update tl st\<lparr>hs_running := False\<rparr>) = st1" unfolding st1_def using q by (cases st) simp
  moreover have "hs_max_new_tokens st1 = hs_max_new_tokens st" "hs_generated st1 = hs_generated st + 1" "hs_client_stream st1 = hs_client_stream st"
    by (simp_all add: st1_def)
  ultimately show ?thesis using p st q tok
    by (simp add: decode_round_def decode_turn_def Let_def set_state_at sbind_def sget_def scatch_def send_sampled_token_to_def plain_def
      fin_def n1_def)
qed

lemma round_next:
  assumes p: "plain ex n" and "\<not> is_tail n" and st: "pn_states n = old @ st # new" "hs_request_id st = rid" "hs_client_stream st = cs" and q: "hs_token_queue st = [tok]"
    and tok: "tok \<noteq> POISON_TOKEN" and fin: "hs_generated st + 1 < hs_max_new_tokens st" and "dget (pn_kv_caches n) rid = Some c"
    and "ne_embed eng [tok] = Inr h" and run: "fst (ne_run_my_layers eng rid h c None (pn_orch n)) = Inr ((h', c'), None)"
    and d: "describe (ne_ops eng) h' = Inr d" and "hs_running st"
  shows "step_to n (snd (decode_round eng (length old) n)) (old @ st\<lparr>hs_token_queue := [], hs_generated := hs_generated st + 1\<rparr> # new) rid (dget (pn_head_states n) rid) (Some c')
    [ToStream cs (PSampledToken rid tok (hs_generated st) False, []), ToPeer (PActivation rid (sp_end_layer (en_shard ex)) d [], to_bytes (ne_ops eng) h')]"
proof -
  let ?st1 = "st\<lparr>hs_token_queue := [], hs_running := False, hs_generated := hs_generated st + 1\<rparr>"
  let ?n1 = "n\<lparr>pn_states := old @ ?st1 # new, pn_log := pn_log n @ [ToStream cs (PSampledToken rid tok (hs_generated st) False, [])]\<rparr>"
  let ?n2 = "?n1\<lparr>pn_orch := snd (ne_run_my_layers eng rid h c None (pn_orch n)), pn_kv_caches := dput rid c' (pn_kv_caches n)\<rparr>"
  have p1: "plain ex ?n1" and p2: "plain ex ?n2" "\<not> is_tail ?n2" using p assms(2) by (simp_all add: plain_def is_tail_def)
  have r: "run_my_layers eng rid h c None ?n1 = (Inr (h', None), ?n2)" using run_plain [of eng rid h c ?n1] run by simp
  note rd = round_common [OF p st(1) q tok, unfolded st(2,3), of eng]
  have nf: "(hs_max_new_tokens st \<le> hs_generated st + 1) = False" using fin by simp
  show ?thesis unfolding rd nf
    using p1 embed_pass_plain [OF p1 assms(10)] r forward_plain [OF p2 d, of rid None] assms(9,13) p
    by (simp add: scatch_def sbind_def sget_def slift_def sret_def dindex_def set_state_def smod_def step_to_def plain_def)
qed

lemma round_last:
  assumes p: "plain ex n" and st: "pn_states n = old @ st # new" "hs_request_id st = rid" "hs_client_stream st = cs" and q: "hs_token_queue st = [tok]"
    and tok: "tok \<noteq> POISON_TOKEN" and fin: "hs_max_new_tokens st \<le> hs_generated st + 1"
  shows "step_to n (snd (decode_round eng (length old) n)) (old @ st\<lparr>hs_token_queue := [], hs_running := False, hs_generated := hs_generated st + 1\<rparr> # new) rid None None
    [ToStream cs (PSampledToken rid tok (hs_generated st) True, []), ToPeer (PEnd rid, []), CloseOut]"
proof -
  note rd = round_common [OF p st(1) q tok, unfolded st(2,3), of eng]
  have f: "(hs_max_new_tokens st \<le> hs_generated st + 1) = True" using fin by simp
  show ?thesis unfolding rd f using p by (simp add: scatch_def sbind_def sret_def end_request_calm step_to_def plain_def)
qed

end
