(* ===== verification/Pipeline.thy ===== *)
theory Pipeline
  imports Ring_Steps
begin

text \<open>
  A request through the whole ring of nodes.  The nodes of a pipeline are connected in a ring of byte
  streams; a step delivers the oldest frame of one of them to the node it leads to, or lets the decode loop
  of a node take a token from its queue.  Whatever the order of the steps, the client receives, one by one,
  the tokens of a reference that runs the stages of the pipeline one after the other, and at the end no node
  touches_only anything of the request.  Provenance is off and no write fails.
\<close>

declare map_of_eq_Some_iff [simp del] Some_eq_map_of_iff [simp del]

section \<open>The reference\<close>

text \<open>A pipeline: the engine and the configuration of each node, what each stage computes, the request, and
  the tensors and caches its stages work on.\<close>

record ('b, 't, 'c, 'o) Ring =
  rg_engs :: "('b, 't, 'c, 'o) NodeEngine list"
  rg_experts :: "'b ExpertNode list"
  rg_stages :: "('t \<Rightarrow> 'c \<Rightarrow> 't \<times> 'c) list"
  rg_embed :: "int list \<Rightarrow> 't"
  rg_request_id :: string
  rg_prompt :: "int list"
  rg_max_new_tokens :: int
  rg_tensor :: "'t \<Rightarrow> bool"
  rg_cache :: "nat \<Rightarrow> 'c \<Rightarrow> bool"

abbreviation stage_count :: "('b, 't, 'c, 'o) Ring \<Rightarrow> nat" where
  "stage_count R \<equiv> length (rg_engs R)"

definition token_count :: "('b, 't, 'c, 'o) Ring \<Rightarrow> nat" where
  "token_count R = nat (if rg_max_new_tokens R = 0 then 1 else rg_max_new_tokens R)"

definition sample :: "('b, 't, 'c, 'o) Ring \<Rightarrow> 't \<Rightarrow> int" where
  "sample R h = ne_argmax_last (last (rg_engs R)) (ne_finalize (last (rg_engs R)) h)"

text \<open>The first \<^verbatim>\<open>i\<close> stages of a pass, each on its own cache.\<close>

primrec partial_pass :: "('t \<Rightarrow> 'c \<Rightarrow> 't \<times> 'c) list \<Rightarrow> 't \<times> 'c list \<Rightarrow> nat \<Rightarrow> 't \<times> 'c list" where
  "partial_pass stages hc 0 = hc"
| "partial_pass stages hc (Suc i) =
     (let (h, cs) = partial_pass stages hc i; (h', c') = (stages ! i) h (cs ! i) in (h', cs[i := c']))"

text \<open>The input tokens and the caches of pass \<^verbatim>\<open>t\<close>; pass 0 is the prefill.\<close>

primrec pass_in :: "('b, 't, 'c, 'o) Ring \<Rightarrow> nat \<Rightarrow> int list \<times> 'c list" where
  "pass_in R 0 = (rg_prompt R, map ne_make_cache (rg_engs R))"
| "pass_in R (Suc t) =
     (let (toks, cs) = pass_in R t; (h, cs') = partial_pass (rg_stages R) (rg_embed R toks, cs) (stage_count R) in ([sample R h], cs'))"

definition part :: "('b, 't, 'c, 'o) Ring \<Rightarrow> nat \<Rightarrow> nat \<Rightarrow> 't \<times> 'c list" where
  "part R t i = partial_pass (rg_stages R) (rg_embed R (fst (pass_in R t)), snd (pass_in R t)) i"

definition token_at :: "('b, 't, 'c, 'o) Ring \<Rightarrow> nat \<Rightarrow> int" where
  "token_at R t = sample R (fst (part R t (stage_count R)))"

definition reference_tokens :: "('b, 't, 'c, 'o) Ring \<Rightarrow> int list" where
  "reference_tokens R = map (token_at R) [0..<token_count R]"

lemma pass_in_Suc: "pass_in R (Suc t) = ([token_at R t], snd (part R t (stage_count R)))"
  by (simp add: token_at_def part_def case_prod_beta Let_def)

declare pass_in.simps(2) [simp del]

lemma part_0 [simp]: "part R t 0 = (rg_embed R (fst (pass_in R t)), snd (pass_in R t))"
  by (simp add: part_def)

lemma part_Suc: "part R t (Suc i) =
    (fst ((rg_stages R ! i) (fst (part R t i)) (snd (part R t i) ! i)), (snd (part R t i))[i := snd ((rg_stages R ! i) (fst (part R t i)) (snd (part R t i) ! i))])"
  by (simp add: part_def case_prod_beta Let_def)

section \<open>The ring\<close>

record ('b, 't, 'c, 'o) Sys =
  sy_nodes :: "('b, 't, 'c, 'o) PNode list"
  sy_links :: "wire_frame list list"
  sy_client :: "wire_frame list"

definition peer_frames :: "out_event list \<Rightarrow> wire_frame list" where
  "peer_frames evs = concat (map (\<lambda>ev. case ev of ToPeer f \<Rightarrow> [f] | _ \<Rightarrow> []) evs)"

definition stream_frames :: "nat \<Rightarrow> out_event list \<Rightarrow> wire_frame list" where
  "stream_frames st evs = concat (map (\<lambda>ev. case ev of ToStream st' f \<Rightarrow> if st' = st then [f] else [] | _ \<Rightarrow> []) evs)"

text \<open>Node \<^verbatim>\<open>j\<close> has become \<^verbatim>\<open>n'\<close>: what it wrote is on its outbound link and at the client.\<close>

definition absorb :: "nat \<Rightarrow> ('b, 't, 'c, 'o) PNode \<Rightarrow> ('b, 't, 'c, 'o) Sys \<Rightarrow> ('b, 't, 'c, 'o) Sys" where
  "absorb j n' s =
     (let evs = drop (length (pn_log (sy_nodes s ! j))) (pn_log n') in
      s\<lparr>sy_nodes := (sy_nodes s)[j := n'], sy_links := (sy_links s)[j := sy_links s ! j @ peer_frames evs],
        sy_client := sy_client s @ stream_frames 0 evs\<rparr>)"

inductive ring_step :: "('b, 't, 'c, 'o) Ring \<Rightarrow> ('b, 't, 'c, 'o) Sys \<Rightarrow> ('b, 't, 'c, 'o) Sys \<Rightarrow> bool" for R where
  deliver: "i < length (sy_nodes s) \<Longrightarrow> sy_links s ! i = f # fs \<Longrightarrow> j = Suc i mod length (sy_nodes s) \<Longrightarrow>
    ring_step R s (absorb j (serve_frame (rg_engs R ! j) 1 f (sy_nodes s ! j)) (s\<lparr>sy_links := (sy_links s)[i := fs]\<rparr>))"
| wake: "j < length (sy_nodes s) \<Longrightarrow> decode_ready (sy_nodes s ! j) sid \<Longrightarrow>
    ring_step R s (absorb j (snd (decode_round (rg_engs R ! j) sid (sy_nodes s ! j))) s)"

definition submit_request :: "('b, 't, 'c, 'o) Ring \<Rightarrow> ('b, 't, 'c, 'o) PNode list \<Rightarrow> ('b, 't, 'c, 'o) Sys" where
  "submit_request R nodes =
     absorb 0 (serve_frame (rg_engs R ! 0) 0 (PBegin (rg_request_id R) (rg_prompt R) (rg_max_new_tokens R), []) (nodes ! 0))
       \<lparr>sy_nodes = nodes, sy_links = replicate (length nodes) [], sy_client = []\<rparr>"

section \<open>Assumptions\<close>

definition ring_ok :: "('b, 't, 'c, 'o) Ring \<Rightarrow> bool" where
  "ring_ok R \<longleftrightarrow> (let k = stage_count R; rid = rg_request_id R in
     2 \<le> k \<and> length (rg_experts R) = k \<and> length (rg_stages R) = k \<and> 0 \<le> rg_max_new_tokens R \<and>
     (\<forall>i < k. \<not> en_provenance_enabled (rg_experts R ! i) \<and>
        (sp_start_layer (en_shard (rg_experts R ! i)) = 0 \<longleftrightarrow> i = 0) \<and>
        (sp_end_layer (en_shard (rg_experts R ! i)) = en_total_layers (rg_experts R ! i) \<longleftrightarrow> Suc i = k) \<and>
        rg_cache R i (ne_make_cache (rg_engs R ! i)) \<and>
        (\<forall>h c orch. rg_tensor R h \<and> rg_cache R i c \<longrightarrow>
           fst (ne_run_my_layers (rg_engs R ! i) rid h c None orch) = Inr ((rg_stages R ! i) h c, None) \<and>
           rg_tensor R (fst ((rg_stages R ! i) h c)) \<and> rg_cache R i (snd ((rg_stages R ! i) h c)))) \<and>
     (\<forall>i. Suc i < k \<longrightarrow> sp_start_layer (en_shard (rg_experts R ! Suc i)) = sp_end_layer (en_shard (rg_experts R ! i)) \<and>
        (\<forall>h. rg_tensor R h \<longrightarrow> (\<exists>d. describe (ne_ops (rg_engs R ! i)) h = Inr d \<and>
           from_bytes (ne_ops (rg_engs R ! Suc i)) (to_bytes (ne_ops (rg_engs R ! i)) h) (td_shape d) (td_dtype d) = Inr h))) \<and>
     (\<forall>toks. toks = rg_prompt R \<or> (\<exists>t \<ge> 0. toks = [t]) \<longrightarrow> ne_embed (rg_engs R ! 0) toks = Inr (rg_embed R toks) \<and> rg_tensor R (rg_embed R toks)) \<and>
     (\<forall>h. rg_tensor R h \<longrightarrow> 0 \<le> sample R h))"

text \<open>Nodes that know nothing of the request and whose loops have ended: a new cluster, or one that has served
  other requests.\<close>

definition idle :: "('b, 't, 'c, 'o) PNode \<Rightarrow> bool" where
  "idle n \<longleftrightarrow> (\<forall>st \<in> set (pn_states n). \<not> hs_running st)"

definition fresh_nodes :: "('b, 't, 'c, 'o) Ring \<Rightarrow> ('b, 't, 'c, 'o) PNode list \<Rightarrow> bool" where
  "fresh_nodes R nodes \<longleftrightarrow> length nodes = stage_count R \<and> unavailable_peer (nodes ! 0) = None \<and>
     (\<forall>j < stage_count R. pn_faults (nodes ! j) = [] \<and> pn_expert (nodes ! j) = rg_experts R ! j \<and> idle (nodes ! j) \<and>
        dget (pn_kv_caches (nodes ! j)) (rg_request_id R) = None)"

section \<open>Phases of a request\<close>

text \<open>\<^verbatim>\<open>Act t i\<close>: the activation of pass \<^verbatim>\<open>t\<close> is on its way from stage \<^verbatim>\<open>i\<close>;
  \<^verbatim>\<open>Tok t\<close>: its token is on its way to the head; \<^verbatim>\<open>Que t\<close>: it is in the queue;
  \<^verbatim>\<open>Fin i\<close>: the \<^verbatim>\<open>EndRequest\<close> is on its way from stage \<^verbatim>\<open>i\<close>.\<close>

datatype phase = Act nat nat | Tok nat | Que nat | Fin nat | Done

fun phase_ok :: "('b, 't, 'c, 'o) Ring \<Rightarrow> phase \<Rightarrow> bool" where
  "phase_ok R (Act t i) \<longleftrightarrow> t < token_count R \<and> Suc i < stage_count R"
| "phase_ok R (Tok t) \<longleftrightarrow> t < token_count R"
| "phase_ok R (Que t) \<longleftrightarrow> t < token_count R"
| "phase_ok R (Fin i) \<longleftrightarrow> Suc i < stage_count R"
| "phase_ok R Done \<longleftrightarrow> True"

fun next_phase :: "('b, 't, 'c, 'o) Ring \<Rightarrow> phase \<Rightarrow> phase" where
  "next_phase R (Act t i) = (if Suc (Suc i) < stage_count R then Act t (Suc i) else Tok t)"
| "next_phase R (Tok t) = Que t"
| "next_phase R (Que t) = (if Suc t < token_count R then Act (Suc t) 0 else Fin 0)"
| "next_phase R (Fin i) = (if Suc (Suc i) < stage_count R then Fin (Suc i) else Done)"
| "next_phase R Done = Done"

fun rank :: "('b, 't, 'c, 'o) Ring \<Rightarrow> phase \<Rightarrow> nat" where
  "rank R (Act t i) = t * (stage_count R + 1) + i"
| "rank R (Tok t) = t * (stage_count R + 1) + (stage_count R - 1)"
| "rank R (Que t) = t * (stage_count R + 1) + stage_count R"
| "rank R (Fin i) = token_count R * (stage_count R + 1) + i"
| "rank R Done = token_count R * (stage_count R + 1) + (stage_count R - 1)"

fun cache_of :: "('b, 't, 'c, 'o) Ring \<Rightarrow> phase \<Rightarrow> nat \<Rightarrow> 'c option" where
  "cache_of R (Act t i) j = (if i < j \<and> t = 0 then None else Some (snd (part R t (Suc i)) ! j))"
| "cache_of R (Tok t) j = Some (snd (part R t (stage_count R)) ! j)"
| "cache_of R (Que t) j = Some (snd (part R t (stage_count R)) ! j)"
| "cache_of R (Fin i) j = (if j \<le> i then None else Some (snd (part R (token_count R - 1) (stage_count R)) ! j))"
| "cache_of R Done j = None"

definition act_frame :: "('b, 't, 'c, 'o) Ring \<Rightarrow> nat \<Rightarrow> 't \<Rightarrow> wire_frame" where
  "act_frame R i h = (PActivation (rg_request_id R) (sp_end_layer (en_shard (rg_experts R ! i))) (projr (describe (ne_ops (rg_engs R ! i)) h)) [],
     to_bytes (ne_ops (rg_engs R ! i)) h)"

text \<open>The link on which the request is on its way, the frame on it, and the node that acts next.\<close>

fun source :: "('b, 't, 'c, 'o) Ring \<Rightarrow> phase \<Rightarrow> nat option" where
  "source R (Act t i) = Some i"
| "source R (Tok t) = Some (stage_count R - 1)"
| "source R (Que t) = None"
| "source R (Fin i) = Some i"
| "source R Done = None"

fun message :: "('b, 't, 'c, 'o) Ring \<Rightarrow> phase \<Rightarrow> wire_frame" where
  "message R (Act t i) = act_frame R i (fst (part R t (Suc i)))"
| "message R (Tok t) = (PSampledToken (rg_request_id R) (token_at R t) 0 False, [])"
| "message R _ = (PEnd (rg_request_id R), [])"

fun actor :: "phase \<Rightarrow> nat" where
  "actor (Act t i) = Suc i"
| "actor (Fin i) = Suc i"
| "actor _ = 0"

definition link_of :: "('b, 't, 'c, 'o) Ring \<Rightarrow> phase \<Rightarrow> nat \<Rightarrow> wire_frame list" where
  "link_of R ph l = (if source R ph = Some l then [message R ph] else [])"

fun sent_in :: "('b, 't, 'c, 'o) Ring \<Rightarrow> phase \<Rightarrow> nat" where
  "sent_in R (Act t i) = t"
| "sent_in R (Tok t) = t"
| "sent_in R (Que t) = t"
| "sent_in R (Fin i) = token_count R"
| "sent_in R Done = token_count R"

definition client_frames :: "('b, 't, 'c, 'o) Ring \<Rightarrow> nat \<Rightarrow> wire_frame list" where
  "client_frames R j = map (\<lambda>t. (PSampledToken (rg_request_id R) (token_at R t) (int t) (Suc t = token_count R), [])) [0..<j]"

fun head_inv :: "('b, 't, 'c, 'o) Ring \<Rightarrow> nat \<Rightarrow> phase \<Rightarrow> HeadRequestState \<Rightarrow> nat option \<Rightarrow> bool" where
  "head_inv R sid (Act t i) st hs \<longleftrightarrow> hs_generated st = int t \<and> hs_token_queue st = [] \<and> hs_running st \<and> hs = Some sid"
| "head_inv R sid (Tok t) st hs \<longleftrightarrow> hs_generated st = int t \<and> hs_token_queue st = [] \<and> hs_running st \<and> hs = Some sid"
| "head_inv R sid (Que t) st hs \<longleftrightarrow> hs_generated st = int t \<and> hs_token_queue st = [token_at R t] \<and> hs_running st \<and> hs = Some sid"
| "head_inv R sid (Fin i) st hs \<longleftrightarrow> \<not> hs_running st \<and> hs = None"
| "head_inv R sid Done st hs \<longleftrightarrow> \<not> hs_running st \<and> hs = None"

text \<open>What a node holds of the request: its cache, and at the head its state, the \<^verbatim>\<open>sid\<close>-th, for client
  stream \<^verbatim>\<open>cs\<close>.\<close>

definition holds :: "('b, 't, 'c, 'o) Ring \<Rightarrow> nat \<Rightarrow> nat \<Rightarrow> phase \<Rightarrow> nat \<Rightarrow> ('b, 't, 'c, 'o) PNode \<Rightarrow> bool" where
  "holds R cs sid ph j n \<longleftrightarrow> dget (pn_kv_caches n) (rg_request_id R) = cache_of R ph j \<and>
     (j = 0 \<longrightarrow> (\<exists>old st new. pn_states n = old @ st # new \<and> length old = sid \<and> hs_request_id st = rg_request_id R \<and> hs_client_stream st = cs \<and>
        hs_max_new_tokens st = int (token_count R) \<and> head_inv R sid ph st (dget (pn_head_states n) (rg_request_id R))))"

text \<open>\<^verbatim>\<open>n'\<close> differs from \<^verbatim>\<open>n\<close> only in what belongs to the request.\<close>

definition touches_only :: "string \<Rightarrow> nat \<Rightarrow> nat \<Rightarrow> out_event list \<Rightarrow> ('b, 't, 'c, 'o) PNode \<Rightarrow> ('b, 't, 'c, 'o) PNode \<Rightarrow> bool" where
  "touches_only rid sid j evs n n' \<longleftrightarrow> pn_faults n' = [] \<and> pn_expert n' = pn_expert n \<and> pn_log n' = pn_log n @ evs \<and>
     (\<forall>r. r \<noteq> rid \<longrightarrow> dget (pn_kv_caches n') r = dget (pn_kv_caches n) r \<and> dget (pn_head_states n') r = dget (pn_head_states n) r) \<and>
     (if j = 0 then \<exists>st. pn_states n' = (pn_states n)[sid := st] else pn_states n' = pn_states n)"

text \<open>What the turn writes: the next frame of the request on the link of its node, and what the client is due.\<close>

definition emits :: "('b, 't, 'c, 'o) Ring \<Rightarrow> nat \<Rightarrow> phase \<Rightarrow> out_event list \<Rightarrow> bool" where
  "emits R cs ph evs \<longleftrightarrow> peer_frames evs = link_of R (next_phase R ph) (actor ph) \<and>
     client_frames R (sent_in R (next_phase R ph)) = client_frames R (sent_in R ph) @ stream_frames cs evs \<and>
     (\<forall>cs'. cs' \<noteq> cs \<longrightarrow> stream_frames cs' evs = [])"

text \<open>The turn of the request: the frame on its way is served, or the loop of the head takes the token.\<close>

definition turn :: "('b, 't, 'c, 'o) Ring \<Rightarrow> nat \<Rightarrow> nat \<Rightarrow> phase \<Rightarrow> ('b, 't, 'c, 'o) PNode \<Rightarrow> ('b, 't, 'c, 'o) PNode" where
  "turn R inb sid ph n =
     (case source R ph of None \<Rightarrow> snd (decode_round (rg_engs R ! 0) sid n) | Some _ \<Rightarrow> serve_frame (rg_engs R ! actor ph) inb (message R ph) n)"

text \<open>\<^verbatim>\<open>N\<close> are the nodes when the request arrives: a node keeps its earlier states and the caches of
  other requests.\<close>

definition node_inv :: "('b, 't, 'c, 'o) Ring \<Rightarrow> ('b, 't, 'c, 'o) PNode list \<Rightarrow> phase \<Rightarrow> nat \<Rightarrow> ('b, 't, 'c, 'o) PNode \<Rightarrow> bool" where
  "node_inv R N ph j n \<longleftrightarrow> plain (rg_experts R ! j) n \<and> idle (N ! j) \<and> holds R 0 (length (pn_states (N ! 0))) ph j n \<and>
     (\<forall>r. r \<noteq> rg_request_id R \<longrightarrow> dget (pn_kv_caches n) r = dget (pn_kv_caches (N ! j)) r) \<and>
     (if j = 0 then \<exists>st. pn_states n = pn_states (N ! 0) @ [st] else pn_states n = pn_states (N ! j))"

definition sys_inv :: "('b, 't, 'c, 'o) Ring \<Rightarrow> ('b, 't, 'c, 'o) PNode list \<Rightarrow> phase \<Rightarrow> ('b, 't, 'c, 'o) Sys \<Rightarrow> bool" where
  "sys_inv R N ph s \<longleftrightarrow> length (sy_nodes s) = stage_count R \<and> (\<forall>j < stage_count R. node_inv R N ph j (sy_nodes s ! j)) \<and>
     length (sy_links s) = stage_count R \<and> (\<forall>l < stage_count R. sy_links s ! l = link_of R ph l) \<and> sy_client s = client_frames R (sent_in R ph)"

section \<open>Consequences of the assumptions\<close>

lemma ring_sizes:
  "ring_ok R \<Longrightarrow> 2 \<le> stage_count R \<and> length (rg_stages R) = stage_count R \<and> 0 < token_count R \<and> 0 < stage_count R"
  by (auto simp: ring_ok_def Let_def token_count_def)

lemma ring_stage:
  assumes "ring_ok R" and "i < stage_count R"
  shows "\<not> en_provenance_enabled (rg_experts R ! i)" "sp_start_layer (en_shard (rg_experts R ! i)) = 0 \<longleftrightarrow> i = 0"
    "sp_end_layer (en_shard (rg_experts R ! i)) = en_total_layers (rg_experts R ! i) \<longleftrightarrow> Suc i = stage_count R"
    "rg_cache R i (ne_make_cache (rg_engs R ! i))"
  using assms by (simp_all add: ring_ok_def Let_def)

lemma ring_run:
  assumes "ring_ok R" and "i < stage_count R" and "rg_tensor R h" and "rg_cache R i c"
  shows "fst (ne_run_my_layers (rg_engs R ! i) (rg_request_id R) h c None orch) = Inr ((rg_stages R ! i) h c, None)"
    "rg_tensor R (fst ((rg_stages R ! i) h c))" "rg_cache R i (snd ((rg_stages R ! i) h c))"
  using assms by (simp_all add: ring_ok_def Let_def)

lemma ring_wire:
  assumes "ring_ok R" and "Suc i < stage_count R" and "rg_tensor R h"
  shows "sp_start_layer (en_shard (rg_experts R ! Suc i)) = sp_end_layer (en_shard (rg_experts R ! i))"
    "\<exists>d. describe (ne_ops (rg_engs R ! i)) h = Inr d \<and>
       from_bytes (ne_ops (rg_engs R ! Suc i)) (to_bytes (ne_ops (rg_engs R ! i)) h) (td_shape d) (td_dtype d) = Inr h"
  using assms by (simp_all add: ring_ok_def Let_def)

lemma ring_embed:
  assumes "ring_ok R" and "toks = rg_prompt R \<or> (\<exists>t \<ge> 0. toks = [t])"
  shows "ne_embed (rg_engs R ! 0) toks = Inr (rg_embed R toks)" "rg_tensor R (rg_embed R toks)"
proof -
  from assms(1) have "\<forall>toks. toks = rg_prompt R \<or> (\<exists>t \<ge> 0. toks = [t]) \<longrightarrow> ne_embed (rg_engs R ! 0) toks = Inr (rg_embed R toks) \<and> rg_tensor R (rg_embed R toks)"
    unfolding ring_ok_def Let_def by blast
  with assms(2) show "ne_embed (rg_engs R ! 0) toks = Inr (rg_embed R toks)" "rg_tensor R (rg_embed R toks)" by blast+
qed

lemma ring_sample: "ring_ok R \<Longrightarrow> rg_tensor R h \<Longrightarrow> 0 \<le> sample R h"
  by (simp add: ring_ok_def Let_def)

lemma part_good:
  assumes R: "ring_ok R"
  shows "i \<le> stage_count R \<Longrightarrow> rg_tensor R (fst (part R t i)) \<and> length (snd (part R t i)) = stage_count R \<and>
    (\<forall>j < stage_count R. rg_cache R j (snd (part R t i) ! j)) \<and> (fst (pass_in R t) = rg_prompt R \<or> (\<exists>x \<ge> 0. fst (pass_in R t) = [x]))"
proof (induction t arbitrary: i)
  case 0
  from this show ?case
  proof (induction i)
    case 0
    show ?case using ring_embed [OF R] ring_stage(4) [OF R] by simp
  next
    case (Suc i)
    with ring_run [OF R] show ?case by (auto simp: part_Suc nth_list_update)
  qed
next
  case (Suc t)
  have full: "rg_tensor R (fst (part R t (stage_count R)))" "length (snd (part R t (stage_count R))) = stage_count R"
    "\<forall>j < stage_count R. rg_cache R j (snd (part R t (stage_count R)) ! j)" using Suc.IH [of "stage_count R"] by auto
  then have "0 \<le> token_at R t" using ring_sample [OF R] by (simp add: token_at_def)
  with Suc.prems show ?case
  proof (induction i)
    case 0
    with full ring_embed [OF R] show ?case by (auto simp: pass_in_Suc)
  next
    case (Suc i)
    with ring_run [OF R] show ?case by (auto simp: part_Suc nth_list_update)
  qed
qed

lemma part_tensor: "ring_ok R \<Longrightarrow> i \<le> stage_count R \<Longrightarrow> rg_tensor R (fst (part R t i))"
  and part_length: "ring_ok R \<Longrightarrow> i \<le> stage_count R \<Longrightarrow> length (snd (part R t i)) = stage_count R"
  and part_cache: "ring_ok R \<Longrightarrow> i \<le> stage_count R \<Longrightarrow> j < stage_count R \<Longrightarrow> rg_cache R j (snd (part R t i) ! j)"
  and pass_tokens: "ring_ok R \<Longrightarrow> fst (pass_in R t) = rg_prompt R \<or> (\<exists>x \<ge> 0. fst (pass_in R t) = [x])"
  using part_good by blast+

lemma token_nonneg: "ring_ok R \<Longrightarrow> 0 \<le> token_at R t"
  by (simp add: token_at_def ring_sample part_tensor)

lemma part_cache_other: "j \<noteq> i \<Longrightarrow> snd (part R t (Suc i)) ! j = snd (part R t i) ! j"
  by (simp add: part_Suc)

lemma part_cache_untouched: "i \<le> j \<Longrightarrow> snd (part R t i) ! j = snd (pass_in R t) ! j"
  by (induction i) (simp_all add: part_cache_other)

lemma act_frame_wire:
  assumes "ring_ok R" and "Suc i < stage_count R" and "rg_tensor R h"
  obtains d where "describe (ne_ops (rg_engs R ! i)) h = Inr d"
    and "act_frame R i h = (PActivation (rg_request_id R) (sp_start_layer (en_shard (rg_experts R ! Suc i))) d [], to_bytes (ne_ops (rg_engs R ! i)) h)"
    and "from_bytes (ne_ops (rg_engs R ! Suc i)) (to_bytes (ne_ops (rg_engs R ! i)) h) (td_shape d) (td_dtype d) = Inr h"
  using ring_wire [OF assms] that by (auto simp: act_frame_def)

lemma rank_next:
  assumes "ring_ok R" and "phase_ok R ph" and "ph \<noteq> Done"
  shows "phase_ok R (next_phase R ph) \<and> rank R (next_phase R ph) = Suc (rank R ph)"
proof (cases ph)
  case (Que t)
  show ?thesis
  proof (cases "Suc t < token_count R")
    case False
    with Que assms(2) have "token_count R = Suc t" by simp
    with Que ring_sizes [OF assms(1)] show ?thesis by simp
  qed (use Que ring_sizes [OF assms(1)] in simp)
qed (use assms ring_sizes [OF assms(1)] in auto)

section \<open>The turn of a request\<close>

lemma node_roles:
  assumes "ring_ok R" and "j < stage_count R" and "plain (rg_experts R ! j) n"
  shows "is_head n \<longleftrightarrow> j = 0" "is_tail n \<longleftrightarrow> Suc j = stage_count R"
  using ring_stage [OF assms(1,2)] assms(3) by (auto simp: is_head_def is_tail_def plain_def)

lemma peer_frames_simps [simp]:
  "peer_frames [] = []" "peer_frames (ToPeer f # evs) = f # peer_frames evs" "peer_frames (ToStream st f # evs) = peer_frames evs"
  "peer_frames (CloseOut # evs) = peer_frames evs"
  by (simp_all add: peer_frames_def)

lemma stream_frames_simps [simp]:
  "stream_frames st [] = []" "stream_frames st (ToPeer f # evs) = stream_frames st evs" "stream_frames st (CloseOut # evs) = stream_frames st evs"
  "stream_frames st (ToStream st' f # evs) = (if st' = st then f # stream_frames st evs else stream_frames st evs)"
  by (simp_all add: stream_frames_def)

lemma client_frames_Suc:
  "client_frames R (Suc t) = client_frames R t @ [(PSampledToken (rg_request_id R) (token_at R t) (int t) (Suc t = token_count R), [])]"
  by (simp add: client_frames_def)

lemma phase_nodes:
  assumes "ring_ok R" and "phase_ok R ph"
  shows "actor ph < stage_count R" "source R ph = Some l \<Longrightarrow> l < stage_count R \<and> actor ph = Suc l mod stage_count R"
    "source R ph = None \<Longrightarrow> ph \<noteq> Done \<Longrightarrow> \<exists>t. ph = Que t"
  using assms ring_sizes [OF assms(1)] by (cases ph; auto)+

lemma next_source: "l \<noteq> actor ph \<Longrightarrow> phase_ok R ph \<Longrightarrow> ph \<noteq> Done \<Longrightarrow> link_of R (next_phase R ph) l = []"
  by (cases ph) (auto simp: link_of_def)

lemma next_cache:
  assumes "phase_ok R ph" and "l < stage_count R" and "l \<noteq> actor ph"
  shows "cache_of R (next_phase R ph) l = cache_of R ph l"
proof (cases ph)
  case (Act t i)
  show ?thesis
  proof (cases "Suc (Suc i) < stage_count R")
    case False
    with Act assms(1) have "stage_count R = Suc (Suc i)" by simp
    with Act assms show ?thesis by (auto simp: part_cache_other less_Suc_eq)
  qed (use Act assms in \<open>auto simp: part_cache_other less_Suc_eq\<close>)
next
  case (Que t)
  have "token_count R - 1 = t" if "\<not> Suc t < token_count R" using that assms(1) Que by simp
  then show ?thesis using assms Que part_cache_other [of l 0 R "Suc t"] by (auto simp: pass_in_Suc)
qed (use assms in auto)

lemma holds_next:
  assumes "phase_ok R ph" and "ph \<noteq> Done" and "l < stage_count R" "l \<noteq> actor ph" and "holds R cs sid ph l n"
  shows "holds R cs sid (next_phase R ph) l n"
  using assms(2,4,5) next_cache [OF assms(1,3,4)] by (cases ph) (auto simp: holds_def)

text \<open>A step in the sense of \<^verbatim>\<open>Ring_Steps\<close> that leaves what the next phase asks for is such a turn.\<close>

lemma turn_step:
  assumes step: "step_to n n' sts (rg_request_id R) hs c evs" and c: "c = cache_of R (next_phase R ph) j"
    and sts: "if j = 0 then pn_states n = old @ st # new \<and> length old = sid \<and> sts = old @ st' # new \<and> hs_request_id st' = rg_request_id R \<and>
        hs_client_stream st' = cs \<and> hs_max_new_tokens st' = int (token_count R) \<and> head_inv R sid (next_phase R ph) st' hs
      else sts = pn_states n"
  shows "touches_only (rg_request_id R) sid j evs n n' \<and> holds R cs sid (next_phase R ph) j n'"
proof (cases "j = 0")
  case True
  with sts have "(pn_states n)[sid := st'] = sts" by auto
  moreover from True sts have "holds R cs sid (next_phase R ph) j n'" unfolding holds_def using step c by (auto simp: step_to_def)
  ultimately show ?thesis using step True by (auto simp: touches_only_def step_to_def)
next
  case False
  then show ?thesis using step c sts by (auto simp: touches_only_def holds_def step_to_def)
qed

lemma head_state:
  assumes "holds R cs sid ph 0 n"
  obtains old st new where "pn_states n = old @ st # new" "length old = sid" "hs_request_id st = rg_request_id R" "hs_client_stream st = cs"
    "hs_max_new_tokens st = int (token_count R)" "head_inv R sid ph st (dget (pn_head_states n) (rg_request_id R))"
  using assms by (auto simp: holds_def)

text \<open>The cache a stage works on in pass \<^verbatim>\<open>t\<close>, and what it leaves.\<close>

lemma stage_cache:
  assumes "holds R cs sid (Act t i) (Suc i) n" and "Suc i < stage_count R"
  shows "dget_default (pn_kv_caches n) (rg_request_id R) (ne_make_cache (rg_engs R ! Suc i)) = snd (part R t (Suc i)) ! Suc i"
  using assms by (cases t) (auto simp: holds_def dget_default_def part_cache_untouched)

lemma act_turn:
  assumes R: "ring_ok R" and ok: "phase_ok R (Act t i)" and pl: "plain (rg_experts R ! Suc i) n" and h: "holds R cs sid (Act t i) (Suc i) n"
  shows "\<exists>evs. touches_only (rg_request_id R) sid (Suc i) evs n (turn R inb sid (Act t i) n) \<and>
    holds R cs sid (next_phase R (Act t i)) (Suc i) (turn R inb sid (Act t i) n) \<and> emits R cs (Act t i) evs"
proof -
  let ?j = "Suc i" and ?h = "fst (part R t (Suc i))" and ?c = "snd (part R t (Suc i)) ! Suc i"
  let ?r = "(rg_stages R ! ?j) ?h ?c"
  have j: "?j < stage_count R" using ok by auto
  note roles = node_roles [OF R j pl]
  have g: "rg_tensor R ?h" "rg_cache R ?j ?c" using part_tensor [OF R] part_cache [OF R] j by auto
  note run = ring_run [OF R j g]
  have nx: "part R t (Suc ?j) = (fst ?r, (snd (part R t ?j))[?j := snd ?r])" by (simp add: part_Suc)
  have nc: "snd (part R t (Suc ?j)) ! ?j = snd ?r" using nx part_length [OF R, of ?j] j by simp
  obtain d where d: "act_frame R i ?h = (PActivation (rg_request_id R) (sp_start_layer (en_shard (rg_experts R ! ?j))) d [], to_bytes (ne_ops (rg_engs R ! i)) ?h)"
    "from_bytes (ne_ops (rg_engs R ! ?j)) (to_bytes (ne_ops (rg_engs R ! i)) ?h) (td_shape d) (td_dtype d) = Inr ?h"
    using act_frame_wire [OF R j g(1)] by metis
  have run': "fst (ne_run_my_layers (rg_engs R ! ?j) (rg_request_id R) ?h ?c None (pn_orch n)) = Inr ((fst ?r, snd ?r), None)" using run(1) by simp
  note cache = stage_cache [OF h j]
  have trn: "turn R inb sid (Act t i) n = serve_frame (rg_engs R ! ?j) inb (act_frame R i ?h) n" by (simp add: turn_def)
  show ?thesis
  proof (cases "Suc ?j < stage_count R")
    case True
    then have nt: "\<not> is_tail n" using roles by simp
    obtain d' where d': "describe (ne_ops (rg_engs R ! ?j)) (fst ?r) = Inr d'"
      "act_frame R ?j (fst ?r) = (PActivation (rg_request_id R) (sp_start_layer (en_shard (rg_experts R ! Suc ?j))) d' [], to_bytes (ne_ops (rg_engs R ! ?j)) (fst ?r))"
      using act_frame_wire [OF R True run(2)] by metis
    note step = activation_step [OF pl refl nt cache d(2) run' d'(1), of inb, folded d(1)]
    have fr: "(PActivation (rg_request_id R) (sp_end_layer (en_shard (rg_experts R ! ?j))) d' [], to_bytes (ne_ops (rg_engs R ! ?j)) (fst ?r)) = act_frame R ?j (fst (part R t (Suc ?j)))"
      using ring_wire(1) [OF R True run(2)] d'(2) nx by simp
    show ?thesis unfolding trn using turn_step [OF step, of "Act t i" ?j] True nc fr
      by (intro exI [of _ "[ToPeer (act_frame R ?j (fst (part R t (Suc ?j))))]"]) (simp add: emits_def link_of_def)
  next
    case False
    with j have k: "stage_count R = Suc ?j" by simp
    then have tl: "is_tail n" using roles by simp
    have tok: "ne_argmax_last (rg_engs R ! ?j) (ne_finalize (rg_engs R ! ?j) (fst ?r)) = token_at R t"
      using k nx last_conv_nth [of "rg_engs R"] by (cases "rg_engs R = []") (simp_all add: token_at_def sample_def)
    note step = activation_step_tail [OF pl refl tl cache d(2) run', of inb, folded d(1), unfolded tok]
    show ?thesis unfolding trn using turn_step [OF step, of "Act t i" ?j] k nc
      by (intro exI [of _ "[ToPeer (PSampledToken (rg_request_id R) (token_at R t) 0 False, [])]"]) (simp add: emits_def link_of_def)
  qed
qed

lemma tok_turn:
  assumes R: "ring_ok R" and pl: "plain (rg_experts R ! 0) n" and h: "holds R cs sid (Tok t) 0 n"
  shows "\<exists>evs. touches_only (rg_request_id R) sid 0 evs n (turn R inb sid (Tok t) n) \<and> holds R cs sid (Que t) 0 (turn R inb sid (Tok t) n) \<and> emits R cs (Tok t) evs"
proof -
  have hd: "is_head n" using node_roles [OF R _ pl] ring_sizes [OF R] by simp
  from head_state [OF h] obtain old st new where st: "pn_states n = old @ st # new" "length old = sid" "hs_request_id st = rg_request_id R" "hs_client_stream st = cs"
    "hs_max_new_tokens st = int (token_count R)" "head_inv R sid (Tok t) st (dget (pn_head_states n) (rg_request_id R))" by blast
  then have hs: "dget (pn_head_states n) (rg_request_id R) = Some (length old)" by simp
  note step = token_step [OF pl hd hs st(1), of "rg_engs R ! 0" inb "token_at R t" 0 False]
  have c: "dget (pn_kv_caches n) (rg_request_id R) = cache_of R (next_phase R (Tok t)) 0" using h by (simp add: holds_def)
  from turn_step [OF step c, of old st new sid _ cs] st have "touches_only (rg_request_id R) sid 0 [] n (turn R inb sid (Tok t) n) \<and> holds R cs sid (Que t) 0 (turn R inb sid (Tok t) n)"
    by (simp add: turn_def)
  then show ?thesis by (intro exI [of _ "[]"]) (simp add: emits_def link_of_def)
qed

lemma fin_turn:
  assumes R: "ring_ok R" and ok: "phase_ok R (Fin i)" and pl: "plain (rg_experts R ! Suc i) n"
  shows "\<exists>evs. touches_only (rg_request_id R) sid (Suc i) evs n (turn R inb sid (Fin i) n) \<and>
    holds R cs sid (next_phase R (Fin i)) (Suc i) (turn R inb sid (Fin i) n) \<and> emits R cs (Fin i) evs"
proof -
  have j: "Suc i < stage_count R" using ok by simp
  note roles = node_roles [OF R j pl]
  let ?n' = "serve_frame (rg_engs R ! Suc i) inb (PEnd (rg_request_id R), []) n"
  obtain evs where step: "step_to n ?n' (pn_states n) (rg_request_id R) None None ((if is_tail n then [] else [ToPeer (PEnd (rg_request_id R), [])]) @ evs)"
    and evs: "set evs \<subseteq> {CloseOut}" using end_step [OF pl] by blast
  from evs have silent: "peer_frames evs = [] \<and> (\<forall>cs. stream_frames cs evs = [])" by (induction evs) auto
  have "emits R cs (Fin i) ((if is_tail n then [] else [ToPeer (PEnd (rg_request_id R), [])]) @ evs)"
    using silent roles j by (auto simp: emits_def link_of_def)
  moreover have "None = cache_of R (next_phase R (Fin i)) (Suc i)" by simp
  note turn_step [OF step this, of _ _ _ sid _ cs]
  ultimately show ?thesis by (auto simp: turn_def simp del: next_phase.simps)
qed

lemma que_turn:
  assumes R: "ring_ok R" and ok: "phase_ok R (Que t)" and pl: "plain (rg_experts R ! 0) n" and h: "holds R cs sid (Que t) 0 n"
  shows "\<exists>evs. touches_only (rg_request_id R) sid 0 evs n (turn R inb sid (Que t) n) \<and>
    holds R cs sid (next_phase R (Que t)) 0 (turn R inb sid (Que t) n) \<and> emits R cs (Que t) evs"
proof -
  let ?e = "rg_engs R ! 0"
  have j: "0 < stage_count R" "Suc 0 < stage_count R" and t: "t < token_count R" using ring_sizes [OF R] ok by auto
  note roles = node_roles [OF R j(1) pl]
  from head_state [OF h] obtain old st new where st: "pn_states n = old @ st # new" "hs_request_id st = rg_request_id R" "hs_client_stream st = cs"
    and mx: "hs_max_new_tokens st = int (token_count R)" and sid: "length old = sid"
    and hd: "head_inv R sid (Que t) st (dget (pn_head_states n) (rg_request_id R))" by blast
  have gen: "hs_generated st = int t" and q: "hs_token_queue st = [token_at R t]" and ru: "hs_running st" and hs: "dget (pn_head_states n) (rg_request_id R) = Some sid"
    using hd by simp_all
  have tok: "token_at R t \<noteq> POISON_TOKEN" using token_nonneg [OF R, of t] by (simp add: POISON_TOKEN_def)
  have trn: "turn R inb sid (Que t) n = snd (decode_round ?e sid n)" by (simp add: turn_def)
  show ?thesis
  proof (cases "Suc t < token_count R")
    case True
    let ?h = "rg_embed R [token_at R t]" and ?c = "snd (part R t (stage_count R)) ! 0"
    let ?r = "(rg_stages R ! 0) ?h ?c"
    have em: "ne_embed ?e [token_at R t] = Inr ?h" "rg_tensor R ?h" using ring_embed [OF R, of "[token_at R t]"] token_nonneg [OF R] by auto
    have kc: "dget (pn_kv_caches n) (rg_request_id R) = Some ?c" using h by (simp add: holds_def)
    note run = ring_run [OF R j(1) em(2) part_cache [OF R order_refl j(1), of t]]
    have run': "fst (ne_run_my_layers ?e (rg_request_id R) ?h ?c None (pn_orch n)) = Inr ((fst ?r, snd ?r), None)" using run(1) by simp
    have nx: "part R (Suc t) (Suc 0) = (fst ?r, (snd (part R t (stage_count R)))[0 := snd ?r])" by (simp add: part_Suc pass_in_Suc)
    obtain d where d: "describe (ne_ops ?e) (fst ?r) = Inr d"
      "act_frame R 0 (fst ?r) = (PActivation (rg_request_id R) (sp_start_layer (en_shard (rg_experts R ! Suc 0))) d [], to_bytes (ne_ops ?e) (fst ?r))"
      using act_frame_wire [OF R j(2) run(2)] by metis
    have nt: "\<not> is_tail n" using roles j by simp
    have fin: "hs_generated st + 1 < hs_max_new_tokens st" using True gen mx by simp
    have fr: "(PActivation (rg_request_id R) (sp_end_layer (en_shard (rg_experts R ! 0))) d [], to_bytes (ne_ops ?e) (fst ?r)) = act_frame R 0 (fst (part R (Suc t) (Suc 0)))"
      using ring_wire(1) [OF R j(2) run(2)] d(2) nx by simp
    note step = round_next [OF pl nt st q tok fin kc em(1) run' d(1) ru, unfolded gen fr sid]
    have c0: "Some (snd ?r) = cache_of R (next_phase R (Que t)) 0" using True nx part_length [OF R order_refl, of t] j by simp
    have "emits R cs (Que t) [ToStream cs (PSampledToken (rg_request_id R) (token_at R t) (int t) False, []), ToPeer (act_frame R 0 (fst (part R (Suc t) (Suc 0))))]"
      using True by (auto simp: emits_def link_of_def client_frames_Suc)
    with turn_step [OF step c0, of old st new sid "st\<lparr>hs_token_queue := [], hs_generated := int t + 1\<rparr>" cs] st mx sid ru hs True show ?thesis
      unfolding trn by auto
  next
    case False
    with t have m: "token_count R = Suc t" by simp
    have fin: "hs_max_new_tokens st \<le> hs_generated st + 1" using gen mx m by simp
    note step = round_last [OF pl st q tok fin, of ?e, unfolded gen sid]
    have "emits R cs (Que t) [ToStream cs (PSampledToken (rg_request_id R) (token_at R t) (int t) True, []), ToPeer (PEnd (rg_request_id R), []), CloseOut]"
      using m by (auto simp: emits_def link_of_def client_frames_Suc)
    with turn_step [OF step, of "Que t" 0 old st new sid "st\<lparr>hs_token_queue := [], hs_running := False, hs_generated := int t + 1\<rparr>" cs] st mx sid m
    show ?thesis unfolding trn by auto
  qed
qed

lemma phase_turn:
  assumes R: "ring_ok R" and ok: "phase_ok R ph" and "ph \<noteq> Done" and pl: "plain (rg_experts R ! actor ph) n" and h: "holds R cs sid ph (actor ph) n"
  obtains evs where "touches_only (rg_request_id R) sid (actor ph) evs n (turn R inb sid ph n)"
    and "holds R cs sid (next_phase R ph) (actor ph) (turn R inb sid ph n)" and "emits R cs ph evs"
proof (cases ph)
  case (Act t i)
  with act_turn [OF R, of t i n cs sid inb] ok pl h that show ?thesis by (auto simp del: next_phase.simps)
next
  case (Tok t)
  with tok_turn [OF R, of n cs sid t inb] pl h that show ?thesis by auto
next
  case (Que t)
  with que_turn [OF R, of t n cs sid inb] ok pl h that show ?thesis by (auto simp del: next_phase.simps)
next
  case (Fin i)
  with fin_turn [OF R, of i n sid inb cs] ok pl that show ?thesis by (auto simp del: next_phase.simps)
qed (use assms(3) in simp)

text \<open>The first turn: the request arrives at the head.\<close>

lemma begin_turn:
  assumes R: "ring_ok R" and pl: "plain (rg_experts R ! 0) n" and av: "unavailable_peer n = None"
    and n': "n' = serve_frame (rg_engs R ! 0) cs (PBegin (rg_request_id R) (rg_prompt R) (rg_max_new_tokens R), []) n"
  shows "(\<exists>st. pn_states n' = pn_states n @ [st]) \<and> pn_faults n' = [] \<and> pn_expert n' = pn_expert n \<and> pn_log n' = pn_log n @ [ToPeer (message R (Act 0 0))] \<and>
    (\<forall>r. r \<noteq> rg_request_id R \<longrightarrow> dget (pn_kv_caches n') r = dget (pn_kv_caches n) r \<and> dget (pn_head_states n') r = dget (pn_head_states n) r) \<and>
    holds R cs (length (pn_states n)) (Act 0 0) 0 n'"
proof -
  let ?e = "rg_engs R ! 0" and ?h = "rg_embed R (rg_prompt R)" and ?c = "ne_make_cache (rg_engs R ! 0)"
  let ?r = "(rg_stages R ! 0) ?h ?c"
  have j: "0 < stage_count R" "Suc 0 < stage_count R" using ring_sizes [OF R] by auto
  note roles = node_roles [OF R j(1) pl]
  have em: "ne_embed ?e (rg_prompt R) = Inr ?h" "rg_tensor R ?h" using ring_embed [OF R, of "rg_prompt R"] by auto
  note run = ring_run [OF R j(1) em(2) ring_stage(4) [OF R j(1)]]
  have run': "fst (ne_run_my_layers ?e (rg_request_id R) ?h ?c None (pn_orch n)) = Inr ((fst ?r, snd ?r), None)" using run(1) by simp
  have nx: "part R 0 (Suc 0) = (fst ?r, (map ne_make_cache (rg_engs R))[0 := snd ?r])" using j by (simp add: part_Suc)
  obtain d where d: "describe (ne_ops ?e) (fst ?r) = Inr d"
    "act_frame R 0 (fst ?r) = (PActivation (rg_request_id R) (sp_start_layer (en_shard (rg_experts R ! Suc 0))) d [], to_bytes (ne_ops ?e) (fst ?r))"
    using act_frame_wire [OF R j(2) run(2)] by metis
  have hd: "is_head n" "\<not> is_tail n" using roles j by auto
  have mx: "(if rg_max_new_tokens R = 0 then 1 else rg_max_new_tokens R) = int (token_count R)"
    using R by (simp add: ring_ok_def Let_def token_count_def)
  have fr: "(PActivation (rg_request_id R) (sp_end_layer (en_shard (rg_experts R ! 0))) d [], to_bytes (ne_ops ?e) (fst ?r)) = message R (Act 0 0)"
    using ring_wire(1) [OF R j(2) run(2)] d(2) nx by simp
  note step = begin_step [OF pl hd av em(1) run' d(1), of cs "rg_max_new_tokens R", folded n', unfolded fr mx]
  then have "holds R cs (length (pn_states n)) (Act 0 0) 0 n'" unfolding holds_def using nx j
    by (intro conjI impI exI [of _ "pn_states n"] exI [of _ "[]"]) (auto simp: step_to_def)
  with step show ?thesis by (auto simp: step_to_def)
qed

section \<open>Every run\<close>

lemma submit_inv:
  assumes R: "ring_ok R" and fresh: "fresh_nodes R nodes"
  shows "sys_inv R nodes (Act 0 0) (submit_request R nodes)"
proof -
  let ?n = "nodes ! 0" and ?n' = "serve_frame (rg_engs R ! 0) 0 (PBegin (rg_request_id R) (rg_prompt R) (rg_max_new_tokens R), []) (nodes ! 0)"
  have j: "0 < stage_count R" using ring_sizes [OF R] by simp
  have len: "length nodes = stage_count R" and fn: "\<And>l. l < stage_count R \<Longrightarrow> pn_faults (nodes ! l) = [] \<and> pn_expert (nodes ! l) = rg_experts R ! l \<and>
      idle (nodes ! l) \<and> dget (pn_kv_caches (nodes ! l)) (rg_request_id R) = None" and av: "unavailable_peer ?n = None"
    using fresh by (auto simp: fresh_nodes_def)
  have pl: "plain (rg_experts R ! l) (nodes ! l)" if "l < stage_count R" for l using fn [OF that] ring_stage(1) [OF R that] by (simp add: plain_def)
  note b = begin_turn [OF R pl [OF j] av refl, of 0]
  have "node_inv R nodes (Act 0 0) l (nodes[0 := ?n'] ! l)" if "l < stage_count R" for l
    using that b fn [OF that] pl [OF that] len by (cases "l = 0") (auto simp: node_inv_def plain_def holds_def)
  with len j b show ?thesis
    by (auto simp: submit_request_def absorb_def Let_def sys_inv_def nth_list_update client_frames_def link_of_def)
qed

lemma ready_only_head:
  assumes "ring_ok R" and "sys_inv R N ph s" and "j < stage_count R" and "decode_ready (sy_nodes s ! j) sid"
  shows "j = 0 \<and> sid = length (pn_states (N ! 0)) \<and> (\<exists>t. ph = Que t)"
proof -
  have ni: "node_inv R N ph j (sy_nodes s ! j)" using assms(2,3) by (simp add: sys_inv_def)
  have quiet: "\<not> hs_running (pn_states (N ! j) ! sid)" if "sid < length (pn_states (N ! j))"
    using that ni nth_mem by (auto simp: node_inv_def idle_def)
  have j: "j = 0"
  proof (rule ccontr)
    assume "j \<noteq> 0"
    with ni have "pn_states (sy_nodes s ! j) = pn_states (N ! j)" by (simp add: node_inv_def)
    with assms(4) quiet show False by (auto simp: decode_ready_def)
  qed
  with ni obtain st where st: "pn_states (sy_nodes s ! 0) = pn_states (N ! 0) @ [st]"
    "head_inv R (length (pn_states (N ! 0))) ph st (dget (pn_head_states (sy_nodes s ! 0)) (rg_request_id R))"
    by (fastforce simp: node_inv_def holds_def)
  have sid: "sid = length (pn_states (N ! 0))"
    using assms(4) quiet st(1) j by (cases "sid < length (pn_states (N ! 0))") (auto simp: decode_ready_def nth_append)
  with st assms(4) j show ?thesis by (cases ph) (auto simp: decode_ready_def)
qed

lemma turn_inv:
  assumes R: "ring_ok R" and ok: "phase_ok R ph" and inv: "sys_inv R N ph s" and nd: "ph \<noteq> Done"
    and ls: "length ls = stage_count R" "\<And>l. l < stage_count R \<Longrightarrow> ls ! l = []"
  shows "sys_inv R N (next_phase R ph)
    (absorb (actor ph) (turn R inb (length (pn_states (N ! 0))) ph (sy_nodes s ! actor ph)) (s\<lparr>sy_links := ls\<rparr>))"
proof -
  let ?j = "actor ph" and ?sid = "length (pn_states (N ! 0))"
  let ?n = "sy_nodes s ! ?j" let ?n' = "turn R inb ?sid ph ?n"
  have j: "?j < stage_count R" by (rule phase_nodes(1) [OF R ok])
  have node: "node_inv R N ph l (sy_nodes s ! l)" if "l < stage_count R" for l using inv that by (simp add: sys_inv_def)
  obtain evs where k: "touches_only (rg_request_id R) ?sid ?j evs ?n ?n'" and h: "holds R 0 ?sid (next_phase R ph) ?j ?n'" and e: "emits R 0 ph evs"
    using phase_turn [OF R ok nd, of ?n 0 ?sid inb] node [OF j] by (auto simp: node_inv_def)
  have me: "node_inv R N (next_phase R ph) ?j ?n'"
    using node [OF j] k h by (auto simp: node_inv_def touches_only_def plain_def split: if_splits)
  have other: "node_inv R N (next_phase R ph) l (sy_nodes s ! l)" if "l < stage_count R" "l \<noteq> ?j" for l
    using node [OF that(1)] holds_next [OF ok nd that] by (auto simp: node_inv_def)
  have links: "ls ! l @ (if l = ?j then peer_frames evs else []) = link_of R (next_phase R ph) l" if "l < stage_count R" for l
    using e ls(2) [OF that] next_source [OF _ ok nd, of l] by (auto simp: emits_def)
  have evs: "drop (length (pn_log ?n)) (pn_log ?n') = evs" using k by (simp add: touches_only_def)
  have "node_inv R N (next_phase R ph) l ((sy_nodes s)[?j := ?n'] ! l)" if "l < stage_count R" for l
    using other [OF that] me that inv by (cases "l = ?j") (auto simp: sys_inv_def)
  moreover have "(ls[?j := ls ! ?j @ peer_frames evs]) ! l = link_of R (next_phase R ph) l" if "l < stage_count R" for l
    using links [OF that] that ls(1) by (cases "l = ?j") auto
  ultimately show ?thesis using inv evs ls(1) e by (auto simp: sys_inv_def absorb_def Let_def emits_def)
qed

lemma step_phase:
  assumes R: "ring_ok R" and ok: "phase_ok R ph" and inv: "sys_inv R N ph s" and step: "ring_step R s s'"
  shows "sys_inv R N (next_phase R ph) s' \<and> ph \<noteq> Done"
  using step
proof cases
  case (deliver i f fs j)
  have i: "i < stage_count R" and link: "link_of R ph i = f # fs" and k: "length (sy_nodes s) = stage_count R"
    using inv deliver by (auto simp: sys_inv_def)
  then have src: "source R ph = Some i" "f = message R ph" "fs = []" by (auto simp: link_of_def split: if_splits)
  then have nd: "ph \<noteq> Done" and j: "j = actor ph" using phase_nodes(2) [OF R ok src(1)] deliver k by auto
  have "(sy_links s)[i := fs] ! l = []" if "l < stage_count R" for l using that inv src by (cases "l = i") (auto simp: sys_inv_def link_of_def)
  with turn_inv [OF R ok inv nd, of "(sy_links s)[i := fs]" 1] nd deliver src j inv show ?thesis by (simp add: turn_def sys_inv_def)
next
  case (wake j sid)
  with inv ready_only_head [OF R inv, of j sid] obtain t where q: "j = 0" "sid = length (pn_states (N ! 0))" "ph = Que t" by (auto simp: sys_inv_def)
  have "sy_links s ! l = []" if "l < stage_count R" for l using that inv q by (auto simp: sys_inv_def link_of_def)
  with turn_inv [OF R ok inv, of "sy_links s" 1] wake q inv show ?thesis by (simp add: turn_def sys_inv_def del: next_phase.simps)
qed

lemma can_step:
  assumes R: "ring_ok R" and ok: "phase_ok R ph" and inv: "sys_inv R N ph s" and nd: "ph \<noteq> Done"
  shows "\<exists>s'. ring_step R s s'"
proof (cases "source R ph")
  case (Some l)
  with phase_nodes(2) [OF R ok Some] inv show ?thesis
    using ring_step.deliver [of l s "message R ph" "[]" "Suc l mod length (sy_nodes s)" R] by (auto simp: sys_inv_def link_of_def)
next
  case None
  then obtain t where q: "ph = Que t" using phase_nodes(3) [OF R ok None nd] by blast
  have k: "0 < stage_count R" "length (sy_nodes s) = stage_count R" using ring_sizes [OF R] inv by (auto simp: sys_inv_def)
  then have "node_inv R N (Que t) 0 (sy_nodes s ! 0)" using inv q by (simp add: sys_inv_def)
  then have "decode_ready (sy_nodes s ! 0) (length (pn_states (N ! 0)))" by (auto simp: node_inv_def holds_def decode_ready_def)
  with ring_step.wake [of 0 s "length (pn_states (N ! 0))" R] k show ?thesis by auto
qed

lemma runs_in_phases:
  assumes R: "ring_ok R" and fresh: "fresh_nodes R nodes" and run: "(ring_step R ^^ steps) (submit_request R nodes) s"
  shows "\<exists>ph. phase_ok R ph \<and> sys_inv R nodes ph s \<and> rank R ph = steps"
  using run
proof (induction steps arbitrary: s)
  case 0
  have "phase_ok R (Act 0 0) \<and> rank R (Act 0 0) = 0" using ring_sizes [OF R] by simp
  with 0 submit_inv [OF R fresh] show ?case by (metis relpowp_0_E)
next
  case (Suc m)
  then obtain s0 where "(ring_step R ^^ m) (submit_request R nodes) s0" "ring_step R s0 s" by auto
  with Suc.IH obtain ph where ph: "phase_ok R ph" "sys_inv R nodes ph s0" "rank R ph = m" and st: "ring_step R s0 s" by blast
  from step_phase [OF R ph(1,2) st] have s: "sys_inv R nodes (next_phase R ph) s" "ph \<noteq> Done" by simp_all
  with rank_next [OF R ph(1)] ph(3) show ?case by auto
qed

lemma done_state:
  assumes "ring_ok R" and "sys_inv R N Done s"
  shows "sy_client s = client_frames R (token_count R) \<and> (\<forall>l < length (sy_links s). sy_links s ! l = []) \<and>
    (\<forall>n \<in> set (sy_nodes s). dget (pn_kv_caches n) (rg_request_id R) = None) \<and> dget (pn_head_states (sy_nodes s ! 0)) (rg_request_id R) = None"
proof -
  have h: "holds R 0 (length (pn_states (N ! 0))) Done j (sy_nodes s ! j)" if "j < length (sy_nodes s)" for j
    using assms(2) that by (simp add: sys_inv_def node_inv_def)
  have "0 < length (sy_nodes s)" using assms(2) ring_sizes [OF assms(1)] by (simp add: sys_inv_def)
  from h [OF this] have "dget (pn_head_states (sy_nodes s ! 0)) (rg_request_id R) = None" by (auto simp: holds_def)
  moreover have "\<forall>n \<in> set (sy_nodes s). dget (pn_kv_caches n) (rg_request_id R) = None" using h by (auto simp: holds_def in_set_conv_nth)
  ultimately show ?thesis using assms(2) by (simp add: sys_inv_def link_of_def)
qed

lemma run_outcome:
  assumes R: "ring_ok R" and fresh: "fresh_nodes R nodes" and run: "(ring_step R)\<^sup>*\<^sup>* (submit_request R nodes) s"
  shows "(\<exists>j \<le> token_count R. sy_client s = client_frames R j) \<and> ((\<exists>s'. ring_step R s s') \<or> sys_inv R nodes Done s)"
proof -
  from run obtain m where "(ring_step R ^^ m) (submit_request R nodes) s" by (auto simp: rtranclp_power)
  from runs_in_phases [OF R fresh this] obtain ph where ph: "phase_ok R ph" "sys_inv R nodes ph s" by blast
  have "sent_in R ph \<le> token_count R" using ph(1) by (cases ph) auto
  moreover have "sy_client s = client_frames R (sent_in R ph)" using ph(2) by (simp add: sys_inv_def)
  ultimately show ?thesis using can_step [OF R ph] ph(2) by blast
qed

lemma rank_bound:
  assumes R: "ring_ok R" and ph: "phase_ok R ph"
  defines "full \<equiv> token_count R * (stage_count R + 1) + (stage_count R - 1)"
  shows "rank R ph \<le> full" "ph \<noteq> Done \<Longrightarrow> rank R ph < full"
proof -
  have le: "t * (stage_count R + 1) + stage_count R < token_count R * (stage_count R + 1)" if "t < token_count R" for t
  proof -
    have "Suc t * (stage_count R + 1) \<le> token_count R * (stage_count R + 1)" using that by (intro mult_le_mono1) simp
    then show ?thesis by simp
  qed
  have "rank R ph \<le> full \<and> (ph \<noteq> Done \<longrightarrow> rank R ph < full)"
    using ph le ring_sizes [OF R] unfolding full_def by (cases ph) fastforce+
  then show "rank R ph \<le> full" "ph \<noteq> Done \<Longrightarrow> rank R ph < full" by blast+
qed

text \<open>C4: The pipeline generates the reference's tokens.  Whatever the order in which frames are delivered and
  the loop is scheduled, the client has at any time received a prefix of the reference's tokens, numbered
  from 0; and a state in which nothing more can happen is one in which it has all of them, the last one
  marked final, no frame is left in the ring, and no node keeps a cache or a state of the request.\<close>

theorem pipeline_generates_reference:
  assumes "ring_ok R" and "fresh_nodes R nodes" and "(ring_step R)\<^sup>*\<^sup>* (submit_request R nodes) s"
  shows "(\<exists>j \<le> token_count R. sy_client s = client_frames R j) \<and>
    ((\<nexists>s'. ring_step R s s') \<longrightarrow>
      sy_client s = client_frames R (token_count R) \<and> (\<forall>l < length (sy_links s). sy_links s ! l = []) \<and>
      (\<forall>n \<in> set (sy_nodes s). dget (pn_kv_caches n) (rg_request_id R) = None) \<and> dget (pn_head_states (sy_nodes s ! 0)) (rg_request_id R) = None)"
  using run_outcome [OF assms] done_state [OF assms(1)] by blast

text \<open>C5: Every run ends.  A request of \<^verbatim>\<open>m\<close> tokens over \<^verbatim>\<open>k\<close> nodes takes
  \<^verbatim>\<open>m * (k + 1) + (k - 1)\<close> steps: no run is longer, and a shorter one can go on.\<close>

theorem pipeline_terminates:
  assumes R: "ring_ok R" and fresh: "fresh_nodes R nodes" and run: "(ring_step R ^^ steps) (submit_request R nodes) s"
  defines "full \<equiv> token_count R * (stage_count R + 1) + (stage_count R - 1)"
  shows "steps \<le> full \<and> (steps < full \<longrightarrow> (\<exists>s'. ring_step R s s'))"
proof -
  from runs_in_phases [OF R fresh run] obtain ph where ph: "phase_ok R ph" "sys_inv R nodes ph s" "rank R ph = steps" by blast
  with can_step [OF R ph(1,2)] rank_bound [OF R ph(1)] show ?thesis unfolding full_def by (cases "ph = Done") auto
qed

text \<open>Some run ends, so the statements about states at rest are about something.\<close>

lemma run_to_rest:
  assumes R: "ring_ok R" and fresh: "fresh_nodes R nodes"
  shows "\<exists>s. (ring_step R)\<^sup>*\<^sup>* (submit_request R nodes) s \<and> (\<nexists>s'. ring_step R s s')"
proof (rule ccontr)
  assume *: "\<not> ?thesis"
  let ?full = "token_count R * (stage_count R + 1) + (stage_count R - 1)"
  have "\<exists>s. (ring_step R ^^ m) (submit_request R nodes) s" for m
  proof (induction m)
    case (Suc m)
    then obtain s where s: "(ring_step R ^^ m) (submit_request R nodes) s" by blast
    with * obtain s' where "ring_step R s s'" by (meson relpowp_imp_rtranclp)
    with s show ?case by auto
  qed (meson relpowp_0_I)
  then obtain s where "(ring_step R ^^ Suc ?full) (submit_request R nodes) s" by blast
  from runs_in_phases [OF R fresh this] obtain ph where ph: "phase_ok R ph" "rank R ph = Suc ?full" by blast
  with rank_bound [OF R ph(1)] show False by simp
qed

section \<open>One request after another\<close>

text \<open>A cluster between requests: no cache, no loop, and the head takes requests.\<close>

definition resting :: "'b ExpertNode list \<Rightarrow> ('b, 't, 'c, 'o) PNode list \<Rightarrow> bool" where
  "resting experts nodes \<longleftrightarrow> length nodes = length experts \<and> unavailable_peer (nodes ! 0) = None \<and>
     (\<forall>j < length experts. pn_faults (nodes ! j) = [] \<and> pn_expert (nodes ! j) = experts ! j \<and> idle (nodes ! j) \<and>
        (\<forall>r. dget (pn_kv_caches (nodes ! j)) r = None))"

lemma resting_fresh: "ring_ok R \<Longrightarrow> resting (rg_experts R) nodes \<Longrightarrow> fresh_nodes R nodes"
  by (simp add: resting_def fresh_nodes_def ring_ok_def Let_def)

lemma served_resting:
  assumes R: "ring_ok R" and rest: "resting (rg_experts R) nodes" and run: "(ring_step R)\<^sup>*\<^sup>* (submit_request R nodes) s" "\<nexists>s'. ring_step R s s'"
  shows "resting (rg_experts R) (sy_nodes s)"
proof -
  have k: "length (rg_experts R) = stage_count R" "0 < stage_count R" using R ring_sizes [OF R] by (auto simp: ring_ok_def Let_def)
  have inv: "sys_inv R nodes Done s" using run_outcome [OF R resting_fresh [OF R rest] run(1)] run(2) by blast
  have node: "node_inv R nodes Done j (sy_nodes s ! j)" if "j < stage_count R" for j using inv that by (simp add: sys_inv_def)
  have kv: "dget (pn_kv_caches (sy_nodes s ! j)) r = None" if "j < stage_count R" for j r
    using node [OF that] rest that k by (cases "r = rg_request_id R") (auto simp: node_inv_def holds_def resting_def)
  have idle: "idle (sy_nodes s ! j)" if "j < stage_count R" for j
    using node [OF that] by (fastforce simp: node_inv_def holds_def idle_def split: if_splits)
  have ex: "pn_faults (sy_nodes s ! j) = [] \<and> pn_expert (sy_nodes s ! j) = rg_experts R ! j" if "j < stage_count R" for j
    using node [OF that] by (simp add: node_inv_def plain_def)
  have eq: "pn_expert (sy_nodes s ! 0) = pn_expert (nodes ! 0)" using rest k ex [OF k(2)] by (simp add: resting_def)
  have "unavailable_peer (sy_nodes s ! 0) = unavailable_peer (nodes ! 0)" by (simp only: unavailable_peer_def eq)
  then have "unavailable_peer (sy_nodes s ! 0) = None" using rest by (simp add: resting_def)
  with kv idle ex k inv show ?thesis by (simp add: resting_def sys_inv_def)
qed

end
