(* ===== verification/Client.thy ===== *)
theory Client
  imports Pipeline
begin

text \<open>
  \<^verbatim>\<open>client.py\<close>: the request a client sends and how it reads the stream of tokens.  The frames it
  receives are a list; when it is used up the stream is closed.
\<close>

definition is_u32 :: "int \<Rightarrow> bool" where
  "is_u32 x \<longleftrightarrow> 0 \<le> x \<and> x < 2 ^ 32"

text \<open>The protobuf fields are unsigned 32-bit: assigning anything else raises.\<close>

definition begin_envelope :: "string \<Rightarrow> int list \<Rightarrow> int \<Rightarrow> wire_frame result" where
  "begin_envelope request_id prompt_tokens max_new_tokens =
     (if \<forall>t \<in> set prompt_tokens. is_u32 t then if is_u32 max_new_tokens then Inr (PBegin request_id prompt_tokens max_new_tokens, []) else Inl ValueError
      else Inl ValueError)"

text \<open>The generator: the tokens it yields and the exception that ends it, if any.\<close>

fun receive_tokens :: "wire_frame list \<Rightarrow> int list \<times> py_exn option" where
  "receive_tokens [] = ([], Some EOFError)"
| "receive_tokens ((PSampledToken _ token_id _ is_final, _) # fs) =
     (if is_final then ([token_id], None) else case receive_tokens fs of (ts, e) \<Rightarrow> (token_id # ts, e))"
| "receive_tokens (_ # fs) = ([], Some RuntimeError)"

definition generate_streaming :: "(wire_frame \<Rightarrow> wire_frame list) result \<Rightarrow> string \<Rightarrow> int list \<Rightarrow> int \<Rightarrow> int list \<times> py_exn option" where
  "generate_streaming connection request_id prompt_tokens max_new_tokens =
     (case connection of
        Inl e \<Rightarrow> ([], Some e)
      | Inr server \<Rightarrow>
          (case begin_envelope request_id prompt_tokens max_new_tokens of
             Inl e \<Rightarrow> ([], Some e)
           | Inr env \<Rightarrow> receive_tokens (server env)))"

definition generate :: "(wire_frame \<Rightarrow> wire_frame list) result \<Rightarrow> string \<Rightarrow> int list \<Rightarrow> int \<Rightarrow> int list result" where
  "generate connection request_id prompt_tokens max_new_tokens =
     (case generate_streaming connection request_id prompt_tokens max_new_tokens of (ts, None) \<Rightarrow> Inr ts | (_, Some e) \<Rightarrow> Inl e)"

section \<open>Reading a stream\<close>

lemma receive_open:
  "receive_tokens (map (\<lambda>t. (PSampledToken rid (f t) (p t) False, [])) ts @ fs) = (map f ts @ fst (receive_tokens fs), snd (receive_tokens fs))"
  by (induction ts) (simp_all add: case_prod_beta)

lemma receive_client_frames:
  assumes "0 < token_count R"
  shows "receive_tokens (client_frames R (token_count R) @ rest) = (reference_tokens R, None)"
proof -
  obtain m where m: "token_count R = Suc m" using assms by (cases "token_count R") auto
  have "client_frames R (token_count R) = map (\<lambda>t. (PSampledToken (rg_request_id R) (token_at R t) (int t) False, [])) [0..<m] @
      [(PSampledToken (rg_request_id R) (token_at R m) (int m) True, [])]"
    by (auto simp: client_frames_def m)
  then show ?thesis by (simp add: receive_open reference_tokens_def m)
qed

lemma receive_partial:
  assumes "j < token_count R"
  shows "receive_tokens (client_frames R j) = (map (token_at R) [0..<j], Some EOFError)"
proof -
  have "client_frames R j = map (\<lambda>t. (PSampledToken (rg_request_id R) (token_at R t) (int t) False, [])) [0..<j]"
    using assms by (auto simp: client_frames_def)
  then show ?thesis using receive_open [of "rg_request_id R" "token_at R" int "[0..<j]" "[]"] by simp
qed

text \<open>What \<^verbatim>\<open>generate\<close> makes of the frames a pipeline has sent so far.\<close>

lemma generate_frames:
  assumes u32: "\<forall>t \<in> set (rg_prompt R). is_u32 t" "is_u32 (rg_max_new_tokens R)" and m: "0 < token_count R" and j: "j \<le> token_count R"
  shows "generate (Inr (\<lambda>_. client_frames R j)) (rg_request_id R) (rg_prompt R) (rg_max_new_tokens R) =
    (if j = token_count R then Inr (reference_tokens R) else Inl EOFError)"
  using u32 j receive_client_frames [OF m, of "[]"] receive_partial [of j R] by (auto simp: generate_def generate_streaming_def begin_envelope_def)

text \<open>A pipeline at rest has sent the client everything.\<close>

lemma client_at_rest:
  assumes R: "ring_ok R" and fresh: "fresh_nodes R nodes" and run: "(ring_step R)\<^sup>*\<^sup>* (submit_request R nodes) s"
    and u32: "\<forall>t \<in> set (rg_prompt R). is_u32 t" "is_u32 (rg_max_new_tokens R)" and rest: "\<nexists>s'. ring_step R s s'"
  shows "generate (Inr (\<lambda>_. sy_client s)) (rg_request_id R) (rg_prompt R) (rg_max_new_tokens R) = Inr (reference_tokens R)"
proof -
  have m: "0 < token_count R" using ring_sizes [OF R] by simp
  have "sy_client s = client_frames R (token_count R)" using run_outcome [OF R fresh run] rest done_state [OF R] by blast
  with generate_frames [OF u32 m order_refl] show ?thesis by simp
qed

text \<open>What the client returns.  The client of a pipeline that has come to rest returns the tokens of the
  reference; a stream cut off before the final token makes it raise \<^verbatim>\<open>EOFError\<close> after the tokens it has.\<close>

theorem client_returns_reference:
  assumes R: "ring_ok R" and fresh: "fresh_nodes R nodes" and run: "(ring_step R)\<^sup>*\<^sup>* (submit_request R nodes) s"
    and u32: "\<forall>t \<in> set (rg_prompt R). is_u32 t" "is_u32 (rg_max_new_tokens R)"
  shows "((\<nexists>s'. ring_step R s s') \<longrightarrow>
      generate (Inr (\<lambda>_. sy_client s)) (rg_request_id R) (rg_prompt R) (rg_max_new_tokens R) = Inr (reference_tokens R)) \<and>
    prefix (fst (receive_tokens (sy_client s))) (reference_tokens R) \<and> snd (receive_tokens (sy_client s)) \<in> {None, Some EOFError}"
proof -
  have m: "0 < token_count R" using ring_sizes [OF R] by simp
  obtain j where j: "j \<le> token_count R" "sy_client s = client_frames R j"
    using run_outcome [OF R fresh run] by blast
  have "prefix (fst (receive_tokens (client_frames R j))) (reference_tokens R) \<and> snd (receive_tokens (client_frames R j)) \<in> {None, Some EOFError}"
  proof (cases "j = token_count R")
    case True
    then show ?thesis using receive_client_frames [OF m, of "[]"] by simp
  next
    case False
    with j(1) have lt: "j < token_count R" by simp
    note receive_partial [OF lt]
    moreover have "[0..<token_count R] = [0..<j] @ [j..<token_count R]" using lt upt_add_eq_append [of 0 j "token_count R - j"] by simp
    ultimately show ?thesis by (simp add: reference_tokens_def)
  qed
  then show ?thesis using j(2) client_at_rest [OF R fresh run u32] by simp
qed

text \<open>A server error.  Whatever tokens came before it, an error envelope makes \<^verbatim>\<open>generate\<close> raise and drop
  them.\<close>

theorem server_error_discards_tokens:
  assumes "begin_envelope rid prompt mx = Inr env" and "server env = map (\<lambda>t. (PSampledToken rid (f t) (p t) False, [])) ts @ (PError rid code, bs) # fs"
  shows "generate (Inr server) rid prompt mx = Inl RuntimeError \<and> generate_streaming (Inr server) rid prompt mx = (map f ts, Some RuntimeError)"
  using assms by (simp add: generate_def generate_streaming_def receive_open)

end
