(* ===== verification/Bit_Exact.thy ===== *)
theory Bit_Exact
  imports Client
begin

text \<open>
  A pipeline of MLX nodes against \<^verbatim>\<open>ReferenceModel.generate_greedy\<close>.  Each node keeps caches for
  all layers and uses those of its own; the oracle has one list of caches.  The two agree slot by slot.
\<close>

declare map_of_eq_Some_iff [simp del] Some_eq_map_of_iff [simp del]

section \<open>A stage against the whole model\<close>

definition mlx_stage :: "('t, 'w, 'k, 'a) ReferenceModel \<Rightarrow> ShardSpec \<Rightarrow> 't \<Rightarrow> 'k list \<Rightarrow> 't \<times> 'k list" where
  "mlx_stage rm shard h cache =
     projr (run_atomic (rm_text_model rm) (make_masks rm h cache) [sp_start_layer shard..sp_end_layer shard - 1] h cache)"

text \<open>The cache slot of a layer.\<close>

definition slot :: "('t, 'w, 'k, 'a) ReferenceModel \<Rightarrow> int \<Rightarrow> nat" where
  "slot rm l = nat (tm_layer_idx_to_cache_idx (rm_text_model rm) ! nat l)"

text \<open>What the model is assumed to do.  Each layer has a cache slot of its own; a layer keeps the length of
  the sequence and the tensors that can be sent; the mask of a prefill on empty caches depends on the length
  of the sequence only, and so does the mask of a single token on any caches; a token index is not negative.\<close>

definition model_ok :: "('t, 'w, 'k, 'a) ReferenceModel \<Rightarrow> ('t \<Rightarrow> bool) \<Rightarrow> ('t \<Rightarrow> nat) \<Rightarrow> bool" where
  "model_ok rm tensor seq_len \<longleftrightarrow>
     length (tm_layer_idx_to_cache_idx (rm_text_model rm)) = length (tm_layers (rm_text_model rm)) \<and>
     (\<forall>i \<in> set (tm_layer_idx_to_cache_idx (rm_text_model rm)). 0 \<le> i \<and> nat i < length (rm_make_cache rm)) \<and>
     distinct (tm_layer_idx_to_cache_idx (rm_text_model rm)) \<and>
     (\<forall>h h'. seq_len h = seq_len h' \<longrightarrow> make_masks rm h (rm_make_cache rm) = make_masks rm h' (rm_make_cache rm)) \<and>
     (\<forall>h h' c c'. seq_len h = 1 \<and> seq_len h' = 1 \<longrightarrow> make_masks rm h c = make_masks rm h' c') \<and>
     (\<forall>ly \<in> set (tm_layers (rm_text_model rm)). \<forall>h mask c. tensor h \<longrightarrow>
        seq_len (fst (dl_call ly h mask c)) = seq_len h \<and> tensor (fst (dl_call ly h mask c))) \<and>
     (\<forall>toks. toks \<noteq> [] \<and> (\<forall>t \<in> set toks. 0 \<le> t) \<longrightarrow> tensor (embed_tokens rm toks) \<and> seq_len (embed_tokens rm toks) = length toks) \<and>
     (\<forall>h. tensor h \<longrightarrow> 0 \<le> rm_argmax_last rm (finalize rm h))"

lemma slots_distinct:
  assumes "model_ok rm tensor seq_len" and "0 \<le> l" "l < num_layers rm" "0 \<le> l'" "l' < num_layers rm" and "slot rm l = slot rm l'"
  shows "l = l'"
proof -
  let ?ix = "tm_layer_idx_to_cache_idx (rm_text_model rm)"
  have n: "nat l < length ?ix" "nat l' < length ?ix" using assms by (auto simp: model_ok_def num_layers_def)
  then have "?ix ! nat l \<in> set ?ix" "?ix ! nat l' \<in> set ?ix" by simp_all
  with assms(1,6) have "?ix ! nat l = ?ix ! nat l'" unfolding model_ok_def slot_def by (metis eq_nat_nat_iff)
  with assms(1) n have "nat l = nat l'" unfolding model_ok_def by (metis nth_eq_iff_index_eq)
  with assms show ?thesis by simp
qed

text \<open>One layer on two lists of caches that agree at its slot.\<close>

lemma layer_on_slot:
  assumes ok: "model_ok rm tensor seq_len" and l: "0 \<le> l" "l < num_layers rm" and len: "length cache = length (rm_make_cache rm)"
  obtains f where "\<And>cache'. length cache' = length cache \<Longrightarrow>
      run_layer_atomic (rm_text_model rm) l h cache' masks = Inr (fst (f (cache' ! slot rm l)), cache'[slot rm l := snd (f (cache' ! slot rm l))])"
    and "slot rm l < length cache" and "\<And>c. tensor h \<Longrightarrow> seq_len (fst (f c)) = seq_len h \<and> tensor (fst (f c))"
proof -
  let ?tm = "rm_text_model rm" and ?ix = "tm_layer_idx_to_cache_idx (rm_text_model rm)"
  let ?ly = "tm_layers ?tm ! nat l"
  have n: "nat l < length (tm_layers ?tm)" "nat l < length ?ix" using ok l by (auto simp: model_ok_def num_layers_def)
  then have ly: "py_index (tm_layers ?tm) l = Inr ?ly" "py_index ?ix l = Inr (?ix ! nat l)" using l by (simp_all add: py_index_def py_pos_def)
  have "?ix ! nat l \<in> set ?ix" using n by simp
  then have s: "0 \<le> ?ix ! nat l" "slot rm l < length cache" using ok len by (auto simp: model_ok_def slot_def)
  show thesis
  proof (rule that [of "\<lambda>c. dl_call ?ly h (if dl_full_attention ?ly then fst masks else snd masks) c"])
    show "run_layer_atomic ?tm l h cache' masks = Inr (fst (dl_call ?ly h (if dl_full_attention ?ly then fst masks else snd masks) (cache' ! slot rm l)),
        cache'[slot rm l := snd (dl_call ?ly h (if dl_full_attention ?ly then fst masks else snd masks) (cache' ! slot rm l))])"
      if "length cache' = length cache" for cache'
    proof -
      have "py_pos cache' (?ix ! nat l) = Inr (slot rm l)" using s that by (simp add: py_pos_def slot_def nat_less_iff)
      with ly show ?thesis by (simp add: run_layer_atomic_def with_layer_def case_prod_beta)
    qed
  qed (use s ok n in \<open>auto simp: model_ok_def\<close>)
qed

definition agree :: "('t, 'w, 'k, 'a) ReferenceModel \<Rightarrow> int set \<Rightarrow> 'k list \<Rightarrow> 'k list \<Rightarrow> bool" where
  "agree rm L C c \<longleftrightarrow> length C = length (rm_make_cache rm) \<and> length c = length (rm_make_cache rm) \<and> (\<forall>l \<in> L. C ! slot rm l = c ! slot rm l)"

text \<open>A range of layers leaves the slots of the other layers alone.\<close>

definition untouched :: "('t, 'w, 'k, 'a) ReferenceModel \<Rightarrow> int set \<Rightarrow> 'k list \<Rightarrow> 'k list \<Rightarrow> bool" where
  "untouched rm L C C' \<longleftrightarrow> (\<forall>l \<in> {0..<num_layers rm} - L. C' ! slot rm l = C ! slot rm l)"

lemma run_on_both:
  assumes ok: "model_ok rm tensor seq_len" and "set ls \<subseteq> {0..<num_layers rm}" and "agree rm (set ls) C c" and "tensor h"
  shows "\<exists>h' C' c'. run_atomic (rm_text_model rm) masks ls h C = Inr (h', C') \<and> run_atomic (rm_text_model rm) masks ls h c = Inr (h', c') \<and>
    agree rm (set ls) C' c' \<and> untouched rm (set ls) C C' \<and> untouched rm (set ls) c c' \<and> seq_len h' = seq_len h \<and> tensor h'"
  using assms(2-)
proof (induction ls arbitrary: h C c)
  case Nil
  then show ?case by (simp add: run_atomic_def untouched_def)
next
  case (Cons l ls)
  have l: "0 \<le> l" "l < num_layers rm" and len: "length C = length (rm_make_cache rm)" "length c = length C" using Cons.prems by (auto simp: agree_def)
  obtain f where f: "\<And>cache'. length cache' = length C \<Longrightarrow>
      run_layer_atomic (rm_text_model rm) l h cache' masks = Inr (fst (f (cache' ! slot rm l)), cache'[slot rm l := snd (f (cache' ! slot rm l))])"
    and s: "slot rm l < length C" and keep: "\<And>c. tensor h \<Longrightarrow> seq_len (fst (f c)) = seq_len h \<and> tensor (fst (f c))"
    using layer_on_slot [OF ok l len(1)] by metis
  let ?x = "f (C ! slot rm l)"
  let ?C = "C[slot rm l := snd ?x]" and ?c = "c[slot rm l := snd ?x]"
  have eq: "c ! slot rm l = C ! slot rm l" using Cons.prems(2) by (simp add: agree_def)
  have "agree rm (set ls) ?C ?c" using Cons.prems(2) s len by (auto simp: agree_def nth_list_update)
  with Cons.IH [OF _ this, of "fst ?x"] Cons.prems keep obtain h' C' c' where
    r: "run_atomic (rm_text_model rm) masks ls (fst ?x) ?C = Inr (h', C')" "run_atomic (rm_text_model rm) masks ls (fst ?x) ?c = Inr (h', c')"
    and a: "agree rm (set ls) C' c'" and u: "untouched rm (set ls) ?C C'" "untouched rm (set ls) ?c c'"
    and t: "seq_len h' = seq_len h" "tensor h'" by auto
  have "run_atomic (rm_text_model rm) masks (l # ls) h C = Inr (h', C')" "run_atomic (rm_text_model rm) masks (l # ls) h c = Inr (h', c')"
    using r f [of C] f [of c] len eq by (simp_all add: run_atomic_def)
  moreover have "C' ! slot rm l = c' ! slot rm l"
    using a u l s len by (cases "l \<in> set ls") (auto simp: agree_def untouched_def)
  then have "agree rm (set (l # ls)) C' c'" using a by (simp add: agree_def)
  moreover have "?C ! slot rm k = C ! slot rm k" "?c ! slot rm k = c ! slot rm k" if "0 \<le> k" "k < num_layers rm" "k \<noteq> l" for k
    using slots_distinct [OF ok that(1,2) l] that(3) by (metis nth_list_update_neq)+
  then have "untouched rm (set (l # ls)) C C'" "untouched rm (set (l # ls)) c c'" using u by (auto simp: untouched_def)
  ultimately show ?case using t by blast
qed

section \<open>A pass through the stages\<close>

abbreviation stage_layers :: "ShardSpec \<Rightarrow> int set" where
  "stage_layers sh \<equiv> {sp_start_layer sh..<sp_end_layer sh}"

lemma stages_disjoint:
  assumes "stages_from a shards b" and "i < j" and "j < length shards"
  shows "sp_end_layer (shards ! i) \<le> sp_start_layer (shards ! j)"
  using assms
proof (induction shards arbitrary: a i j)
  case (Cons s ss)
  show ?case
  proof (cases i)
    case 0
    with Cons.prems have "ss ! (j - 1) \<in> set ss" by simp
    with 0 Cons.prems stages_starts [of "sp_end_layer s" ss b "ss ! (j - 1)"] show ?thesis by (cases j) auto
  next
    case (Suc i')
    with Cons.prems Cons.IH [of "sp_end_layer s" i' "j - 1"] show ?thesis by (cases j) auto
  qed
qed simp

text \<open>Where a stage begins in the list of layers.\<close>

definition boundary :: "ShardSpec list \<Rightarrow> int \<Rightarrow> nat \<Rightarrow> int" where
  "boundary shards total_layers i = (if i < length shards then sp_start_layer (shards ! i) else total_layers)"

lemma boundary_step:
  assumes "stages_from 0 shards t" and "i < length shards"
  shows "boundary shards t (Suc i) = sp_end_layer (shards ! i)" "0 \<le> boundary shards t i" "boundary shards t i < sp_end_layer (shards ! i)"
    "sp_end_layer (shards ! i) \<le> t" "boundary shards t i = sp_start_layer (shards ! i)"
proof -
  show "boundary shards t (Suc i) = sp_end_layer (shards ! i)"
  proof (cases "Suc i < length shards")
    case True
    with stages_links(1) [OF assms(1) True] show ?thesis by (simp add: boundary_def)
  next
    case False
    with assms(2) have "shards \<noteq> []" and "length shards = Suc i" by auto
    with stages_links(2) [OF assms(1)] show ?thesis by (simp add: boundary_def last_conv_nth)
  qed
  show "0 \<le> boundary shards t i" "boundary shards t i < sp_end_layer (shards ! i)" "sp_end_layer (shards ! i) \<le> t"
    "boundary shards t i = sp_start_layer (shards ! i)"
    using stages_starts [OF assms(1), of "shards ! i"] assms(2) by (simp_all add: boundary_def)
qed

lemma boundary_0: "stages_from 0 shards t \<Longrightarrow> boundary shards t 0 = 0"
  by (cases shards) (auto simp: boundary_def)

lemma stage_roles:
  assumes st: "stages_from 0 shards t" and i: "i < length shards"
  shows "(sp_start_layer (shards ! i) = 0 \<longleftrightarrow> i = 0) \<and> (sp_end_layer (shards ! i) = t \<longleftrightarrow> Suc i = length shards)"
proof -
  have "boundary shards t i < boundary shards t j" if "i < j" "j \<le> length shards" for i j
    using boundary_step [OF st, of i] stages_disjoint [OF st, of i j] boundary_step [OF st, of j] that by (cases "j < length shards") (auto simp: boundary_def)
  from this [of 0 i] this [of "Suc i" "length shards"] boundary_0 [OF st] boundary_step [OF st i] i
  show ?thesis by (cases i; cases "Suc i = length shards") (auto simp: boundary_def)
qed

text \<open>The caches of the nodes, each at the layers of its shard, are those of the single process.\<close>

definition caches_match :: "('t, 'w, 'k, 'a) ReferenceModel \<Rightarrow> ShardSpec list \<Rightarrow> 'k list \<Rightarrow> 'k list list \<Rightarrow> bool" where
  "caches_match rm shards C cs \<longleftrightarrow> length cs = length shards \<and> (\<forall>j < length shards. agree rm (stage_layers (shards ! j)) C (cs ! j))"

text \<open>The masks a node builds are those of the single process: the pass is the prefill, or it has one
  token.\<close>

definition same_masks :: "('t, 'w, 'k, 'a) ReferenceModel \<Rightarrow> ('t \<Rightarrow> nat) \<Rightarrow> 't \<Rightarrow> 'k list \<Rightarrow> 'k list list \<Rightarrow> bool" where
  "same_masks rm seq_len h0 C cs \<longleftrightarrow> seq_len h0 = 1 \<or> C = rm_make_cache rm \<and> (\<forall>c \<in> set cs. c = rm_make_cache rm)"

lemma stage_step:
  assumes ok: "model_ok rm tensor seq_len" and st: "stages_from 0 shards (num_layers rm)" and i: "i < length shards"
    and m: "caches_match rm shards C cs" and h: "tensor h"
    and masks: "make_masks rm h (cs ! i) = masks"
  shows "\<exists>h' C' c'. run_atomic (rm_text_model rm) masks [boundary shards (num_layers rm) i..boundary shards (num_layers rm) (Suc i) - 1] h C = Inr (h', C') \<and>
    mlx_stage rm (shards ! i) h (cs ! i) = (h', c') \<and> caches_match rm shards C' (cs[i := c']) \<and> seq_len h' = seq_len h \<and> tensor h'"
proof -
  let ?sh = "shards ! i" and ?n = "num_layers rm"
  let ?ls = "[sp_start_layer ?sh..sp_end_layer ?sh - 1]"
  note b = boundary_step [OF st i]
  have set: "set ?ls = stage_layers ?sh" by auto
  have sub: "set ?ls \<subseteq> {0..<?n}" using b by auto
  have a: "agree rm (set ?ls) C (cs ! i)" using m i unfolding caches_match_def set by simp
  obtain h' C' c' where r: "run_atomic (rm_text_model rm) masks ?ls h C = Inr (h', C')" "run_atomic (rm_text_model rm) masks ?ls h (cs ! i) = Inr (h', c')"
    and a': "agree rm (set ?ls) C' c'" and u: "untouched rm (set ?ls) C C'" and t: "seq_len h' = seq_len h" "tensor h'"
    using run_on_both [OF ok sub a h] by blast
  have len: "length C' = length (rm_make_cache rm)" using a' by (simp add: agree_def)
  have "agree rm (stage_layers (shards ! j)) C' (cs[i := c'] ! j)" if j: "j < length shards" for j
  proof (cases "j = i")
    case True
    with a' m i show ?thesis unfolding set caches_match_def by simp
  next
    case False
    have "stage_layers (shards ! j) \<subseteq> {0..<?n} - set ?ls"
      using False stages_disjoint [OF st, of i j] stages_disjoint [OF st, of j i] boundary_step [OF st j] j i by (cases "i < j") auto
    moreover have "agree rm (stage_layers (shards ! j)) C (cs ! j)" using m j by (simp add: caches_match_def)
    ultimately show ?thesis using u len False unfolding agree_def untouched_def by auto
  qed
  then have "caches_match rm shards C' (cs[i := c'])" using m by (simp add: caches_match_def)
  moreover have "mlx_stage rm ?sh h (cs ! i) = (h', c')" using r(2) by (simp add: mlx_stage_def masks)
  ultimately show ?thesis using r(1) t b by auto
qed

lemma pass_prefix:
  assumes ok: "model_ok rm tensor seq_len" and st: "stages_from 0 shards (num_layers rm)"
    and m: "caches_match rm shards C cs" and h: "tensor h0" and s: "same_masks rm seq_len h0 C cs"
  shows "i \<le> length shards \<Longrightarrow> \<exists>h C' cs'. partial_pass (map (mlx_stage rm) shards) (h0, cs) i = (h, cs') \<and>
    run_atomic (rm_text_model rm) (make_masks rm h0 C) [0..boundary shards (num_layers rm) i - 1] h0 C = Inr (h, C') \<and>
    caches_match rm shards C' cs' \<and> seq_len h = seq_len h0 \<and> tensor h \<and> (\<forall>j \<ge> i. cs' ! j = cs ! j)"
proof (induction i)
  case 0
  show ?case using boundary_0 [OF st] m h by (simp add: run_atomic_def)
next
  case (Suc i)
  then obtain h C' cs' where IH: "partial_pass (map (mlx_stage rm) shards) (h0, cs) i = (h, cs')"
    "run_atomic (rm_text_model rm) (make_masks rm h0 C) [0..boundary shards (num_layers rm) i - 1] h0 C = Inr (h, C')"
    "caches_match rm shards C' cs'" "seq_len h = seq_len h0" "tensor h" "\<forall>j \<ge> i. cs' ! j = cs ! j" by auto
  have i: "i < length shards" using Suc.prems by simp
  have "cs ! i \<in> set cs" using m i by (simp add: caches_match_def)
  then have "make_masks rm h (cs' ! i) = make_masks rm h0 C"
    using s IH(4,6) ok unfolding same_masks_def model_ok_def by (metis order_refl)
  from stage_step [OF ok st i IH(3,5) this] obtain h' C'' c' where
    step: "run_atomic (rm_text_model rm) (make_masks rm h0 C) [boundary shards (num_layers rm) i..boundary shards (num_layers rm) (Suc i) - 1] h C' = Inr (h', C'')"
      "mlx_stage rm (shards ! i) h (cs' ! i) = (h', c')" "caches_match rm shards C'' (cs'[i := c'])" "seq_len h' = seq_len h" "tensor h'" by blast
  note b = boundary_step [OF st i]
  have up: "[0..boundary shards (num_layers rm) (Suc i) - 1] = [0..boundary shards (num_layers rm) i - 1] @ [boundary shards (num_layers rm) i..boundary shards (num_layers rm) (Suc i) - 1]"
    by (rule upto_split) (use b in simp_all)
  show ?case using IH step i by (auto simp: up run_atomic_append)
qed

lemma pass_is_forward:
  assumes ok: "model_ok rm tensor seq_len" and st: "stages_from 0 shards (num_layers rm)"
    and m: "caches_match rm shards C cs" and h: "tensor (embed_tokens rm toks)" and s: "same_masks rm seq_len (embed_tokens rm toks) C cs"
    and p: "partial_pass (map (mlx_stage rm) shards) (embed_tokens rm toks, cs) (length shards) = (h', cs')"
  shows "\<exists>C'. forward_step rm toks C = Inr (rm_argmax_last rm (finalize rm h'), C') \<and> caches_match rm shards C' cs' \<and> tensor h'"
proof -
  have "boundary shards (num_layers rm) (length shards) = num_layers rm" by (simp add: boundary_def)
  with pass_prefix [OF ok st m h s, of "length shards"] p show ?thesis by (auto simp: forward_step_def Let_def)
qed

section \<open>A ring of MLX nodes\<close>

lemma last_at: "2 \<le> n \<Longrightarrow> length xs = n \<Longrightarrow> last xs = xs ! (n - 1)"
  by (cases xs rule: rev_cases) auto

text \<open>A node that runs its shard of the model with MLX, none of its layers split over peers.\<close>

definition runs_mlx :: "('t, 'w, 'k, 'a) ReferenceModel \<Rightarrow> ShardSpec \<Rightarrow> ('b, 't, 'k list, 't Orch \<times> nat) NodeEngine \<Rightarrow> bool" where
  "runs_mlx rm shard eng \<longleftrightarrow> ne_make_cache eng = rm_make_cache rm \<and> ne_embed eng = (\<lambda>toks. Inr (embed_tokens rm toks)) \<and>
     ne_finalize eng = finalize rm \<and> ne_argmax_last eng = rm_argmax_last rm \<and>
     (\<exists>oc has_orchestrator envs. ne_run_my_layers eng = mlx_run_my_layers oc rm shard [] has_orchestrator envs)"

definition mlx_ring :: "('t, 'w, 'k, 'a) ReferenceModel \<Rightarrow> ('t \<Rightarrow> bool) \<Rightarrow> ('b, 't, 'k list, 't Orch \<times> nat) NodeEngine list \<Rightarrow> 'b ExpertNode list \<Rightarrow>
    string \<Rightarrow> int list \<Rightarrow> int \<Rightarrow> ('b, 't, 'k list, 't Orch \<times> nat) Ring" where
  "mlx_ring rm tensor engs experts request_id prompt max_new_tokens =
     \<lparr>rg_engs = engs, rg_experts = experts, rg_stages = map (\<lambda>en. mlx_stage rm (en_shard en)) experts, rg_embed = embed_tokens rm,
      rg_request_id = request_id, rg_prompt = prompt, rg_max_new_tokens = max_new_tokens, rg_tensor = tensor,
      rg_cache = (\<lambda>_ c. length c = length (rm_make_cache rm))\<rparr>"

text \<open>The shards cover the model in order, provenance is off, and a tensor arrives as it was sent.\<close>

definition mlx_cluster :: "('t, 'w, 'k, 'a) ReferenceModel \<Rightarrow> ('t \<Rightarrow> bool) \<Rightarrow> ('b, 't, 'k list, 't Orch \<times> nat) NodeEngine list \<Rightarrow> 'b ExpertNode list \<Rightarrow> bool" where
  "mlx_cluster rm tensor engs experts \<longleftrightarrow> 2 \<le> length experts \<and> length engs = length experts \<and>
     stages_from 0 (map en_shard experts) (num_layers rm) \<and>
     (\<forall>i < length experts. \<not> en_provenance_enabled (experts ! i) \<and> en_total_layers (experts ! i) = num_layers rm \<and> runs_mlx rm (en_shard (experts ! i)) (engs ! i)) \<and>
     (\<forall>i. Suc i < length experts \<longrightarrow> (\<forall>h. tensor h \<longrightarrow> (\<exists>d. describe (ne_ops (engs ! i)) h = Inr d \<and>
        from_bytes (ne_ops (engs ! Suc i)) (to_bytes (ne_ops (engs ! i)) h) (td_shape d) (td_dtype d) = Inr h)))"

lemma mlx_node_run:
  assumes "runs_mlx rm sh eng" and "run_atomic (rm_text_model rm) (make_masks rm h c) [sp_start_layer sh..sp_end_layer sh - 1] h c = Inr r"
  shows "fst (ne_run_my_layers eng rid h c None orch) = Inr (mlx_stage rm sh h c, None)"
proof -
  obtain oc has envs where e: "ne_run_my_layers eng = mlx_run_my_layers oc rm sh [] has envs" using assms(1) by (auto simp: runs_mlx_def)
  have "run_layers oc (rm_text_model rm) h (sp_start_layer sh) (sp_end_layer sh) c (make_masks rm h c) [] has rid (envs (snd orch)) ((fst orch)\<lparr>os_chain := None\<rparr>) =
      (Inr r, (fst orch)\<lparr>os_chain := None\<rparr>)"
    unfolding run_layers_def by (subst run_layer_list_atomic) (simp_all add: assms(2) slift_def)
  then show ?thesis using assms(2) by (simp add: e mlx_run_my_layers_def mlx_stage_def case_prod_beta)
qed

lemma mlx_stage_good:
  assumes ok: "model_ok rm tensor seq_len" and st: "stages_from 0 shards (num_layers rm)" and i: "i < length shards"
    and h: "tensor h" and c: "length c = length (rm_make_cache rm)"
  shows "\<exists>h' c'. run_atomic (rm_text_model rm) (make_masks rm h c) [sp_start_layer (shards ! i)..sp_end_layer (shards ! i) - 1] h c = Inr (h', c') \<and>
    mlx_stage rm (shards ! i) h c = (h', c') \<and> tensor h' \<and> length c' = length (rm_make_cache rm)"
proof -
  let ?ls = "[sp_start_layer (shards ! i)..sp_end_layer (shards ! i) - 1]"
  have "set ?ls \<subseteq> {0..<num_layers rm}" using boundary_step [OF st i] by auto
  moreover have "agree rm (set ?ls) c c" using c by (simp add: agree_def)
  ultimately obtain h' C' c' where "run_atomic (rm_text_model rm) (make_masks rm h c) ?ls h c = Inr (h', c')" "agree rm (set ?ls) C' c'" "tensor h'"
    using run_on_both [OF ok _ _ h, of ?ls c c "make_masks rm h c"] by blast
  then show ?thesis by (simp add: mlx_stage_def agree_def)
qed

lemma mlx_ring_is_ok:
  assumes ok: "model_ok rm tensor seq_len" and cl: "mlx_cluster rm tensor engs experts"
    and prompt: "prompt \<noteq> []" "\<forall>t \<in> set prompt. 0 \<le> t" and mx: "0 \<le> mx"
  shows "ring_ok (mlx_ring rm tensor engs experts rid prompt mx)"
proof -
  let ?shards = "map en_shard experts" and ?R = "mlx_ring rm tensor engs experts rid prompt mx"
  have k: "2 \<le> length experts" "length engs = length experts" and st: "stages_from 0 ?shards (num_layers rm)"
    and node: "\<And>i. i < length experts \<Longrightarrow> \<not> en_provenance_enabled (experts ! i) \<and> en_total_layers (experts ! i) = num_layers rm \<and> runs_mlx rm (en_shard (experts ! i)) (engs ! i)"
    and wire: "\<And>i h. Suc i < length experts \<Longrightarrow> tensor h \<Longrightarrow> \<exists>d. describe (ne_ops (engs ! i)) h = Inr d \<and>
        from_bytes (ne_ops (engs ! Suc i)) (to_bytes (ne_ops (engs ! i)) h) (td_shape d) (td_dtype d) = Inr h"
    using cl unfolding mlx_cluster_def by blast+
  have stage: "fst (ne_run_my_layers (engs ! i) rid h c None orch) = Inr (mlx_stage rm (en_shard (experts ! i)) h c, None) \<and>
      tensor (fst (mlx_stage rm (en_shard (experts ! i)) h c)) \<and> length (snd (mlx_stage rm (en_shard (experts ! i)) h c)) = length (rm_make_cache rm)"
    if i: "i < length experts" and h: "tensor h" and c: "length c = length (rm_make_cache rm)" for i h c orch
  proof -
    obtain h' c' where r: "run_atomic (rm_text_model rm) (make_masks rm h c) [sp_start_layer (?shards ! i)..sp_end_layer (?shards ! i) - 1] h c = Inr (h', c')"
      "mlx_stage rm (?shards ! i) h c = (h', c')" "tensor h'" "length c' = length (rm_make_cache rm)"
      using mlx_stage_good [OF ok st _ h c, of i] i by auto
    with mlx_node_run [of rm "?shards ! i" "engs ! i" h c "(h', c')" rid orch] node [OF i] i show ?thesis by simp
  qed
  have roles: "(sp_start_layer (en_shard (experts ! i)) = 0 \<longleftrightarrow> i = 0) \<and> (sp_end_layer (en_shard (experts ! i)) = num_layers rm \<longleftrightarrow> Suc i = length experts)"
    if "i < length experts" for i
    using stage_roles [OF st, of i] that by simp
  have links: "sp_start_layer (en_shard (experts ! Suc i)) = sp_end_layer (en_shard (experts ! i))" if "Suc i < length experts" for i
    using stages_links(1) [OF st, of i] that by simp
  have embed: "tensor (embed_tokens rm toks)" if "toks = prompt \<or> (\<exists>t \<ge> 0. toks = [t])" for toks
    using ok prompt that by (auto simp: model_ok_def)
  have "last engs = engs ! (length experts - 1)" "runs_mlx rm (en_shard (experts ! (length experts - 1))) (engs ! (length experts - 1))"
    using last_at [OF k] k(1) node [of "length experts - 1"] by simp_all
  then have sample: "0 \<le> sample ?R h" if "tensor h" for h
    using ok that by (simp add: sample_def mlx_ring_def runs_mlx_def model_ok_def)
  have make: "ne_make_cache (engs ! i) = rm_make_cache rm" "ne_embed (engs ! i) toks = Inr (embed_tokens rm toks)" if "i < length experts" for i toks
    using node [OF that] by (simp_all add: runs_mlx_def)
  have "0 < length experts" using k(1) by (cases experts) simp_all
  note first = make(2) [OF this]
  show ?thesis
    using k mx roles stage wire links node embed sample make(1) first unfolding ring_ok_def Let_def
    by (simp add: mlx_ring_def)
qed

section \<open>Against the oracle\<close>

lemma mlx_forward:
  assumes ok: "model_ok rm tensor seq_len" and cl: "mlx_cluster rm tensor engs experts" and R: "ring_ok R"
    and R_def: "R = mlx_ring rm tensor engs experts rid prompt mx"
    and m: "caches_match rm (map en_shard experts) C (snd (pass_in R t))" and s: "same_masks rm seq_len (embed_tokens rm (fst (pass_in R t))) C (snd (pass_in R t))"
  shows "\<exists>C'. forward_step rm (fst (pass_in R t)) C = Inr (token_at R t, C') \<and> caches_match rm (map en_shard experts) C' (snd (pass_in R (Suc t)))"
proof -
  let ?shards = "map en_shard experts" and ?k = "length experts"
  have k: "2 \<le> ?k" "length engs = ?k" and st: "stages_from 0 ?shards (num_layers rm)"
    and last: "?k - 1 < ?k \<longrightarrow> runs_mlx rm (en_shard (experts ! (?k - 1))) (engs ! (?k - 1))" using cl unfolding mlx_cluster_def by blast+
  have "last engs = engs ! (?k - 1)" by (rule last_at [OF k])
  with last k have sample: "sample R h = rm_argmax_last rm (finalize rm h)" for h by (simp add: sample_def R_def mlx_ring_def runs_mlx_def)
  have "part R t ?k = partial_pass (map (mlx_stage rm) ?shards) (embed_tokens rm (fst (pass_in R t)), snd (pass_in R t)) (length ?shards)"
    by (simp add: part_def R_def mlx_ring_def comp_def)
  then have p: "partial_pass (map (mlx_stage rm) ?shards) (embed_tokens rm (fst (pass_in R t)), snd (pass_in R t)) (length ?shards) = (fst (part R t ?k), snd (part R t ?k))"
    by simp
  have h: "tensor (embed_tokens rm (fst (pass_in R t)))" using part_tensor [OF R, of 0 t] by (simp add: R_def mlx_ring_def)
  have "stage_count R = ?k" using k by (simp add: R_def mlx_ring_def)
  with pass_is_forward [OF ok st m h s p] show ?thesis by (auto simp: pass_in_Suc token_at_def sample)
qed

lemma greedy_is_reference:
  assumes ok: "model_ok rm tensor seq_len" and cl: "mlx_cluster rm tensor engs experts" and R: "ring_ok R"
    and R_def: "R = mlx_ring rm tensor engs experts rid prompt mx" and mx: "0 \<le> mx"
  shows "generate_greedy rm prompt mx = Inr (reference_tokens R)"
proof -
  let ?shards = "map en_shard experts"
  have one: "seq_len (embed_tokens rm [token_at R t]) = 1" for t using ok token_nonneg [OF R] by (simp add: model_ok_def)
  have loop: "greedy_loop rm n (token_at R t) C = Inr (map (token_at R) [Suc t..<Suc t + n])" if "caches_match rm ?shards C (snd (pass_in R (Suc t)))" for n t C
    using that
  proof (induction n arbitrary: t C)
    case (Suc n)
    have "same_masks rm seq_len (embed_tokens rm (fst (pass_in R (Suc t)))) C (snd (pass_in R (Suc t)))" using one by (simp add: same_masks_def pass_in_Suc)
    from mlx_forward [OF ok cl R R_def Suc.prems this] obtain C' where
      f: "forward_step rm [token_at R t] C = Inr (token_at R (Suc t), C')" "caches_match rm ?shards C' (snd (pass_in R (Suc (Suc t))))" by (auto simp: pass_in_Suc)
    have "[Suc t..<Suc t + Suc n] = Suc t # [Suc (Suc t)..<Suc (Suc t) + n]" by (subst upt_conv_Cons) simp_all
    with f Suc.IH [OF f(2)] show ?case by simp
  qed simp
  have k: "length engs = length experts" and make: "\<forall>i < length experts. ne_make_cache (engs ! i) = rm_make_cache rm"
    using cl unfolding mlx_cluster_def runs_mlx_def by blast+
  then have caches: "snd (pass_in R 0) = replicate (length experts) (rm_make_cache rm)" "fst (pass_in R 0) = prompt"
    by (auto simp: R_def mlx_ring_def list_eq_iff_nth_eq)
  then have "caches_match rm ?shards (rm_make_cache rm) (snd (pass_in R 0))" "same_masks rm seq_len (embed_tokens rm (fst (pass_in R 0))) (rm_make_cache rm) (snd (pass_in R 0))"
    by (simp_all add: caches_match_def agree_def same_masks_def)
  from mlx_forward [OF ok cl R R_def this] obtain C' where
    f: "forward_step rm prompt (rm_make_cache rm) = Inr (token_at R 0, C')" "caches_match rm ?shards C' (snd (pass_in R (Suc 0)))" unfolding caches(2) by blast
  have n: "token_count R = Suc (nat (mx - 1))" using mx by (auto simp: token_count_def R_def mlx_ring_def)
  have "[0..<token_count R] = 0 # [Suc 0..<Suc 0 + nat (mx - 1)]" unfolding n by (subst upt_conv_Cons) simp_all
  with f loop [OF f(2), of "nat (mx - 1)"] show ?thesis by (simp add: generate_greedy_def reference_tokens_def)
qed

text \<open>C1: The pipeline is bit exact.  A model split over a ring of MLX nodes is asked for tokens and run, in
  any order of deliveries, until nothing is left to deliver: the client returns the tokens that the model
  generates greedily in one process.\<close>

theorem mlx_pipeline_bit_exact:
  assumes ok: "model_ok rm tensor seq_len" and cl: "mlx_cluster rm tensor engs experts"
    and prompt: "prompt \<noteq> []" "\<forall>t \<in> set prompt. is_u32 t" and mx: "is_u32 mx"
    and R_def: "R = mlx_ring rm tensor engs experts rid prompt mx" and fresh: "fresh_nodes R nodes"
    and run: "(ring_step R)\<^sup>*\<^sup>* (submit_request R nodes) s" and rest: "\<nexists>s'. ring_step R s s'"
  shows "generate (Inr (\<lambda>_. sy_client s)) rid prompt mx = generate_greedy rm prompt mx"
proof -
  have u: "\<forall>t \<in> set prompt. 0 \<le> t" "0 \<le> mx" using prompt(2) mx by (auto simp: is_u32_def)
  have R: "ring_ok R" unfolding R_def by (rule mlx_ring_is_ok [OF ok cl prompt(1) u])
  have "generate (Inr (\<lambda>_. sy_client s)) (rg_request_id R) (rg_prompt R) (rg_max_new_tokens R) = Inr (reference_tokens R)"
    using client_at_rest [OF R fresh run] rest prompt(2) mx by (simp add: R_def mlx_ring_def)
  then show ?thesis using greedy_is_reference [OF ok cl R R_def u(2)] by (simp add: R_def mlx_ring_def)
qed

end
