(* ===== verification/Service.thy ===== *)
theory Service
  imports Bit_Exact
begin

text \<open>
  A cluster that serves one request after another.  \<^verbatim>\<open>served\<close> relates the nodes before and after a
  request, whatever the order of deliveries; \<^verbatim>\<open>settle\<close> is one scheduler, with fuel, which shows that
  such runs exist and can be computed.
\<close>

declare map_of_eq_Some_iff [simp del] Some_eq_map_of_iff [simp del]

section \<open>One request\<close>

definition valid_request :: "int list \<Rightarrow> int \<Rightarrow> bool" where
  "valid_request prompt max_new_tokens \<longleftrightarrow> prompt \<noteq> [] \<and> (\<forall>t \<in> set prompt. is_u32 t) \<and> is_u32 max_new_tokens"

text \<open>The client's call, from the request on a cluster to the ring at rest.\<close>

inductive served :: "('t, 'w, 'k, 'a) ReferenceModel \<Rightarrow> ('t \<Rightarrow> bool) \<Rightarrow> ('b, 't, 'k list, 't Orch \<times> nat) NodeEngine list \<Rightarrow> 'b ExpertNode list \<Rightarrow>
    ('b, 't, 'k list, 't Orch \<times> nat) PNode list \<Rightarrow> int list \<Rightarrow> int \<Rightarrow> int list result \<Rightarrow> ('b, 't, 'k list, 't Orch \<times> nat) PNode list \<Rightarrow> bool"
  for rm tensor engs experts where
  serve: "R = mlx_ring rm tensor engs experts request_id prompt max_new_tokens \<Longrightarrow> (ring_step R)\<^sup>*\<^sup>* (submit_request R nodes) s \<Longrightarrow>
    (\<nexists>s'. ring_step R s s') \<Longrightarrow>
    served rm tensor engs experts nodes prompt max_new_tokens
      (generate (Inr (\<lambda>_. sy_client s)) request_id prompt max_new_tokens) (sy_nodes s)"

lemma mlx_ring_valid:
  assumes "model_ok rm tensor seq_len" and "mlx_cluster rm tensor engs experts" and "valid_request prompt mx"
  shows "ring_ok (mlx_ring rm tensor engs experts rid prompt mx)"
  using assms by (intro mlx_ring_is_ok) (auto simp: valid_request_def is_u32_def)

lemma mlx_ring_simps [simp]:
  "rg_experts (mlx_ring rm tensor engs experts rid prompt mx) = experts" "rg_request_id (mlx_ring rm tensor engs experts rid prompt mx) = rid"
  "rg_prompt (mlx_ring rm tensor engs experts rid prompt mx) = prompt" "rg_max_new_tokens (mlx_ring rm tensor engs experts rid prompt mx) = mx"
  by (simp_all add: mlx_ring_def)

lemma served_greedy:
  assumes ok: "model_ok rm tensor seq_len" and cl: "mlx_cluster rm tensor engs experts" and v: "valid_request prompt mx"
    and rest: "resting experts nodes" and sv: "served rm tensor engs experts nodes prompt mx r nodes'"
  shows "r = generate_greedy rm prompt mx \<and> returns r \<and> resting experts nodes'"
  using sv
proof cases
  case (serve R rid s)
  have R: "ring_ok R" unfolding serve(3) by (rule mlx_ring_valid [OF ok cl v])
  have ex: "rg_experts R = experts" by (simp add: serve(3))
  have "r = Inr (reference_tokens R)"
    using client_at_rest [OF R resting_fresh [OF R] serve(4)] serve(5) rest v unfolding serve(1) by (simp add: serve(3) valid_request_def)
  moreover have "generate_greedy rm prompt mx = Inr (reference_tokens R)"
    using greedy_is_reference [OF ok cl R serve(3)] v by (simp add: valid_request_def is_u32_def)
  moreover have "resting experts nodes'" using served_resting [OF R _ serve(4,5)] rest unfolding ex serve(2) by simp
  ultimately show ?thesis by (simp add: returns_def)
qed

section \<open>A scheduler\<close>

definition ring_next :: "('b, 't, 'c, 'o) Ring \<Rightarrow> ('b, 't, 'c, 'o) Sys \<Rightarrow> ('b, 't, 'c, 'o) Sys option" where
  "ring_next R s =
     (let k = length (sy_nodes s) in
      case find (\<lambda>i. sy_links s ! i \<noteq> []) [0..<k] of
        Some i \<Rightarrow>
          (let j = Suc i mod k in
           Some (absorb j (serve_frame (rg_engs R ! j) 1 (hd (sy_links s ! i)) (sy_nodes s ! j)) (s\<lparr>sy_links := (sy_links s)[i := tl (sy_links s ! i)]\<rparr>)))
      | None \<Rightarrow>
          (case find (\<lambda>(j, sid). decode_ready (sy_nodes s ! j) sid)
                  (concat (map (\<lambda>j. map (Pair j) [0..<length (pn_states (sy_nodes s ! j))]) [0..<k])) of
             Some (j, sid) \<Rightarrow> Some (absorb j (snd (decode_round (rg_engs R ! j) sid (sy_nodes s ! j))) s)
           | None \<Rightarrow> None))"

fun settle :: "('b, 't, 'c, 'o) Ring \<Rightarrow> nat \<Rightarrow> ('b, 't, 'c, 'o) Sys \<Rightarrow> ('b, 't, 'c, 'o) Sys" where
  "settle R 0 s = s"
| "settle R (Suc fuel) s = (case ring_next R s of None \<Rightarrow> s | Some s' \<Rightarrow> settle R fuel s')"

inductive_cases ring_stepE: "ring_step R s s'"

lemma ring_next_step:
  assumes "ring_next R s = Some s'"
  shows "ring_step R s s'"
proof (cases "find (\<lambda>i. sy_links s ! i \<noteq> []) [0..<length (sy_nodes s)]")
  case (Some i)
  then have i: "i < length (sy_nodes s)" "sy_links s ! i \<noteq> []" by (auto simp: find_Some_iff)
  from ring_step.deliver [OF i(1) _ refl, of "hd (sy_links s ! i)" "tl (sy_links s ! i)"] i(2) Some assms show ?thesis by (auto simp: ring_next_def Let_def)
next
  case None
  with assms obtain j sid where f: "find (\<lambda>(j, sid). decode_ready (sy_nodes s ! j) sid)
      (concat (map (\<lambda>j. map (Pair j) [0..<length (pn_states (sy_nodes s ! j))]) [0..<length (sy_nodes s)])) = Some (j, sid)"
    and s': "s' = absorb j (snd (decode_round (rg_engs R ! j) sid (sy_nodes s ! j))) s"
    by (auto simp: ring_next_def Let_def split: option.splits)
  from f have "decode_ready (sy_nodes s ! j) sid" by (auto simp: find_Some_iff)
  moreover from f have "(j, sid) \<in> set (concat (map (\<lambda>j. map (Pair j) [0..<length (pn_states (sy_nodes s ! j))]) [0..<length (sy_nodes s)]))"
    by (metis (no_types, lifting) find_Some_iff nth_mem)
  then have "j < length (sy_nodes s)" by auto
  ultimately show ?thesis unfolding s' by (intro ring_step.wake)
qed

lemma ring_next_None: "ring_next R s = None \<Longrightarrow> \<not> ring_step R s s'"
  by (force simp: ring_next_def Let_def find_None_iff decode_ready_def split: option.splits elim!: ring_stepE)

text \<open>The fuel is the number of steps of a run, which is known: the scheduler comes to rest.\<close>

lemma settle_run: "\<exists>m \<le> fuel. (ring_step R ^^ m) s (settle R fuel s) \<and> (m < fuel \<longrightarrow> (\<nexists>s'. ring_step R (settle R fuel s) s'))"
proof (induction fuel arbitrary: s)
  case (Suc fuel)
  show ?case
  proof (cases "ring_next R s")
    case None
    then show ?thesis using ring_next_None [OF None] by (intro exI [of _ 0]) simp
  next
    case (Some s')
    from Suc.IH [of s'] obtain m where "m \<le> fuel" "(ring_step R ^^ m) s' (settle R fuel s')" "m < fuel \<longrightarrow> (\<nexists>s''. ring_step R (settle R fuel s') s'')" by blast
    with Some ring_next_step [OF Some] show ?thesis by (intro exI [of _ "Suc m"]) (auto intro: relpowp_Suc_I2 simp del: relpowp.simps)
  qed
qed simp

definition settle_fuel :: "('b, 't, 'c, 'o) Ring \<Rightarrow> nat" where
  "settle_fuel R = Suc (token_count R * (stage_count R + 1) + (stage_count R - 1))"

lemma settle_rests:
  assumes R: "ring_ok R" and fresh: "fresh_nodes R nodes"
  defines "s \<equiv> settle R (settle_fuel R) (submit_request R nodes)"
  shows "(ring_step R)\<^sup>*\<^sup>* (submit_request R nodes) s \<and> (\<nexists>s'. ring_step R s s')"
proof -
  obtain m where m: "(ring_step R ^^ m) (submit_request R nodes) s" "m < settle_fuel R \<longrightarrow> (\<nexists>s'. ring_step R s s')"
    unfolding s_def using settle_run by blast
  from runs_in_phases [OF R fresh m(1)] obtain ph where "phase_ok R ph" "rank R ph = m" by blast
  with rank_bound(1) [OF R] have "m < settle_fuel R" unfolding settle_fuel_def by fastforce
  with m show ?thesis by (auto intro: relpowp_imp_rtranclp)
qed

text \<open>The call of a client on a cluster run by this scheduler.\<close>

definition cluster_generate :: "('t, 'w, 'k, 'a) ReferenceModel \<Rightarrow> ('t \<Rightarrow> bool) \<Rightarrow> ('b, 't, 'k list, 't Orch \<times> nat) NodeEngine list \<Rightarrow> 'b ExpertNode list \<Rightarrow>
    string \<Rightarrow> int list \<Rightarrow> int \<Rightarrow> (('b, 't, 'k list, 't Orch \<times> nat) PNode list, py_exn, int list) prog" where
  "cluster_generate rm tensor engs experts request_id prompt max_new_tokens nodes =
     (let R = mlx_ring rm tensor engs experts request_id prompt max_new_tokens; s = settle R (settle_fuel R) (submit_request R nodes)
      in (generate (Inr (\<lambda>_. sy_client s)) request_id prompt max_new_tokens, sy_nodes s))"

lemma cluster_generate_served:
  assumes "model_ok rm tensor seq_len" and "mlx_cluster rm tensor engs experts" and "valid_request prompt mx" and "resting experts nodes"
  shows "served rm tensor engs experts nodes prompt mx
    (fst (cluster_generate rm tensor engs experts rid prompt mx nodes)) (snd (cluster_generate rm tensor engs experts rid prompt mx nodes))"
proof -
  let ?R = "mlx_ring rm tensor engs experts rid prompt mx"
  have R: "ring_ok ?R" by (rule mlx_ring_valid [OF assms(1-3)])
  have "fresh_nodes ?R nodes" using resting_fresh [OF R] assms(4) by simp
  from settle_rests [OF R this] show ?thesis by (simp add: cluster_generate_def Let_def served.serve [OF refl])
qed

end
