(* ===== verification/Demo_Ring.thy ===== *)
theory Demo_Ring
  imports Bit_Exact
begin

text \<open>
  A cluster of two nodes on which the statements about nodes, the pipeline and the client are tried: a model
  of three layers, the first on the head and the other two on the tail.
\<close>

declare map_of_eq_Some_iff [simp del] Some_eq_map_of_iff [simp del]

section \<open>The cluster\<close>

text \<open>A layer whose output depends on its cache, so that the order of the tokens matters.\<close>

definition ring_layer :: "(int list, int list list list, nat, unit) DecoderLayer" where
  "ring_layer = demo_layer\<lparr>dl_call := (\<lambda>x _ c. (map (\<lambda>v. (3 * v + int c + 1) mod 256) x, c + length x))\<rparr>"

definition ring_rm :: "(int list, int list list list, nat, unit) ReferenceModel" where
  "ring_rm = demo_rm\<lparr>rm_text_model := \<lparr>tm_layers = [ring_layer, ring_layer, ring_layer], tm_layer_idx_to_cache_idx = [0, 2, 1]\<rparr>,
     rm_make_cache := [0, 0, 0], rm_embed_lookup := map (\<lambda>t. t mod 256)\<rparr>"

definition byte_tensor :: "int list \<Rightarrow> bool" where
  "byte_tensor h \<longleftrightarrow> h \<noteq> [] \<and> (\<forall>x \<in> set h. 0 \<le> x \<and> x < 256)"

definition ring_head :: "nat LoadedModel ExpertNode" where
  "ring_head = demo_node\<lparr>en_shard := demo_spec ''head'' 9001 0 1, en_total_layers := 3\<rparr>"

definition ring_tail :: "nat LoadedModel ExpertNode" where
  "ring_tail = demo_node\<lparr>en_shard := demo_spec ''tail'' 9002 1 3, en_total_layers := 3\<rparr>"

definition ring_engine :: "ShardSpec \<Rightarrow> (nat LoadedModel, int list, nat list, int list Orch \<times> nat) NodeEngine" where
  "ring_engine shard = \<lparr>ne_make_cache = rm_make_cache ring_rm, ne_embed = (\<lambda>toks. Inr (embed_tokens ring_rm toks)),
     ne_run_my_layers = mlx_run_my_layers (demo_oc\<lparr>oc_backend := MLXBackend demo_ffn demo_arith (rm_text_model ring_rm) demo_full\<rparr>) ring_rm shard [] False (\<lambda>_ _. demo_env),
     ne_finalize = finalize ring_rm, ne_argmax_last = rm_argmax_last ring_rm, ne_ops = demo_tensor_ops, ne_stack = demo_stack,
     ne_run_experts = (\<lambda>_ _ _ _. Inr []), ne_slice = (\<lambda>_ _ _. Inr []), ne_notify = (\<lambda>_ s. s), ne_blake2b = (\<lambda>_. []), ne_clock = (\<lambda>_. 0)\<rparr>"

definition ring_engines :: "(nat LoadedModel, int list, nat list, int list Orch \<times> nat) NodeEngine list" where
  "ring_engines = map (\<lambda>en. ring_engine (en_shard en)) [ring_head, ring_tail]"

definition ring_node :: "nat LoadedModel ExpertNode \<Rightarrow> (nat LoadedModel, int list, nat list, int list Orch \<times> nat) PNode" where
  "ring_node en = \<lparr>pn_expert = en, pn_downstream = demo_spec ''tail'' 9002 1 3, pn_split_layers = [], pn_has_orchestrator = False, pn_orch = (demo_orch, 0),
     pn_kv_caches = [], pn_states = [], pn_head_states = [], pn_pending_finalize = [], pn_debug_captures = [], pn_out_open = False, pn_faults = [],
     pn_log = []\<rparr>"

abbreviation demo_ring :: "(nat LoadedModel, int list, nat list, int list Orch \<times> nat) Ring" where
  "demo_ring \<equiv> mlx_ring ring_rm byte_tensor ring_engines [ring_head, ring_tail] ''q'' [5, 1] 3"

abbreviation ring_nodes :: "(nat LoadedModel, int list, nat list, int list Orch \<times> nat) PNode list" where
  "ring_nodes \<equiv> [ring_node ring_head, ring_node ring_tail]"

lemma ring_model_ok: "model_ok ring_rm byte_tensor length"
proof -
  have t: "rm_text_model ring_rm = \<lparr>tm_layers = [ring_layer, ring_layer, ring_layer], tm_layer_idx_to_cache_idx = [0, 2, 1]\<rparr>"
    "rm_make_cache ring_rm = [0, 0, 0]" "rm_argmax_last ring_rm = last" by (simp_all add: ring_rm_def demo_rm_def)
  have e: "embed_tokens ring_rm toks = map (\<lambda>t. t mod 256) toks" "make_masks ring_rm h c = ((), ())" for toks h c
    by (simp_all add: embed_tokens_def make_masks_def ring_rm_def demo_rm_def)
  have f: "finalize ring_rm h = map (\<lambda>v. v mod 30) h" for h by (simp add: finalize_def ring_rm_def demo_rm_def)
  have "0 \<le> rm_argmax_last ring_rm (finalize ring_rm h)" if "byte_tensor h" for h
    using that by (simp add: byte_tensor_def t f last_map)
  then show ?thesis
    by (simp add: model_ok_def t e ring_layer_def byte_tensor_def)
qed

lemma ring_cluster: "mlx_cluster ring_rm byte_tensor ring_engines [ring_head, ring_tail]"
proof -
  have n: "num_layers ring_rm = 3" by (simp add: num_layers_def ring_rm_def)
  have sh: "en_shard ring_head = demo_spec ''head'' 9001 0 1" "en_shard ring_tail = demo_spec ''tail'' 9002 1 3"
    by (simp_all add: ring_head_def ring_tail_def)
  have mlx: "runs_mlx ring_rm shard (ring_engine shard)" for shard
    unfolding runs_mlx_def ring_engine_def by simp blast
  have wire: "\<exists>d. describe demo_tensor_ops h = Inr d \<and> from_bytes demo_tensor_ops (to_bytes demo_tensor_ops h) (td_shape d) (td_dtype d) = Inr h"
    if h: "byte_tensor h" for h
  proof -
    have "map (uint \<circ> (word_of_int :: int \<Rightarrow> 8 word)) t = t" if "\<forall>x \<in> set t. 0 \<le> x \<and> x < 256" for t
      using that by (induction t) (auto simp: uint_word_of_int)
    then show ?thesis using h by (simp add: describe_def demo_tensor_ops_def byte_tensor_def)
  qed
  have ops: "ne_ops (ring_engine shard) = demo_tensor_ops" for shard by (simp add: ring_engine_def)
  have nodes: "\<not> en_provenance_enabled en \<and> en_total_layers en = 3" if "en \<in> {ring_head, ring_tail}" for en
    using that by (auto simp: ring_head_def ring_tail_def demo_node_def)
  show ?thesis
    using mlx wire nodes by (auto simp: mlx_cluster_def ring_engines_def n sh ops demo_spec_def less_Suc_eq numeral_2_eq_2 nth_Cons')
qed

lemma ring_fresh: "fresh_nodes demo_ring ring_nodes"
  by (auto simp: fresh_nodes_def idle_def mlx_ring_def ring_engines_def ring_node_def unavailable_peer_def ring_head_def demo_node_def less_Suc_eq)

lemma demo_ring_ok: "ring_ok demo_ring"
  by (rule mlx_ring_is_ok [OF ring_model_ok ring_cluster]) simp_all

lemma ring_resting: "resting [ring_head, ring_tail] ring_nodes"
  by (auto simp: resting_def idle_def ring_node_def unavailable_peer_def ring_head_def demo_node_def less_Suc_eq)

lemma ring_greedy: "generate_greedy ring_rm [5, 1] 3 = Inr [10, 23, 11]"
  by code_simp

section \<open>The pipeline\<close>

lemma ring_rests:
  obtains s where "(ring_step demo_ring)\<^sup>*\<^sup>* (submit_request demo_ring ring_nodes) s" and "\<nexists>s'. ring_step demo_ring s s'"
  using run_to_rest [OF demo_ring_ok ring_fresh] by blast

lemma demo_ring_simps:
  "rg_request_id demo_ring = ''q''" "rg_prompt demo_ring = [5, 1]" "rg_max_new_tokens demo_ring = 3" "token_count demo_ring = 3"
  "stage_count demo_ring = 2"
  by (simp_all add: mlx_ring_def token_count_def ring_engines_def)

theorem mlx_pipeline_bit_exact_witness:
  "\<exists>s. (ring_step demo_ring)\<^sup>*\<^sup>* (submit_request demo_ring ring_nodes) s \<and> generate (Inr (\<lambda>_. sy_client s)) ''q'' [5, 1] 3 = Inr [10, 23, 11]"
proof -
  obtain s where s: "(ring_step demo_ring)\<^sup>*\<^sup>* (submit_request demo_ring ring_nodes) s" "\<nexists>s'. ring_step demo_ring s s'" by (rule ring_rests)
  have "generate (Inr (\<lambda>_. sy_client s)) ''q'' [5, 1] 3 = generate_greedy ring_rm [5, 1] 3"
    by (rule mlx_pipeline_bit_exact [OF ring_model_ok ring_cluster _ _ _ refl ring_fresh s]) (simp_all add: is_u32_def)
  with s ring_greedy show ?thesis by auto
qed

theorem pipeline_generates_reference_witness:
  "\<exists>s. (ring_step demo_ring)\<^sup>*\<^sup>* (submit_request demo_ring ring_nodes) s \<and> sy_client s = client_frames demo_ring 3 \<and>
     (\<forall>n \<in> set (sy_nodes s). dget (pn_kv_caches n) ''q'' = None)"
proof -
  obtain s where s: "(ring_step demo_ring)\<^sup>*\<^sup>* (submit_request demo_ring ring_nodes) s" "\<nexists>s'. ring_step demo_ring s s'" by (rule ring_rests)
  with pipeline_generates_reference [OF demo_ring_ok ring_fresh s(1), unfolded demo_ring_simps] show ?thesis by blast
qed

theorem pipeline_terminates_witness:
  "\<exists>s. (ring_step demo_ring ^^ 10) (submit_request demo_ring ring_nodes) s \<and> (\<nexists>s'. ring_step demo_ring s s')"
proof -
  obtain s where s: "(ring_step demo_ring)\<^sup>*\<^sup>* (submit_request demo_ring ring_nodes) s" "\<nexists>s'. ring_step demo_ring s s'" by (rule ring_rests)
  from s(1) obtain n where n: "(ring_step demo_ring ^^ n) (submit_request demo_ring ring_nodes) s" by (auto dest: rtranclp_imp_relpowp)
  with pipeline_terminates [OF demo_ring_ok ring_fresh n, unfolded demo_ring_simps] s(2) have "n = 10" by (cases "n < 10") auto
  with n s(2) show ?thesis by blast
qed

theorem client_returns_reference_witness:
  "\<exists>s. (ring_step demo_ring)\<^sup>*\<^sup>* (submit_request demo_ring ring_nodes) s \<and>
     generate (Inr (\<lambda>_. sy_client s)) ''q'' [5, 1] 3 = Inr (reference_tokens demo_ring)"
proof -
  obtain s where s: "(ring_step demo_ring)\<^sup>*\<^sup>* (submit_request demo_ring ring_nodes) s" "\<nexists>s'. ring_step demo_ring s s'" by (rule ring_rests)
  have u: "\<forall>t \<in> set [5, 1]. is_u32 t" "is_u32 3" by (simp_all add: is_u32_def)
  from client_returns_reference [OF demo_ring_ok ring_fresh s(1), unfolded demo_ring_simps, OF u] s show ?thesis by blast
qed

theorem server_error_discards_tokens_witness:
  "generate (Inr (\<lambda>_. [(PSampledToken ''q'' 10 0 False, []), (PError ''q'' ERR_SHARD_UNAVAILABLE, [])])) ''q'' [5] 3 = Inl RuntimeError"
proof -
  have env: "begin_envelope ''q'' [5] 3 = Inr (PBegin ''q'' [5] 3, [])" by (simp add: begin_envelope_def is_u32_def)
  have "(\<lambda>_ :: wire_frame. [(PSampledToken ''q'' 10 0 False, []), (PError ''q'' ERR_SHARD_UNAVAILABLE, [])]) (PBegin ''q'' [5] 3, []) =
      map (\<lambda>t. (PSampledToken ''q'' t 0 False, [])) [10] @ (PError ''q'' ERR_SHARD_UNAVAILABLE, []) # []" by simp
  from server_error_discards_tokens [OF env this] show ?thesis by blast
qed

section \<open>One node\<close>

definition busy_state :: "int list \<Rightarrow> HeadRequestState" where
  "busy_state queue = \<lparr>hs_request_id = ''q'', hs_client_stream = 4, hs_max_new_tokens = 3, hs_generated = 1, hs_token_queue = queue, hs_running = True\<rparr>"

text \<open>The head in the middle of a request.\<close>

definition busy_head :: "int list \<Rightarrow> (nat LoadedModel, int list, nat list, int list Orch \<times> nat) PNode" where
  "busy_head queue = (ring_node ring_head)\<lparr>pn_states := [busy_state queue], pn_head_states := [(''q'', 0)], pn_kv_caches := [(''q'', [2, 2, 2])]\<rparr>"

lemma busy_head_waits: "waiting_for_token (busy_head []) ''q'' 0"
  by (simp add: waiting_for_token_def busy_head_def ring_node_def is_head_def ring_head_def demo_spec_def busy_state_def)

theorem decode_round_cleans_up_witness:
  "gone ''q'' (snd (decode_round (ring_engine (demo_spec ''head'' 9001 0 1)) 0 ((busy_head [7])\<lparr>pn_faults := [True]\<rparr>)))"
proof -
  let ?n = "(busy_head [7])\<lparr>pn_faults := [True]\<rparr>" and ?eng = "ring_engine (demo_spec ''head'' 9001 0 1)"
  have ready: "decode_ready ?n 0" by (simp add: decode_ready_def busy_head_def busy_state_def)
  obtain r n' where run: "decode_round ?eng 0 ?n = (r, n')" by (cases "decode_round ?eng 0 ?n")
  have "case decode_round ?eng 0 ?n of (Inl _, _) \<Rightarrow> False | (Inr _, n') \<Rightarrow> \<not> hs_running (pn_states n' ! 0)" by code_simp
  then have "r = Inr () \<and> \<not> hs_running (pn_states n' ! 0)" unfolding run by (auto split: sum.splits)
  with decode_round_cleans_up [OF ready run] run show ?thesis by (simp add: busy_head_def busy_state_def)
qed

theorem begin_refused_witness:
  "\<exists>code. handle_begin (ring_engine (demo_spec ''tail'' 9002 1 3)) ''q'' [5] 3 4 (ring_node ring_tail) =
     (Inr (), (ring_node ring_tail)\<lparr>pn_log := [ToStream 4 (send_error ''q'' code)]\<rparr>)"
proof -
  have "\<not> is_head (ring_node ring_tail)" "pn_faults (ring_node ring_tail) = []" "pn_log (ring_node ring_tail) = []"
    by (simp_all add: is_head_def ring_node_def ring_tail_def demo_spec_def)
  with begin_refused [of "ring_node ring_tail" "ring_engine (demo_spec ''tail'' 9002 1 3)" "''q''" "[5]" 3 4] show ?thesis by auto
qed

text \<open>The tail is suspected.\<close>

definition tail_suspected :: StateTransition where
  "tail_suspected = \<lparr>st_shard_id = ''tail'', st_old_state = Some ALIVE, st_new_record = demo_claim ''tail'' SUSPECT 1\<rparr>"

theorem peer_loss_aborts_request_witness:
  "\<exists>n1 n2. on_membership_change (ring_engine (demo_spec ''head'' 9001 0 1)) tail_suspected (busy_head []) = (Inr (), n1) \<and>
     decode_round (ring_engine (demo_spec ''head'' 9001 0 1)) 0 n1 = (Inr (), n2) \<and> gone ''q'' n2 \<and>
     ToStream 4 (send_error ''q'' ERR_SHARD_UNAVAILABLE) \<in> set (pn_log n2)"
proof -
  let ?eng = "ring_engine (demo_spec ''head'' 9001 0 1)"
  obtain r n1 where n1: "on_membership_change ?eng tail_suspected (busy_head []) = (r, n1)" by (cases "on_membership_change ?eng tail_suspected (busy_head [])")
  have l: "left_alive tail_suspected" by (simp add: left_alive_def tail_suspected_def demo_claim_def)
  have "case on_membership_change ?eng tail_suspected (busy_head []) of (Inl _, _) \<Rightarrow> False | (Inr _, _) \<Rightarrow> True" by code_simp
  then have "r = Inr ()" unfolding n1 by (auto split: sum.splits)
  moreover have "hs_client_stream (pn_states (busy_head []) ! 0) = 4" by (simp add: busy_head_def busy_state_def)
  ultimately show ?thesis using peer_loss_aborts_request [OF busy_head_waits l n1] n1 by auto
qed

theorem upstream_error_reported_twice_witness:
  "\<exists>n1 n2. handle_upstream_error ''q'' ERR_INVALID_PROVENANCE (busy_head []) = (Inr (), n1) \<and>
     decode_round (ring_engine (demo_spec ''head'' 9001 0 1)) 0 n1 = (Inr (), n2) \<and>
     filter (\<lambda>ev. \<exists>f. ev = ToStream 4 f) (pn_log n2) = [ToStream 4 (send_error ''q'' ERR_INVALID_PROVENANCE), ToStream 4 (send_error ''q'' ERR_SHARD_UNAVAILABLE)]"
proof -
  have "hs_client_stream (pn_states (busy_head []) ! 0) = 4" "pn_log (busy_head []) = []" by (simp_all add: busy_head_def busy_state_def ring_node_def)
  with upstream_error_reported_twice [OF busy_head_waits, of ERR_INVALID_PROVENANCE "ring_engine (demo_spec ''head'' 9001 0 1)"] show ?thesis by auto
qed

theorem prefill_send_failure_leaks_witness:
  "\<exists>n'. handle_begin (ring_engine (demo_spec ''head'' 9001 0 1)) ''q'' [5] 3 4 ((ring_node ring_head)\<lparr>pn_faults := [True]\<rparr>) = (Inl (NPy OSError), n') \<and>
     pn_log n' = [] \<and> dget (pn_kv_caches n') ''q'' = Some [1, 0, 0] \<and> dget (pn_head_states n') ''q'' = Some 0"
proof -
  let ?n = "(ring_node ring_head)\<lparr>pn_faults := [True]\<rparr>" and ?eng = "ring_engine (demo_spec ''head'' 9001 0 1)"
  have n: "is_head ?n" "\<not> is_tail ?n" "unavailable_peer ?n = None" "\<not> en_provenance_enabled (pn_expert ?n)" "\<not> pn_out_open ?n" "pn_faults ?n = True # []"
    "pn_states ?n = []" "pn_log ?n = []"
    by (simp_all add: is_head_def is_tail_def unavailable_peer_def ring_node_def ring_head_def demo_node_def demo_spec_def)
  have e: "ne_embed ?eng [5] = Inr [5]" by (simp add: ring_engine_def embed_tokens_def ring_rm_def demo_rm_def)
  have "case ne_run_my_layers ?eng ''q'' [5] (ne_make_cache ?eng) None (demo_orch, 0) of (Inl _, _) \<Rightarrow> False | (Inr r, _) \<Rightarrow> r = (([16], [1, 0, 0]), None)"
    by code_simp
  then obtain s' where r: "ne_run_my_layers ?eng ''q'' [5] (ne_make_cache ?eng) None (pn_orch ?n) = (Inr (([16], [1, 0, 0]), None), s')"
    by (auto simp: ring_node_def split: prod.splits sum.splits)
  obtain d where d: "describe (ne_ops ?eng) [16] = Inr d" by (auto simp: ring_engine_def describe_def demo_tensor_ops_def)
  from prefill_send_failure_leaks [OF n(1-6) e r d, of 3 4] n(7,8) show ?thesis by auto
qed

theorem abort_leaves_connection_open_witness:
  "\<exists>n'. abort_request 4 ''q'' (busy_head []) = (Inr (), n') \<and> pn_out_open n'"
  using abort_leaves_connection_open [of "busy_head []" 4 "''q''"] by (simp add: busy_head_def ring_node_def)

text \<open>A node in the middle with provenance on.\<close>

definition ring_mid :: "nat LoadedModel ExpertNode" where
  "ring_mid = demo_node\<lparr>en_shard := demo_spec ''mid'' 9002 1 2, en_total_layers := 3, en_provenance_enabled := True\<rparr>"

theorem rejected_activation_witness:
  "\<exists>n'. handle_activation (ring_engine (demo_spec ''mid'' 9002 1 2)) ''q'' 1 \<lparr>td_shape = [1], td_dtype = 3, td_quant = 0, td_byte_count = 1\<rparr>
      [projr (entry_to_pb (demo_entry OP_LAYER_ATOMIC 0 0 [] []))] [7] 4 (ring_node ring_mid) = (Inr (), n') \<and> filter (\<lambda>ev. \<exists>f. ev = ToPeer f) (pn_log n') = []"
proof -
  let ?eng = "ring_engine (demo_spec ''mid'' 9002 1 2)" and ?n = "ring_node ring_mid"
  have n: "pn_faults ?n = []" "1 = sp_start_layer (pn_shard ?n)" "pn_log ?n = []" "\<not> is_tail ?n"
    by (simp_all add: ring_node_def ring_mid_def demo_spec_def is_tail_def)
  have "case check_inbound (ne_blake2b ?eng) (pn_expert ?n) [projr (entry_to_pb (demo_entry OP_LAYER_ATOMIC 0 0 [] []))] [7] of Inl e \<Rightarrow> e = ProvenanceError | Inr _ \<Rightarrow> False"
    by code_simp
  then have "check_inbound (ne_blake2b ?eng) (pn_expert ?n) [projr (entry_to_pb (demo_entry OP_LAYER_ATOMIC 0 0 [] []))] [7] = Inl ProvenanceError"
    by (simp split: sum.splits)
  from rejected_activation [OF n(1,2) this, of "''q''" "\<lparr>td_shape = [1], td_dtype = 3, td_quant = 0, td_byte_count = 1\<rparr>" 4] n(3,4) show ?thesis by auto
qed

theorem stripped_chain_accepted_witness:
  "\<exists>n' d'. handle_activation ((ring_engine (demo_spec ''mid'' 9002 1 2))\<lparr>ne_run_my_layers := (\<lambda>rid h c ch s. (Inr ((h, c), ch), s))\<rparr>) ''q'' 1
      \<lparr>td_shape = [1], td_dtype = 3, td_quant = 0, td_byte_count = 1\<rparr> [] [7] 4 (ring_node ring_mid) = (Inr (), n') \<and>
     pn_log n' = [ToPeer (PActivation ''q'' 2 d' [], [7])]"
proof -
  let ?eng = "(ring_engine (demo_spec ''mid'' 9002 1 2))\<lparr>ne_run_my_layers := (\<lambda>rid h c ch s. (Inr ((h, c), ch), s))\<rparr>" and ?n = "ring_node ring_mid"
  let ?d = "\<lparr>td_shape = [1], td_dtype = 3, td_quant = 0, td_byte_count = 1\<rparr>"
  have n: "en_provenance_enabled (pn_expert ?n)" "1 = sp_start_layer (pn_shard ?n)" "pn_faults ?n = []" "\<not> is_tail ?n" "pn_log ?n = []" "sp_end_layer (pn_shard ?n) = 2"
    by (simp_all add: ring_node_def ring_mid_def demo_spec_def is_tail_def)
  have h: "from_bytes (ne_ops ?eng) [7] (td_shape ?d) (td_dtype ?d) = Inr [7]" "to_bytes (ne_ops ?eng) [7] = [7]" by (simp_all add: ring_engine_def demo_tensor_ops_def)
  obtain d' where d': "describe (ne_ops ?eng) [7] = Inr d'" by (auto simp: ring_engine_def describe_def demo_tensor_ops_def)
  have r: "ne_run_my_layers ?eng ''q'' [7] (dget_default (pn_kv_caches ?n) ''q'' (ne_make_cache ?eng)) (Some []) (pn_orch ?n) =
      (Inr (([7], dget_default (pn_kv_caches ?n) ''q'' (ne_make_cache ?eng)), Some []), pn_orch ?n)" by simp
  from stripped_chain_accepted [OF n(1-4) h(1) r d', of 4] n(5,6) h(2) show ?thesis by auto
qed

end
