(* ===== verification/Acceptance.thy ===== *)
theory Acceptance
  imports Service Demo_Ring Startup
begin

text \<open>
  \<^verbatim>\<open>scripts/run_client.py\<close> and \<^verbatim>\<open>scripts/run_reference.py\<close>: the two programs whose manifests the
  acceptance tests of the distributed pipeline compare.  The tokenizer, the loading of models, the prompt file
  as parsed and the clock are parameters; what a script writes is what it returns.
\<close>

declare map_of_eq_Some_iff [simp del] Some_eq_map_of_iff [simp del]

section \<open>Manifests\<close>

record Tokenizer =
  tz_encode :: "string \<Rightarrow> int list"
  tz_decode :: "int list \<Rightarrow> string"

record PromptRecord =
  pr_id :: int
  pr_text :: string
  pr_prompt_tokens :: "int list"
  pr_generated_tokens :: "int list"
  pr_generated_text :: string
  pr_hidden_states_file :: "string option"

record ReferenceManifest =
  mf_model :: string
  mf_num_layers :: int
  mf_max_new_tokens :: int
  mf_captured_at :: string
  mf_captured_hidden_states :: bool
  mf_prompts :: "PromptRecord list"

record ClientManifest =
  cm_model :: string
  cm_config :: string
  cm_max_new_tokens :: int
  cm_captured_at :: string
  cm_prompts :: "PromptRecord list"

section \<open>The reference script\<close>

record ReferenceArgs =
  ra_model :: string
  ra_max_new_tokens :: int
  ra_skip_hidden_states :: bool

text \<open>The arrays of one archive; \<^verbatim>\<open>to_numpy\<close> is the cast to 32-bit floats and the copy.\<close>

definition hidden_arrays :: "('t \<Rightarrow> 'n) \<Rightarrow> 't PrefillTrace \<Rightarrow> (string \<times> 'n) list" where
  "hidden_arrays to_numpy trace =
     map (\<lambda>(j, h). (''layer_'' @ show_nat j, to_numpy h)) (enumerate 0 (pt_layer_inputs trace)) @
     [(''final_hidden'', to_numpy (pt_final_hidden trace)), (''logits'', to_numpy (pt_logits trace))]"

definition archive_name :: "nat \<Rightarrow> string" where
  "archive_name i = ''hidden_states_'' @ show_nat i @ ''.npz''"

text \<open>The loop over the prompts: the archives saved so far, and the records or what the loop raised.\<close>

fun reference_prompts :: "('t, 'w, 'k, 'a) ReferenceModel \<Rightarrow> Tokenizer \<Rightarrow> ('t \<Rightarrow> 'n) \<Rightarrow> bool \<Rightarrow> int \<Rightarrow> nat \<Rightarrow> string list \<Rightarrow>
    (string \<times> (string \<times> 'n) list) list \<times> PromptRecord list result" where
  "reference_prompts rm tok to_numpy skip mx i [] = ([], Inr [])"
| "reference_prompts rm tok to_numpy skip mx i (text # texts) =
     (let prompt_tokens = tz_encode tok text in
      case generate_greedy rm prompt_tokens mx of
        Inl e \<Rightarrow> ([], Inl e)
      | Inr generated \<Rightarrow>
          (let record = \<lparr>pr_id = int i, pr_text = text, pr_prompt_tokens = prompt_tokens, pr_generated_tokens = generated,
                 pr_generated_text = tz_decode tok generated, pr_hidden_states_file = None\<rparr>
           in if skip
              then (case reference_prompts rm tok to_numpy skip mx (Suc i) texts of (saved, rs) \<Rightarrow> (saved, ebind rs (\<lambda>rs. Inr (record # rs))))
              else (case prefill_trace rm prompt_tokens of
                      Inl e \<Rightarrow> ([], Inl e)
                    | Inr trace \<Rightarrow>
                        (let name = archive_name i
                         in case reference_prompts rm tok to_numpy skip mx (Suc i) texts of (saved, rs) \<Rightarrow>
                              ((name, hidden_arrays to_numpy trace) # saved,
                               ebind rs (\<lambda>rs. Inr (record\<lparr>pr_hidden_states_file := Some name\<rparr> # rs)))))))"

definition reference_main :: "(string \<Rightarrow> (('t, 'w, 'k, 'a) ReferenceModel \<times> Tokenizer) result) \<Rightarrow> ('t \<Rightarrow> 'n) \<Rightarrow> string \<Rightarrow> ReferenceArgs \<Rightarrow> string list result \<Rightarrow>
    (string \<times> (string \<times> 'n) list) list \<times> ReferenceManifest result" where
  "reference_main load to_numpy now args prompt_set =
     (case ebind prompt_set (\<lambda>prompts. ebind (load (ra_model args)) (\<lambda>(rm, tok). Inr (prompts, rm, tok))) of
        Inl e \<Rightarrow> ([], Inl e)
      | Inr (prompts, rm, tok) \<Rightarrow>
          (case reference_prompts rm tok to_numpy (ra_skip_hidden_states args) (ra_max_new_tokens args) 0 prompts of (saved, rs) \<Rightarrow>
             (saved, ebind rs (\<lambda>prompt_records. Inr \<lparr>mf_model = ra_model args, mf_num_layers = num_layers rm, mf_max_new_tokens = ra_max_new_tokens args,
                mf_captured_at = now, mf_captured_hidden_states = (\<not> ra_skip_hidden_states args), mf_prompts = prompt_records\<rparr>))))"

section \<open>The client script\<close>

record ClientArgs =
  ca_config :: string
  ca_model :: "string option"
  ca_max_new_tokens :: int
  ca_warmup :: bool

fun find_head_loop :: "ShardMap \<Rightarrow> string list \<Rightarrow> string result" where
  "find_head_loop m [] = Inl ValueError"
| "find_head_loop m (sid # sids) = ebind (lookup m sid) (\<lambda>s. if sp_start_layer s = 0 then Inr sid else find_head_loop m sids)"

definition find_head :: "ShardMap \<Rightarrow> string result" where
  "find_head m = find_head_loop m (all_shards m)"

primrec warmup_pass :: "(int list \<Rightarrow> int \<Rightarrow> ('w, py_exn, int list) prog) \<Rightarrow> int list list \<Rightarrow> ('w, py_exn, unit) prog" where
  "warmup_pass gen [] = sret ()"
| "warmup_pass gen (p # ps) = sbind (gen p 1) (\<lambda>_. warmup_pass gen ps)"

fun timed_pass :: "(int list \<Rightarrow> int \<Rightarrow> ('w, py_exn, int list) prog) \<Rightarrow> Tokenizer \<Rightarrow> int \<Rightarrow> nat \<Rightarrow> (string \<times> int list) list \<Rightarrow> ('w, py_exn, PromptRecord list) prog" where
  "timed_pass gen tok mx i [] = sret []"
| "timed_pass gen tok mx i ((text, prompt_tokens) # rest) =
     sbind (gen prompt_tokens mx) (\<lambda>generated.
     sbind (timed_pass gen tok mx (Suc i) rest) (\<lambda>records.
       sret (\<lparr>pr_id = int i, pr_text = text, pr_prompt_tokens = prompt_tokens, pr_generated_tokens = generated,
              pr_generated_text = tz_decode tok generated, pr_hidden_states_file = None\<rparr> # records)))"

text \<open>\<^verbatim>\<open>client_generate\<close> is \<^verbatim>\<open>Client.generate\<close> with the address of the head.\<close>

definition client_main :: "(yaml \<Rightarrow> string) \<Rightarrow> (string \<Rightarrow> Tokenizer result) \<Rightarrow> string \<Rightarrow> (NodeAddress \<Rightarrow> int list \<Rightarrow> int \<Rightarrow> ('w, py_exn, int list) prog) \<Rightarrow>
    yaml \<Rightarrow> ClientArgs \<Rightarrow> string list result \<Rightarrow> ('w, py_exn, ClientManifest) prog" where
  "client_main str_other load_tokenizer now client_generate config args prompt_set =
     sbind (slift id (from_yaml str_other config)) (\<lambda>shard_map.
     let model_id = (case ca_model args of None \<Rightarrow> sm_model_id shard_map | Some m \<Rightarrow> if m = [] then sm_model_id shard_map else m) in
     if model_id = [] then sthrow SystemExit
     else
       sbind (slift id (ebind (find_head shard_map) (lookup shard_map))) (\<lambda>head_spec.
       sbind (slift id (load_tokenizer model_id)) (\<lambda>tokenizer.
       sbind (slift id prompt_set) (\<lambda>prompts.
       let gen = client_generate (sp_address head_spec); encoded_prompts = map (tz_encode tokenizer) prompts in
       sbind (swhen (ca_warmup args) (warmup_pass gen encoded_prompts)) (\<lambda>_.
       sbind (timed_pass gen tokenizer (ca_max_new_tokens args) 0 (zip prompts encoded_prompts)) (\<lambda>records.
         sret \<lparr>cm_model = model_id, cm_config = ca_config args, cm_max_new_tokens = ca_max_new_tokens args, cm_captured_at = now,
               cm_prompts = records\<rparr>))))))"

section \<open>A service that generates greedily\<close>

text \<open>The records both scripts are meant to write.\<close>

fun greedy_records :: "(int list \<Rightarrow> int \<Rightarrow> int list result) \<Rightarrow> Tokenizer \<Rightarrow> int \<Rightarrow> nat \<Rightarrow> string list \<Rightarrow> PromptRecord list result" where
  "greedy_records reference tok mx i [] = Inr []"
| "greedy_records reference tok mx i (text # texts) =
     ebind (reference (tz_encode tok text) mx) (\<lambda>generated. ebind (greedy_records reference tok mx (Suc i) texts) (\<lambda>rs.
       Inr (\<lparr>pr_id = int i, pr_text = text, pr_prompt_tokens = tz_encode tok text, pr_generated_tokens = generated,
             pr_generated_text = tz_decode tok generated, pr_hidden_states_file = None\<rparr> # rs)))"

text \<open>What the client script relies on: a call on a service in good order returns what the reference returns and
  leaves the service in good order.\<close>

locale greedy_service =
  fixes gen :: "int list \<Rightarrow> int \<Rightarrow> ('w, py_exn, int list) prog" and good :: "'w \<Rightarrow> bool" and allowed :: "int list \<Rightarrow> int \<Rightarrow> bool"
    and reference :: "int list \<Rightarrow> int \<Rightarrow> int list result"
  assumes call: "good w \<Longrightarrow> allowed p m \<Longrightarrow> fst (gen p m w) = reference p m \<and> returns (reference p m) \<and> good (snd (gen p m w))"
begin

lemma call_result:
  assumes "good w" and "allowed p m"
  obtains g w' where "gen p m w = (Inr g, w')" and "reference p m = Inr g" and "good w'"
proof -
  from call [OF assms] obtain g where g: "reference p m = Inr g" "fst (gen p m w) = Inr g" "good (snd (gen p m w))"
    by (auto simp: returns_def split: sum.splits)
  then show ?thesis by (intro that [of g "snd (gen p m w)"]) (simp_all add: prod_eq_iff)
qed

lemma warmup_runs: "good w \<Longrightarrow> \<forall>p \<in> set ps. allowed p 1 \<Longrightarrow> \<exists>w'. warmup_pass gen ps w = (Inr (), w') \<and> good w'"
proof (induction ps arbitrary: w)
  case (Cons p ps)
  then obtain g w1 where "gen p 1 w = (Inr g, w1)" "good w1" by (auto elim: call_result [of w p 1])
  with Cons show ?case by (simp add: sbind_def)
qed (simp add: sret_def)

lemma timed_runs:
  "good w \<Longrightarrow> \<forall>text \<in> set texts. allowed (tz_encode tok text) m \<Longrightarrow>
    \<exists>rs w'. timed_pass gen tok m i (zip texts (map (tz_encode tok) texts)) w = (Inr rs, w') \<and> greedy_records reference tok m i texts = Inr rs \<and> good w'"
proof (induction texts arbitrary: i w)
  case (Cons x xs)
  then obtain g w1 where g: "gen (tz_encode tok x) m w = (Inr g, w1)" "reference (tz_encode tok x) m = Inr g" "good w1"
    by (auto elim: call_result [of w "tz_encode tok x" m])
  with Cons.IH [of w1 "Suc i"] Cons.prems obtain rs w2 where
    "timed_pass gen tok m (Suc i) (zip xs (map (tz_encode tok) xs)) w1 = (Inr rs, w2)" "greedy_records reference tok m (Suc i) xs = Inr rs" "good w2"
    by auto
  with g show ?case by (simp add: sbind_def sret_def)
qed (simp add: sret_def)

end

text \<open>The oracle is such a service wherever it returns.\<close>

interpretation one_process: greedy_service "\<lambda>p m w. (generate_greedy rm p m, w)" "\<lambda>_. True" "\<lambda>p m. returns (generate_greedy rm p m)" "generate_greedy rm" for rm
  by unfold_locales simp

text \<open>So is a cluster between requests, when each call is a run of it.\<close>

definition cluster_serves :: "('t, 'w, 'k, 'a) ReferenceModel \<Rightarrow> ('t \<Rightarrow> bool) \<Rightarrow> ('b, 't, 'k list, 't Orch \<times> nat) NodeEngine list \<Rightarrow> 'b ExpertNode list \<Rightarrow>
    ('s \<Rightarrow> ('b, 't, 'k list, 't Orch \<times> nat) PNode list) \<Rightarrow> (int list \<Rightarrow> int \<Rightarrow> ('s, py_exn, int list) prog) \<Rightarrow> bool" where
  "cluster_serves rm tensor engs experts nodes_of gen \<longleftrightarrow> (\<forall>w p m. resting experts (nodes_of w) \<and> valid_request p m \<longrightarrow>
     served rm tensor engs experts (nodes_of w) p m (fst (gen p m w)) (nodes_of (snd (gen p m w))))"

lemma cluster_service:
  assumes "model_ok rm tensor seq_len" and "mlx_cluster rm tensor engs experts" and "cluster_serves rm tensor engs experts nodes_of gen"
  shows "greedy_service gen (\<lambda>w. resting experts (nodes_of w)) valid_request (generate_greedy rm)"
proof
  fix w p m
  assume "resting experts (nodes_of w)" and "valid_request p m"
  with assms(3) served_greedy [OF assms(1,2)] show "fst (gen p m w) = generate_greedy rm p m \<and> returns (generate_greedy rm p m) \<and> resting experts (nodes_of (snd (gen p m w)))"
    unfolding cluster_serves_def by metis
qed

section \<open>The two manifests\<close>

lemma trace_total:
  assumes "run_atomic (rm_text_model rm) masks [0..int n - 1] h0 c0 = Inr (h, c)"
  shows "\<exists>ins. efold (\<lambda>i (layer_inputs, h, cache). ebind (run_atomic (rm_text_model rm) masks [i..i] h cache) (\<lambda>(h', cache'). Inr (layer_inputs @ [h], h', cache')))
    [0..int n - 1] ([], h0, c0) = Inr (ins, h, c)"
  using assms
proof (induction n arbitrary: h c)
  case (Suc n)
  have up: "[0..int (Suc n) - 1] = [0..int n - 1] @ [int n]" by (simp add: upto_rec2)
  from Suc.prems [unfolded up run_atomic_append] obtain h1 c1 where "run_atomic (rm_text_model rm) masks [0..int n - 1] h0 c0 = Inr (h1, c1)"
    and r: "run_atomic (rm_text_model rm) masks [int n] h1 c1 = Inr (h, c)" by (auto simp: ebind_eq_Inr)
  from Suc.IH [OF this(1)] obtain ins where
    "efold (\<lambda>i (layer_inputs, h, cache). ebind (run_atomic (rm_text_model rm) masks [i..i] h cache) (\<lambda>(h', cache'). Inr (layer_inputs @ [h], h', cache')))
      [0..int n - 1] ([], h0, c0) = Inr (ins, h1, c1)" by blast
  with r show ?case unfolding up efold_append by (simp only: ebind_Inr) simp
qed (simp add: run_atomic_def)

lemma prefill_returns:
  assumes "returns (generate_greedy rm prompt mx)"
  shows "\<exists>trace. prefill_trace rm prompt = Inr trace"
proof -
  let ?h0 = "embed_tokens rm prompt" let ?m = "make_masks rm ?h0 (rm_make_cache rm)"
  from assms obtain h c where "run_atomic (rm_text_model rm) ?m [0..num_layers rm - 1] ?h0 (rm_make_cache rm) = Inr (h, c)"
    by (auto simp: generate_greedy_def forward_step_def returns_def Let_def ebind_def split: sum.splits)
  from trace_total [OF this [unfolded num_layers_def]] show ?thesis by (auto simp: prefill_trace_def Let_def num_layers_def)
qed

lemma reference_prompts_greedy:
  "greedy_records (generate_greedy rm) tok mx i texts = Inr rs \<Longrightarrow>
    \<exists>saved rs'. reference_prompts rm tok to_numpy skip mx i texts = (saved, Inr rs') \<and> rs = map (pr_hidden_states_file_update (\<lambda>_. None)) rs' \<and>
      map fst saved = (if skip then [] else map archive_name [i..<i + length texts])"
proof (induction texts arbitrary: i rs)
  case (Cons x xs)
  then obtain g rs0 where g: "generate_greedy rm (tz_encode tok x) mx = Inr g" and rs0: "greedy_records (generate_greedy rm) tok mx (Suc i) xs = Inr rs0"
    and rs: "rs = \<lparr>pr_id = int i, pr_text = x, pr_prompt_tokens = tz_encode tok x, pr_generated_tokens = g,
             pr_generated_text = tz_decode tok g, pr_hidden_states_file = None\<rparr> # rs0" by (auto simp: ebind_eq_Inr)
  obtain trace where "prefill_trace rm (tz_encode tok x) = Inr trace" using prefill_returns [of rm _ mx] g by fastforce
  moreover have "[i..<i + length (x # xs)] = i # [Suc i..<Suc i + length xs]" by (subst upt_conv_Cons) simp_all
  moreover obtain saved rs' where "reference_prompts rm tok to_numpy skip mx (Suc i) xs = (saved, Inr rs')"
    "rs0 = map (pr_hidden_states_file_update (\<lambda>_. None)) rs'" "map fst saved = (if skip then [] else map archive_name [Suc i..<Suc i + length xs])"
    using Cons.IH [OF rs0] by blast
  ultimately show ?case using g by (cases skip) (auto simp: rs Let_def simp del: upt_Suc)
qed simp

lemma greedy_records_length: "greedy_records reference tok mx i texts = Inr rs \<Longrightarrow> length rs = length texts"
  by (induction texts arbitrary: i rs) (auto simp: ebind_eq_Inr)

text \<open>C3: The distributed run reproduces the oracle's manifest.  When every request finds the cluster at rest, the
  client script returns a manifest, with and without the warm-up pass; its records are those of the reference
  script on the same model, tokenizer and prompts, up to the name of the archive of hidden states; and the
  cluster is left at rest.\<close>

theorem acceptance_manifests_agree:
  assumes ok: "model_ok rm tensor seq_len" and cl: "mlx_cluster rm tensor engs experts"
    and m: "from_yaml str_other config = Inr m" and head: "ebind (find_head m) (lookup m) = Inr head"
    and sv: "cluster_serves rm tensor engs experts nodes_of (client_generate (sp_address head))" and rest: "resting experts (nodes_of w)"
    and load: "load (ra_model rargs) = Inr (rm, tok)" "\<And>model. load_tokenizer model = Inr tok" and mx: "ra_max_new_tokens rargs = ca_max_new_tokens args"
    and prompts: "\<forall>text \<in> set prompts. valid_request (tz_encode tok text) (ca_max_new_tokens args)"
  shows "\<exists>cm w' saved rmf. client_main str_other load_tokenizer now client_generate config args (Inr prompts) w = (Inr cm, w') \<and>
    reference_main load to_numpy now rargs (Inr prompts) = (saved, Inr rmf) \<and>
    cm_prompts cm = map (pr_hidden_states_file_update (\<lambda>_. None)) (mf_prompts rmf) \<and> length (cm_prompts cm) = length prompts \<and>
    map fst saved = (if ra_skip_hidden_states rargs then [] else map archive_name [0..<length prompts]) \<and>
    resting experts (nodes_of w')"
proof -
  let ?gen = "client_generate (sp_address head)"
  note svc = cluster_service [OF ok cl sv]
  have model: "sm_model_id m \<noteq> []" using from_yaml_ok [of str_other config] m by simp
  have one: "\<forall>p \<in> set (map (tz_encode tok) prompts). valid_request p 1" using prompts by (auto simp: valid_request_def is_u32_def)
  have "\<exists>w1. swhen (ca_warmup args) (warmup_pass ?gen (map (tz_encode tok) prompts)) w = (Inr (), w1) \<and> resting experts (nodes_of w1)"
    using greedy_service.warmup_runs [OF svc rest one] rest by (simp add: swhen_def sret_def)
  then obtain w1 where w1: "swhen (ca_warmup args) (warmup_pass ?gen (map (tz_encode tok) prompts)) w = (Inr (), w1)" "resting experts (nodes_of w1)" by blast
  obtain rs w2 where rs: "timed_pass ?gen tok (ca_max_new_tokens args) 0 (zip prompts (map (tz_encode tok) prompts)) w1 = (Inr rs, w2)"
    "greedy_records (generate_greedy rm) tok (ca_max_new_tokens args) 0 prompts = Inr rs" "resting experts (nodes_of w2)"
    using greedy_service.timed_runs [OF svc w1(2) prompts] by blast
  from reference_prompts_greedy [OF rs(2)] obtain saved rs' where
    rf: "reference_prompts rm tok to_numpy (ra_skip_hidden_states rargs) (ca_max_new_tokens args) 0 prompts = (saved, Inr rs')"
    "rs = map (pr_hidden_states_file_update (\<lambda>_. None)) rs'"
    "map fst saved = (if ra_skip_hidden_states rargs then [] else map archive_name [0..<0 + length prompts])" by blast
  have len: "length rs = length prompts" by (rule greedy_records_length [OF rs(2)])
  show ?thesis using m head load w1 rs rf len model mx
    by (auto simp: client_main_def reference_main_def sbind_def slift_def sret_def Let_def split: option.split)
qed

section \<open>A run of both scripts\<close>

definition ring_config :: yaml where
  "ring_config = YMap [(YStr ''model_id'', YStr ''gemma''), (YStr ''shards'', YMap [
     (YStr ''tail'', YMap [(YStr ''host'', YStr ''h''), (YStr ''port'', YInt 9002), (YStr ''start_layer'', YInt 1), (YStr ''end_layer'', YInt 3)]),
     (YStr ''head'', YMap [(YStr ''host'', YStr ''h''), (YStr ''port'', YInt 9001), (YStr ''start_layer'', YInt 0), (YStr ''end_layer'', YInt 1)])])]"

definition byte_tokenizer :: Tokenizer where
  "byte_tokenizer = \<lparr>tz_encode = map of_char, tz_decode = map (\<lambda>t. char_of (nat t))\<rparr>"

lemma ring_serves:
  "cluster_serves ring_rm byte_tensor ring_engines [ring_head, ring_tail] (\<lambda>nodes. nodes) (cluster_generate ring_rm byte_tensor ring_engines [ring_head, ring_tail] rid)"
  using cluster_generate_served [OF ring_model_ok ring_cluster] by (simp add: cluster_serves_def)

theorem acceptance_manifests_agree_witness:
  "\<exists>cm w'. client_main (\<lambda>_. []) (\<lambda>_. Inr byte_tokenizer) ''now'' (\<lambda>_. cluster_generate ring_rm byte_tensor ring_engines [ring_head, ring_tail] ''q'')
      ring_config \<lparr>ca_config = ''shards.yaml'', ca_model = None, ca_max_new_tokens = 3, ca_warmup = True\<rparr> (Inr [''hi'', ''a'']) ring_nodes = (Inr cm, w') \<and>
    map pr_generated_tokens (cm_prompts cm) = [[2, 3, 13], [12, 4, 27]] \<and> resting [ring_head, ring_tail] w'"
proof -
  let ?args = "\<lparr>ca_config = ''shards.yaml'', ca_model = None, ca_max_new_tokens = 3, ca_warmup = True\<rparr>"
  let ?rargs = "\<lparr>ra_model = ''gemma'', ra_max_new_tokens = 3, ra_skip_hidden_states = False\<rparr>"
  let ?m = "\<lparr>sm_entries = [(''tail'', demo_spec ''tail'' 9002 1 3), (''head'', demo_spec ''head'' 9001 0 1)], sm_model_id = ''gemma''\<rparr>"
  have cfg: "from_yaml (\<lambda>_. []) ring_config = Inr ?m" by code_simp
  have head: "ebind (find_head ?m) (lookup ?m) = Inr (demo_spec ''head'' 9001 0 1)" by code_simp
  have tok: "\<forall>text \<in> set [''hi'', ''a'']. valid_request (tz_encode byte_tokenizer text) (ca_max_new_tokens ?args)"
    by (simp add: valid_request_def is_u32_def byte_tokenizer_def)
  have "map pr_generated_tokens (projr (ebind (snd (reference_main (\<lambda>_. Inr (ring_rm, byte_tokenizer)) (\<lambda>t. t) ''now'' ?rargs (Inr [''hi'', ''a'']))) (\<lambda>m. Inr (mf_prompts m)))) = [[2, 3, 13], [12, 4, 27]]"
    by code_simp
  with acceptance_manifests_agree [OF ring_model_ok ring_cluster cfg head, of "\<lambda>nodes. nodes" "\<lambda>_. cluster_generate ring_rm byte_tensor ring_engines [ring_head, ring_tail] ''q''"
      ring_nodes "\<lambda>_. Inr (ring_rm, byte_tokenizer)" ?rargs byte_tokenizer "\<lambda>_. Inr byte_tokenizer" ?args, OF ring_serves ring_resting _ _ _ tok, of "''now''" "\<lambda>t. t"]
  show ?thesis by auto
qed

end
