(* ===== verification/Concurrent.thy ===== *)
theory Concurrent
  imports Service Demo_Ring
begin

text \<open>
  Several requests in the ring at once.  Clients submit their requests at any time; a step serves a frame that is
  on its way, or lets the loop of a request take a token.  Frames of one link are delivered in any order, since a
  node closes and reopens its connection between them.  Requests do not disturb each other: whatever the
  interleaving, every client gets the tokens the model generates for its prompt in one process.
\<close>

declare map_of_eq_Some_iff [simp del] Some_eq_map_of_iff [simp del]

section \<open>The network\<close>

record ('b, 't, 'c, 'o) Net =
  nt_nodes :: "('b, 't, 'c, 'o) PNode list"
  nt_links :: "wire_frame list list"
  nt_clients :: "nat \<Rightarrow> wire_frame list"
  nt_started :: "nat list"

definition net_start :: "('b, 't, 'c, 'o) PNode list \<Rightarrow> ('b, 't, 'c, 'o) Net" where
  "net_start nodes = \<lparr>nt_nodes = nodes, nt_links = replicate (length nodes) [], nt_clients = (\<lambda>_. []), nt_started = []\<rparr>"

definition net_absorb :: "nat \<Rightarrow> ('b, 't, 'c, 'o) PNode \<Rightarrow> ('b, 't, 'c, 'o) Net \<Rightarrow> ('b, 't, 'c, 'o) Net" where
  "net_absorb j n' s =
     (let evs = drop (length (pn_log (nt_nodes s ! j))) (pn_log n') in
      s\<lparr>nt_nodes := (nt_nodes s)[j := n'], nt_links := (nt_links s)[j := nt_links s ! j @ peer_frames evs],
        nt_clients := (\<lambda>cs. nt_clients s cs @ stream_frames cs evs)\<rparr>)"

text \<open>The client of request \<^verbatim>\<open>i\<close> is on stream \<^verbatim>\<open>i\<close>, the other nodes on the stream after those.\<close>

inductive net_step :: "('b, 't, 'c, 'o) NodeEngine list \<Rightarrow> ('b, 't, 'c, 'o) Ring list \<Rightarrow> ('b, 't, 'c, 'o) Net \<Rightarrow> ('b, 't, 'c, 'o) Net \<Rightarrow> bool" for engs Rs where
  arrive: "i < length Rs \<Longrightarrow> i \<notin> set (nt_started s) \<Longrightarrow> R = Rs ! i \<Longrightarrow>
    net_step engs Rs s (net_absorb 0 (serve_frame (engs ! 0) i (PBegin (rg_request_id R) (rg_prompt R) (rg_max_new_tokens R), []) (nt_nodes s ! 0))
      (s\<lparr>nt_started := i # nt_started s\<rparr>))"
| pass: "l < length (nt_nodes s) \<Longrightarrow> nt_links s ! l = xs @ f # ys \<Longrightarrow> j = Suc l mod length (nt_nodes s) \<Longrightarrow>
    net_step engs Rs s (net_absorb j (serve_frame (engs ! j) (length Rs) f (nt_nodes s ! j)) (s\<lparr>nt_links := (nt_links s)[l := xs @ ys]\<rparr>))"
| loop: "j < length (nt_nodes s) \<Longrightarrow> decode_ready (nt_nodes s ! j) sid \<Longrightarrow>
    net_step engs Rs s (net_absorb j (snd (decode_round (engs ! j) sid (nt_nodes s ! j))) s)"

definition net_ok :: "('b, 't, 'c, 'o) NodeEngine list \<Rightarrow> 'b ExpertNode list \<Rightarrow> ('b, 't, 'c, 'o) Ring list \<Rightarrow> bool" where
  "net_ok engs experts Rs \<longleftrightarrow> distinct (map rg_request_id Rs) \<and> length experts = length engs \<and> engs \<noteq> [] \<and>
     (\<forall>j < length experts. \<not> en_provenance_enabled (experts ! j)) \<and>
     (\<forall>i < length Rs. ring_ok (Rs ! i) \<and> rg_engs (Rs ! i) = engs \<and> rg_experts (Rs ! i) = experts)"

section \<open>The invariant\<close>

fun frame_request :: "wire_frame \<Rightarrow> string" where
  "frame_request (PActivation rid _ _ _, _) = rid"
| "frame_request (PSampledToken rid _ _ _, _) = rid"
| "frame_request (PEnd rid, _) = rid"
| "frame_request _ = []"

lemma message_request [simp]: "frame_request (message R ph) = rg_request_id R"
  by (cases ph) (simp_all add: act_frame_def)

abbreviation frames_of :: "('b, 't, 'c, 'o) Ring \<Rightarrow> wire_frame list \<Rightarrow> wire_frame list" where
  "frames_of R fs \<equiv> filter (\<lambda>f. frame_request f = rg_request_id R) fs"

text \<open>Each request that has arrived is in its own phase, as if it were alone.\<close>

definition nodes_inv :: "'b ExpertNode list \<Rightarrow> ('b, 't, 'c, 'o) Ring list \<Rightarrow> (nat \<Rightarrow> phase) \<Rightarrow> (nat \<Rightarrow> nat) \<Rightarrow> nat list \<Rightarrow> nat \<Rightarrow> ('b, 't, 'c, 'o) PNode \<Rightarrow> bool" where
  "nodes_inv experts Rs ph sd started j n \<longleftrightarrow> plain (experts ! j) n \<and>
     (\<forall>i \<in> set started. holds (Rs ! i) i (sd i) (ph i) j n) \<and>
     (\<forall>r. (\<forall>i \<in> set started. r \<noteq> rg_request_id (Rs ! i)) \<longrightarrow> dget (pn_kv_caches n) r = None) \<and>
     (\<forall>sid < length (pn_states n). hs_running (pn_states n ! sid) \<longrightarrow> j = 0 \<and> (\<exists>i \<in> set started. sid = sd i))"

definition link_inv :: "('b, 't, 'c, 'o) Ring list \<Rightarrow> (nat \<Rightarrow> phase) \<Rightarrow> nat list \<Rightarrow> nat \<Rightarrow> wire_frame list \<Rightarrow> bool" where
  "link_inv Rs ph started l fs \<longleftrightarrow> (\<forall>i \<in> set started. frames_of (Rs ! i) fs = link_of (Rs ! i) (ph i) l) \<and>
     (\<forall>f \<in> set fs. \<exists>i \<in> set started. frame_request f = rg_request_id (Rs ! i))"

definition net_inv :: "'b ExpertNode list \<Rightarrow> ('b, 't, 'c, 'o) Ring list \<Rightarrow> (nat \<Rightarrow> phase) \<Rightarrow> (nat \<Rightarrow> nat) \<Rightarrow> ('b, 't, 'c, 'o) Net \<Rightarrow> bool" where
  "net_inv experts Rs ph sd s \<longleftrightarrow> length (nt_nodes s) = length experts \<and> length (nt_links s) = length experts \<and>
     unavailable_peer (nt_nodes s ! 0) = None \<and> set (nt_started s) \<subseteq> {..<length Rs} \<and>
     (\<forall>j < length experts. nodes_inv experts Rs ph sd (nt_started s) j (nt_nodes s ! j) \<and> link_inv Rs ph (nt_started s) j (nt_links s ! j)) \<and>
     (\<forall>i < length Rs. if i \<in> set (nt_started s) then phase_ok (Rs ! i) (ph i) \<and> nt_clients s i = client_frames (Rs ! i) (sent_in (Rs ! i) (ph i))
        else nt_clients s i = [])"

lemma net_okD:
  assumes "net_ok engs experts Rs" and "i < length Rs"
  shows "ring_ok (Rs ! i)" "rg_engs (Rs ! i) = engs" "rg_experts (Rs ! i) = experts" "length engs = length experts"
    "i' < length Rs \<Longrightarrow> rg_request_id (Rs ! i) = rg_request_id (Rs ! i') \<Longrightarrow> i = i'"
  using assms by (auto simp: net_ok_def distinct_conv_nth)

lemma holds_at:
  "holds R cs sid ph 0 n \<longleftrightarrow> dget (pn_kv_caches n) (rg_request_id R) = cache_of R ph 0 \<and> sid < length (pn_states n) \<and>
     hs_request_id (pn_states n ! sid) = rg_request_id R \<and> hs_client_stream (pn_states n ! sid) = cs \<and>
     hs_max_new_tokens (pn_states n ! sid) = int (token_count R) \<and> head_inv R sid ph (pn_states n ! sid) (dget (pn_head_states n) (rg_request_id R))"
  (is "?l \<longleftrightarrow> ?r")
proof
  assume ?l
  then obtain old st new where "pn_states n = old @ st # new" "length old = sid" by (rule head_state)
  with \<open>?l\<close> show ?r by (auto simp: holds_def nth_append)
next
  assume ?r
  then show ?l unfolding holds_def by (metis id_take_nth_drop length_take min.absorb4)
qed

lemma holds_other: "j \<noteq> 0 \<Longrightarrow> holds R cs sid ph j n \<longleftrightarrow> dget (pn_kv_caches n) (rg_request_id R) = cache_of R ph j"
  by (simp add: holds_def)

text \<open>What belongs to one request is left alone by the turns of the others.\<close>

lemma holds_frame:
  assumes "holds R cs sid ph j n" and "touches_only rid sid' j evs n n'" and "rg_request_id R \<noteq> rid" and "j = 0 \<Longrightarrow> sid \<noteq> sid'"
  shows "holds R cs sid ph j n'"
  using assms by (cases "j = 0") (auto simp: holds_at holds_other touches_only_def nth_list_update)

lemma frames_of_link: "frames_of R' (link_of R ph l) = (if rg_request_id R = rg_request_id R' then link_of R ph l else [])"
  by (simp add: link_of_def)

lemma sids_distinct:
  assumes "nodes_inv experts Rs ph sd started 0 n" and "i \<in> set started" "i' \<in> set started" "i \<noteq> i'"
  shows "sd i \<noteq> sd i'"
proof -
  have "hs_client_stream (pn_states n ! sd i) = i" "hs_client_stream (pn_states n ! sd i') = i'" using assms(1-3) by (simp_all add: nodes_inv_def holds_at)
  with assms(4) show ?thesis by auto
qed

lemma nodes_turn:
  assumes inv: "nodes_inv experts Rs ph sd started j n" and i: "i \<in> set started"
    and ids: "\<And>i'. i' \<in> set started \<Longrightarrow> i' \<noteq> i \<Longrightarrow> rg_request_id (Rs ! i') \<noteq> rg_request_id (Rs ! i)"
    and k: "touches_only (rg_request_id (Rs ! i)) (sd i) j evs n n'" and h: "holds (Rs ! i) i (sd i) ph' j n'"
  shows "nodes_inv experts Rs (ph(i := ph')) sd started j n'"
proof -
  have "holds (Rs ! i') i' (sd i') (ph i') j n'" if "i' \<in> set started" "i' \<noteq> i" for i'
    using that inv ids [OF that] sids_distinct [of experts Rs ph sd started n i' i] i
    by (intro holds_frame [OF _ k]) (auto simp: nodes_inv_def)
  moreover have "dget (pn_kv_caches n') r = None" if "\<forall>i \<in> set started. r \<noteq> rg_request_id (Rs ! i)" for r
    using that inv i k by (auto simp: nodes_inv_def touches_only_def)
  moreover have "j = 0 \<and> (\<exists>i \<in> set started. sid = sd i)" if "sid < length (pn_states n')" "hs_running (pn_states n' ! sid)" for sid
    using that inv i k by (cases "sid = sd i"; cases "j = 0") (auto simp: nodes_inv_def touches_only_def nth_list_update)
  moreover have "plain (experts ! j) n'" using inv k by (auto simp: nodes_inv_def touches_only_def plain_def)
  ultimately show ?thesis using h by (simp add: nodes_inv_def)
qed

lemma net_turn:
  assumes ok: "net_ok engs experts Rs" and inv: "net_inv experts Rs ph sd s" and i: "i \<in> set (nt_started s)" and nd: "ph i \<noteq> Done"
    and ls: "length ls = length experts" "\<And>l. l < length experts \<Longrightarrow> frames_of (Rs ! i) (ls ! l) = []"
      "\<And>l i'. l < length experts \<Longrightarrow> i' \<in> set (nt_started s) \<Longrightarrow> i' \<noteq> i \<Longrightarrow> frames_of (Rs ! i') (ls ! l) = frames_of (Rs ! i') (nt_links s ! l)"
      "\<And>l. l < length experts \<Longrightarrow> set (ls ! l) \<subseteq> set (nt_links s ! l)"
  defines "j \<equiv> actor (ph i)"
  shows "net_inv experts Rs (ph(i := next_phase (Rs ! i) (ph i))) sd (net_absorb j (turn (Rs ! i) inb (sd i) (ph i) (nt_nodes s ! j)) (s\<lparr>nt_links := ls\<rparr>))"
proof -
  let ?R = "Rs ! i" and ?st = "nt_started s"
  let ?n = "nt_nodes s ! j" let ?n' = "turn ?R inb (sd i) (ph i) ?n" let ?ph = "ph(i := next_phase ?R (ph i))"
  have i': "i < length Rs" using inv i by (auto simp: net_inv_def)
  note R = net_okD(1) [OF ok i'] and eq = net_okD(2-4) [OF ok i']
  have pok: "phase_ok ?R (ph i)" using inv i i' by (auto simp: net_inv_def)
  have j: "j < length experts" using phase_nodes(1) [OF R pok] eq by (simp add: j_def)
  have node: "nodes_inv experts Rs ph sd ?st l (nt_nodes s ! l)" "link_inv Rs ph ?st l (nt_links s ! l)" if "l < length experts" for l
    using inv that by (auto simp: net_inv_def)
  have ids: "rg_request_id (Rs ! i1) \<noteq> rg_request_id ?R" if "i1 \<in> set ?st" "i1 \<noteq> i" for i1
    using that inv net_okD(5) [OF ok i', of i1] by (auto simp: net_inv_def)
  have "plain (rg_experts ?R ! actor (ph i)) ?n" "holds ?R i (sd i) (ph i) (actor (ph i)) ?n" using node(1) [OF j] i eq by (auto simp: nodes_inv_def j_def)
  from phase_turn [OF R pok nd this, of inb] obtain evs where k: "touches_only (rg_request_id ?R) (sd i) j evs ?n ?n'"
    and h: "holds ?R i (sd i) (next_phase ?R (ph i)) j ?n'" and e: "emits ?R i (ph i) evs" unfolding j_def by blast
  have evs: "drop (length (pn_log ?n)) (pn_log ?n') = evs" using k by (simp add: touches_only_def)
  have pf: "peer_frames evs = link_of ?R (next_phase ?R (ph i)) j" using e by (simp add: emits_def j_def)
  have other: "nodes_inv experts Rs ?ph sd ?st l (nt_nodes s ! l)" if "l < length experts" "l \<noteq> j" for l
    using node(1) [OF that(1)] holds_next [OF pok nd, of l i "sd i" "nt_nodes s ! l"] that i eq by (auto simp: nodes_inv_def j_def)
  have n2: "nodes_inv experts Rs ?ph sd ?st l ((nt_nodes s)[j := ?n'] ! l)" if "l < length experts" for l
    using other [OF that] nodes_turn [OF node(1) [OF j] i ids k h] that inv by (cases "l = j") (auto simp: net_inv_def)
  have l2: "link_inv Rs ?ph ?st l (ls[j := ls ! j @ peer_frames evs] ! l)" if l: "l < length experts" for l
  proof -
    let ?fs = "ls ! l @ (if l = j then peer_frames evs else [])"
    have "frames_of (Rs ! i1) ?fs = link_of (Rs ! i1) (?ph i1) l" if "i1 \<in> set ?st" for i1
    proof (cases "i1 = i")
      case True
      then show ?thesis using ls(2) [OF l] pf next_source [OF _ pok nd, of l] by (auto simp: frames_of_link j_def)
    next
      case False
      then show ?thesis using ls(3) [OF l that False] node(2) [OF l] that ids [OF that False] pf by (auto simp: frames_of_link link_inv_def)
    qed
    moreover have "\<exists>i1 \<in> set ?st. frame_request f = rg_request_id (Rs ! i1)" if "f \<in> set ?fs" for f
      using that ls(4) [OF l] node(2) [OF l] i pf by (auto simp: link_inv_def link_of_def split: if_splits)
    ultimately have "link_inv Rs ?ph ?st l ?fs" by (simp add: link_inv_def)
    then show ?thesis using l ls(1) by (cases "l = j") simp_all
  qed
  have "pn_expert ?n' = pn_expert ?n" using k by (simp add: touches_only_def)
  then have av: "unavailable_peer ((nt_nodes s)[j := ?n'] ! 0) = None"
    using inv j by (cases "j = 0") (auto simp: net_inv_def unavailable_peer_def cong: option.case_cong)
  have "phase_ok ?R (next_phase ?R (ph i))" using rank_next [OF R pok nd] by blast
  then have cl: "if i1 \<in> set ?st then phase_ok (Rs ! i1) (?ph i1) \<and> nt_clients s i1 @ stream_frames i1 evs = client_frames (Rs ! i1) (sent_in (Rs ! i1) (?ph i1))
      else nt_clients s i1 @ stream_frames i1 evs = []" if "i1 < length Rs" for i1
    using inv e that i by (cases "i1 = i") (auto simp: net_inv_def emits_def)
  have "length (nt_nodes s) = length experts" "set ?st \<subseteq> {..<length Rs}" using inv by (simp_all add: net_inv_def)
  then show ?thesis unfolding net_inv_def net_absorb_def Let_def using n2 l2 av cl ls(1) by (simp add: evs del: fun_upd_apply)
qed

lemma net_arrive:
  assumes ok: "net_ok engs experts Rs" and inv: "net_inv experts Rs ph sd s" and i: "i < length Rs" "i \<notin> set (nt_started s)"
  defines "n \<equiv> nt_nodes s ! 0"
  shows "net_inv experts Rs (ph(i := Act 0 0)) (sd(i := length (pn_states n)))
    (net_absorb 0 (serve_frame (engs ! 0) i (PBegin (rg_request_id (Rs ! i)) (rg_prompt (Rs ! i)) (rg_max_new_tokens (Rs ! i)), []) n) (s\<lparr>nt_started := i # nt_started s\<rparr>))"
proof -
  let ?R = "Rs ! i" and ?st = "nt_started s" and ?ph = "ph(i := Act 0 0)" and ?sd = "sd(i := length (pn_states n))"
  note R = net_okD(1) [OF ok i(1)] and eq = net_okD(2-4) [OF ok i(1)]
  have k: "0 < length experts" "Suc 0 < length experts" using ring_sizes [OF R] eq by auto
  have node: "nodes_inv experts Rs ph sd ?st l (nt_nodes s ! l)" "link_inv Rs ph ?st l (nt_links s ! l)" if "l < length experts" for l
    using inv that by (auto simp: net_inv_def)
  have ids: "rg_request_id (Rs ! i1) \<noteq> rg_request_id ?R" if "i1 \<in> set ?st" for i1
    using that inv net_okD(5) [OF ok i(1), of i1] i(2) by (auto simp: net_inv_def)
  let ?n' = "serve_frame (engs ! 0) i (PBegin (rg_request_id ?R) (rg_prompt ?R) (rg_max_new_tokens ?R), []) n"
  have pl: "plain (rg_experts ?R ! 0) n" and av: "unavailable_peer n = None" using node(1) [OF k(1)] inv eq by (auto simp: nodes_inv_def net_inv_def n_def)
  from begin_turn [OF R pl av, of ?n' i] eq obtain st where b: "pn_states ?n' = pn_states n @ [st]" "pn_faults ?n' = []" "pn_expert ?n' = pn_expert n"
    "pn_log ?n' = pn_log n @ [ToPeer (message ?R (Act 0 0))]" "holds ?R i (length (pn_states n)) (Act 0 0) 0 ?n'"
    "\<And>r. r \<noteq> rg_request_id ?R \<Longrightarrow> dget (pn_kv_caches ?n') r = dget (pn_kv_caches n) r \<and> dget (pn_head_states ?n') r = dget (pn_head_states n) r" by auto
  have evs: "drop (length (pn_log (nt_nodes s ! 0))) (pn_log ?n') = [ToPeer (message ?R (Act 0 0))]" using b(4) by (simp add: n_def)
  have n0: "nodes_inv experts Rs ?ph ?sd (i # ?st) 0 ?n'"
  proof -
    have "holds (Rs ! i1) i1 (sd i1) (ph i1) 0 ?n'" if "i1 \<in> set ?st" for i1
      using node(1) [OF k(1)] that ids [OF that] b(1,6) by (auto simp: nodes_inv_def holds_at nth_append n_def)
    moreover have "\<exists>i1 \<in> set (i # ?st). sid = ?sd i1" if "sid < length (pn_states ?n')" "hs_running (pn_states ?n' ! sid)" for sid
      using that node(1) [OF k(1)] b(1) i(2) by (cases "sid < length (pn_states n)") (auto simp: nodes_inv_def nth_append n_def)
    moreover have "dget (pn_kv_caches ?n') r = None" if "\<forall>i1 \<in> set (i # ?st). r \<noteq> rg_request_id (Rs ! i1)" for r
      using that node(1) [OF k(1)] b(6) by (auto simp: nodes_inv_def n_def)
    moreover have "plain (experts ! 0) ?n'" using pl b(2,3) eq by (simp add: plain_def)
    ultimately show ?thesis using b(5) i(2) by (auto simp: nodes_inv_def)
  qed
  have other: "nodes_inv experts Rs ?ph ?sd (i # ?st) l (nt_nodes s ! l)" if "l < length experts" "l \<noteq> 0" for l
  proof -
    have "dget (pn_kv_caches (nt_nodes s ! l)) (rg_request_id ?R) = None" using node(1) [OF that(1)] ids unfolding nodes_inv_def by metis
    then show ?thesis using node(1) [OF that(1)] that i(2) by (auto simp: nodes_inv_def holds_other)
  qed
  have n2: "nodes_inv experts Rs ?ph ?sd (i # ?st) l ((nt_nodes s)[0 := ?n'] ! l)" if "l < length experts" for l
    using other [OF that] n0 that inv by (cases "l = 0") (auto simp: net_inv_def)
  have l2: "link_inv Rs ?ph (i # ?st) l ((nt_links s)[0 := nt_links s ! 0 @ [message ?R (Act 0 0)]] ! l)" if l: "l < length experts" for l
  proof -
    let ?fs = "nt_links s ! l @ (if l = 0 then [message ?R (Act 0 0)] else [])"
    have "frames_of ?R (nt_links s ! l) = []" using node(2) [OF l] ids by (auto simp: link_inv_def filter_empty_conv)
    moreover have "frames_of (Rs ! i1) ?fs = link_of (Rs ! i1) (ph i1) l" if "i1 \<in> set ?st" for i1
      using node(2) [OF l] that ids [OF that] message_request [of ?R "Act 0 0"] by (auto simp: link_inv_def simp del: message_request)
    ultimately have "link_inv Rs ?ph (i # ?st) l ?fs"
      using node(2) [OF l] i(2) message_request [of ?R "Act 0 0"] by (auto simp: link_inv_def link_of_def simp del: message_request message.simps)
    then show ?thesis using l inv by (cases "l = 0") (simp_all add: net_inv_def)
  qed
  have av': "unavailable_peer ?n' = None" using av b(3) by (simp add: unavailable_peer_def cong: option.case_cong)
  have "phase_ok ?R (Act 0 0)" using ring_sizes [OF R] by simp
  then have cl: "if i1 \<in> set (i # ?st) then phase_ok (Rs ! i1) (?ph i1) \<and> nt_clients s i1 = client_frames (Rs ! i1) (sent_in (Rs ! i1) (?ph i1))
      else nt_clients s i1 = []" if "i1 < length Rs" for i1
    using inv that i by (cases "i1 = i") (auto simp: net_inv_def client_frames_def)
  have "length (nt_nodes s) = length experts" "length (nt_links s) = length experts" "set (i # ?st) \<subseteq> {..<length Rs}" using inv i by (simp_all add: net_inv_def)
  then show ?thesis unfolding net_inv_def net_absorb_def Let_def using n2 l2 av' cl k by (simp add: evs del: fun_upd_apply list.set)
qed

section \<open>Every run\<close>

definition request_steps :: "('b, 't, 'c, 'o) Ring \<Rightarrow> nat" where
  "request_steps R = Suc (token_count R * (stage_count R + 1) + (stage_count R - 1))"

definition work :: "('b, 't, 'c, 'o) Ring list \<Rightarrow> (nat \<Rightarrow> phase) \<Rightarrow> nat list \<Rightarrow> nat" where
  "work Rs ph started = (\<Sum>i < length Rs. if i \<in> set started then Suc (rank (Rs ! i) (ph i)) else 0)"

lemma sum_point_Suc:
  fixes g g' :: "nat \<Rightarrow> nat"
  assumes "i < n" and "g' i = Suc (g i)" and "\<And>l. l \<noteq> i \<Longrightarrow> g' l = g l"
  shows "sum g' {..<n} = Suc (sum g {..<n})"
proof -
  have "sum g' ({..<n} - {i}) = sum g ({..<n} - {i})" using assms(3) by (intro sum.cong) auto
  with assms(1,2) show ?thesis by (simp add: sum.remove [of "{..<n}" i])
qed

lemma turn_case:
  assumes ok: "net_ok engs experts Rs" and inv: "net_inv experts Rs ph sd s" and i: "i \<in> set (nt_started s)" and nd: "ph i \<noteq> Done"
    and s': "net_inv experts Rs (ph(i := next_phase (Rs ! i) (ph i))) sd s'" "nt_started s' = nt_started s"
  shows "\<exists>ph' sd'. net_inv experts Rs ph' sd' s' \<and> work Rs ph' (nt_started s') = Suc (work Rs ph (nt_started s))"
proof -
  have l: "i < length Rs" "phase_ok (Rs ! i) (ph i)" using inv i by (auto simp: net_inv_def)
  have "work Rs (ph(i := next_phase (Rs ! i) (ph i))) (nt_started s) = Suc (work Rs ph (nt_started s))" unfolding work_def
    by (rule sum_point_Suc [OF l(1)]) (use i rank_next [OF net_okD(1) [OF ok l(1)] l(2) nd] in auto)
  with s' show ?thesis by metis
qed

lemma net_step_inv:
  assumes ok: "net_ok engs experts Rs" and inv: "net_inv experts Rs ph sd s" and step: "net_step engs Rs s s'"
  shows "\<exists>ph' sd'. net_inv experts Rs ph' sd' s' \<and> work Rs ph' (nt_started s') = Suc (work Rs ph (nt_started s))"
  using step
proof cases
  case (arrive i R)
  have "rank (Rs ! i) (Act 0 0) = 0" by simp
  then have "work Rs (ph(i := Act 0 0)) (i # nt_started s) = Suc (work Rs ph (nt_started s))" unfolding work_def
    by (intro sum_point_Suc [OF arrive(2)]) (use arrive(3) in auto)
  moreover have "nt_started s' = i # nt_started s" unfolding arrive(1) by (simp add: net_absorb_def Let_def)
  moreover have "net_inv experts Rs (ph(i := Act 0 0)) (sd(i := length (pn_states (nt_nodes s ! 0)))) s'"
    using net_arrive [OF ok inv arrive(2,3)] unfolding arrive(1,4) .
  ultimately show ?thesis by metis
next
  case (pass l xs f ys j)
  have k: "length (nt_nodes s) = length experts" "length (nt_links s) = length experts" "l < length experts" using inv pass(2) by (auto simp: net_inv_def)
  have link: "link_inv Rs ph (nt_started s) l' (nt_links s ! l')" if "l' < length experts" for l' using inv that by (simp add: net_inv_def)
  from link [OF k(3)] pass(3) obtain i where i: "i \<in> set (nt_started s)" "frame_request f = rg_request_id (Rs ! i)" by (auto simp: link_inv_def)
  have l: "i < length Rs" "phase_ok (Rs ! i) (ph i)" using inv i by (auto simp: net_inv_def)
  note R = net_okD(1) [OF ok l(1)] and eq = net_okD(2-4) [OF ok l(1)]
  have "frames_of (Rs ! i) xs @ f # frames_of (Rs ! i) ys = link_of (Rs ! i) (ph i) l" using link [OF k(3)] i pass(3) by (auto simp: link_inv_def)
  then have src: "source (Rs ! i) (ph i) = Some l" "f = message (Rs ! i) (ph i)" and none: "frames_of (Rs ! i) (xs @ ys) = []"
    by (auto simp: link_of_def append_eq_Cons_conv split: if_splits)
  have nd: "ph i \<noteq> Done" and j: "j = actor (ph i)" using src(1) phase_nodes(2) [OF R l(2) src(1)] pass(4) k eq by auto
  let ?ls = "(nt_links s)[l := xs @ ys]"
  have "net_inv experts Rs (ph(i := next_phase (Rs ! i) (ph i))) sd
      (net_absorb (actor (ph i)) (turn (Rs ! i) (length Rs) (sd i) (ph i) (nt_nodes s ! actor (ph i))) (s\<lparr>nt_links := ?ls\<rparr>))"
  proof (rule net_turn [OF ok inv i(1) nd])
    show "frames_of (Rs ! i) (?ls ! l') = []" if "l' < length experts" for l'
      using link [OF that] i(1) src(1) none k by (cases "l' = l") (auto simp: link_inv_def link_of_def)
    show "frames_of (Rs ! i') (?ls ! l') = frames_of (Rs ! i') (nt_links s ! l')" if "l' < length experts" "i' \<in> set (nt_started s)" "i' \<noteq> i" for l' i'
    proof -
      have "rg_request_id (Rs ! i') \<noteq> rg_request_id (Rs ! i)" using that inv net_okD(5) [OF ok l(1), of i'] by (auto simp: net_inv_def)
      then show ?thesis using i(2) pass(3) k by (cases "l' = l") auto
    qed
    show "set (?ls ! l') \<subseteq> set (nt_links s ! l')" if "l' < length experts" for l' using pass(3) k by (cases "l' = l") auto
  qed (simp add: k)
  moreover have "turn (Rs ! i) (length Rs) (sd i) (ph i) (nt_nodes s ! j) = serve_frame (engs ! j) (length Rs) f (nt_nodes s ! j)"
    using src eq j by (simp add: turn_def)
  ultimately have "net_inv experts Rs (ph(i := next_phase (Rs ! i) (ph i))) sd s'" using pass(1) j by simp
  from turn_case [OF ok inv i(1) nd this] pass(1) show ?thesis by (simp add: net_absorb_def Let_def)
next
  case (loop j sid)
  have k: "length (nt_nodes s) = length experts" "length (nt_links s) = length experts" "j < length experts" using inv loop(2) by (auto simp: net_inv_def)
  have node: "nodes_inv experts Rs ph sd (nt_started s) j (nt_nodes s ! j)" using inv k by (simp add: net_inv_def)
  with loop(3) obtain i where i: "i \<in> set (nt_started s)" "j = 0" "sid = sd i" by (auto simp: nodes_inv_def decode_ready_def)
  have l: "i < length Rs" "phase_ok (Rs ! i) (ph i)" using inv i by (auto simp: net_inv_def)
  note eq = net_okD(2-4) [OF ok l(1)]
  have "head_inv (Rs ! i) sid (ph i) (pn_states (nt_nodes s ! 0) ! sid) (dget (pn_head_states (nt_nodes s ! 0)) (rg_request_id (Rs ! i)))"
    using node i by (simp add: nodes_inv_def holds_at)
  with loop(3) i(2) obtain t where q: "ph i = Que t" by (cases "ph i") (auto simp: decode_ready_def)
  have "net_inv experts Rs (ph(i := next_phase (Rs ! i) (ph i))) sd
      (net_absorb (actor (ph i)) (turn (Rs ! i) (length Rs) (sd i) (ph i) (nt_nodes s ! actor (ph i))) (s\<lparr>nt_links := nt_links s\<rparr>))"
    by (rule net_turn [OF ok inv i(1)]) (use inv i(1) q k in \<open>auto simp: net_inv_def link_inv_def link_of_def\<close>)
  then have "net_inv experts Rs (ph(i := next_phase (Rs ! i) (ph i))) sd s'" using loop(1) i q eq by (simp add: turn_def del: next_phase.simps)
  from turn_case [OF ok inv i(1) _ this] loop(1) q show ?thesis by (simp add: net_absorb_def Let_def)
qed

lemma net_can_step:
  assumes ok: "net_ok engs experts Rs" and inv: "net_inv experts Rs ph sd s" and nd: "i < length Rs" "i \<in> set (nt_started s) \<Longrightarrow> ph i \<noteq> Done"
  shows "\<exists>s'. net_step engs Rs s s'"
proof (cases "i \<in> set (nt_started s)")
  case False
  then show ?thesis using net_step.arrive [OF nd(1) False refl] by blast
next
  case True
  note R = net_okD(1) [OF ok nd(1)] and eq = net_okD(2-4) [OF ok nd(1)]
  have pok: "phase_ok (Rs ! i) (ph i)" using inv True nd(1) by (auto simp: net_inv_def)
  have k: "length (nt_nodes s) = length experts" using inv by (simp add: net_inv_def)
  show ?thesis
  proof (cases "source (Rs ! i) (ph i)")
    case (Some l)
    then have l: "l < length experts" using phase_nodes(2) [OF R pok Some] eq by simp
    then have "frames_of (Rs ! i) (nt_links s ! l) = [message (Rs ! i) (ph i)]" using inv True Some by (simp add: net_inv_def link_inv_def link_of_def)
    then have "message (Rs ! i) (ph i) \<in> set (nt_links s ! l)" by (metis (mono_tags, lifting) filter_eq_ConsD in_set_conv_decomp)
    then obtain xs ys where "nt_links s ! l = xs @ message (Rs ! i) (ph i) # ys" by (auto dest: split_list)
    with l k net_step.pass [of l s xs _ ys _ engs Rs] show ?thesis by metis
  next
    case None
    then obtain t where q: "ph i = Que t" using phase_nodes(3) [OF R pok None] nd(2) True by blast
    have z: "0 < length experts" using ring_sizes [OF R] eq by auto
    then have "nodes_inv experts Rs ph sd (nt_started s) 0 (nt_nodes s ! 0)" using inv by (simp add: net_inv_def)
    then have "holds (Rs ! i) i (sd i) (ph i) 0 (nt_nodes s ! 0)" using True by (simp add: nodes_inv_def)
    then have "decode_ready (nt_nodes s ! 0) (sd i)" by (auto simp: q holds_at decode_ready_def)
    with net_step.loop [of 0 s "sd i" engs Rs] z k show ?thesis by auto
  qed
qed

lemma start_inv:
  assumes "net_ok engs experts Rs" and "resting experts nodes"
  shows "net_inv experts Rs ph sd (net_start nodes)"
  using assms by (auto simp: net_inv_def net_start_def nodes_inv_def link_inv_def resting_def plain_def idle_def net_ok_def dest: nth_mem)

text \<open>Every reachable state is one of requests in phases of their own, as many steps along as they have made together.\<close>

lemma net_run:
  assumes ok: "net_ok engs experts Rs" and rest: "resting experts nodes" and run: "(net_step engs Rs ^^ n) (net_start nodes) s"
  shows "\<exists>ph sd. net_inv experts Rs ph sd s \<and> work Rs ph (nt_started s) = n"
  using run
proof (induction n arbitrary: s)
  case 0
  then have "s = net_start nodes" by simp
  with start_inv [OF ok rest] show ?case by (auto simp: work_def net_start_def)
next
  case (Suc n)
  then obtain s0 where "(net_step engs Rs ^^ n) (net_start nodes) s0" "net_step engs Rs s0 s" by auto
  with Suc.IH net_step_inv [OF ok] show ?case by metis
qed

lemma work_bound:
  assumes ok: "net_ok engs experts Rs" and inv: "net_inv experts Rs ph sd s"
  shows "work Rs ph (nt_started s) \<le> sum_list (map request_steps Rs)"
    "(\<And>i. i < length Rs \<Longrightarrow> i \<in> set (nt_started s) \<and> ph i = Done) \<Longrightarrow> work Rs ph (nt_started s) = sum_list (map request_steps Rs)"
proof -
  have total: "sum_list (map request_steps Rs) = (\<Sum>i < length Rs. request_steps (Rs ! i))"
    by (simp add: sum_list_sum_nth atLeast0LessThan)
  have "(if i \<in> set (nt_started s) then Suc (rank (Rs ! i) (ph i)) else 0) \<le> request_steps (Rs ! i)" if "i < length Rs" for i
    using rank_bound(1) [OF net_okD(1) [OF ok that], of "ph i"] inv that by (auto simp: net_inv_def request_steps_def)
  then show "work Rs ph (nt_started s) \<le> sum_list (map request_steps Rs)" unfolding work_def total by (intro sum_mono) simp
  show "work Rs ph (nt_started s) = sum_list (map request_steps Rs)" if "\<And>i. i < length Rs \<Longrightarrow> i \<in> set (nt_started s) \<and> ph i = Done"
    unfolding work_def total using that by (intro sum.cong) (simp_all add: request_steps_def)
qed

lemma net_rests:
  assumes ok: "net_ok engs experts Rs" and inv: "net_inv experts Rs ph sd s" and rest: "\<nexists>s'. net_step engs Rs s s'"
  shows "(\<forall>i < length Rs. i \<in> set (nt_started s) \<and> ph i = Done) \<and> resting experts (nt_nodes s)"
proof -
  have d: "i \<in> set (nt_started s) \<and> ph i = Done" if "i < length Rs" for i using net_can_step [OF ok inv that] rest by blast
  have started: "set (nt_started s) \<subseteq> {..<length Rs}" using inv by (simp add: net_inv_def)
  have node: "nodes_inv experts Rs ph sd (nt_started s) j (nt_nodes s ! j)" if "j < length experts" for j using inv that by (simp add: net_inv_def)
  have kv: "dget (pn_kv_caches (nt_nodes s ! j)) r = None" if "j < length experts" for j r
  proof (cases "\<exists>i \<in> set (nt_started s). r = rg_request_id (Rs ! i)")
    case True
    with node [OF that] d started show ?thesis by (auto simp: nodes_inv_def holds_def)
  next
    case False
    with node [OF that] show ?thesis by (auto simp: nodes_inv_def)
  qed
  have "idle (nt_nodes s ! j)" if "j < length experts" for j
    unfolding idle_def
  proof
    fix st assume "st \<in> set (pn_states (nt_nodes s ! j))"
    then obtain sid where sid: "sid < length (pn_states (nt_nodes s ! j))" "st = pn_states (nt_nodes s ! j) ! sid" by (auto simp: in_set_conv_nth)
    show "\<not> hs_running st"
    proof
      assume "hs_running st"
      with sid node [OF that] obtain i where i: "i \<in> set (nt_started s)" "sid = sd i" "j = 0" by (auto simp: nodes_inv_def)
      with d started have "ph i = Done" by auto
      with node [OF that] i have "\<not> hs_running (pn_states (nt_nodes s ! 0) ! sid)" by (auto simp: nodes_inv_def holds_at)
      with \<open>hs_running st\<close> sid i show False by simp
    qed
  qed
  moreover have "pn_faults (nt_nodes s ! j) = [] \<and> pn_expert (nt_nodes s ! j) = experts ! j" if "j < length experts" for j
    using node [OF that] by (simp add: nodes_inv_def plain_def)
  ultimately show ?thesis using d kv inv by (simp add: resting_def net_inv_def)
qed

lemma mlx_net_ok:
  assumes "model_ok rm tensor seq_len" and cl: "mlx_cluster rm tensor engs experts" and "distinct (map fst reqs)"
    and "\<forall>(rid, p, m) \<in> set reqs. valid_request p m"
  shows "net_ok engs experts (map (\<lambda>(rid, p, m). mlx_ring rm tensor engs experts rid p m) reqs)"
proof -
  have "map rg_request_id (map (\<lambda>(rid, p, m). mlx_ring rm tensor engs experts rid p m) reqs) = map fst reqs" by (auto simp: case_prod_beta)
  moreover have "ring_ok (mlx_ring rm tensor engs experts rid p m)" if "(rid, p, m) \<in> set reqs" for rid p m
    using assms that by (intro mlx_ring_valid) auto
  ultimately show ?thesis using assms(3) cl by (auto simp: net_ok_def mlx_cluster_def case_prod_beta simp del: map_map) (auto simp: mlx_ring_def)
qed

text \<open>C2: Requests do not interfere.  Any number of requests with ids of their own are submitted to a cluster at any
  time and run in any interleaving.  A client whose stream ends at any time returns the tokens that the model generates
  greedily for its prompt in one process, or raises \<^verbatim>\<open>EOFError\<close>; no run is longer than the requests' steps together; and when nothing is left to do every client returns its tokens and the cluster is at
  rest again.\<close>

theorem concurrent_requests_bit_exact:
  assumes model: "model_ok rm tensor seq_len" and cl: "mlx_cluster rm tensor engs experts" and ids: "distinct (map fst reqs)"
    and valid: "\<forall>(rid, p, m) \<in> set reqs. valid_request p m" and rest: "resting experts nodes"
    and Rs: "Rs = map (\<lambda>(rid, p, m). mlx_ring rm tensor engs experts rid p m) reqs" and run: "(net_step engs Rs ^^ n) (net_start nodes) s"
  shows "(\<forall>i < length reqs. case reqs ! i of (rid, p, m) \<Rightarrow> generate (Inr (\<lambda>_. nt_clients s i)) rid p m \<in> {generate_greedy rm p m, Inl EOFError}) \<and>
    n \<le> sum_list (map request_steps Rs) \<and> (n < sum_list (map request_steps Rs) \<longrightarrow> (\<exists>s'. net_step engs Rs s s')) \<and>
    ((\<nexists>s'. net_step engs Rs s s') \<longrightarrow>
      (\<forall>i < length reqs. case reqs ! i of (rid, p, m) \<Rightarrow> generate (Inr (\<lambda>_. nt_clients s i)) rid p m = generate_greedy rm p m) \<and> resting experts (nt_nodes s))"
proof -
  have ok: "net_ok engs experts Rs" unfolding Rs by (rule mlx_net_ok [OF model cl ids valid])
  obtain ph sd where inv: "net_inv experts Rs ph sd s" and n: "work Rs ph (nt_started s) = n" using net_run [OF ok rest run] by blast
  have len: "length Rs = length reqs" by (simp add: Rs)
  have gen: "generate (Inr (\<lambda>_. client_frames (Rs ! i) t)) rid p m = (if t = token_count (Rs ! i) then generate_greedy rm p m else Inl EOFError)"
    if "i < length reqs" "reqs ! i = (rid, p, m)" "t \<le> token_count (Rs ! i)" for i rid p m t
  proof -
    have R: "Rs ! i = mlx_ring rm tensor engs experts rid p m" and i: "i < length Rs" using that by (simp_all add: Rs)
    have v: "valid_request p m" using valid that nth_mem [OF that(1)] by auto
    note rok = net_okD(1) [OF ok i]
    have "generate_greedy rm p m = Inr (reference_tokens (Rs ! i))" using greedy_is_reference [OF model cl rok R] v by (simp add: valid_request_def is_u32_def)
    then show ?thesis using generate_frames [of "Rs ! i" t] ring_sizes [OF rok] v that(3) by (simp add: R valid_request_def)
  qed
  have pre: "generate (Inr (\<lambda>_. nt_clients s i)) rid p m \<in> {generate_greedy rm p m, Inl EOFError}" if "i < length reqs" "reqs ! i = (rid, p, m)" for i rid p m
  proof -
    have i: "i < length Rs" using that len by simp
    have "\<exists>t \<le> token_count (Rs ! i). nt_clients s i = client_frames (Rs ! i) t"
    proof (cases "i \<in> set (nt_started s)")
      case True
      then have "phase_ok (Rs ! i) (ph i)" "nt_clients s i = client_frames (Rs ! i) (sent_in (Rs ! i) (ph i))" using inv i by (auto simp: net_inv_def)
      then show ?thesis by (intro exI [of _ "sent_in (Rs ! i) (ph i)"]) (cases "ph i"; simp)
    next
      case False
      then show ?thesis using inv i by (intro exI [of _ 0]) (auto simp: net_inv_def client_frames_def)
    qed
    with gen [OF that] show ?thesis by (metis insertCI)
  qed
  have more: "\<exists>s'. net_step engs Rs s s'" if "n < sum_list (map request_steps Rs)"
    using net_rests [OF ok inv] work_bound(2) [OF ok inv] n that by fastforce
  have got: "generate (Inr (\<lambda>_. nt_clients s i)) rid p m = generate_greedy rm p m"
    if "\<nexists>s'. net_step engs Rs s s'" "i < length reqs" "reqs ! i = (rid, p, m)" for i rid p m
  proof -
    have "nt_clients s i = client_frames (Rs ! i) (token_count (Rs ! i))" using net_rests [OF ok inv that(1)] inv that(2) len by (auto simp: net_inv_def)
    with gen [OF that(2,3) order_refl] show ?thesis by simp
  qed
  have "\<forall>i < length reqs. case reqs ! i of (rid, p, m) \<Rightarrow> generate (Inr (\<lambda>_. nt_clients s i)) rid p m \<in> {generate_greedy rm p m, Inl EOFError}"
    by (simp only: split_paired_all prod.case_eq_if) (metis pre prod.collapse)
  moreover have "\<forall>i < length reqs. case reqs ! i of (rid, p, m) \<Rightarrow> generate (Inr (\<lambda>_. nt_clients s i)) rid p m = generate_greedy rm p m"
    if "\<nexists>s'. net_step engs Rs s s'" by (simp only: prod.case_eq_if) (metis got [OF that] prod.collapse)
  moreover have "(\<nexists>s'. net_step engs Rs s s') \<longrightarrow> resting experts (nt_nodes s)" using net_rests [OF ok inv] by blast
  moreover have "n \<le> sum_list (map request_steps Rs)" using work_bound(1) [OF ok inv] n by simp
  ultimately show ?thesis using more by (intro conjI impI) (fact | assumption | simp)+
qed

text \<open>Runs to rest exist.\<close>

lemma net_settles:
  assumes ok: "net_ok engs experts Rs" and rest: "resting experts nodes"
  shows "\<exists>n s. (net_step engs Rs ^^ n) (net_start nodes) s \<and> (\<nexists>s'. net_step engs Rs s s')"
proof (rule ccontr)
  assume *: "\<not> ?thesis"
  have "\<exists>s. (net_step engs Rs ^^ n) (net_start nodes) s" for n
  proof (induction n)
    case (Suc n)
    with * show ?case by (meson relpowp_Suc_I)
  qed (meson relpowp_0_I)
  then obtain s where "(net_step engs Rs ^^ Suc (sum_list (map request_steps Rs))) (net_start nodes) s" by blast
  from net_run [OF ok rest this] obtain ph sd where "net_inv experts Rs ph sd s" "work Rs ph (nt_started s) = Suc (sum_list (map request_steps Rs))" by blast
  with work_bound(1) [OF ok] show False by (metis Suc_n_not_le_n)
qed

abbreviation demo_requests :: "(string \<times> int list \<times> int) list" where
  "demo_requests \<equiv> [(''q'', [5, 1], 3), (''r'', [7], 2)]"

abbreviation demo_rings :: "(nat LoadedModel, int list, nat list, int list Orch \<times> nat) Ring list" where
  "demo_rings \<equiv> map (\<lambda>(rid, p, m). mlx_ring ring_rm byte_tensor ring_engines [ring_head, ring_tail] rid p m) demo_requests"

theorem concurrent_requests_bit_exact_witness:
  "\<exists>n s. (net_step ring_engines demo_rings ^^ n) (net_start ring_nodes) s \<and> n = 19 \<and>
     generate (Inr (\<lambda>_. nt_clients s 0)) ''q'' [5, 1] 3 = Inr [10, 23, 11] \<and> generate (Inr (\<lambda>_. nt_clients s 1)) ''r'' [7] 2 = Inr [22, 18]"
proof -
  have v: "distinct (map fst demo_requests)" "\<forall>(rid, p, m) \<in> set demo_requests. valid_request p m" by (auto simp: valid_request_def is_u32_def)
  note ok = mlx_net_ok [OF ring_model_ok ring_cluster v]
  obtain n s where s: "(net_step ring_engines demo_rings ^^ n) (net_start ring_nodes) s" "\<nexists>s'. net_step ring_engines demo_rings s s'" using net_settles [OF ok ring_resting] by blast
  note all = concurrent_requests_bit_exact [OF ring_model_ok ring_cluster v ring_resting refl s(1)]
  have "\<not> n < sum_list (map request_steps demo_rings)" using conjunct1 [OF conjunct2 [OF conjunct2 [OF all]]] s(2) by blast
  moreover have "sum_list (map request_steps demo_rings) = 19" by (simp add: request_steps_def token_count_def mlx_ring_def ring_engines_def)
  ultimately have "n = 19" using conjunct1 [OF conjunct2 [OF all]] by linarith
  moreover have "\<forall>i < length demo_requests. case demo_requests ! i of (rid, p, m) \<Rightarrow> generate (Inr (\<lambda>_. nt_clients s i)) rid p m = generate_greedy ring_rm p m"
    by (rule conjunct1 [OF mp [OF conjunct2 [OF conjunct2 [OF conjunct2 [OF all]]] s(2)]])
  then have "generate (Inr (\<lambda>_. nt_clients s 0)) ''q'' [5, 1] 3 = generate_greedy ring_rm [5, 1] 3" "generate (Inr (\<lambda>_. nt_clients s 1)) ''r'' [7] 2 = generate_greedy ring_rm [7] 2"
    by (auto dest: spec [of _ 0] spec [of _ 1] simp: less_Suc_eq)
  moreover have "generate_greedy ring_rm [7] 2 = Inr [22, 18]" by code_simp
  ultimately show ?thesis using s(1) ring_greedy by (intro exI [of _ n] exI [of _ s]) simp
qed

end
