(* ===== verification/Backend_Objects.thy ===== *)
theory Backend_Objects
  imports Engine Pt_Engine
begin

text \<open>
  The objects of \<^verbatim>\<open>backends/mlx_backend.py\<close> and \<^verbatim>\<open>backends/pytorch_backend.py\<close>: what they hold before and
  after a model is loaded, and their methods, which assert that there is one and delegate to the engines.  A library
  model is a function from the expert weights it holds to what it computes, because loading a part of the experts
  and moving them replaces these weights in place.  Locks and devices of tensors are left out.
\<close>

declare map_of_eq_Some_iff [simp del] Some_eq_map_of_iff [simp del]

text \<open>\<^verbatim>\<open>assert self._lm is not None\<close>, and the same of \<^verbatim>\<open>_model\<close>.\<close>

definition loaded :: "'m option \<Rightarrow> ('m \<Rightarrow> 'x result) \<Rightarrow> 'x result" where
  "loaded b f = (case b of None \<Rightarrow> Inl AssertionError | Some m \<Rightarrow> f m)"

lemma loaded_simps [simp]: "loaded None f = Inl AssertionError" "loaded (Some m) f = f m"
  by (simp_all add: loaded_def)

section \<open>The MLX backend\<close>

record ('t, 'w, 'k, 'a, 'r) LoadedMLX =
  ml_view :: "'r layer_stacks list \<Rightarrow> ('t, 'w, 'k, 'a) ReferenceModel"
  ml_experts :: "'r LoadedModel"
  ml_num_layers :: int

text \<open>What \<^verbatim>\<open>mlx_vlm.load\<close> gives for a path or an id.\<close>

type_synonym ('t, 'w, 'k, 'a, 'r) mlx_library =
  "string \<Rightarrow> (('r layer_stacks list \<Rightarrow> ('t, 'w, 'k, 'a) ReferenceModel) \<times> 'r layer_stacks list) result"

definition mlx_load_model :: "('t, 'w, 'k, 'a, 'r) mlx_library \<Rightarrow> string option \<Rightarrow> (string \<Rightarrow> bool) \<Rightarrow> string \<Rightarrow> string \<Rightarrow>
    ('t, 'w, 'k, 'a, 'r) LoadedMLX result" where
  "mlx_load_model load override is_dir cache_root hf_id =
     (let resolved = resolve_local_for_mlx override is_dir cache_root hf_id in
      ebind (load resolved) (\<lambda>(model, stacks).
        Inr \<lparr>ml_view = model, ml_experts = \<lparr>lm_layers = stacks, lm_held_ids_per_layer = []\<rparr>, ml_num_layers = num_layers (model stacks)\<rparr>))"

definition mlx_load_model_partial :: "('t, 'w, 'k, 'a, 'r) mlx_library \<Rightarrow> string \<Rightarrow> (int, int list) dict \<Rightarrow> ('t, 'w, 'k, 'a, 'r) LoadedMLX result" where
  "mlx_load_model_partial load hf_id held_experts_per_layer =
     ebind (load hf_id) (\<lambda>(model, stacks).
     ebind (load_model_partial stacks held_experts_per_layer) (\<lambda>lm.
       Inr \<lparr>ml_view = model, ml_experts = lm, ml_num_layers = num_layers (model stacks)\<rparr>))"

text \<open>The object is its field \<^verbatim>\<open>_lm\<close>.\<close>

type_synonym ('t, 'w, 'k, 'a, 'r) mlx_object = "('t, 'w, 'k, 'a, 'r) LoadedMLX option"

definition mlx_name :: string where
  "mlx_name = ''mlx''"

definition mlx_init :: "('t, 'w, 'k, 'a, 'r) mlx_object" where
  "mlx_init = None"

definition mlx_from_loaded_model :: "('t, 'w, 'k, 'a, 'r) LoadedMLX \<Rightarrow> ('t, 'w, 'k, 'a, 'r) mlx_object" where
  "mlx_from_loaded_model lm = Some lm"

definition mlx_load :: "('t, 'w, 'k, 'a, 'r) mlx_library \<Rightarrow> string option \<Rightarrow> (string \<Rightarrow> bool) \<Rightarrow> string \<Rightarrow> ('t, 'w, 'k, 'a, 'r) mlx_object \<Rightarrow> string \<Rightarrow>
    ('t, 'w, 'k, 'a, 'r) mlx_object result" where
  "mlx_load load override is_dir cache_root b hf_id = ebind (mlx_load_model load override is_dir cache_root hf_id) (\<lambda>lm. Inr (Some lm))"

definition mlx_load_partial :: "('t, 'w, 'k, 'a, 'r) mlx_library \<Rightarrow> ('t, 'w, 'k, 'a, 'r) mlx_object \<Rightarrow> string \<Rightarrow> (int, int list) dict \<Rightarrow>
    ('t, 'w, 'k, 'a, 'r) mlx_object result" where
  "mlx_load_partial load b hf_id held = ebind (mlx_load_model_partial load hf_id held) (\<lambda>lm. Inr (Some lm))"

text \<open>The model as it computes with the experts it holds now.\<close>

definition ml_reference :: "('t, 'w, 'k, 'a, 'r) LoadedMLX \<Rightarrow> ('t, 'w, 'k, 'a) ReferenceModel" where
  "ml_reference lm = ml_view lm (lm_layers (ml_experts lm))"

definition mlx_num_layers :: "('t, 'w, 'k, 'a, 'r) mlx_object \<Rightarrow> int result" where
  "mlx_num_layers b = loaded b (\<lambda>lm. Inr (ml_num_layers lm))"

definition mlx_held_ids :: "('t, 'w, 'k, 'a, 'r) mlx_object \<Rightarrow> int \<Rightarrow> int list result" where
  "mlx_held_ids b layer_idx = loaded b (\<lambda>lm. Inr (dget_default (lm_held_ids_per_layer (ml_experts lm)) layer_idx []))"

definition mlx_is_split_layer :: "('t, 'w, 'k, 'a, 'r) mlx_object \<Rightarrow> int \<Rightarrow> bool" where
  "mlx_is_split_layer b layer_idx = False"

definition mlx_embed :: "('t, 'w, 'k, 'a, 'r) mlx_object \<Rightarrow> int list \<Rightarrow> 't result" where
  "mlx_embed b token_ids = loaded b (\<lambda>lm. Inr (embed_tokens (ml_reference lm) token_ids))"

definition mlx_make_cache :: "('t, 'w, 'k, 'a, 'r) mlx_object \<Rightarrow> 'k list result" where
  "mlx_make_cache b = loaded b (\<lambda>lm. Inr (rm_make_cache (ml_reference lm)))"

definition mlx_make_masks :: "('t, 'w, 'k, 'a, 'r) mlx_object \<Rightarrow> 't \<Rightarrow> 'k list \<Rightarrow> ('a \<times> 'a) result" where
  "mlx_make_masks b h cache = loaded b (\<lambda>lm. Inr (make_masks (ml_reference lm) h cache))"

definition mlx_layer_atomic :: "('t, 'w, 'k, 'a, 'r) mlx_object \<Rightarrow> int \<Rightarrow> 't \<Rightarrow> 'k list \<Rightarrow> 'a \<times> 'a \<Rightarrow> ('t \<times> 'k list) result" where
  "mlx_layer_atomic b layer_idx h cache masks = loaded b (\<lambda>lm. run_layer_atomic (rm_text_model (ml_reference lm)) layer_idx h cache masks)"

definition mlx_finalize :: "('t, 'w, 'k, 'a, 'r) mlx_object \<Rightarrow> 't \<Rightarrow> 't result" where
  "mlx_finalize b h = loaded b (\<lambda>lm. Inr (finalize (ml_reference lm) h))"

definition mlx_slice_expert :: "('t, 'w, 'k, 'a, 'r) mlx_object \<Rightarrow> int \<Rightarrow> int \<Rightarrow> 'r list result" where
  "mlx_slice_expert b layer_idx expert_id = loaded b (\<lambda>lm. slice_expert (ml_experts lm) layer_idx expert_id)"

definition mlx_attach_expert :: "('t, 'w, 'k, 'a, 'r) mlx_object \<Rightarrow> int \<Rightarrow> int \<Rightarrow> 'r list \<Rightarrow> ('t, 'w, 'k, 'a, 'r) mlx_object result" where
  "mlx_attach_expert b layer_idx expert_id tensors =
     loaded b (\<lambda>lm. ebind (attach_expert (ml_experts lm) layer_idx expert_id tensors) (\<lambda>e. Inr (Some (lm\<lparr>ml_experts := e\<rparr>))))"

definition mlx_detach_expert :: "('t, 'w, 'k, 'a, 'r) mlx_object \<Rightarrow> int \<Rightarrow> int \<Rightarrow> ('t, 'w, 'k, 'a, 'r) mlx_object result" where
  "mlx_detach_expert b layer_idx expert_id =
     loaded b (\<lambda>lm. ebind (detach_expert (ml_experts lm) layer_idx expert_id) (\<lambda>e. Inr (Some (lm\<lparr>ml_experts := e\<rparr>))))"

section \<open>The PyTorch backend\<close>

record ('t, 'p, 'a, 'k, 'r) LoadedPT =
  lp_view :: "'r pt_model \<Rightarrow> ('t, 'p, 'a, 'k) HFModel"
  lp_experts :: "'r pt_model"

record ('t, 'p, 'a, 'k, 'r) PtObject =
  po_device :: string
  po_dtype :: string
  po_model :: "('t, 'p, 'a, 'k, 'r) LoadedPT option"
  po_held_experts_per_layer :: "(int, int list) dict"

definition pt_name :: string where
  "pt_name = ''pytorch''"

definition pt_init :: "bool \<Rightarrow> bool \<Rightarrow> string option \<Rightarrow> ('t, 'p, 'a, 'k, 'r) PtObject" where
  "pt_init cuda_available mps_available device =
     (let dev = (case device of Some d \<Rightarrow> if d = [] then default_device cuda_available mps_available else d
                 | None \<Rightarrow> default_device cuda_available mps_available)
      in \<lparr>po_device = dev, po_dtype = backend_dtype dev, po_model = None, po_held_experts_per_layer = []\<rparr>)"

definition pt_from_loaded_model :: "bool \<Rightarrow> bool \<Rightarrow> string option \<Rightarrow> ('t, 'p, 'a, 'k, 'r) LoadedPT \<Rightarrow> ('t, 'p, 'a, 'k, 'r) PtObject" where
  "pt_from_loaded_model cuda_available mps_available device model = (pt_init cuda_available mps_available device)\<lparr>po_model := Some model\<rparr>"

definition pt_load :: "(string \<Rightarrow> string \<Rightarrow> string \<Rightarrow> ('t, 'p, 'a, 'k, 'r) LoadedPT result) \<Rightarrow> bool \<Rightarrow> bool \<Rightarrow> ('t, 'p, 'a, 'k, 'r) PtObject \<Rightarrow> string \<Rightarrow>
    ('t, 'p, 'a, 'k, 'r) PtObject result" where
  "pt_load from_pretrained cuda_available mps_available b hf_id =
     ebind (pt_load_model from_pretrained cuda_available mps_available (Some (po_device b)) (po_dtype b) hf_id) (\<lambda>m. Inr (b\<lparr>po_model := Some m\<rparr>))"

text \<open>\<^verbatim>\<open>partial_loader\<close> is \<^verbatim>\<open>pt_partial_load.load_model_partial\<close>, whose model is in the theory of the streaming
  loader.\<close>

definition pt_load_partial :: "(string \<Rightarrow> (int, int list) dict \<Rightarrow> string \<Rightarrow> string \<Rightarrow> ('t, 'p, 'a, 'k, 'r) LoadedPT result) \<Rightarrow> ('t, 'p, 'a, 'k, 'r) PtObject \<Rightarrow> string \<Rightarrow>
    (int, int list) dict \<Rightarrow> ('t, 'p, 'a, 'k, 'r) PtObject result" where
  "pt_load_partial partial_loader b hf_id held =
     ebind (partial_loader hf_id held (po_device b) (po_dtype b)) (\<lambda>m. Inr (b\<lparr>po_model := Some m, po_held_experts_per_layer := held\<rparr>))"

definition lp_hf :: "('t, 'p, 'a, 'k, 'r) LoadedPT \<Rightarrow> ('t, 'p, 'a, 'k) HFModel" where
  "lp_hf m = lp_view m (lp_experts m)"

definition pt_num_layers :: "('t, 'p, 'a, 'k, 'r) PtObject \<Rightarrow> int result" where
  "pt_num_layers b = loaded (po_model b) (\<lambda>m. Inr (int (length (ht_layers (text_model (lp_hf m))))))"

definition pt_object_held_ids :: "('t, 'p, 'a, 'k, 'r) PtObject \<Rightarrow> int \<Rightarrow> int list" where
  "pt_object_held_ids b layer_idx = dget_default (po_held_experts_per_layer b) layer_idx []"

definition pt_is_split_layer :: "('t, 'p, 'a, 'k, 'r) PtObject \<Rightarrow> int \<Rightarrow> bool" where
  "pt_is_split_layer b layer_idx = False"

definition pt_embed :: "('t, 'p, 'a, 'k, 'r) PtObject \<Rightarrow> int list \<Rightarrow> 't result" where
  "pt_embed b token_ids = loaded (po_model b) (\<lambda>m. Inr (pt_embed_tokens (lp_hf m) token_ids))"

definition pt_object_cache :: "('t, 'p, 'a, 'k, 'r) PtObject \<Rightarrow> 'k result" where
  "pt_object_cache b = loaded (po_model b) (\<lambda>m. Inr (pt_make_cache (lp_hf m)))"

definition pt_object_masks :: "('t, 'p, 'a, 'k, 'r) PtObject \<Rightarrow> 't \<Rightarrow> 'k \<Rightarrow> ((string, 'p) dict \<times> (string, 'a) dict option) result" where
  "pt_object_masks b h cache = loaded (po_model b) (\<lambda>m. Inr (pt_make_masks (lp_hf m) h cache))"

definition pt_layer_atomic :: "('t, 'p, 'a, 'k, 'r) PtObject \<Rightarrow> int \<Rightarrow> 't \<Rightarrow> 'k \<Rightarrow> (string, 'p) dict \<times> (string, 'a) dict option \<Rightarrow> ('t \<times> 'k) result" where
  "pt_layer_atomic b layer_idx h cache masks = loaded (po_model b) (\<lambda>m. pt_run_layer_atomic (lp_hf m) masks layer_idx h cache)"

definition pt_object_finalize :: "('t, 'p, 'a, 'k, 'r) PtObject \<Rightarrow> 't \<Rightarrow> 't result" where
  "pt_object_finalize b h = loaded (po_model b) (\<lambda>m. Inr (pt_finalize (lp_hf m) h))"

definition pt_object_slice :: "('t, 'p, 'a, 'k, 'r) PtObject \<Rightarrow> int \<Rightarrow> int \<Rightarrow> 'r list result" where
  "pt_object_slice b layer_idx expert_id = loaded (po_model b) (\<lambda>m. pt_slice_expert (lp_experts m) layer_idx expert_id)"

section \<open>The life of an object\<close>

lemma mlx_load_model_view:
  assumes "mlx_load_model load override is_dir cache_root hf_id = Inr lm"
  shows "ml_num_layers lm = num_layers (ml_reference lm)" "lm_held_ids_per_layer (ml_experts lm) = []"
  using assms by (auto simp: mlx_load_model_def ml_reference_def ebind_eq_Inr Let_def)

text \<open>A backend without a model.  Every method that needs one raises \<^verbatim>\<open>AssertionError\<close>, with one exception:
  the PyTorch backend answers that it holds no experts.\<close>

theorem unloaded_backend_raises:
  "mlx_num_layers mlx_init = Inl AssertionError" "mlx_held_ids mlx_init i = Inl AssertionError" "mlx_embed mlx_init ts = Inl AssertionError"
  "mlx_make_cache mlx_init = Inl AssertionError" "mlx_make_masks mlx_init h c = Inl AssertionError" "mlx_layer_atomic mlx_init i h c ms = Inl AssertionError"
  "mlx_finalize mlx_init h = Inl AssertionError" "mlx_slice_expert mlx_init i e = Inl AssertionError"
  "mlx_attach_expert mlx_init i e xs = Inl AssertionError" "mlx_detach_expert mlx_init i e = Inl AssertionError"
  "pt_num_layers (pt_init cuda mps dev) = Inl AssertionError" "pt_embed (pt_init cuda mps dev) ts = Inl AssertionError"
  "pt_object_cache (pt_init cuda mps dev) = Inl AssertionError" "pt_object_finalize (pt_init cuda mps dev) h' = Inl AssertionError"
  "pt_object_held_ids (pt_init cuda mps dev) i = []"
  by (simp_all add: mlx_init_def mlx_num_layers_def mlx_held_ids_def mlx_embed_def mlx_make_cache_def mlx_make_masks_def mlx_layer_atomic_def mlx_finalize_def
      mlx_slice_expert_def mlx_attach_expert_def mlx_detach_expert_def pt_init_def pt_num_layers_def pt_embed_def pt_object_cache_def
      pt_object_finalize_def pt_object_held_ids_def Let_def)

text \<open>Moving an expert changes what the MLX object computes with and what it holds, and keeps the number of layers;
  an exception leaves the object as it was, since nothing is returned in its place.\<close>

lemma mlx_attach_keeps_layers: "mlx_attach_expert b i e xs = Inr b' \<Longrightarrow> mlx_num_layers b' = mlx_num_layers b"
  by (cases b) (auto simp: mlx_attach_expert_def mlx_num_layers_def ebind_eq_Inr)

lemma mlx_detach_keeps_layers: "mlx_detach_expert b i e = Inr b' \<Longrightarrow> mlx_num_layers b' = mlx_num_layers b"
  by (cases b) (auto simp: mlx_detach_expert_def mlx_num_layers_def ebind_eq_Inr)

text \<open>Device and element type of the PyTorch backend.  The model is loaded on the device of the object with its
  element type, which is never bfloat16 on an Apple GPU: the correction in \<^verbatim>\<open>load_model\<close> has nothing left to do.\<close>

theorem pt_load_uses_own_device:
  "pt_load from_pretrained cuda mps (pt_init cuda mps device) hf_id =
     ebind (from_pretrained hf_id (po_dtype (pt_init cuda mps device :: ('t, 'p, 'a, 'k, 'r) PtObject)) (po_device (pt_init cuda mps device :: ('t, 'p, 'a, 'k, 'r) PtObject)))
       (\<lambda>m. Inr ((pt_init cuda mps device :: ('t, 'p, 'a, 'k, 'r) PtObject)\<lparr>po_model := Some m\<rparr>))"
  by (auto simp: pt_load_def pt_load_model_def load_dtype_def pt_init_def backend_dtype_def default_device_def Let_def split: option.split if_splits)

text \<open>The two loaders of the MLX backend look in different places.  With a local conversion of the model, or with the
  environment variable set, a full load takes that directory; a partial load of the same model asks the library for the
  id itself.  Where only the directory is there the node that holds a part of the experts does not come up.\<close>

theorem partial_load_ignores_local:
  assumes "resolve_local_for_mlx override is_dir cache_root hf_id = dir" and "load dir = Inr (model, stacks)" and "load hf_id = Inl OSError"
  shows "returns (mlx_load load override is_dir cache_root mlx_init hf_id) \<and> mlx_load_partial load mlx_init hf_id held = Inl OSError"
  using assms by (simp add: mlx_load_def mlx_load_model_def mlx_load_partial_def mlx_load_model_partial_def returns_def Let_def)

end
