(* ===== verification/Top_K.thy ===== *)
theory Top_K
  imports Floats "HOL-Library.Multiset"
begin

text \<open>
  \<^verbatim>\<open>top_k_ids_and_weights\<close> of \<^verbatim>\<open>mlx_engine.py\<close> and of \<^verbatim>\<open>pytorch_engine.py\<close>: the k most
  likely tokens of the last position and their probabilities, one by sorting all positions, the other with the
  library's selection.  Logits are given by their last row.  The softmax, the sort and the selection are parameters
  with the behaviour their documentation promises; ties may be broken in any way.
\<close>

section \<open>The two routines\<close>

text \<open>The slice \<^verbatim>\<open>xs[:e]\<close>.\<close>

definition py_take :: "int \<Rightarrow> 'a list \<Rightarrow> 'a list" where
  "py_take e xs = take (nat (if 0 \<le> e then e else int (length xs) + e)) xs"

definition mlx_top_k :: "(py_float list \<Rightarrow> py_float list) \<Rightarrow> (py_float list \<Rightarrow> nat list) \<Rightarrow> py_float list \<Rightarrow> int \<Rightarrow> (int list \<times> py_float list) result" where
  "mlx_top_k softmax argsort row k =
     (let weights = softmax row;
          effective_k = min k (int (length row));
          sorted_desc = argsort (map uminus weights);
          top_i = py_take effective_k sorted_desc;
          top_w = map (\<lambda>i. weights ! i) top_i
      in Inr (map int top_i, top_w))"

definition pt_top_k :: "(py_float list \<Rightarrow> py_float list) \<Rightarrow> (py_float list \<Rightarrow> int \<Rightarrow> (py_float list \<times> nat list) result) \<Rightarrow> py_float list \<Rightarrow> int \<Rightarrow>
    (int list \<times> py_float list) result" where
  "pt_top_k softmax topk row k =
     (let weights = softmax row;
          effective_k = min k (int (length row))
      in ebind (topk weights effective_k) (\<lambda>(top_w, top_i). Inr (map int top_i, top_w)))"

section \<open>What they promise\<close>

text \<open>Distinct ids within the vocabulary, as many as asked for and available, with their weights, in descending order
  of the weights, and no id that is left out has a larger weight.\<close>

definition is_top_k :: "py_float list \<Rightarrow> nat \<Rightarrow> int list \<Rightarrow> py_float list \<Rightarrow> bool" where
  "is_top_k ws k ids ps \<longleftrightarrow>
     length ids = min k (length ws) \<and> distinct ids \<and> set ids \<subseteq> {0..<int (length ws)} \<and> ps = map (\<lambda>i. ws ! nat i) ids \<and>
     sorted (rev ps) \<and> (\<forall>i \<in> {0..<int (length ws)} - set ids. \<forall>p \<in> set ps. ws ! nat i \<le> p)"

locale top_k_routine =
  fixes softmax :: "py_float list \<Rightarrow> py_float list" and top_k :: "py_float list \<Rightarrow> int \<Rightarrow> (int list \<times> py_float list) result"
  assumes softmax_length: "length (softmax xs) = length xs"
    and top_k_correct: "0 \<le> k \<Longrightarrow> \<exists>ids ps. top_k xs k = Inr (ids, ps) \<and> is_top_k (softmax xs) (nat k) ids ps"
begin

text \<open>With at least one token asked for, the first id is one of the most likely.\<close>

lemma first_is_max:
  assumes "xs \<noteq> []" and "0 < k" and "top_k xs k = Inr (ids, ps)"
  shows "ids \<noteq> [] \<and> 0 \<le> hd ids \<and> nat (hd ids) < length xs \<and> (\<forall>i < length xs. softmax xs ! i \<le> softmax xs ! nat (hd ids))"
proof -
  have t: "is_top_k (softmax xs) (nat k) ids ps" using top_k_correct [of k xs] assms by force
  then have l: "length ids = min (nat k) (length xs)" by (simp add: is_top_k_def softmax_length)
  then obtain i0 rest where ids: "ids = i0 # rest" using assms(1,2) by (cases ids) (auto simp: min_def split: if_splits)
  have ps: "ps = map (\<lambda>i. softmax xs ! nat i) ids" and le: "\<forall>p \<in> set ps. p \<le> softmax xs ! nat i0"
    using t ids by (auto simp: is_top_k_def sorted_append)
  have i0: "0 \<le> i0" "nat i0 < length xs" using t ids by (auto simp: is_top_k_def softmax_length)
  have "softmax xs ! i \<le> softmax xs ! nat i0" if "i < length xs" for i
  proof (cases "int i \<in> set ids")
    case True
    then show ?thesis using le ps by force
  next
    case False
    then have "int i \<in> {0..<int (length (softmax xs))} - set ids" using that by (simp add: softmax_length)
    moreover have "softmax xs ! nat i0 \<in> set ps" using ps ids by simp
    ultimately have "softmax xs ! nat (int i) \<le> softmax xs ! nat i0" using t unfolding is_top_k_def by blast
    then show ?thesis by simp
  qed
  then show ?thesis using ids i0 by simp
qed

text \<open>Where the maximum is unique it is the token that sampling takes.\<close>

lemma first_is_argmax:
  assumes "xs \<noteq> []" and "0 < k" and "top_k xs k = Inr (ids, ps)"
    and mono: "\<And>i j. i < length xs \<Longrightarrow> j < length xs \<Longrightarrow> xs ! i \<le> xs ! j \<Longrightarrow> softmax xs ! i \<le> softmax xs ! j"
    and uniq: "\<And>i j. i < length xs \<Longrightarrow> j < length xs \<Longrightarrow> \<forall>l < length xs. softmax xs ! l \<le> softmax xs ! i \<Longrightarrow> \<forall>l < length xs. softmax xs ! l \<le> softmax xs ! j \<Longrightarrow> i = j"
    and arg: "a < length xs" "\<forall>l < length xs. xs ! l \<le> xs ! a"
  shows "hd ids = int a"
proof -
  have *: "ids \<noteq> []" "0 \<le> hd ids" "nat (hd ids) < length xs" "\<forall>i < length xs. softmax xs ! i \<le> softmax xs ! nat (hd ids)"
    using first_is_max [OF assms(1-3)] by auto
  have "\<forall>l < length xs. softmax xs ! l \<le> softmax xs ! a" using mono arg by blast
  then have "nat (hd ids) = a" using uniq *(3,4) arg(1) by blast
  then show ?thesis using *(2) by simp
qed

end

section \<open>Sorting all positions\<close>

lemma nat_perm:
  assumes "mset js = mset [0..<n]"
  shows "distinct js" "set js = {0..<n}" "length js = n"
proof -
  show "distinct js" using assms mset_eq_imp_distinct_iff [of js "[0..<n]"] by simp
  show "set js = {0..<n}" using mset_eq_setD [OF assms] by simp
  show "length js = n" using mset_eq_length [OF assms] by simp
qed

text \<open>A list of ids whose weights descend, cut off after k, is a top k.\<close>

lemma take_descending:
  assumes perm: "mset js = mset [0..<length ws]" and desc: "sorted (rev (map ((!) ws) js))"
  shows "is_top_k ws k (map int (take k js)) (map ((!) ws) (take k js))"
proof -
  note js = nat_perm [OF perm]
  have in_range: "set (take k js) \<subseteq> {0..<length ws}" using set_take_subset [of k js] js(2) by blast
  have split: "map ((!) ws) js = map ((!) ws) (take k js) @ map ((!) ws) (drop k js)" by (metis append_take_drop_id map_append)
  have d: "sorted (rev (map ((!) ws) (take k js)))" "\<forall>p \<in> set (take k js). \<forall>q \<in> set (drop k js). ws ! q \<le> ws ! p"
    using desc unfolding split by (auto simp: sorted_append)
  have "ws ! nat i \<le> ws ! p" if "i \<in> {0..<int (length ws)} - int ` set (take k js)" "p \<in> set (take k js)" for i p
  proof -
    have "nat i \<in> set js" "nat i \<notin> set (take k js)" using that js(2) by (auto simp: image_iff)
    then have "nat i \<in> set (drop k js)" by (metis Un_iff append_take_drop_id set_append)
    with d(2) that(2) show ?thesis by blast
  qed
  with d(1) js(1,3) in_range show ?thesis by (auto simp: is_top_k_def distinct_map o_def)
qed

text \<open>\<^verbatim>\<open>mx.argsort\<close>: the positions of an array, those of smaller elements first.\<close>

locale argsorting =
  fixes softmax :: "py_float list \<Rightarrow> py_float list" and argsort :: "py_float list \<Rightarrow> nat list"
  assumes soft_length: "length (softmax xs) = length xs"
    and argsort_perm: "mset (argsort xs) = mset [0..<length xs]" and argsort_sorted: "sorted (map ((!) xs) (argsort xs))"
begin

lemma mlx_top_k_correct:
  assumes "0 \<le> k"
  shows "\<exists>ids ps. mlx_top_k softmax argsort xs k = Inr (ids, ps) \<and> is_top_k (softmax xs) (nat k) ids ps"
proof -
  let ?js = "argsort (map uminus (softmax xs))"
  have perm: "mset ?js = mset [0..<length (softmax xs)]" using argsort_perm [of "map uminus (softmax xs)"] by simp
  note js = nat_perm [OF perm]
  have "map ((!) (map uminus (softmax xs))) ?js = map (\<lambda>j. - (softmax xs ! j)) ?js" using js(2) by auto
  then have "sorted (map (\<lambda>j. - (softmax xs ! j)) ?js)" by (rule subst) (rule argsort_sorted)
  then have "sorted (rev (map ((!) (softmax xs)) ?js))" by (simp add: sorted_wrt_rev sorted_wrt_map)
  note top = take_descending [OF perm this, of "nat (min k (int (length xs)))"]
  have len: "nat (min k (int (length xs))) = min (nat k) (length (softmax xs))" using assms by (cases "k \<le> int (length xs)") (auto simp: soft_length min_def)
  have "is_top_k (softmax xs) (nat k) (map int (take (nat (min k (int (length xs)))) ?js)) (map ((!) (softmax xs)) (take (nat (min k (int (length xs)))) ?js))"
    using top unfolding len by (simp add: is_top_k_def)
  then show ?thesis using assms by (simp add: mlx_top_k_def py_take_def Let_def)
qed

end

sublocale argsorting \<subseteq> mlx: top_k_routine softmax "mlx_top_k softmax argsort"
  by unfold_locales (rule soft_length, rule mlx_top_k_correct)

section \<open>Selecting the largest\<close>

text \<open>\<^verbatim>\<open>torch.topk\<close>: the largest elements in descending order, and where they are.\<close>

locale largest_selection =
  fixes softmax :: "py_float list \<Rightarrow> py_float list" and topk :: "py_float list \<Rightarrow> int \<Rightarrow> (py_float list \<times> nat list) result"
  assumes soft_length: "length (softmax xs) = length xs"
    and topk_largest: "0 \<le> k \<Longrightarrow> k \<le> int (length ws) \<Longrightarrow>
      \<exists>js. topk ws k = Inr (take (nat k) (rev (sort ws)), js) \<and> distinct js \<and> set js \<subseteq> {0..<length ws} \<and> map ((!) ws) js = take (nat k) (rev (sort ws))"
begin

lemma largest_is_top_k:
  assumes js: "distinct js" "set js \<subseteq> {0..<length ws}" and w: "map ((!) ws) js = take k (rev (sort ws))" and k: "k \<le> length ws"
  shows "is_top_k ws k (map int js) (map ((!) ws) js)"
proof -
  have len: "length js = k" using arg_cong [OF w, of length] k by simp
  have srt: "sorted (rev (map ((!) ws) js))" by (simp only: w) (simp add: rev_take)
  let ?rest = "filter (\<lambda>i. i \<notin> set js) [0..<length ws]"
  have "mset ws = image_mset ((!) ws) (mset [0..<length ws])" by (metis map_nth mset_map)
  also have "mset [0..<length ws] = mset js + mset ?rest"
    using js by (subst mset_append [symmetric], intro set_eq_iff_mset_eq_distinct [THEN iffD1]) auto
  finally have "mset ws = mset (take k (rev (sort ws))) + image_mset ((!) ws) (mset ?rest)" by (simp add: w [symmetric])
  moreover have "mset ws = mset (take k (rev (sort ws))) + mset (drop k (rev (sort ws)))" by (metis append_take_drop_id mset_append mset_rev mset_sort)
  ultimately have "image_mset ((!) ws) (mset ?rest) = mset (drop k (rev (sort ws)))" by simp
  then have rest: "(!) ws ` set ?rest = set (drop k (rev (sort ws)))" by (metis set_image_mset set_mset_mset)
  have "sorted (rev (take k (rev (sort ws)) @ drop k (rev (sort ws))))" by simp
  then have le: "\<forall>p \<in> set (take k (rev (sort ws))). \<forall>q \<in> set (drop k (rev (sort ws))). q \<le> p" unfolding rev_append sorted_append by simp
  have "ws ! nat i \<le> ws ! p" if "i \<in> {0..<int (length ws)} - int ` set js" "p \<in> set js" for i p
  proof -
    have "nat i \<in> set ?rest" using that by (auto simp: image_iff)
    then have "ws ! nat i \<in> set (drop k (rev (sort ws)))" using rest by blast
    moreover have "ws ! p \<in> set (take k (rev (sort ws)))" using that(2) by (simp add: w [symmetric])
    ultimately show ?thesis using le by blast
  qed
  with js len k srt show ?thesis by (auto simp: is_top_k_def distinct_map o_def)
qed

lemma pt_top_k_correct:
  assumes "0 \<le> k"
  shows "\<exists>ids ps. pt_top_k softmax topk xs k = Inr (ids, ps) \<and> is_top_k (softmax xs) (nat k) ids ps"
proof -
  let ?k = "min k (int (length xs))"
  obtain js where r: "topk (softmax xs) ?k = Inr (take (nat ?k) (rev (sort (softmax xs))), js)" and js: "distinct js" "set js \<subseteq> {0..<length (softmax xs)}"
    and w: "map ((!) (softmax xs)) js = take (nat ?k) (rev (sort (softmax xs)))"
    using topk_largest [of ?k "softmax xs"] assms by (auto simp: soft_length)
  have "is_top_k (softmax xs) (nat ?k) (map int js) (map ((!) (softmax xs)) js)" by (rule largest_is_top_k [OF js w]) (simp add: soft_length)
  then have "is_top_k (softmax xs) (nat k) (map int js) (map ((!) (softmax xs)) js)" using assms by (cases "k \<le> int (length xs)") (auto simp: is_top_k_def soft_length)
  with r w show ?thesis by (simp add: pt_top_k_def Let_def)
qed

end

sublocale largest_selection \<subseteq> pt: top_k_routine softmax "pt_top_k softmax topk"
  by unfold_locales (rule soft_length, rule pt_top_k_correct)

section \<open>Instances\<close>

text \<open>A stable sort of the positions has the promised behaviour, for both libraries.\<close>

definition stable_argsort :: "py_float list \<Rightarrow> nat list" where
  "stable_argsort xs = sort_key ((!) xs) [0..<length xs]"

definition stable_topk :: "py_float list \<Rightarrow> int \<Rightarrow> (py_float list \<times> nat list) result" where
  "stable_topk xs k = (let js = take (nat k) (rev (stable_argsort xs)) in Inr (map ((!) xs) js, js))"

lemma stable_values: "map ((!) xs) (stable_argsort xs) = sort xs"
  by (metis map_nth mset_map mset_sort properties_for_sort sorted_sort_key stable_argsort_def)

interpretation stable: argsorting id stable_argsort
  by unfold_locales (simp_all add: stable_values, simp add: stable_argsort_def)

interpretation stable_selection: largest_selection id stable_topk
proof unfold_locales
  show "\<exists>js. stable_topk ws k = Inr (take (nat k) (rev (sort ws)), js) \<and> distinct js \<and> set js \<subseteq> {0..<length ws} \<and> map ((!) ws) js = take (nat k) (rev (sort ws))" for ws k
    using set_take_subset [of "nat k" "rev (stable_argsort ws)"]
    by (auto simp: stable_topk_def Let_def take_map [symmetric] rev_map [symmetric] stable_values) (auto simp: stable_argsort_def)
qed simp

end
