(* ===== verification/Fixture.thy ===== *)
theory Fixture
  imports Backend_Objects Startup Top_K Demo_Ring
begin

text \<open>
  \<^verbatim>\<open>scripts/generate_tier1_comparison_fixture.py\<close>: greedy decoding through a backend with the most likely tokens of
  each position written down.  The tests of the repository compare the files of the two backends, and take the first
  id of each position for the token the model generates.
\<close>

declare map_of_eq_Some_iff [simp del] Some_eq_map_of_iff [simp del]

section \<open>The methods of a backend that the script calls\<close>

record ('t, 'c, 'm) Forward =
  fw_name :: string
  fw_make_cache :: "'c result"
  fw_embed :: "int list \<Rightarrow> 't result"
  fw_make_masks :: "'t \<Rightarrow> 'c \<Rightarrow> 'm result"
  fw_num_layers :: "int result"
  fw_run_layer_atomic :: "int \<Rightarrow> 't \<Rightarrow> 'c \<Rightarrow> 'm \<Rightarrow> ('t \<times> 'c) result"
  fw_finalize :: "'t \<Rightarrow> 't result"

definition mlx_forward :: "('t, 'w, 'k, 'a, 'r) mlx_object \<Rightarrow> ('t, 'k list, 'a \<times> 'a) Forward" where
  "mlx_forward b = \<lparr>fw_name = mlx_name, fw_make_cache = mlx_make_cache b, fw_embed = mlx_embed b, fw_make_masks = mlx_make_masks b,
     fw_num_layers = mlx_num_layers b, fw_run_layer_atomic = mlx_layer_atomic b, fw_finalize = mlx_finalize b\<rparr>"

definition pt_forward :: "('t, 'p, 'a, 'k, 'r) PtObject \<Rightarrow> ('t, 'k, (string, 'p) dict \<times> (string, 'a) dict option) Forward" where
  "pt_forward b = \<lparr>fw_name = pt_name, fw_make_cache = pt_object_cache b, fw_embed = pt_embed b, fw_make_masks = pt_object_masks b,
     fw_num_layers = pt_num_layers b, fw_run_layer_atomic = pt_layer_atomic b, fw_finalize = pt_object_finalize b\<rparr>"

section \<open>The script\<close>

record Position =
  po_ids :: "int list"
  po_weights :: "py_float list"

definition layer_loop :: "('t, 'c, 'm) Forward \<Rightarrow> int \<Rightarrow> 'm \<Rightarrow> 't \<Rightarrow> 'c \<Rightarrow> ('t \<times> 'c) result" where
  "layer_loop fw n masks h cache = efold (\<lambda>i (h, cache). fw_run_layer_atomic fw i h cache masks) [0..n - 1] (h, cache)"

text \<open>The turns after the first position; \<^verbatim>\<open>topk\<close> is the engine's \<^verbatim>\<open>top_k_ids_and_weights\<close>.\<close>

fun decode_positions :: "('t, 'c, 'm) Forward \<Rightarrow> ('t \<Rightarrow> int \<Rightarrow> (int list \<times> py_float list) result) \<Rightarrow> int \<Rightarrow> int \<Rightarrow> nat \<Rightarrow> int list \<Rightarrow> 'c \<Rightarrow> Position list result" where
  "decode_positions fw topk k n 0 ids cache = Inr []"
| "decode_positions fw topk k n (Suc turns) ids cache =
     ebind (py_index ids 0) (\<lambda>tok_id.
     ebind (fw_embed fw [tok_id]) (\<lambda>h.
     ebind (fw_make_masks fw h cache) (\<lambda>masks.
     ebind (layer_loop fw n masks h cache) (\<lambda>(h', cache').
     ebind (fw_finalize fw h') (\<lambda>logits.
     ebind (topk logits k) (\<lambda>(ids', weights).
     ebind (decode_positions fw topk k n turns ids' cache') (\<lambda>out. Inr (\<lparr>po_ids = ids', po_weights = weights\<rparr> # out))))))))"

definition greedy_decode_with_topk :: "('t, 'c, 'm) Forward \<Rightarrow> ('t \<Rightarrow> int \<Rightarrow> (int list \<times> py_float list) result) \<Rightarrow> int list \<Rightarrow> int \<Rightarrow> int \<Rightarrow> Position list result" where
  "greedy_decode_with_topk fw topk prompt_ids n_positions k =
     ebind (fw_make_cache fw) (\<lambda>cache.
     ebind (fw_embed fw prompt_ids) (\<lambda>h.
     ebind (fw_make_masks fw h cache) (\<lambda>masks.
     ebind (fw_num_layers fw) (\<lambda>n.
     ebind (layer_loop fw n masks h cache) (\<lambda>(h', cache').
     ebind (fw_finalize fw h') (\<lambda>logits.
     ebind (topk logits k) (\<lambda>(ids, weights).
     ebind (decode_positions fw topk k n (nat (n_positions - 1)) ids cache') (\<lambda>out.
       Inr (\<lparr>po_ids = ids, po_weights = weights\<rparr> # out)))))))))"

definition PROMPTS :: "string list" where
  "PROMPTS = [''The quick brown fox'', ''In a galaxy far far away'', ''Once upon a time'']"

definition N_POSITIONS :: int where
  "N_POSITIONS = 10"

definition TOP_K_RECORDED :: int where
  "TOP_K_RECORDED = 5"

record FixturePrompt =
  fp_prompt :: string
  fp_prompt_ids :: "int list"
  fp_top_k_per_position :: "Position list"

record FixtureDoc =
  fd_model_id :: string
  fd_backend :: string
  fd_device :: string
  fd_dtype :: string
  fd_n_positions :: int
  fd_top_k_recorded :: int
  fd_generator :: string
  fd_prompts :: "FixturePrompt list"

text \<open>The part of \<^verbatim>\<open>main\<close> after the backend has been loaded: the file it writes and its content.\<close>

definition write_fixture :: "('t, 'c, 'm) Forward \<Rightarrow> ('t \<Rightarrow> int \<Rightarrow> (int list \<times> py_float list) result) \<Rightarrow> (string \<Rightarrow> int list result) \<Rightarrow> string \<Rightarrow> string \<Rightarrow> string \<Rightarrow>
    (string \<times> FixtureDoc) result" where
  "write_fixture fw topk tok hf_id device dtype_str =
     ebind (emap (\<lambda>prompt.
              ebind (tok prompt) (\<lambda>prompt_ids.
              ebind (greedy_decode_with_topk fw topk prompt_ids N_POSITIONS TOP_K_RECORDED) (\<lambda>positions.
                Inr \<lparr>fp_prompt = prompt, fp_prompt_ids = prompt_ids, fp_top_k_per_position = positions\<rparr>))) PROMPTS)
       (\<lambda>prompts. Inr (''tests/fixtures/'' @ fw_name fw @ ''_tier1_tokens.json'',
          \<lparr>fd_model_id = hf_id, fd_backend = fw_name fw, fd_device = device, fd_dtype = dtype_str, fd_n_positions = N_POSITIONS,
           fd_top_k_recorded = TOP_K_RECORDED, fd_generator = fw_name fw @ '' greedy decode + top-5 record'', fd_prompts = prompts\<rparr>))"

text \<open>The choice of the backend in \<^verbatim>\<open>_load_backend\<close>.\<close>

definition fixture_backend :: "environ \<Rightarrow> Platform \<Rightarrow> backend_kind result" where
  "fixture_backend env pf =
     (let v = py_lower (dget_default env ''MODEL_SHARD_BACKEND'' []); name = (if v = [] then ''pytorch'' else v) in
      if name = ''mlx'' then construct_backend pf MLX_Backend
      else if name = ''pytorch'' then construct_backend pf PyTorch_Backend
      else Inl ValueError)"

text \<open>What the script finds on the machine: the libraries that load models, the rows of logits of each, and the
  tokenizer of a model.\<close>

record ('t, 'w, 'k, 'a, 'r, 'u, 'p, 'b, 'c) Machine =
  mc_platform :: Platform
  mc_mlx_load :: "('t, 'w, 'k, 'a, 'r) mlx_library"
  mc_is_dir :: "string \<Rightarrow> bool"
  mc_cache_root :: string
  mc_mlx_top_k :: "'t \<Rightarrow> int \<Rightarrow> (int list \<times> py_float list) result"
  mc_cuda :: bool
  mc_mps :: bool
  mc_from_pretrained :: "string \<Rightarrow> string \<Rightarrow> string \<Rightarrow> ('u, 'p, 'b, 'c, 'r) LoadedPT result"
  mc_pt_top_k :: "'u \<Rightarrow> int \<Rightarrow> (int list \<times> py_float list) result"
  mc_tokenizer :: "string \<Rightarrow> (string \<Rightarrow> int list result) result"

definition fixture_main :: "environ \<Rightarrow> ('t, 'w, 'k, 'a, 'r, 'u, 'p, 'b, 'c) Machine \<Rightarrow> string \<Rightarrow> (string \<times> FixtureDoc) result" where
  "fixture_main env mc model =
     ebind (fixture_backend env (mc_platform mc)) (\<lambda>kind.
       case kind of
         MLX_Backend \<Rightarrow>
           ebind (mlx_load (mc_mlx_load mc) (dget env ''MLX_MODEL_BF16_LOCAL_PATH'') (mc_is_dir mc) (mc_cache_root mc) mlx_init model) (\<lambda>backend.
           ebind (mc_tokenizer mc model) (\<lambda>tok. write_fixture (mlx_forward backend) (mc_mlx_top_k mc) tok model ''mps'' ''mlx-bf16''))
       | PyTorch_Backend \<Rightarrow>
           let backend = pt_init (mc_cuda mc) (mc_mps mc) None in
           ebind (pt_load (mc_from_pretrained mc) (mc_cuda mc) (mc_mps mc) backend model) (\<lambda>backend.
           ebind (mc_tokenizer mc model) (\<lambda>tok. write_fixture (pt_forward backend) (mc_pt_top_k mc) tok model (po_device backend) (po_dtype backend))))"

section \<open>Decoding through the MLX object is greedy generation\<close>

text \<open>The model that samples the first recorded id.\<close>

definition taking_first :: "('t \<Rightarrow> int \<Rightarrow> (int list \<times> py_float list) result) \<Rightarrow> int \<Rightarrow> ('t, 'w, 'k, 'a) ReferenceModel \<Rightarrow> ('t, 'w, 'k, 'a) ReferenceModel" where
  "taking_first topk k rm = rm\<lparr>rm_argmax_last := (\<lambda>logits. case topk logits k of Inr (ids, _) \<Rightarrow> hd ids | Inl _ \<Rightarrow> 0)\<rparr>"

lemma taking_first_simps [simp]:
  "rm_text_model (taking_first topk k rm) = rm_text_model rm" "rm_make_cache (taking_first topk k rm) = rm_make_cache rm"
  "num_layers (taking_first topk k rm) = num_layers rm" "embed_tokens (taking_first topk k rm) = embed_tokens rm"
  "make_masks (taking_first topk k rm) = make_masks rm" "finalize (taking_first topk k rm) = finalize rm"
  by (auto simp: taking_first_def num_layers_def embed_tokens_def make_masks_def finalize_def fun_eq_iff Let_def split: option.split)

definition answers :: "('t \<Rightarrow> int \<Rightarrow> (int list \<times> py_float list) result) \<Rightarrow> int \<Rightarrow> bool" where
  "answers topk k \<longleftrightarrow> (\<forall>logits. \<exists>ids weights. topk logits k = Inr (ids, weights) \<and> ids \<noteq> [])"

lemma answers_first:
  assumes "answers topk k"
  obtains ids weights where "topk logits k = Inr (ids, weights)" "py_index ids 0 = Inr (rm_argmax_last (taking_first topk k rm) logits)"
proof -
  obtain ids weights where "topk logits k = Inr (ids, weights)" "ids \<noteq> []" using assms unfolding answers_def by blast
  then show thesis using that by (cases ids) (auto simp: taking_first_def py_index_def py_pos_def)
qed

lemma mlx_forward_loaded:
  "fw_name (mlx_forward b) = ''mlx''" "fw_make_cache (mlx_forward (Some lm)) = Inr (rm_make_cache (ml_reference lm))"
  "fw_embed (mlx_forward (Some lm)) ts = Inr (embed_tokens (ml_reference lm) ts)"
  "fw_make_masks (mlx_forward (Some lm)) h c = Inr (make_masks (ml_reference lm) h c)" "fw_num_layers (mlx_forward (Some lm)) = Inr (ml_num_layers lm)"
  "fw_finalize (mlx_forward (Some lm)) h = Inr (finalize (ml_reference lm) h)"
  by (simp_all add: mlx_forward_def mlx_name_def mlx_make_cache_def mlx_embed_def mlx_make_masks_def mlx_num_layers_def mlx_finalize_def)

lemma mlx_layer_loop:
  "layer_loop (mlx_forward (Some lm)) n masks h cache = run_atomic (rm_text_model (ml_reference lm)) masks [0..n - 1] h cache"
  by (simp add: layer_loop_def mlx_forward_def run_atomic_def mlx_layer_atomic_def)

abbreviation first_ids :: "Position list result \<Rightarrow> int list result" where
  "first_ids r \<equiv> map_sum id (map (\<lambda>p. hd (po_ids p))) r"

lemma decode_positions_greedy:
  assumes "answers topk k" and "ml_num_layers lm = num_layers (ml_reference lm)" and "py_index ids 0 = Inr t"
  shows "first_ids (decode_positions (mlx_forward (Some lm)) topk k (ml_num_layers lm) turns ids cache) =
    greedy_loop (taking_first topk k (ml_reference lm)) turns t cache"
  using assms(3)
proof (induction turns arbitrary: ids t cache)
  case (Suc turns)
  let ?rm = "ml_reference lm" let ?h = "embed_tokens ?rm [t]"
  show ?case
  proof (cases "run_atomic (rm_text_model ?rm) (make_masks ?rm ?h cache) [0..num_layers ?rm - 1] ?h cache")
    case (Inr r)
    obtain h' cache' where r: "r = (h', cache')" by fastforce
    obtain ids' weights where a: "topk (finalize ?rm h') k = Inr (ids', weights)"
      "py_index ids' 0 = Inr (rm_argmax_last (taking_first topk k ?rm) (finalize ?rm h'))" using answers_first [OF assms(1)] by blast
    then have "hd ids' = rm_argmax_last (taking_first topk k ?rm) (finalize ?rm h')" by (cases ids') (auto simp: py_index_def py_pos_def)
    with Suc.prems a Inr r assms(2) Suc.IH [OF a(2), of cache', symmetric] show ?thesis
      by (cases "decode_positions (mlx_forward (Some lm)) topk k (ml_num_layers lm) turns ids' cache'")
        (simp_all add: forward_step_def mlx_layer_loop mlx_forward_loaded Let_def)
  qed (use Suc assms(2) in \<open>simp add: forward_step_def mlx_layer_loop mlx_forward_loaded Let_def\<close>)
qed simp

lemma mlx_decode_greedy:
  assumes "answers topk k" and "ml_num_layers lm = num_layers (ml_reference lm)"
  shows "first_ids (greedy_decode_with_topk (mlx_forward (Some lm)) topk prompt_ids n k) = generate_greedy (taking_first topk k (ml_reference lm)) prompt_ids n"
proof -
  let ?rm = "ml_reference lm" let ?h = "embed_tokens ?rm prompt_ids" let ?c = "rm_make_cache ?rm"
  show ?thesis
  proof (cases "run_atomic (rm_text_model ?rm) (make_masks ?rm ?h ?c) [0..num_layers ?rm - 1] ?h ?c")
    case (Inr r)
    obtain h' cache' where r: "r = (h', cache')" by fastforce
    obtain ids weights where a: "topk (finalize ?rm h') k = Inr (ids, weights)"
      "py_index ids 0 = Inr (rm_argmax_last (taking_first topk k ?rm) (finalize ?rm h'))" using answers_first [OF assms(1)] by blast
    then have "hd ids = rm_argmax_last (taking_first topk k ?rm) (finalize ?rm h')" by (cases ids) (auto simp: py_index_def py_pos_def)
    with a Inr r assms(2) decode_positions_greedy [OF assms a(2), of "nat (n - 1)" cache', symmetric] show ?thesis
      by (cases "decode_positions (mlx_forward (Some lm)) topk k (ml_num_layers lm) (nat (n - 1)) ids cache'")
        (simp_all add: greedy_decode_with_topk_def generate_greedy_def forward_step_def mlx_layer_loop mlx_forward_loaded Let_def)
  qed (use assms(2) in \<open>simp add: greedy_decode_with_topk_def generate_greedy_def forward_step_def mlx_layer_loop mlx_forward_loaded Let_def\<close>)
qed

section \<open>What every run records\<close>

lemma decode_positions_records:
  assumes "\<And>logits ids ws. topk logits k = Inr (ids, ws) \<Longrightarrow> P ids ws"
  shows "decode_positions fw topk k n turns ids cache = Inr out \<Longrightarrow> length out = turns \<and> (\<forall>p \<in> set out. P (po_ids p) (po_weights p))"
proof (induction turns arbitrary: ids cache out)
  case (Suc turns)
  from Suc.prems obtain logits ids' ws cache' out' where "topk logits k = Inr (ids', ws)" "decode_positions fw topk k n turns ids' cache' = Inr out'"
    "out = \<lparr>po_ids = ids', po_weights = ws\<rparr> # out'" by (auto simp: ebind_eq_Inr)
  with Suc.IH [of ids' cache' out'] assms show ?case by auto
qed simp

lemma decode_records:
  assumes P: "\<And>logits ids ws. topk logits k = Inr (ids, ws) \<Longrightarrow> P ids ws" and "1 \<le> n" and run: "greedy_decode_with_topk fw topk prompt_ids n k = Inr out"
  shows "int (length out) = n \<and> (\<forall>p \<in> set out. P (po_ids p) (po_weights p))"
proof -
  from run obtain logits ids ws nl cache' out' where "topk logits k = Inr (ids, ws)" "decode_positions fw topk k nl (nat (n - 1)) ids cache' = Inr out'"
    "out = \<lparr>po_ids = ids, po_weights = ws\<rparr> # out'" by (auto simp: greedy_decode_with_topk_def ebind_eq_Inr)
  moreover from this(2) have "length out' = nat (n - 1) \<and> (\<forall>p \<in> set out'. P (po_ids p) (po_weights p))" by (rule decode_positions_records [where P = P, rotated]) (rule P)
  moreover from calculation(1) have "P ids ws" by (rule P)
  ultimately show ?thesis using assms(2) by simp
qed

text \<open>The file: one entry for each prompt, in order, made from its decoding.\<close>

lemma write_fixture_Inr:
  assumes "write_fixture fw topk tok hf_id device dtype = Inr (path, doc)"
  shows "path = ''tests/fixtures/'' @ fw_name fw @ ''_tier1_tokens.json''" "fd_backend doc = fw_name fw" "map fp_prompt (fd_prompts doc) = PROMPTS"
    "\<forall>p \<in> set (fd_prompts doc). tok (fp_prompt p) = Inr (fp_prompt_ids p) \<and> greedy_decode_with_topk fw topk (fp_prompt_ids p) 10 5 = Inr (fp_top_k_per_position p)"
proof -
  let ?f = "\<lambda>prompt. ebind (tok prompt) (\<lambda>prompt_ids. ebind (greedy_decode_with_topk fw topk prompt_ids N_POSITIONS TOP_K_RECORDED) (\<lambda>positions.
    Inr \<lparr>fp_prompt = prompt, fp_prompt_ids = prompt_ids, fp_top_k_per_position = positions\<rparr>))"
  have f: "emap ?f PROMPTS = Inr (fd_prompts doc)" and rest: "path = ''tests/fixtures/'' @ fw_name fw @ ''_tier1_tokens.json''" "fd_backend doc = fw_name fw"
    using assms by (auto simp: write_fixture_def ebind_eq_Inr)
  have *: "fp_prompt p = x \<and> tok x = Inr (fp_prompt_ids p) \<and> greedy_decode_with_topk fw topk (fp_prompt_ids p) 10 5 = Inr (fp_top_k_per_position p)"
    if "?f x = Inr p" for x p using that by (auto simp: ebind_eq_Inr N_POSITIONS_def TOP_K_RECORDED_def)
  have "list_all2 (\<lambda>x p. ?f x = Inr p) PROMPTS (fd_prompts doc)" using f by (simp only: emap_eq_Inr)
  then have all: "list_all2 (\<lambda>x p. fp_prompt p = x \<and> tok x = Inr (fp_prompt_ids p) \<and> greedy_decode_with_topk fw topk (fp_prompt_ids p) 10 5 = Inr (fp_top_k_per_position p)) PROMPTS (fd_prompts doc)"
    by (rule list_all2_mono) (rule *)
  show "path = ''tests/fixtures/'' @ fw_name fw @ ''_tier1_tokens.json''" "fd_backend doc = fw_name fw" by (rule rest)+
  show "map fp_prompt (fd_prompts doc) = PROMPTS" using all by (auto simp: list_all2_conv_all_nth intro!: nth_equalityI)
  show "\<forall>p \<in> set (fd_prompts doc). tok (fp_prompt p) = Inr (fp_prompt_ids p) \<and> greedy_decode_with_topk fw topk (fp_prompt_ids p) 10 5 = Inr (fp_top_k_per_position p)"
    using all by (auto simp: list_all2_conv_all_nth in_set_conv_nth)
qed

lemma write_fixture_Inl:
  assumes "write_fixture fw topk tok hf_id device dtype = Inl e"
  shows "\<exists>prompt \<in> set PROMPTS. tok prompt = Inl e \<or> (\<exists>ids. tok prompt = Inr ids \<and> greedy_decode_with_topk fw topk ids 10 5 = Inl e)"
proof -
  from assms obtain prompt where p: "prompt \<in> set PROMPTS"
    "ebind (tok prompt) (\<lambda>prompt_ids. ebind (greedy_decode_with_topk fw topk prompt_ids N_POSITIONS TOP_K_RECORDED) (\<lambda>positions.
      Inr \<lparr>fp_prompt = prompt, fp_prompt_ids = prompt_ids, fp_top_k_per_position = positions\<rparr>)) = Inl e"
    unfolding write_fixture_def by (auto simp: ebind_def split: sum.splits dest!: emap_raises)
  then have "tok prompt = Inl e \<or> (\<exists>ids. tok prompt = Inr ids \<and> greedy_decode_with_topk fw topk ids 10 5 = Inl e)"
    by (auto simp: ebind_def N_POSITIONS_def TOP_K_RECORDED_def split: sum.splits)
  with p(1) show ?thesis by blast
qed

section \<open>The fixture of the MLX backend\<close>

text \<open>The row of logits that sampling looks at.  Sampling takes a largest logit, the softmax keeps the order of the
  logits, and no two tokens are the most likely.\<close>

definition sampling_ok :: "(py_float list \<Rightarrow> py_float list) \<Rightarrow> ('t \<Rightarrow> py_float list) \<Rightarrow> ('t \<Rightarrow> int) \<Rightarrow> bool" where
  "sampling_ok softmax last_row argmax_last \<longleftrightarrow> (\<forall>logits. let row = last_row logits; a = argmax_last logits in
     row \<noteq> [] \<and> 0 \<le> a \<and> nat a < length row \<and> (\<forall>i < length row. row ! i \<le> row ! nat a) \<and>
     (\<forall>i < length row. \<forall>j < length row. row ! i \<le> row ! j \<longrightarrow> softmax row ! i \<le> softmax row ! j) \<and>
     (\<forall>i < length row. \<forall>j < length row. (\<forall>l < length row. softmax row ! l \<le> softmax row ! i) \<and> (\<forall>l < length row. softmax row ! l \<le> softmax row ! j) \<longrightarrow> i = j))"

context top_k_routine
begin

lemma rows_answer:
  assumes "\<forall>logits. last_row logits \<noteq> []" and "0 < k"
  shows "answers (\<lambda>logits. top_k (last_row logits)) k"
  unfolding answers_def
proof
  fix logits
  obtain ids ps where "top_k (last_row logits) k = Inr (ids, ps)" using top_k_correct [of k "last_row logits"] assms(2) by auto
  moreover from first_is_max [OF _ assms(2) this] assms(1) have "ids \<noteq> []" by blast
  ultimately show "\<exists>ids weights. top_k (last_row logits) k = Inr (ids, weights) \<and> ids \<noteq> []" by blast
qed

lemma rows_recorded:
  assumes "top_k (last_row logits) k = Inr (ids, ws)" and "0 \<le> k"
  shows "\<exists>row. is_top_k (softmax row) (nat k) ids ws"
  using top_k_correct [OF assms(2), of "last_row logits"] assms(1) by auto

lemma sampling_is_first:
  assumes "sampling_ok softmax last_row (rm_argmax_last rm)" and "0 < k"
  shows "taking_first (\<lambda>logits. top_k (last_row logits)) k rm = rm"
proof -
  have "(case top_k (last_row logits) k of Inr (ids, _) \<Rightarrow> hd ids | Inl _ \<Rightarrow> 0) = rm_argmax_last rm logits" for logits
  proof -
    let ?row = "last_row logits" let ?a = "nat (rm_argmax_last rm logits)"
    have s: "?row \<noteq> []" "0 \<le> rm_argmax_last rm logits" "?a < length ?row" "\<forall>i < length ?row. ?row ! i \<le> ?row ! ?a"
      "\<forall>i < length ?row. \<forall>j < length ?row. ?row ! i \<le> ?row ! j \<longrightarrow> softmax ?row ! i \<le> softmax ?row ! j"
      "\<forall>i < length ?row. \<forall>j < length ?row. (\<forall>l < length ?row. softmax ?row ! l \<le> softmax ?row ! i) \<and> (\<forall>l < length ?row. softmax ?row ! l \<le> softmax ?row ! j) \<longrightarrow> i = j"
      using assms(1) unfolding sampling_ok_def Let_def by blast+
    obtain ids ps where t: "top_k ?row k = Inr (ids, ps)" using top_k_correct [of k ?row] assms(2) by auto
    have "hd ids = int ?a" by (rule first_is_argmax [OF s(1) assms(2) t]) (use s in blast)+
    with t s(2) show ?thesis by simp
  qed
  then show ?thesis by (simp add: taking_first_def)
qed

end

lemma argsorting_routine: "argsorting softmax argsort \<Longrightarrow> top_k_routine softmax (mlx_top_k softmax argsort)"
  by (intro top_k_routine.intro argsorting.soft_length argsorting.mlx_top_k_correct)



text \<open>A model whose logits are one-hot at the last element of the hidden state: one row, its sampling and its softmax.\<close>

definition one_hot :: "int list \<Rightarrow> py_float list" where
  "one_hot logits = map (\<lambda>i. if int i = last logits mod 30 then 1 else 0) [0..<30]"

definition hot_model :: "(int list, int list list list, nat, unit) ReferenceModel" where
  "hot_model = ring_rm\<lparr>rm_argmax_last := (\<lambda>logits. last logits mod 30)\<rparr>"

definition fixture_machine :: "(int list, int list list list, nat, unit, nat, int list, int list, unit, int list) Machine" where
  "fixture_machine = \<lparr>mc_platform = \<lparr>pf_mlx_installed = True, pf_metal_available = True, pf_torch_installed = False\<rparr>,
     mc_mlx_load = (\<lambda>path. if path = ''/models/m-bf16'' then Inr (\<lambda>_. hot_model, []) else Inl OSError), mc_is_dir = (\<lambda>d. d = ''/models/m-bf16''),
     mc_cache_root = ''/models'', mc_mlx_top_k = (\<lambda>logits. mlx_top_k id stable_argsort (one_hot logits)), mc_cuda = False, mc_mps = False,
     mc_from_pretrained = (\<lambda>_ _ _. Inl OSError), mc_pt_top_k = (\<lambda>_ _. Inl ValueError), mc_tokenizer = (\<lambda>_. Inr (\<lambda>prompt. Inr [int (length prompt)]))\<rparr>"

lemma one_hot_sampling: "sampling_ok id one_hot (rm_argmax_last hot_model)"
proof -
  have nth: "one_hot l ! i = (if int i = last l mod 30 then 1 else 0)" if "i < 30" for l i using that by (simp add: one_hot_def)
  have len: "length (one_hot l) = 30" for l by (simp add: one_hot_def)
  have m: "0 \<le> last l mod 30" "last l mod 30 < 30" for l :: "int list" by simp_all
  have "i = nat (last l mod 30)" if "i < 30" "\<forall>j < 30. one_hot l ! j \<le> one_hot l ! i" for l i
  proof -
    have "one_hot l ! nat (last l mod 30) \<le> one_hot l ! i" using that(2) m [of l] by (simp add: nat_less_iff)
    then show ?thesis using that(1) m [of l] by (simp add: nth nat_less_iff split: if_splits)
  qed
  then have uniq: "i = j" if "i < 30" "j < 30" "\<forall>a < 30. one_hot l ! a \<le> one_hot l ! i" "\<forall>a < 30. one_hot l ! a \<le> one_hot l ! j" for l i j using that by metis
  have "one_hot l \<noteq> []" for l using len [of l] by force
  moreover have "\<forall>i < 30. one_hot l ! i \<le> one_hot l ! nat (last l mod 30)" for l using m [of l] by (simp add: nth nat_less_iff)
  ultimately show ?thesis using m uniq unfolding sampling_ok_def Let_def len hot_model_def by (simp add: nat_less_iff) blast
qed

lemma hot_greedy:
  "generate_greedy hot_model [19] 10 = Inr [14, 28, 27, 13, 10, 2, 25, 11, 8, 0]" "generate_greedy hot_model [24] 10 = Inr [29, 11, 20, 20, 3, 9, 18, 18, 1, 7]"
  "generate_greedy hot_model [16] 10 = Inr [9, 13, 14, 24, 21, 13, 6, 10, 11, 21]"
  by code_simp+


section \<open>The fixture of the PyTorch backend\<close>

lemma pt_forward_loaded:
  assumes "po_model b = Some m"
  shows "fw_name (pt_forward b) = ''pytorch''" "fw_make_cache (pt_forward b) = Inr (pt_make_cache (lp_hf m))" "fw_embed (pt_forward b) ts = Inr (pt_embed_tokens (lp_hf m) ts)"
    "fw_make_masks (pt_forward b) h c = Inr (pt_make_masks (lp_hf m) h c)" "fw_num_layers (pt_forward b) = Inr (int (length (ht_layers (text_model (lp_hf m)))))"
    "fw_finalize (pt_forward b) h = Inr (pt_finalize (lp_hf m) h)"
  using assms by (simp_all add: pt_forward_def pt_name_def pt_object_cache_def pt_embed_def pt_object_masks_def pt_num_layers_def pt_object_finalize_def)

lemma pt_layer_loop_is:
  assumes "po_model b = Some m"
  shows "layer_loop (pt_forward b) n masks h cache = pt_run_layers (lp_hf m) 0 n h cache masks (\<lambda>_. False)"
proof -
  have "efold (\<lambda>i (h, cache). fw_run_layer_atomic (pt_forward b) i h cache masks) is (h, cache) = pt_layer_loop (lp_hf m) masks (\<lambda>_. False) is h cache" for "is"
  proof (induction "is" arbitrary: h cache)
    case (Cons i "is")
    then show ?case using assms by (cases "pt_run_layer_atomic (lp_hf m) masks i h cache") (auto simp: pt_forward_def pt_layer_atomic_def)
  qed simp
  then show ?thesis by (simp add: layer_loop_def pt_run_layers_def)
qed

lemma pt_layers_return:
  assumes "po_model b = Some m" and "config_ok (lp_hf m)"
  shows "\<exists>h' c'. layer_loop (pt_forward b) (int (length (ht_layers (text_model (lp_hf m))))) (pt_make_masks (lp_hf m) h0 c0) h c = Inr (h', c')"
  unfolding pt_layer_loop_is [OF assms(1)] using pt_layers_find_their_rotary [OF assms(2), of 0 "int (length (ht_layers (text_model (lp_hf m))))"] by fastforce

lemma pt_decode_returns:
  assumes m: "po_model b = Some m" "config_ok (lp_hf m)" and ans: "answers topk k"
  shows "\<exists>out. greedy_decode_with_topk (pt_forward b) topk prompt_ids n k = Inr out"
proof -
  note fw = pt_forward_loaded [OF m(1)]
  let ?n = "int (length (ht_layers (text_model (lp_hf m))))"
  have turns: "ids \<noteq> [] \<Longrightarrow> \<exists>out. decode_positions (pt_forward b) topk k ?n t ids cache = Inr out" for t ids cache
  proof (induction t arbitrary: ids cache)
    case (Suc t)
    let ?h = "pt_embed_tokens (lp_hf m) [hd ids]"
    obtain h' c' where l: "layer_loop (pt_forward b) ?n (pt_make_masks (lp_hf m) ?h cache) ?h cache = Inr (h', c')" using pt_layers_return [OF m] by blast
    obtain ids' ws where t: "topk (pt_finalize (lp_hf m) h') k = Inr (ids', ws)" "ids' \<noteq> []" using ans unfolding answers_def by blast
    have "py_index ids 0 = Inr (hd ids)" using Suc.prems by (cases ids) (auto simp: py_index_def py_pos_def)
    with Suc.IH [OF t(2), of c'] l t(1) show ?case by (auto simp: fw)
  qed simp
  let ?h = "pt_embed_tokens (lp_hf m) prompt_ids" and ?c = "pt_make_cache (lp_hf m)"
  obtain h' c' where l: "layer_loop (pt_forward b) ?n (pt_make_masks (lp_hf m) ?h ?c) ?h ?c = Inr (h', c')" using pt_layers_return [OF m] by blast
  obtain ids ws where t: "topk (pt_finalize (lp_hf m) h') k = Inr (ids, ws)" "ids \<noteq> []" using ans unfolding answers_def by blast
  with turns [OF t(2), of "nat (n - 1)" c'] l show ?thesis by (auto simp: greedy_decode_with_topk_def fw)
qed

lemma selection_routine: "largest_selection softmax topk \<Longrightarrow> top_k_routine softmax (pt_top_k softmax topk)"
  by (intro top_k_routine.intro largest_selection.soft_length largest_selection.pt_top_k_correct)

text \<open>The script on a machine with PyTorch.  With a model whose configuration names the type of each layer, and a
  tokenizer that takes the prompts, the script raises nothing: it writes ten positions for each prompt, each with
  the five most likely tokens of some row of logits in descending order.\<close>

theorem pytorch_fixture_complete:
  assumes lib: "largest_selection softmax topk" and top: "mc_pt_top_k mc = (\<lambda>logits. pt_top_k softmax topk (last_row logits))"
    and rows: "\<forall>logits. last_row logits \<noteq> []" and kind: "fixture_backend env (mc_platform mc) = Inr PyTorch_Backend"
    and tokenizer: "mc_tokenizer mc model = Inr tok" "\<forall>prompt \<in> set PROMPTS. returns (tok prompt)"
    and load: "pt_load (mc_from_pretrained mc) (mc_cuda mc) (mc_mps mc) (pt_init (mc_cuda mc) (mc_mps mc) None) model = Inr b"
    and m: "po_model b = Some m" "config_ok (lp_hf m)"
  shows "\<exists>doc. fixture_main env mc model = Inr (''tests/fixtures/pytorch_tier1_tokens.json'', doc) \<and> map fp_prompt (fd_prompts doc) = PROMPTS \<and>
    (\<forall>p \<in> set (fd_prompts doc). tok (fp_prompt p) = Inr (fp_prompt_ids p) \<and> length (fp_top_k_per_position p) = 10 \<and>
       (\<forall>pos \<in> set (fp_top_k_per_position p). \<exists>row. is_top_k (softmax row) 5 (po_ids pos) (po_weights pos)))"
proof -
  let ?topk = "\<lambda>logits. pt_top_k softmax topk (last_row logits)"
  note r = selection_routine [OF lib]
  have ans: "answers ?topk 5" by (rule top_k_routine.rows_answer [OF r rows]) simp
  have main: "fixture_main env mc model = write_fixture (pt_forward b) ?topk tok model (po_device b) (po_dtype b)"
    by (simp add: fixture_main_def kind load tokenizer(1) top)
  have "fixture_main env mc model \<noteq> Inl e" for e
  proof
    assume "fixture_main env mc model = Inl e"
    then obtain prompt where "prompt \<in> set PROMPTS" "tok prompt = Inl e \<or> (\<exists>ids. tok prompt = Inr ids \<and> greedy_decode_with_topk (pt_forward b) ?topk ids 10 5 = Inl e)"
      using write_fixture_Inl unfolding main by blast
    moreover obtain ids where "tok prompt = Inr ids" using tokenizer(2) calculation(1) by (cases "tok prompt") (auto simp: returns_def)
    moreover obtain out where "greedy_decode_with_topk (pt_forward b) ?topk ids 10 5 = Inr out" using pt_decode_returns [OF m ans] by blast
    ultimately show False by simp
  qed
  then obtain path doc where pd: "fixture_main env mc model = Inr (path, doc)" by (metis obj_sumE surj_pair)
  note w = write_fixture_Inr [OF pd [unfolded main]]
  have "length (fp_top_k_per_position p) = 10 \<and> (\<forall>pos \<in> set (fp_top_k_per_position p). \<exists>row. is_top_k (softmax row) 5 (po_ids pos) (po_weights pos))"
    if "p \<in> set (fd_prompts doc)" for p
  proof -
    have d: "greedy_decode_with_topk (pt_forward b) ?topk (fp_prompt_ids p) 10 5 = Inr (fp_top_k_per_position p)" using w(4) that by blast
    have "int (length (fp_top_k_per_position p)) = 10 \<and> (\<forall>pos \<in> set (fp_top_k_per_position p). \<exists>row. is_top_k (softmax row) (nat 5) (po_ids pos) (po_weights pos))"
      by (rule decode_records [OF _ _ d]) (erule top_k_routine.rows_recorded [OF r], simp_all)
    then show ?thesis by simp
  qed
  with w pd show ?thesis by (simp add: pt_forward_loaded(1) [OF m(1)])
qed


section \<open>The smoke test\<close>

text \<open>\<^verbatim>\<open>scripts/spark_smoke_test.py\<close>: one pass over a prompt on a CUDA device, and the token it prints.\<close>

definition smoke_main :: "('t, 'w, 'k, 'a, 'r, 'u, 'p, 'b, 'c) Machine \<Rightarrow> ('u \<Rightarrow> int) \<Rightarrow> string \<Rightarrow> int result" where
  "smoke_main mc argmax_last hf_id =
     ebind (mc_tokenizer mc hf_id) (\<lambda>tok.
     ebind (pt_load (mc_from_pretrained mc) (mc_cuda mc) (mc_mps mc) (pt_init (mc_cuda mc) (mc_mps mc) (Some ''cuda'')) hf_id) (\<lambda>b.
     ebind (tok ''The quick brown fox'') (\<lambda>prompt_ids.
     ebind (pt_object_cache b) (\<lambda>cache.
     ebind (pt_embed b prompt_ids) (\<lambda>h.
     ebind (pt_object_masks b h cache) (\<lambda>masks.
     ebind (pt_num_layers b) (\<lambda>n.
     ebind (efold (\<lambda>i (h, cache). pt_layer_atomic b i h cache masks) [0..n - 1] (h, cache)) (\<lambda>(h', cache').
     ebind (pt_object_finalize b h') (\<lambda>logits. Inr (argmax_last logits))))))))))"

text \<open>The smoke test prints the first token of the fixture.  On a machine with CUDA where sampling takes the first recorded
  id, the one token that the smoke test decodes is the first of the ten that the fixture records for its first prompt.\<close>

theorem smoke_is_first_token:
  assumes cuda: "mc_cuda mc" and kind: "fixture_backend env (mc_platform mc) = Inr PyTorch_Backend"
    and sample: "\<And>logits ids ws. mc_pt_top_k mc logits 5 = Inr (ids, ws) \<Longrightarrow> hd ids = argmax_last logits"
    and smoke: "smoke_main mc argmax_last model = Inr t" and fixture: "fixture_main env mc model = Inr (path, doc)"
  shows "hd (po_ids (hd (fp_top_k_per_position (hd (fd_prompts doc))))) = t"
proof -
  have init: "pt_init (mc_cuda mc) (mc_mps mc) (Some ''cuda'') = pt_init (mc_cuda mc) (mc_mps mc) None"
    by (simp add: pt_init_def default_device_def cuda)
  obtain tok b where tok: "mc_tokenizer mc model = Inr tok" and b: "pt_load (mc_from_pretrained mc) (mc_cuda mc) (mc_mps mc) (pt_init (mc_cuda mc) (mc_mps mc) None) model = Inr b"
    and w: "write_fixture (pt_forward b) (mc_pt_top_k mc) tok model (po_device b) (po_dtype b) = Inr (path, doc)"
    using fixture kind by (auto simp: fixture_main_def ebind_eq_Inr)
  obtain p where p: "p \<in> set (fd_prompts doc)" "hd (fd_prompts doc) = p" "fp_prompt p = ''The quick brown fox''"
    using write_fixture_Inr(3) [OF w] by (cases "fd_prompts doc") (auto simp: PROMPTS_def)
  from write_fixture_Inr(4) [OF w] p have ids: "tok ''The quick brown fox'' = Inr (fp_prompt_ids p)"
    and d: "greedy_decode_with_topk (pt_forward b) (mc_pt_top_k mc) (fp_prompt_ids p) 10 5 = Inr (fp_top_k_per_position p)" by auto
  from d obtain cache h masks n h' cache' logits js ws out where s: "pt_object_cache b = Inr cache" "pt_embed b (fp_prompt_ids p) = Inr h" "pt_object_masks b h cache = Inr masks"
    "pt_num_layers b = Inr n" "efold (\<lambda>i (h, cache). pt_layer_atomic b i h cache masks) [0..n - 1] (h, cache) = Inr (h', cache')" "pt_object_finalize b h' = Inr logits"
    and top: "mc_pt_top_k mc logits 5 = Inr (js, ws)" "fp_top_k_per_position p = \<lparr>po_ids = js, po_weights = ws\<rparr> # out"
    by (auto simp: greedy_decode_with_topk_def layer_loop_def pt_forward_def ebind_eq_Inr) metis
  have "t = argmax_last logits" using smoke tok b ids s by (simp add: smoke_main_def init)
  with sample [OF top(1)] top(2) p(2) show ?thesis by simp
qed

section \<open>A machine with PyTorch\<close>

definition torch_machine :: "(int list, int list list list, nat, unit, nat, int list, int list, unit, int list) Machine" where
  "torch_machine = fixture_machine\<lparr>mc_platform := \<lparr>pf_mlx_installed = False, pf_metal_available = False, pf_torch_installed = True\<rparr>, mc_cuda := True,
     mc_from_pretrained := (\<lambda>_ dtype device. if (dtype, device) = (''bfloat16'', ''cuda'') then Inr \<lparr>lp_view = (\<lambda>_. demo_hf), lp_experts = []\<rparr> else Inl OSError),
     mc_pt_top_k := (\<lambda>logits. pt_top_k id stable_topk (one_hot logits))\<rparr>"

theorem pytorch_fixture_complete_witness:
  "\<exists>doc. fixture_main [] torch_machine ''Org/M'' = Inr (''tests/fixtures/pytorch_tier1_tokens.json'', doc) \<and> map fp_prompt (fd_prompts doc) = PROMPTS"
proof -
  let ?b = "\<lparr>po_device = ''cuda'', po_dtype = ''bfloat16'', po_model = Some \<lparr>lp_view = (\<lambda>_. demo_hf), lp_experts = []\<rparr>, po_held_experts_per_layer = []\<rparr>
    :: (int list, int list, unit, int list, nat) PtObject"
  have kind: "fixture_backend [] (mc_platform torch_machine) = Inr PyTorch_Backend" by (simp add: torch_machine_def fixture_backend_def construct_backend_def py_lower_def)
  have load: "pt_load (mc_from_pretrained torch_machine) (mc_cuda torch_machine) (mc_mps torch_machine) (pt_init (mc_cuda torch_machine) (mc_mps torch_machine) None) ''Org/M'' = Inr ?b"
    by (simp add: torch_machine_def fixture_machine_def pt_load_def pt_load_model_def load_dtype_def pt_init_def default_device_def backend_dtype_def)
  have top: "mc_pt_top_k torch_machine = (\<lambda>logits. pt_top_k id stable_topk (one_hot logits))" by (simp add: torch_machine_def)
  have rows: "\<forall>l. one_hot l \<noteq> []" by (simp add: one_hot_def)
  have tok: "mc_tokenizer torch_machine ''Org/M'' = Inr (\<lambda>prompt. Inr [int (length prompt)])" "\<forall>prompt \<in> set PROMPTS. returns (Inr [int (length prompt)] :: int list result)"
    by (simp_all add: torch_machine_def fixture_machine_def returns_def)
  have "po_model ?b = Some \<lparr>lp_view = (\<lambda>_. demo_hf), lp_experts = []\<rparr>" "config_ok (lp_hf \<lparr>lp_view = (\<lambda>_. demo_hf), lp_experts = [] :: nat pt_model\<rparr>)"
    using demo_hf_ok by (simp_all add: lp_hf_def)
  from pytorch_fixture_complete [OF stable_selection.largest_selection_axioms top rows kind tok load this] show ?thesis by blast
qed


lemma smoke_demo: "smoke_main torch_machine (\<lambda>logits. last logits mod 30) ''Org/M'' = Inr 19"
  by code_simp

end
