(* ===== verification/Udp.thy ===== *)
theory Udp
  imports Runner
begin

text \<open>
  The receiving side of \<^verbatim>\<open>membership/transport.py\<close> and the life cycle of the membership runner.  The
  loop of the receiver thread is run over a list of turns: whether the stop event is set when the turn begins,
  and what \<^verbatim>\<open>recvfrom\<close> does.
\<close>

section \<open>Life cycle\<close>

record UDPTransport =
  ut_port :: int
  ut_sock_open :: bool
  ut_stopping :: bool
  ut_thread_started :: bool

definition udp_init :: "int \<Rightarrow> UDPTransport" where
  "udp_init port = \<lparr>ut_port = port, ut_sock_open = True, ut_stopping = False, ut_thread_started = False\<rparr>"

definition udp_start :: "UDPTransport \<Rightarrow> UDPTransport result" where
  "udp_start t = (if ut_thread_started t then Inl RuntimeError else Inr (t\<lparr>ut_thread_started := True\<rparr>))"

definition udp_stop :: "UDPTransport \<Rightarrow> UDPTransport" where
  "udp_stop t = t\<lparr>ut_stopping := True, ut_sock_open := False\<rparr>"

record RunnerThread =
  rt_transport :: UDPTransport
  rt_stopping :: bool
  rt_thread_started :: bool

definition runner_start :: "RunnerThread \<Rightarrow> RunnerThread result" where
  "runner_start rt = ebind (udp_start (rt_transport rt)) (\<lambda>t. Inr (rt\<lparr>rt_transport := t, rt_thread_started := True\<rparr>))"

definition runner_stop :: "RunnerThread \<Rightarrow> RunnerThread" where
  "runner_stop rt = rt\<lparr>rt_stopping := True, rt_transport := udp_stop (rt_transport rt)\<rparr>"

section \<open>The receiver\<close>

datatype recv_event = RDatagram bytes | RTimeout | ROSError

text \<open>\<^verbatim>\<open>except Exception\<close>: everything but an exit is logged.\<close>

definition is_exception :: "py_exn \<Rightarrow> bool" where
  "is_exception e \<longleftrightarrow> e \<noteq> SystemExit"

text \<open>The first component says whether the thread is still in its loop after the last turn.\<close>

fun recv_loop :: "(bytes \<Rightarrow> 's \<Rightarrow> py_exn option \<times> 's) \<Rightarrow> (bool \<times> recv_event) list \<Rightarrow> 's \<Rightarrow> bool \<times> 's" where
  "recv_loop cb [] s = (True, s)"
| "recv_loop cb ((stopping, ev) # turns) s =
     (if stopping then (False, s)
      else case ev of
        RTimeout \<Rightarrow> recv_loop cb turns s
      | ROSError \<Rightarrow> (False, s)
      | RDatagram data \<Rightarrow>
          (case cb data s of
             (None, s') \<Rightarrow> recv_loop cb turns s'
           | (Some e, s') \<Rightarrow> if is_exception e then recv_loop cb turns s' else (False, s')))"

text \<open>The callback the runner registers; the calls of ownership observers are kept in order.\<close>

definition runner_recv :: "(bytes \<Rightarrow> EnvelopePb result) \<Rightarrow> bytes \<Rightarrow> ('o \<times> OwnershipDeltaRecord) list \<times> 'o MembershipRunner \<Rightarrow>
    py_exn option \<times> ('o \<times> OwnershipDeltaRecord) list \<times> 'o MembershipRunner" where
  "runner_recv parse data s =
     (case on_recv parse data (snd s) of Inl e \<Rightarrow> (Some e, s) | Inr (calls, r) \<Rightarrow> (None, fst s @ calls, r))"

section \<open>The receiver survives what it is sent\<close>

definition datagrams :: "(bool \<times> recv_event) list \<Rightarrow> bytes list" where
  "datagrams turns = concat (map (\<lambda>(_, ev). case ev of RDatagram d \<Rightarrow> [d] | _ \<Rightarrow> []) turns)"

text \<open>The turns before the stop event is set or the socket fails.\<close>

definition live_turns :: "(bool \<times> recv_event) list \<Rightarrow> (bool \<times> recv_event) list" where
  "live_turns turns = takeWhile (\<lambda>(stopping, ev). \<not> stopping \<and> ev \<noteq> ROSError) turns"

definition decoded :: "(bytes \<Rightarrow> EnvelopePb result) \<Rightarrow> bytes list \<Rightarrow> IncomingMessage list" where
  "decoded parse ds = concat (map (\<lambda>d. case decode_membership_envelope parse d of Inr (Some m) \<Rightarrow> [m] | _ \<Rightarrow> []) ds)"

definition take_message :: "IncomingMessage \<Rightarrow> ('o \<times> OwnershipDeltaRecord) list \<times> 'o MembershipRunner \<Rightarrow>
    ('o \<times> OwnershipDeltaRecord) list \<times> 'o MembershipRunner" where
  "take_message msg s = (case on_recv_decoded msg (snd s) of (calls, r) \<Rightarrow> (fst s @ calls, r))"

lemma ebind_raises: "ebind m f = Inl e \<Longrightarrow> m = Inl e \<or> (\<exists>x. m = Inr x \<and> f x = Inl e)"
  by (cases m) auto

lemma record_from_pb_exn: "record_from_pb p = Inl e \<Longrightarrow> e = ValueError"
  unfolding record_from_pb_def by (drule ebind_raises) (simp add: member_state_def split: if_splits)

lemma records_exn: "ebind (emap record_from_pb rs) (\<lambda>ds. Inr (g ds)) = Inl e \<Longrightarrow> e = ValueError"
  by (drule ebind_raises) (auto dest!: emap_raises record_from_pb_exn)

lemma from_pb_exn: "membership_from_pb env = Inl e \<Longrightarrow> e = ValueError"
  by (cases env) (simp_all add: membership_from_pb_def, (erule records_exn)+, (drule ebind_raises, auto dest: record_from_pb_exn), (erule records_exn))

lemma decode_exn: "decode_membership_envelope parse d = Inl e \<Longrightarrow> parse d = Inl e \<or> e = ValueError"
  unfolding decode_membership_envelope_def by (drule ebind_raises) (auto dest: from_pb_exn)

lemma runner_recv_turn:
  assumes "\<forall>raw. parse raw \<noteq> Inl SystemExit"
  shows "(case fst (runner_recv parse d s) of None \<Rightarrow> True | Some e \<Rightarrow> is_exception e) \<and> snd (runner_recv parse d s) = fold take_message (decoded parse [d]) s"
proof (cases "decode_membership_envelope parse d")
  case (Inl e)
  with decode_exn [OF Inl] assms show ?thesis by (auto simp: runner_recv_def on_recv_def decoded_def is_exception_def)
next
  case (Inr m)
  then show ?thesis by (auto simp: runner_recv_def on_recv_def decoded_def take_message_def split: option.splits prod.splits)
qed

lemma inbox_bounded: "length (rn_inbox (snd s)) \<le> INTERNAL_QUEUE_MAX \<Longrightarrow> length (rn_inbox (snd (fold take_message ms s))) \<le> INTERNAL_QUEUE_MAX"
  by (induction ms arbitrary: s) (auto simp: take_message_def on_recv_decoded_def Let_def split: prod.splits)

text \<open>C31: The receiver thread.  No datagram ends it: it runs until the stop event is set or the socket is closed, and what
  it has done by then is to hand the runner, in order, exactly the datagrams that decode; one that does not
  leaves no trace.  The inbox never holds more than its bound.\<close>

theorem receiver_robust:
  assumes exit: "\<forall>raw. parse raw \<noteq> Inl SystemExit"
  shows "recv_loop (runner_recv parse) turns s = (length (live_turns turns) = length turns, fold take_message (decoded parse (datagrams (live_turns turns))) s) \<and>
    (length (rn_inbox (snd s)) \<le> INTERNAL_QUEUE_MAX \<longrightarrow>
      length (rn_inbox (snd (snd (recv_loop (runner_recv parse) turns s)))) \<le> INTERNAL_QUEUE_MAX)"
proof -
  have "recv_loop (runner_recv parse) turns s = (length (live_turns turns) = length turns, fold take_message (decoded parse (datagrams (live_turns turns))) s)"
    unfolding live_turns_def
  proof (induction turns arbitrary: s)
    case (Cons turn turns)
    obtain stopping ev where turn: "turn = (stopping, ev)" by (cases turn)
    show ?case
    proof (cases ev)
      case (RDatagram d)
      note t = runner_recv_turn [OF exit, of d s]
      have "decoded parse (d # ds) = decoded parse [d] @ decoded parse ds" for ds by (simp add: decoded_def)
      with t RDatagram Cons show ?thesis by (cases "runner_recv parse d s") (auto simp: turn datagrams_def decoded_def split: option.splits)
    qed (use Cons in \<open>auto simp: turn datagrams_def decoded_def\<close>)
  qed (simp add: datagrams_def decoded_def)
  with inbox_bounded [of s] show ?thesis by simp
qed

theorem receiver_robust_witness:
  "recv_loop (runner_recv (\<lambda>d. if d = [1] then Inr EnvOther else Inl DecodeError))
     [(False, RDatagram [7, 7]), (False, RTimeout), (False, RDatagram [1]), (True, RDatagram [2])] ([], demo_runner) = (False, [], demo_runner)"
proof -
  let ?parse = "\<lambda>d :: bytes. if d = [1] then Inr EnvOther else Inl DecodeError"
  have "\<forall>raw. ?parse raw \<noteq> Inl SystemExit" by simp
  from receiver_robust [OF this, of "[(False, RDatagram [7, 7]), (False, RTimeout), (False, RDatagram [1]), (True, RDatagram [2])]" "([], demo_runner)"]
  show ?thesis by (simp add: datagrams_def live_turns_def decoded_def decode_membership_envelope_def membership_from_pb_def)
qed

end
