(* ===== verification/Scan_Loop.thy ===== *)
theory Scan_Loop
  imports Migration
begin

text \<open>
  The thread of \<^verbatim>\<open>MigrationScanner\<close>: scans at jittered intervals until it is stopped.  A tick says
  whether the scanner is stopped before or during the wait, what the router of the node observed meanwhile,
  and what the scan sees of the clock and of its peers.
\<close>

declare map_of_eq_Some_iff [simp del] Some_eq_map_of_iff [simp del]

definition scan_delay :: "MigrationPolicy \<Rightarrow> rng \<Rightarrow> py_float \<times> rng" where
  "scan_delay p r = (let (u, r') = uniform (- (1 / 4)) (1 / 4) r; jitter = fadd 1 u in (fmul (mp_scan_interval_s p) jitter, r'))"

record 'r scan_tick =
  tk_stopped_before :: bool
  tk_stopped_after :: bool
  tk_observed :: "(int \<times> int list) list"
  tk_clock :: scan_clock
  tk_busy :: bool
  tk_pull :: "string \<Rightarrow> int \<Rightarrow> int \<Rightarrow> 'r list result"

definition observe_all :: "(int \<times> int list) list \<Rightarrow> 'b ExpertNode \<Rightarrow> 'b ExpertNode" where
  "observe_all obs n = n\<lparr>en_heat_tracker := fold (\<lambda>(layer, ids). heat_observe layer ids) obs (en_heat_tracker n)\<rparr>"

fun run_loop :: "('b \<Rightarrow> int \<Rightarrow> int \<Rightarrow> 'r list \<Rightarrow> 'b result) \<Rightarrow> ('b \<Rightarrow> int \<Rightarrow> int \<Rightarrow> 'b result) \<Rightarrow> py_float \<Rightarrow> MigrationPolicy \<Rightarrow>
    'r scan_tick list \<Rightarrow> rng \<Rightarrow> 'b ExpertNode \<Rightarrow> py_float list \<times> 'b ExpertNode" where
  "run_loop attach detach cooldown_s p [] r n = ([], n)"
| "run_loop attach detach cooldown_s p (t # ts) r n =
     (if tk_stopped_before t then ([], n)
      else let (d, r') = scan_delay p r; n1 = observe_all (tk_observed t) n in
           if tk_stopped_after t then ([d], n1)
           else let (ds, n') = run_loop attach detach cooldown_s p ts r'
                                 (scan_once attach detach (tk_pull t) cooldown_s (tk_clock t) p (tk_busy t) n1)
                in (d # ds, n'))"

section \<open>What the loop keeps\<close>

definition hot_layers :: "HeatTracker \<Rightarrow> int set" where
  "hot_layers t = fst ` set (dkeys (ht_ema t))"

definition tracked_layers :: "'r LoadedModel \<Rightarrow> int set" where
  "tracked_layers lm = set (dkeys (lm_held_ids_per_layer lm))"

text \<open>The layers the router has seen are layers whose experts the backend tracks.\<close>

definition scan_inv :: "MigrationPolicy \<Rightarrow> 'r LoadedModel ExpertNode \<Rightarrow> bool" where
  "scan_inv p n \<longleftrightarrow> node_ok n \<and> view_ok n \<and> within_capacity p n \<and> hot_layers (en_heat_tracker n) \<subseteq> tracked_layers (en_backend n)"

lemma fold_put_keys:
  "set (dkeys (fold (\<lambda>(x, c) m. dput (k x) (v x c m) m) ps m)) = set (dkeys m) \<union> k ` set (dkeys ps)"
proof (induction ps arbitrary: m)
  case (Cons p ps)
  obtain x c where "p = (x, c)" by (cases p)
  then show ?case using Cons.IH [of "dput (k x) (v x c m) m"] by (simp only: fold_simps prod.case) auto
qed simp

lemma observe_layers: "hot_layers (heat_observe l ids t) \<subseteq> insert l (hot_layers t)"
proof (cases "ids = []")
  case False
  let ?c = "heat_counts ids"
  have "dkeys (heat_decay (ht_alpha t) l ?c (ht_ema t)) = dkeys (ht_ema t)" unfolding heat_decay_def by (rule fold_assign_keys) simp
  moreover have "set (dkeys (heat_fold_in (ht_alpha t) l ?c (heat_decay (ht_alpha t) l ?c (ht_ema t)))) =
      set (dkeys (heat_decay (ht_alpha t) l ?c (ht_ema t))) \<union> Pair l ` set (dkeys ?c)"
    unfolding heat_fold_in_def by (rule fold_put_keys)
  moreover have "ht_ema (heat_observe l ids t) = heat_fold_in (ht_alpha t) l ?c (heat_decay (ht_alpha t) l ?c (ht_ema t))"
    using False by (simp add: heat_observe_def Let_def)
  ultimately show ?thesis unfolding hot_layers_def by (simp only: image_Un image_image) auto
qed (simp add: heat_observe_def subset_insertI)

lemma observe_all_layers: "hot_layers (en_heat_tracker (observe_all obs n)) \<subseteq> hot_layers (en_heat_tracker n) \<union> fst ` set obs"
proof -
  have "hot_layers (fold (\<lambda>(l, ids). heat_observe l ids) obs t) \<subseteq> hot_layers t \<union> fst ` set obs" for t
  proof (induction obs arbitrary: t)
    case (Cons x obs)
    from Cons.IH [of "heat_observe (fst x) (snd x) t"] observe_layers [of "fst x" "snd x" t] show ?case by (simp add: case_prod_beta) blast
  qed simp
  then show ?thesis by (simp add: observe_all_def)
qed

lemma observe_frame [simp]:
  "node_ok (observe_all obs n) = node_ok n" "en_shard (observe_all obs n) = en_shard n" "en_backend (observe_all obs n) = en_backend n"
  "en_live_experts (observe_all obs n) = en_live_experts n" "en_ownership_view_internal (observe_all obs n) = en_ownership_view_internal n"
  "within_capacity p (observe_all obs n) = within_capacity p n"
  by (simp_all add: observe_all_def node_ok_def within_capacity_def)

lemma tracked_put: "tracked_layers \<lparr>lm_layers = ls, lm_held_ids_per_layer = dput l h d\<rparr> = insert l (set (dkeys d))"
  unfolding tracked_layers_def by (simp only: LoadedModel.select_convs set_dkeys_dput)

lemma attach_frame:
  assumes "migration_attach attach_expert now pms ams l e ts n = Inr n'"
  shows "en_heat_tracker n' = en_heat_tracker n" "tracked_layers (en_backend n) \<subseteq> tracked_layers (en_backend n')"
proof -
  from assms obtain b' where b': "attach_expert (en_backend n) l e ts = Inr b'" and n': "en_backend n' = b'" "en_heat_tracker n' = en_heat_tracker n"
    by (auto simp: migration_attach_def ebind_eq_Inr Let_def ownership_view_put_def)
  from b' have "\<exists>ls h. b' = \<lparr>lm_layers = ls, lm_held_ids_per_layer = dput l h (lm_held_ids_per_layer (en_backend n))\<rparr>"
    by (auto simp: attach_expert_def ebind_eq_Inr Let_def split: if_splits)
  then show "tracked_layers (en_backend n) \<subseteq> tracked_layers (en_backend n')" unfolding n' using tracked_put by (metis subset_insertI tracked_layers_def)
qed (use assms in \<open>auto simp: migration_attach_def ebind_eq_Inr Let_def ownership_view_put_def\<close>)

lemma detach_frame:
  assumes "migration_detach detach_expert cooldown now pms ams l e n = Inr n'"
  shows "hot_layers (en_heat_tracker n') \<subseteq> hot_layers (en_heat_tracker n)" "tracked_layers (en_backend n) \<subseteq> tracked_layers (en_backend n')"
    "view_ok n \<Longrightarrow> view_ok n'" "en_shard n' = en_shard n"
proof -
  from assms obtain b' where b': "detach_expert (en_backend n) l e = Inr b'" and n': "en_backend n' = b'" "en_heat_tracker n' = heat_reset l e (en_heat_tracker n)"
    "en_ownership_view_internal n' = view_put (my_id n, l, e) 1 pms (en_ownership_view_internal n)" "en_shard n' = en_shard n"
    by (auto simp: migration_detach_def ebind_eq_Inr Let_def ownership_view_put_def split: if_splits)
  from b' have "\<exists>ls h. b' = \<lparr>lm_layers = ls, lm_held_ids_per_layer = dput l h (lm_held_ids_per_layer (en_backend n))\<rparr>"
    by (auto simp: detach_expert_def ebind_eq_Inr Let_def split: if_splits option.splits)
  then show "tracked_layers (en_backend n) \<subseteq> tracked_layers (en_backend n')" unfolding n' using tracked_put by (metis subset_insertI tracked_layers_def)
  show "hot_layers (en_heat_tracker n') \<subseteq> hot_layers (en_heat_tracker n)"
    unfolding n' hot_layers_def heat_reset_def using delete_keys [of "(l, e)" "ht_ema (en_heat_tracker n)"] by auto
  show "view_ok n \<Longrightarrow> view_ok n'" unfolding n' by (rule view_put_distinct)
  show "en_shard n' = en_shard n" by (rule n')
qed

section \<open>Any number of scans\<close>

lemma pull_frame:
  "hot_layers (en_heat_tracker (maybe_pull_one attach_expert pull_fn clk p n)) \<subseteq> hot_layers (en_heat_tracker n)"
  "tracked_layers (en_backend n) \<subseteq> tracked_layers (en_backend (maybe_pull_one attach_expert pull_fn clk p n))"
proof -
  consider "maybe_pull_one attach_expert pull_fn clk p n = n"
    | l e ts n1 m where "migration_attach attach_expert (sc_attach_now clk) (sc_attach_put_ms clk) (sc_attach_announce_ms clk) l e ts n = Inr n1"
        "maybe_pull_one attach_expert pull_fn clk p n = n1\<lparr>en_membership := m\<rparr>"
    using pull_one_cases [of attach_expert pull_fn clk p n] by blast
  then show "hot_layers (en_heat_tracker (maybe_pull_one attach_expert pull_fn clk p n)) \<subseteq> hot_layers (en_heat_tracker n)"
    "tracked_layers (en_backend n) \<subseteq> tracked_layers (en_backend (maybe_pull_one attach_expert pull_fn clk p n))"
    using attach_frame [of _ _ _ _ _ _ n] by (cases; simp)+
qed

lemma scan_once_inv:
  fixes pull_fn cooldown clk busy
  assumes inv: "scan_inv p n"
  defines "n' \<equiv> scan_once attach_expert detach_expert pull_fn cooldown clk p busy n"
  shows "scan_inv p n'" "en_shard n' = en_shard n" "loses_safely n n'" "tracked_layers (en_backend n) \<subseteq> tracked_layers (en_backend n')"
proof -
  have ok: "node_ok n" "view_ok n" "within_capacity p n" and hot: "hot_layers (en_heat_tracker n) \<subseteq> tracked_layers (en_backend n)"
    using inv by (simp_all add: scan_inv_def)
  have tr: "\<forall>(l, e, h) \<in> set (heat_report (en_heat_tracker n)). lm_tracks (en_backend n) (l, e)"
  proof (intro ballI, clarify)
    fix l e h assume "(l, e, h) \<in> set (heat_report (en_heat_tracker n))"
    then obtain v where "((l, e), v) \<in> set (ht_ema (en_heat_tracker n))" using heat_report_tracked by blast
    then have "l \<in> hot_layers (en_heat_tracker n)" unfolding hot_layers_def by force
    with hot have "l \<in> tracked_layers (en_backend n)" by blast
    then show "lm_tracks (en_backend n) (l, e)" unfolding lm_tracks_def tracked_layers_def by simp
  qed
  note safe = scan_once_safe [OF ok tr, of pull_fn cooldown clk busy, folded n'_def]
  define n1 where "n1 = maybe_pull_one attach_expert pull_fn clk p n"
  note p1 = pull_one_safe [OF ok tr n1_def [symmetric]]
  have one: "view_ok n1" "en_shard n1 = en_shard n" "hot_layers (en_heat_tracker n1) \<subseteq> hot_layers (en_heat_tracker n)" "tracked_layers (en_backend n) \<subseteq> tracked_layers (en_backend n1)"
    using p1 pull_frame [where pull_fn = pull_fn and clk = clk and p = p and n = n] unfolding n1_def by simp_all
  have "n' = n \<or> n' = n1 \<or> (\<exists>l e now pms ams. migration_detach detach_expert cooldown now pms ams l e n1 = Inr n')"
    unfolding n'_def scan_once_def maybe_evict_one_def n1_def [symmetric] using evict_from_cases [of detach_expert cooldown clk p _ n1] by auto
  then have "view_ok n' \<and> en_shard n' = en_shard n \<and> hot_layers (en_heat_tracker n') \<subseteq> hot_layers (en_heat_tracker n) \<and>
      tracked_layers (en_backend n) \<subseteq> tracked_layers (en_backend n')"
    using one ok(2) detach_frame [of cooldown _ _ _ _ _ n1 n'] by (metis order_refl order_trans)
  with safe hot show "scan_inv p n'" "en_shard n' = en_shard n" "loses_safely n n'" "tracked_layers (en_backend n) \<subseteq> tracked_layers (en_backend n')"
    unfolding scan_inv_def by blast+
qed

text \<open>C17: The scanner is safe for as long as it runs.  From a consistent node within its capacity, whatever the
  router observes, the peers send and the clock says, the node stays consistent and within its capacity, and
  an expert of its boot configuration that it hosts is never given up.  The layers with split experts are
  those the backend was loaded with.\<close>

theorem scanner_run_safe:
  assumes "scan_inv p n" and "\<forall>t \<in> set ticks. fst ` set (tk_observed t) \<subseteq> tracked_layers (en_backend n)"
  shows "scan_inv p (snd (run_loop attach_expert detach_expert cooldown p ticks r n)) \<and>
    (\<forall>l e. e \<in> set (dget_default (sp_moe_experts (en_shard n)) l []) \<longrightarrow> e \<in> set (live_at n l) \<longrightarrow>
       e \<in> set (live_at (snd (run_loop attach_expert detach_expert cooldown p ticks r n)) l))"
  using assms
proof (induction ticks arbitrary: r n)
  case (Cons t ts)
  let ?n1 = "observe_all (tk_observed t) n"
  let ?n2 = "scan_once attach_expert detach_expert (tk_pull t) cooldown (tk_clock t) p (tk_busy t) ?n1"
  have "fst ` set (tk_observed t) \<subseteq> tracked_layers (en_backend n)" using Cons.prems(2) by simp
  with observe_all_layers [of "tk_observed t" n] Cons.prems(1) have inv1: "scan_inv p ?n1" unfolding scan_inv_def observe_frame by blast
  note s2 = scan_once_inv [OF inv1, of "tk_pull t" cooldown "tk_clock t" "tk_busy t"]
  have "\<forall>u \<in> set ts. fst ` set (tk_observed u) \<subseteq> tracked_layers (en_backend ?n2)" using Cons.prems(2) s2(4) unfolding observe_frame by (meson list.set_intros(2) subset_trans)
  note IH = Cons.IH [OF s2(1) this]
  have keep: "e \<in> set (live_at ?n2 l)" if "e \<in> set (dget_default (sp_moe_experts (en_shard n)) l [])" "e \<in> set (live_at n l)" for l e
    using s2(3) that unfolding loses_safely_def by auto
  show ?case using Cons.prems(1) inv1 IH keep s2(2) by (simp add: case_prod_beta' Let_def)
qed simp

lemma uniform_quarter: "- (1 / 4) \<le> fst (uniform (- (1 / 4)) (1 / 4) r) \<and> fst (uniform (- (1 / 4)) (1 / 4) r) \<le> 1 / 4"
proof -
  obtain u r' where u: "rng_random r = (u, r')" by (cases "rng_random r")
  have u01: "0 \<le> u" "u \<le> 1"
    using u by (auto simp: rng_random_def divide_le_eq split: list.splits)
  have half: "fsub (1 / 4) (- (1 / 4)) = 1 / 2" "fl64 (- (1 / 4)) = - (1 / 4)" "fl64 (1 / 4) = 1 / 4" "fl64 (1 / 2) = 1 / 2" "fl64 0 = 0" by code_simp+
  have m: "0 \<le> fmul (1 / 2) u" "fmul (1 / 2) u \<le> 1 / 2"
    using u01 fl64.fl_mono [of 0 "1 / 2 * u"] fl64.fl_mono [of "1 / 2 * u" "1 / 2"] half by (simp_all add: fmul_def)
  have "- (1 / 4) \<le> fadd (- (1 / 4)) (fmul (1 / 2) u)" "fadd (- (1 / 4)) (fmul (1 / 2) u) \<le> 1 / 4"
    using m fl64.fl_mono [of "- (1 / 4)" "- (1 / 4) + fmul (1 / 2) u"] fl64.fl_mono [of "- (1 / 4) + fmul (1 / 2) u" "1 / 4"] half by (simp_all add: fadd_def)
  then show ?thesis by (simp add: uniform_def u half)
qed

text \<open>The interval between scans.  With a non-negative interval, every wait is between three quarters and
  five quarters of it, rounded as the multiplication rounds.\<close>

theorem scan_delay_bounds:
  assumes "0 \<le> mp_scan_interval_s p"
  shows "fmul (mp_scan_interval_s p) (3 / 4) \<le> fst (scan_delay p r) \<and> fst (scan_delay p r) \<le> fmul (mp_scan_interval_s p) (5 / 4)"
proof -
  let ?u = "fst (uniform (- (1 / 4)) (1 / 4) r)"
  have q: "fl64 (3 / 4) = 3 / 4" "fl64 (5 / 4) = 5 / 4" by code_simp+
  have "3 / 4 \<le> fadd 1 ?u" "fadd 1 ?u \<le> 5 / 4"
    using uniform_quarter [of r] fl64.fl_mono [of "3 / 4" "1 + ?u"] fl64.fl_mono [of "1 + ?u" "5 / 4"] q by (simp_all add: fadd_def)
  with assms have "mp_scan_interval_s p * (3 / 4) \<le> mp_scan_interval_s p * fadd 1 ?u" "mp_scan_interval_s p * fadd 1 ?u \<le> mp_scan_interval_s p * (5 / 4)"
    by (intro mult_left_mono; simp)+
  then show ?thesis unfolding fmul_def by (simp add: scan_delay_def case_prod_beta' Let_def fmul_def fl64.fl_mono del: times_divide_eq_right)
qed

theorem scanner_run_safe_witness:
  "4 \<in> set (live_at (snd (run_loop attach_expert detach_expert 30 demo_policy
     [\<lparr>tk_stopped_before = False, tk_stopped_after = False, tk_observed = [(0, [3, 3])], tk_clock = demo_clock, tk_busy = False,
       tk_pull = (\<lambda>s l e. Inr [1, 2, 3, 4, 5, 6, 7, 8, 9])\<rparr>] [7] demo_hot_node)) 0)"
proof -
  have live: "en_live_experts demo_hot_node = [(0, [4, 7, 9])]" "en_backend demo_hot_node = demo_lm" by code_simp+
  have t: "tracked_layers demo_lm = {0}" "hot_layers (en_heat_tracker demo_hot_node) = {0}"
    by (auto simp: tracked_layers_def hot_layers_def demo_lm_def demo_hot_node_def)
  have cap: "within_capacity demo_policy demo_hot_node"
    by (auto simp: within_capacity_def live demo_policy_def dget_default_def split: option.split if_splits)
  have "node_ok demo_hot_node" "view_ok demo_hot_node" using demo_node_ok by (simp_all add: node_ok_def demo_hot_node_def)
  then have inv: "scan_inv demo_policy demo_hot_node" using cap t by (simp add: scan_inv_def live)
  have "4 \<in> set (dget_default (sp_moe_experts (en_shard demo_hot_node)) 0 [])" "4 \<in> set (live_at demo_hot_node 0)" by code_simp+
  with scanner_run_safe [OF inv, of "[\<lparr>tk_stopped_before = False, tk_stopped_after = False, tk_observed = [(0, [3, 3])], tk_clock = demo_clock, tk_busy = False,
       tk_pull = (\<lambda>s l e. Inr [1, 2, 3, 4, 5, 6, 7, 8, 9])\<rparr>]" 30 "[7]"] show ?thesis by (simp add: live(2) t)
qed

theorem scan_delay_bounds_witness:
  "15 / 2 \<le> fst (scan_delay demo_policy [3]) \<and> fst (scan_delay demo_policy [3]) \<le> 25 / 2"
proof -
  have i: "mp_scan_interval_s demo_policy = 10" by (simp add: demo_policy_def)
  have "fmul 10 (3 / 4) = 15 / 2" "fmul 10 (5 / 4) = 25 / 2" by code_simp+
  with scan_delay_bounds [of demo_policy "[3]"] show ?thesis by (simp add: i)
qed

end
