(* ===== verification/Lifecycle.thy ===== *)
theory Lifecycle
  imports Startup Udp Scan_Loop
begin

text \<open>
  The life of a node's process: the constructor of \<^verbatim>\<open>Node\<close> with the threads it starts, \<^verbatim>\<open>serve_forever\<close>,
  \<^verbatim>\<open>shutdown\<close>, and the start and stop of \<^verbatim>\<open>MigrationScanner\<close>.  A thread is whether it has been started and
  whether it has been told to stop; the accept loop runs over a list of turns, each of which says whether
  \<^verbatim>\<open>shutdown\<close> was called before it and what \<^verbatim>\<open>accept\<close> does.
\<close>

declare map_of_eq_Some_iff [simp del] Some_eq_map_of_iff [simp del]

section \<open>The scanner\<close>

text \<open>What the scanner reads of the node (heat, live experts, owners, loads) it reads in the node, see \<^verbatim>\<open>scan_once\<close>.\<close>

record Scanner =
  sc_self_shard_id :: string
  sc_policy :: MigrationPolicy
  sc_addresses :: "(string, NodeAddress) dict"
  sc_bootstrap_held :: "(int, int list) dict"
  sc_stopping :: bool
  sc_thread :: bool

definition scanner_init :: "string \<Rightarrow> MigrationPolicy \<Rightarrow> (string, NodeAddress) dict \<Rightarrow> (int, int list) dict \<Rightarrow> Scanner" where
  "scanner_init self_shard_id policy addresses bootstrap_held =
     \<lparr>sc_self_shard_id = self_shard_id, sc_policy = policy, sc_addresses = addresses, sc_bootstrap_held = bootstrap_held,
      sc_stopping = False, sc_thread = False\<rparr>"

definition scanner_start :: "Scanner \<Rightarrow> Scanner" where
  "scanner_start sc = (if sc_thread sc then sc else sc\<lparr>sc_thread := True\<rparr>)"

definition scanner_stop :: "Scanner \<Rightarrow> Scanner" where
  "scanner_stop sc = sc\<lparr>sc_stopping := True\<rparr>"

section \<open>What the constructor builds\<close>

definition build_scanner :: "ShardMap \<Rightarrow> ShardSpec \<Rightarrow> MigrationPolicy \<Rightarrow> Scanner" where
  "build_scanner m shard policy =
     scanner_init (sp_shard_id shard) policy (peer_addresses m (sp_shard_id shard)) (map (\<lambda>(lyr, ids). (lyr, remdups ids)) (sp_moe_experts shard))"

definition build_membership_runner :: "ShardMap \<Rightarrow> ShardSpec \<Rightarrow> rng \<Rightarrow> int \<Rightarrow> unit MembershipRunner" where
  "build_membership_runner m shard r wall_s =
     (let self_spec = \<lparr>ps_shard_id = sp_shard_id shard, ps_host = na_host (sp_address shard), ps_udp_port = udp_port shard\<rparr>;
          peer_specs = membership_peers m (sp_shard_id shard);
          runner = runner_init self_spec peer_specs default_config r (sm_model_id m) wall_s
      in register_ownership_observer () runner)"

text \<open>The runner with its transport, which binds the port, subscribed and started.\<close>

definition start_membership :: "(int \<Rightarrow> bool) \<Rightarrow> ShardMap \<Rightarrow> ShardSpec \<Rightarrow> rng \<Rightarrow> int \<Rightarrow> (RunnerThread \<times> unit MembershipRunner) result" where
  "start_membership port_free m shard r wall_s =
     (if \<not> port_free (udp_port shard) then Inl OSError
      else ebind (runner_start \<lparr>rt_transport = udp_init (udp_port shard), rt_stopping = False, rt_thread_started = False\<rparr>) (\<lambda>rt.
        Inr (rt, subscribe () (build_membership_runner m shard r wall_s))))"

definition build_expert_orchestrator :: "ShardMap \<Rightarrow> ShardSpec \<Rightarrow> int list \<Rightarrow> int \<times> int list \<Rightarrow> ('t, 'w, 'c, 'm) Backend \<Rightarrow> bool \<Rightarrow> (bytes \<Rightarrow> bytes) \<Rightarrow> (nat \<Rightarrow> py_float) \<Rightarrow>
    't TensorOps \<Rightarrow> ('t \<Rightarrow> nat \<Rightarrow> 't result) \<Rightarrow> (int \<Rightarrow> NodeAddress \<Rightarrow> (wire_frame \<Rightarrow> wire_frame result) result) \<Rightarrow> ('t, 'w, 'c, 'm) OrchConfig" where
  "build_expert_orchestrator m shard split_layers retry backend mx_available blake2b clock ops pick connect =
     \<lparr>oc_self_shard_id = sp_shard_id shard, oc_owners = orchestrator_owners m split_layers, oc_retry_max_attempts = fst retry,
      oc_retry_backoff_ms = snd retry, oc_backend = backend, oc_heat_observer = True, oc_mx_available = mx_available, oc_blake2b = blake2b,
      oc_to_bytes = to_bytes ops, oc_clock = clock, oc_rpc = (\<lambda>k. tcp_peer_call ops pick (peer_addresses m (sp_shard_id shard)) (connect k))\<rparr>"

text \<open>The process: of the orchestrator, whether its pool of threads takes work.\<close>

record NodeProcess =
  np_membership :: "(RunnerThread \<times> unit MembershipRunner) option"
  np_scanner :: "Scanner option"
  np_orchestrator :: "bool option"
  np_stopping :: bool
  np_server :: bool
  np_outbound :: bool

definition fresh_process :: NodeProcess where
  "fresh_process = \<lparr>np_membership = None, np_scanner = None, np_orchestrator = None, np_stopping = False, np_server = False, np_outbound = False\<rparr>"

text \<open>\<^verbatim>\<open>Node.__init__\<close>: the process as it is when the constructor returns or raises, and what it has decided;
  \<^verbatim>\<open>load\<close> is what loading the model does.\<close>

definition construct_node :: "(string \<Rightarrow> py_float result) \<Rightarrow> environ \<Rightarrow> Platform \<Rightarrow> (int \<Rightarrow> bool) \<Rightarrow> rng \<Rightarrow> int \<Rightarrow> (model_source \<Rightarrow> unit result) \<Rightarrow> bool \<Rightarrow> bool \<Rightarrow>
    ShardMap \<Rightarrow> ShardSpec \<Rightarrow> int \<Rightarrow> NodeProcess \<times> NodeSetup result" where
  "construct_node py_float_of env pf port_free r wall_s load backend_given model_given m shard total_layers =
     (if dynamic_migration_enabled env \<and> \<not> partial_load_enabled env then (fresh_process, Inl ValueError)
      else case resolve_downstream shard m total_layers of
        Inl e \<Rightarrow> (fresh_process, Inl e)
      | Inr downstream \<Rightarrow>
          (case if gossip_enabled env then ebind (start_membership port_free m shard r wall_s) (\<lambda>x. Inr (Some x)) else Inr None of
             Inl e \<Rightarrow> (fresh_process, Inl e)
           | Inr membership \<Rightarrow>
               (let p = fresh_process\<lparr>np_membership := membership\<rparr> in
                case ebind (node_backend env pf backend_given model_given m shard) (\<lambda>source. ebind (load source) (\<lambda>_.
                       node_setup py_float_of env pf backend_given model_given m shard total_layers)) of
                  Inl e \<Rightarrow> (p, Inl e)
                | Inr su \<Rightarrow>
                    (p\<lparr>np_scanner := map_option (build_scanner m shard) (su_policy su),
                       np_orchestrator := (if su_split_layers su = [] then None else Some True)\<rparr>, Inr su))))"

section \<open>Serving and shutting down\<close>

definition shutdown :: "NodeProcess \<Rightarrow> NodeProcess" where
  "shutdown p = p\<lparr>np_stopping := True, np_membership := map_option (\<lambda>(rt, r). (runner_stop rt, r)) (np_membership p),
     np_scanner := map_option scanner_stop (np_scanner p), np_orchestrator := map_option (\<lambda>_. False) (np_orchestrator p)\<rparr>"

datatype 'c accept_event = Accepted 'c | AcceptTimeout | AcceptError py_exn

datatype serve_outcome = Serving | Stopped | Failed py_exn

fun accept_loop :: "(bool \<times> 'c accept_event) list \<Rightarrow> NodeProcess \<Rightarrow> 'c list \<times> serve_outcome \<times> NodeProcess" where
  "accept_loop [] p = ([], Serving, p)"
| "accept_loop ((shutdown_called, ev) # turns) p =
     (let p' = (if shutdown_called then shutdown p else p) in
      if np_stopping p' then ([], Stopped, p')
      else case ev of
        AcceptTimeout \<Rightarrow> accept_loop turns p'
      | AcceptError e \<Rightarrow> ([], Failed e, p')
      | Accepted conn \<Rightarrow> (case accept_loop turns p' of (conns, out, q) \<Rightarrow> (conn # conns, out, q)))"

text \<open>The connections handed to handler threads, how the loop ended, and the process then.\<close>

definition serve_forever :: "bool \<Rightarrow> (bool \<times> 'c accept_event) list \<Rightarrow> NodeProcess \<Rightarrow> 'c list \<times> serve_outcome \<times> NodeProcess" where
  "serve_forever port_free turns p =
     (let p1 = p\<lparr>np_scanner := map_option scanner_start (np_scanner p)\<rparr> in
      if \<not> port_free then ([], Failed OSError, p1)
      else case accept_loop turns (p1\<lparr>np_server := True\<rparr>) of (conns, out, q) \<Rightarrow>
        (conns, out, if out = Serving then q else q\<lparr>np_server := False, np_outbound := False\<rparr>))"

section \<open>What the constructor leaves\<close>

lemma started_runner:
  assumes "start_membership port_free m shard r wall_s = Inr (rt, rn)"
  shows "ut_port (rt_transport rt) = udp_port shard" "rt_thread_started rt" "ut_thread_started (rt_transport rt)" "ut_sock_open (rt_transport rt)"
    "\<not> rt_stopping rt" "rn = subscribe () (build_membership_runner m shard r wall_s)"
  using assms by (auto simp: start_membership_def runner_start_def udp_start_def udp_init_def ebind_eq_Inr split: if_splits)

text \<open>Gossip runs during the load.  Whether the model loads or not, a node with gossip has its runner and its transport
  started by then: what a failed load leaves is a process that still takes part in the membership.\<close>

theorem gossip_runs_during_load:
  assumes "gossip_enabled env" and "\<not> dynamic_migration_enabled env" and "resolve_downstream shard m total_layers = Inr d" and "port_free (udp_port shard)"
    and "node_backend env pf bg mg m shard = Inr source" and "load source = Inl e"
  shows "\<exists>p rt rn. construct_node py_float_of env pf port_free r wall_s load bg mg m shard total_layers = (p, Inl e) \<and> np_membership p = Some (rt, rn) \<and>
    rt_thread_started rt \<and> ut_sock_open (rt_transport rt) \<and> \<not> rt_stopping rt"
  using assms by (auto simp: construct_node_def start_membership_def runner_start_def udp_start_def udp_init_def)

text \<open>Everyone is reached where it listens.  In a configuration with distinct shards, the runner of a node has for
  every shard, itself included, the host of the configuration and the port that the shard's own transport binds.\<close>

theorem runners_agree_on_addresses:
  assumes wf: "map_wf m" and me: "lookup m (sp_shard_id shard) = Inr shard" and sid: "lookup m sid = Inr spec"
    and rt: "start_membership port_free m spec r' wall_s' = Inr (rt, rn)"
  shows "dget (rn_addr_by_id (build_membership_runner m shard r wall_s)) sid = Some (na_host (sp_address spec), ut_port (rt_transport rt))"
proof -
  let ?f = "\<lambda>(s, sp). \<lparr>ps_shard_id = s, ps_host = na_host (sp_address sp), ps_udp_port = udp_port sp\<rparr>"
  have fold: "dget (fold (\<lambda>p. dput (ps_shard_id p) (ps_host p, ps_udp_port p)) (map ?f es) d) s =
      (case dget es s of Some sp \<Rightarrow> Some (na_host (sp_address sp), udp_port sp) | None \<Rightarrow> dget d s)" if "distinct (dkeys es)" for es d s
    using that
  proof (induction es arbitrary: d)
    case (Cons e es)
    obtain s' sp where e: "e = (s', sp)" by (cases e)
    have "dget es s' = None" using Cons.prems by (simp add: e map_of_eq_None_iff)
    then show ?case using Cons.prems by (auto simp: e Cons.IH update_Some_unfold update_conv split: option.split)
  qed simp
  let ?es = "filter (\<lambda>(s, _). s \<noteq> sp_shard_id shard) (sm_entries m)"
  have des: "distinct (dkeys ?es)" using wf by (simp add: map_wf_def distinct_map_filter)
  have "dget (filter (\<lambda>(s, _). s \<noteq> x) es) s = (if s = x then None else dget es s)" for es :: "(string, ShardSpec) dict" and x s by (induction es) auto
  note get = this [of "sp_shard_id shard" "sm_entries m"]
  show ?thesis
    using sid me unfolding lookup_def dindex_eq_Inr
    by (auto simp: build_membership_runner_def Let_def register_ownership_observer_def runner_init_def membership_peers_def fold [OF des] get started_runner(1) [OF rt])
qed

section \<open>The owners an orchestrator is built with\<close>

text \<open>With one split layer the orchestrator's owners are those of the layer.\<close>

theorem owners_of_single_layer:
  assumes "dget (sm_entries m) sid = Some spec"
  shows "dget (oc_owners (build_expert_orchestrator m shard [l] retry bk mx blake2b clock ops pick connect)) sid = Some (remdups (dget_default (sp_moe_experts spec) l []))"
proof -
  have "dget (map (\<lambda>(s, sp). (s, f sp)) es) sid = map_option f (dget es sid)" for f :: "ShardSpec \<Rightarrow> int list" and es
    by (induction es) auto
  with assms show ?thesis by (simp add: build_expert_orchestrator_def orchestrator_owners_def)
qed

text \<open>With two they are mixed.  A shard that has an expert on one split layer only is listed as its owner whatever
  layer is being run, so a call for the other layer can be routed to it.\<close>

theorem owners_mix_split_layers:
  assumes "dget (sm_entries m) sid = Some spec" and "e \<in> set (dget_default (sp_moe_experts spec) l2 [])" and "e \<notin> set (dget_default (sp_moe_experts spec) l1 [])"
  shows "\<exists>ids. dget (oc_owners (build_expert_orchestrator m shard [l1, l2] retry bk mx blake2b clock ops pick connect)) sid = Some ids \<and> e \<in> set ids"
proof -
  have "dget (map (\<lambda>(s, sp). (s, f sp)) es) sid = map_option f (dget es sid)" for f :: "ShardSpec \<Rightarrow> int list" and es
    by (induction es) auto
  with assms show ?thesis by (simp add: build_expert_orchestrator_def orchestrator_owners_def)
qed

section \<open>Serving until shutdown\<close>

text \<open>Every thread of the process has been told to stop, and the UDP socket and the pool are closed.\<close>

definition all_told :: "NodeProcess \<Rightarrow> bool" where
  "all_told p \<longleftrightarrow> np_stopping p \<and> (\<forall>rt rn. np_membership p = Some (rt, rn) \<longrightarrow> rt_stopping rt \<and> ut_stopping (rt_transport rt) \<and> \<not> ut_sock_open (rt_transport rt)) \<and>
     (\<forall>sc. np_scanner p = Some sc \<longrightarrow> sc_stopping sc) \<and> np_orchestrator p \<noteq> Some True"

definition accepted :: "(bool \<times> 'c accept_event) list \<Rightarrow> 'c list" where
  "accepted turns = concat (map (\<lambda>(_, ev). case ev of Accepted conn \<Rightarrow> [conn] | _ \<Rightarrow> []) turns)"

text \<open>A turn that lets the loop go on.\<close>

definition quiet_turn :: "bool \<times> 'c accept_event \<Rightarrow> bool" where
  "quiet_turn t \<longleftrightarrow> \<not> fst t \<and> (\<forall>e. snd t \<noteq> AcceptError e)"

lemma shutdown_told: "all_told (shutdown p)"
  by (auto simp: all_told_def shutdown_def runner_stop_def udp_stop_def scanner_stop_def)

lemma shutdown_idem: "shutdown (shutdown p) = shutdown p"
  by (cases "np_membership p"; cases "np_scanner p"; cases "np_orchestrator p") (auto simp: shutdown_def runner_stop_def udp_stop_def scanner_stop_def)

lemma shutdown_sockets: "shutdown (p\<lparr>np_server := a, np_outbound := b\<rparr>) = (shutdown p)\<lparr>np_server := a, np_outbound := b\<rparr>"
  by (simp add: shutdown_def)

lemma accept_loop_serves:
  assumes "\<not> np_stopping p"
  shows "accept_loop turns p =
    (accepted (takeWhile quiet_turn turns),
     case dropWhile quiet_turn turns of [] \<Rightarrow> (Serving, p) | (True, _) # _ \<Rightarrow> (Stopped, shutdown p) | (False, AcceptError e) # _ \<Rightarrow> (Failed e, p) | _ \<Rightarrow> (Serving, p))"
proof (induction turns)
  case (Cons t turns)
  obtain sd ev where t: "t = (sd, ev)" by (cases t)
  show ?case using assms Cons.IH by (cases sd; cases ev) (auto simp: t quiet_turn_def accepted_def shutdown_def split: list.splits)
qed (simp add: accepted_def)

lemma stopped_serves_nothing: "np_stopping q \<Longrightarrow> fst (serve_forever True ts q) = []"
  by (cases ts) (auto simp: serve_forever_def Let_def shutdown_def)




end
