(* ===== verification/Spec2Isabelle.thy ===== *)
theory Spec2Isabelle
  imports Bootstrap Pt_Load Acceptance Concurrent Fixture Lifecycle
begin

text \<open>
  A verification of \<^verbatim>\<open>model_shard\<close>, a program that runs one large language model on several
  machines.  Each machine is a node that hosts a range of layers (a shard); a request visits the nodes in a
  ring, and single layers can be split further, their experts spread over nodes and moved between them.

  \<^bold>\<open>The parts of the program and how they meet.\<close>  A configuration file names the shards.  A node starts from
  it, loads its part of the model with one of two backends (MLX or PyTorch) and joins the others by a SWIM
  protocol over UDP, which carries membership, load, heat and ownership of experts.  A client sends its
  prompt to the head over a framed TCP stream.  The head embeds it, runs its layers and sends the activation
  on; the tail samples a token and sends it to the head, whose decode loop returns it to the client and
  starts the next pass.  A layer whose experts are spread is run by an orchestrator that asks the owners of the
  selected experts and retries with others when they fail.  A scanner pulls hot experts from peers and drops
  cold ones.  Optionally every step is recorded in a chain of hashes that each node validates.

  \<^bold>\<open>Theories and sources.\<close>  Sources are under \<^verbatim>\<open>src/src/model_shard\<close> unless stated otherwise.
  \<^item> \<^verbatim>\<open>Prelude\<close>: exceptions as values (\<^verbatim>\<open>result\<close>), Python's dictionaries as association lists,
    indexing, decimal printing; \<^verbatim>\<open>Floats\<close>: binary64 rounding as a locale and its interpretation;
    \<^verbatim>\<open>Py_Random\<close>: the random generator as a list of draws; \<^verbatim>\<open>Effects\<close>: programs with state and
    exceptions, with pre- and postconditions; \<^verbatim>\<open>Convergence\<close>: the locales for last-writer-wins merging
    and for a store of experts.
  \<^item> \<^verbatim>\<open>Transport\<close>: \<^verbatim>\<open>transport.py\<close> and \<^verbatim>\<open>envelope.py\<close>.
  \<^item> \<^verbatim>\<open>Records\<close>, \<^verbatim>\<open>Swim\<close>: \<^verbatim>\<open>membership/records.py\<close>, \<^verbatim>\<open>config.py\<close> and
    \<^verbatim>\<open>state.py\<close>, method by method; \<^verbatim>\<open>Swim_Inv\<close> (the invariant and that every operation keeps it),
    \<^verbatim>\<open>Swim_Gossip\<close> (merging), \<^verbatim>\<open>Swim_Detect\<close> (suspicion and refutation), \<^verbatim>\<open>Swim_Runs\<close> (runs of
    ticks and messages as an inductive relation).
  \<^item> \<^verbatim>\<open>Messages\<close>: \<^verbatim>\<open>membership/messages.py\<close>; \<^verbatim>\<open>Runner\<close>: \<^verbatim>\<open>membership/runner.py\<close> and the
    sending half of \<^verbatim>\<open>membership/transport.py\<close>; \<^verbatim>\<open>Udp\<close>: its receiving half and the start and stop of
    the threads; \<^verbatim>\<open>Bootstrap\<close>: \<^verbatim>\<open>membership/bootstrap.py\<close>.
  \<^item> \<^verbatim>\<open>Load\<close>: \<^verbatim>\<open>load.py\<close>; \<^verbatim>\<open>Heat\<close>: \<^verbatim>\<open>heat.py\<close>; \<^verbatim>\<open>Shard_Map\<close>: \<^verbatim>\<open>shard_map.py\<close>,
    \<^verbatim>\<open>shard.py\<close> and \<^verbatim>\<open>_resolve_downstream\<close>; \<^verbatim>\<open>Provenance\<close>: \<^verbatim>\<open>provenance.py\<close> and
    \<^verbatim>\<open>request.py\<close>.
  \<^item> \<^verbatim>\<open>Partial_Load\<close>: \<^verbatim>\<open>partial_load.py\<close> and the hot swap of \<^verbatim>\<open>pt_partial_load.py\<close>, both as
    interpretations of one store locale; \<^verbatim>\<open>Pt_Load\<close>: the streaming PyTorch loader; \<^verbatim>\<open>Moe_Routing\<close>:
    \<^verbatim>\<open>moe.py\<close>.
  \<^item> \<^verbatim>\<open>Expert_Node\<close>: the part of \<^verbatim>\<open>node.py\<close> that owns experts and serves them; \<^verbatim>\<open>Migration\<close> and
    \<^verbatim>\<open>Scan_Loop\<close>: \<^verbatim>\<open>migration.py\<close>.
  \<^item> \<^verbatim>\<open>Backends\<close>: \<^verbatim>\<open>backends/\<close>, the building blocks of \<^verbatim>\<open>moe.py\<close> and \<^verbatim>\<open>pt_moe.py\<close>;
    \<^verbatim>\<open>Orchestrator\<close>, \<^verbatim>\<open>Orch_Facts\<close>, \<^verbatim>\<open>Split_Layer\<close>: \<^verbatim>\<open>expert_orchestrator.py\<close> and what its
    fan-out guarantees; \<^verbatim>\<open>Cluster\<close>: the orchestrator against the expert handlers of its peers.
  \<^item> \<^verbatim>\<open>Engine\<close>: \<^verbatim>\<open>mlx_engine.py\<close> and \<^verbatim>\<open>reference.py\<close>; \<^verbatim>\<open>Pt_Engine\<close>:
    \<^verbatim>\<open>pytorch_engine.py\<close>; \<^verbatim>\<open>Top_K\<close>: \<^verbatim>\<open>top_k_ids_and_weights\<close> of both; \<^verbatim>\<open>Backend_Objects\<close>: the objects of
    \<^verbatim>\<open>backends/\<close> from construction through loading to the movement of experts.
  \<^item> \<^verbatim>\<open>Node\<close>: the request plane of \<^verbatim>\<open>node.py\<close>; \<^verbatim>\<open>Node_Facts\<close>: one node; \<^verbatim>\<open>Ring_Steps\<close>,
    \<^verbatim>\<open>Pipeline\<close>: the ring of nodes; \<^verbatim>\<open>Client\<close>: \<^verbatim>\<open>client.py\<close>; \<^verbatim>\<open>Bit_Exact\<close>: the ring against the
    oracle; \<^verbatim>\<open>Demo_Ring\<close>: a small cluster on which the statements are tried.
  \<^item> \<^verbatim>\<open>Service\<close>: a cluster that serves one request after another, and a scheduler for it;
    \<^verbatim>\<open>Acceptance\<close>: \<^verbatim>\<open>src/scripts/run_client.py\<close> and \<^verbatim>\<open>src/scripts/run_reference.py\<close>, whose
    manifests the tests of the repository compare.
  \<^item> \<^verbatim>\<open>Concurrent\<close>: the same cluster with requests that overlap.
  \<^item> \<^verbatim>\<open>Fixture\<close>: \<^verbatim>\<open>src/scripts/generate_tier1_comparison_fixture.py\<close> and
    \<^verbatim>\<open>src/scripts/spark_smoke_test.py\<close>.
  \<^item> \<^verbatim>\<open>Startup\<close>: the environment flags and the constructor of \<^verbatim>\<open>node.py\<close>,
    \<^verbatim>\<open>backends/__init__.py\<close> and \<^verbatim>\<open>src/scripts/run_node.py\<close>; \<^verbatim>\<open>Lifecycle\<close>: what the constructor
    builds and starts, \<^verbatim>\<open>serve_forever\<close>, \<^verbatim>\<open>shutdown\<close>, and the thread of the scanner.

  \<^bold>\<open>How the state corresponds.\<close>  A class with state is a record with a field per attribute
  (\<^verbatim>\<open>MembershipState\<close>, \<^verbatim>\<open>MembershipRunner\<close>, \<^verbatim>\<open>ExpertNode\<close> and \<^verbatim>\<open>PNode\<close> for the two halves of
  \<^verbatim>\<open>Node\<close>, \<^verbatim>\<open>Orch\<close>), a method is a function from the state to the result and the new state, and every
  raise is a value of \<^verbatim>\<open>py_exn\<close>.  Machine integers appear where the wire has them (frame lengths, protobuf
  fields).  Objects shared by reference are in a list and referred to by position (the request states of the
  head).  Tensors, layers, the hash function, the protobuf codec, the weight files and the installed packages
  are parameters; what a theorem needs of them is a named hypothesis, shown to hold of a concrete instance by
  the theorem's witness.

  \<^bold>\<open>What the lemmas show.\<close>
  \<^item> The pipeline: whatever the order of deliveries, the client gets the tokens that the model generates in one
    process, after exactly so many steps, and nothing of the request stays behind (\<^verbatim>\<open>Pipeline\<close>,
    \<^verbatim>\<open>Bit_Exact\<close>, \<^verbatim>\<open>Client\<close>); so the next request finds the nodes ready, and the client script writes
    the manifest of the reference script (\<^verbatim>\<open>Service\<close>, \<^verbatim>\<open>Acceptance\<close>).  Requests do not interfere: each step of
    the cluster is a turn of one request that touches nothing of the others, so any interleaving of any number of them
    gives every client its own tokens (\<^verbatim>\<open>Concurrent\<close>).
  \<^item> Split layers: a range with layers spread over nodes returns what it returns in one process, through
    failures of peers, and the fan-out succeeds while an owner is left for each expert (\<^verbatim>\<open>Split_Layer\<close>,
    \<^verbatim>\<open>Cluster\<close>, \<^verbatim>\<open>Engine\<close>).
  \<^item> Membership: no reachable state raises, beliefs merge to a maximum whatever the order, silent peers are
    declared dead, false claims are refuted, observers see every transition, no datagram stops the receiver.
  \<^item> Migration: a scanner that runs for any time keeps the node consistent and within capacity.
  \<^item> Provenance: validation is equivalent to its specification, and tampering needs a collision.
  \<^item> Errors: what a node does when peers are lost, streams fail or chains are rejected, on every way out.
  \<^item> Round trips of every wire form; start-up of a configured cluster; bounds on datagrams and delays.
  \<^item> Scripts and processes: the recorded fixture agrees with greedy generation (\<^verbatim>\<open>Top_K\<close>, \<^verbatim>\<open>Fixture\<close>); a node
    serves until it is shut down and then stops everything (\<^verbatim>\<open>Lifecycle\<close>).
  Statements that record a defect of the code are theorems as well, beside the components they concern.

  \<^bold>\<open>Bounds and fuel.\<close>  No definition of the program uses fuel; the scheduler of \<^verbatim>\<open>Service\<close>, which is not
  part of it, has as much as a run has steps, and is proved to come to rest.  Loops are structural recursions over what they consume: the
  bytes or segments of a stream, the messages of an inbox, the attempts of a fan-out (the theorem on its success
  asks for as many attempts as the configuration allows), the ticks of a scanner.  The ring is an inductive
  step relation; its termination is proved with the exact number of steps.

  \<^bold>\<open>Not modelled.\<close>  Threads and sockets: a handler is one atomic step, locks have no model, of a thread only
  whether it is started and told to stop, and of a stream only what is written, read, or fails.  Handlers of different
  requests are interleaved in every way, but a handler that runs while another one of the same node is half way is
  outside the model.  Tensor arithmetic is a parameter, and with it the numerical agreement of the two backends.  The
  generated protobuf code, the inside of the libraries that load models, and the script that converts weights with one
  call of a package are left out.  Log messages and the text of errors are left out.  In the theorems on the whole ring,
  provenance is off, no layer is split and no write fails; these cases are covered node by node.  In \<^verbatim>\<open>Service\<close> and
  \<^verbatim>\<open>Acceptance\<close> a request arrives when the one before it has come to rest, as the scripts submit them.
\<close>

end
